(* ===== verification/Prelude.thy ===== *)
theory Prelude
  imports Main "HOL-Library.Word" "HOL-Library.Monad_Syntax" "HOL-Library.Char_ord"
begin

text \<open>
  Shared vocabulary of the development.

  Bytes are \<^typ>\<open>char\<close>: Isabelle's characters are exactly the 256 byte values, so a C++
  \<open>std::string\<close>, a \<open>uint8_t\<close> buffer and the value of a name component are all lists of
  characters. Raw memory that the code reads or writes through pointers is a byte list whose
  length is the size of the allocation; an access outside the allocation is \<open>None\<close>, so a
  memory error of the code is a value of the model. The same \<open>None\<close> stands for a failed
  \<open>assert\<close> or an uncaught exception: in all three cases the operation does not return.

  The theory holds big-endian numbers, decimal numerals, substring search, two's complement
  wrap-around, memory blocks and the iteration of partial steps, with the lemmas every component
  uses.
\<close>

type_synonym byte = char
type_synonym bytes = "char list"
type_synonym u64 = "64 word"
type_synonym u32 = "32 word"

named_theorems mem_simps \<open>reading and writing memory blocks\<close>
named_theorems num_simps \<open>numbers as byte strings\<close>

section \<open>Result codes\<close>

text \<open>The codes of \<open>ndnrtc-defines.h\<close>; \<open>RESULT_GOOD\<close> accepts everything from \<open>RESULT_OK\<close> up.\<close>

datatype result = RESULT_OK | RESULT_WARN | RESULT_ERR

fun result_code :: "result \<Rightarrow> int" where
  "result_code RESULT_OK = 0"
| "result_code RESULT_WARN = -1"
| "result_code RESULT_ERR = -100"

definition RESULT_GOOD :: "result \<Rightarrow> bool" where
  "RESULT_GOOD r \<longleftrightarrow> result_code r \<ge> result_code RESULT_OK"

lemma RESULT_GOOD_iff [simp]: "RESULT_GOOD r \<longleftrightarrow> r = RESULT_OK"
  by (cases r) (simp_all add: RESULT_GOOD_def)

section \<open>Two's complement\<close>

definition wrap32 :: "int \<Rightarrow> int" where
  "wrap32 x = (x + 2 ^ 31) mod 2 ^ 32 - 2 ^ 31"

lemma wrap32_range: "- (2 ^ 31) \<le> wrap32 x" "wrap32 x < 2 ^ 31"
  by (simp_all add: wrap32_def)

lemma wrap32_id [simp]: "- (2 ^ 31) \<le> x \<Longrightarrow> x < 2 ^ 31 \<Longrightarrow> wrap32 x = x"
  by (simp add: wrap32_def)

lemma unat_of_nat_u64: "n < 2 ^ 64 \<Longrightarrow> unat (of_nat n :: u64) = n"
  by (simp add: unsigned_of_nat take_bit_eq_mod)

lemma wrap32_mod: "wrap32 (x mod 2 ^ 32) = wrap32 x"
  by (simp add: wrap32_def mod_simps)

section \<open>Byte strings as numbers\<close>

abbreviation byte_val :: "byte \<Rightarrow> nat" where
  "byte_val \<equiv> of_char"

lemma byte_val_less [simp]: "byte_val b < 256"
proof -
  have "char_of (byte_val b) = b" by simp
  then have "byte_val b mod 256 = byte_val b" by (metis of_char_of)
  then show ?thesis by (metis mod_less_divisor zero_less_numeral)
qed

lemma byte_val_char_of: "byte_val (char_of (n :: nat)) = n mod 256"
  by simp

lemma byte_val_inject [simp]: "byte_val a = byte_val b \<longleftrightarrow> a = b"
  by (metis char_of_char)

definition be_value :: "bytes \<Rightarrow> nat" where
  "be_value bs = foldl (\<lambda>r b. 256 * r + byte_val b) 0 bs"

primrec be_bytes :: "nat \<Rightarrow> nat \<Rightarrow> bytes" where
  "be_bytes 0 n = []"
| "be_bytes (Suc w) n = be_bytes w (n div 256) @ [char_of (n mod 256)]"

definition le_value :: "bytes \<Rightarrow> nat" where
  "le_value bs = be_value (rev bs)"

definition le_bytes :: "nat \<Rightarrow> nat \<Rightarrow> bytes" where
  "le_bytes w n = rev (be_bytes w n)"

lemma be_value_Nil [simp]: "be_value [] = 0"
  by (simp add: be_value_def)

lemma be_value_snoc [simp]: "be_value (bs @ [b]) = 256 * be_value bs + byte_val b"
  by (simp add: be_value_def)

lemma be_value_append: "be_value (as @ bs) = be_value as * 256 ^ length bs + be_value bs"
proof (induction bs rule: rev_induct)
  case (snoc b bs)
  show ?case
    using snoc.IH be_value_snoc [of "as @ bs" b] by (simp add: algebra_simps)
qed simp

lemma be_value_Cons: "be_value (b # bs) = byte_val b * 256 ^ length bs + be_value bs"
  using be_value_append [of "[b]" bs] be_value_snoc [of "[]" b] by simp

lemma be_value_less: "be_value bs < 256 ^ length bs"
proof (induction bs rule: rev_induct)
  case (snoc b bs)
  have "256 * be_value bs + byte_val b < 256 * Suc (be_value bs)"
    using byte_val_less [of b] by simp
  also have "\<dots> \<le> 256 * 256 ^ length bs"
    using snoc.IH by (intro mult_le_mono) auto
  finally show ?case by simp
qed simp

lemma length_be_bytes [simp, num_simps]: "length (be_bytes w n) = w"
  by (induction w arbitrary: n) simp_all

lemma be_value_be_bytes [num_simps]: "be_value (be_bytes w n) = n mod 256 ^ w"
proof (induction w arbitrary: n)
  case (Suc w)
  have "n mod 256 ^ Suc w = 256 * (n div 256 mod 256 ^ w) + n mod 256"
    using mod_mult2_eq [of n 256 "256 ^ w"] by (simp add: mult.commute)
  with Suc.IH [of "n div 256"] show ?case by simp
qed simp

lemma be_bytes_be_value [num_simps]: "be_bytes (length bs) (be_value bs) = bs"
proof (induction bs rule: rev_induct)
  case (snoc b bs)
  then show ?case by simp
qed simp

lemma length_le_bytes [simp, num_simps]: "length (le_bytes w n) = w"
  by (simp add: le_bytes_def)

lemma le_value_le_bytes [num_simps]: "le_value (le_bytes w n) = n mod 256 ^ w"
  by (simp add: le_value_def le_bytes_def num_simps)

lemma le_bytes_le_value [num_simps]: "le_bytes (length bs) (le_value bs) = bs"
  using be_bytes_be_value [of "rev bs"] by (simp add: le_bytes_def le_value_def)

lemma le_value_less: "le_value bs < 256 ^ length bs"
  using be_value_less [of "rev bs"] by (simp add: le_value_def)

section \<open>Decimal numerals\<close>

definition digit :: "nat \<Rightarrow> char" where
  "digit n = char_of (48 + n)"

fun dec_string :: "nat \<Rightarrow> string" where
  "dec_string n = (if n < 10 then [digit n] else dec_string (n div 10) @ [digit (n mod 10)])"

declare dec_string.simps [simp del]

lemma byte_val_digit [simp]: "n < 10 \<Longrightarrow> byte_val (digit n) = 48 + n"
  by (simp add: digit_def)

lemma dec_string_nonempty [simp]: "dec_string n \<noteq> []"
  by (subst dec_string.simps) simp

lemma dec_string_digits: "c \<in> set (dec_string n) \<Longrightarrow> 48 \<le> byte_val c \<and> byte_val c \<le> 57"
proof (induction n rule: dec_string.induct)
  case (1 n)
  then show ?case
    by (cases "n < 10") (auto simp: dec_string.simps [of n])
qed

section \<open>Substring search\<close>

text \<open>\<open>std::string::find\<close>: the least index at which the pattern occurs.\<close>

fun find_sub :: "string \<Rightarrow> string \<Rightarrow> nat option" where
  "find_sub p [] = (if p = [] then Some 0 else None)"
| "find_sub p (x # xs) =
     (if take (length p) (x # xs) = p then Some 0 else map_option Suc (find_sub p xs))"

text \<open>The result of \<open>find\<close> stored in an \<open>int\<close>: \<open>npos\<close> becomes \<open>-1\<close>.\<close>

definition find_int :: "string \<Rightarrow> string \<Rightarrow> int" where
  "find_int p s = (case find_sub p s of None \<Rightarrow> -1 | Some i \<Rightarrow> int i)"

lemma find_sub_SomeD:
  "find_sub p s = Some i \<Longrightarrow> take (length p) (drop i s) = p \<and> i + length p \<le> length s"
proof (induction p s arbitrary: i rule: find_sub.induct)
  case (2 p x xs)
  show ?case
  proof (cases "take (length p) (x # xs) = p")
    case True
    then have "length p \<le> length (x # xs)"
      by (metis length_take min.cobounded1)
    with True "2.prems" show ?thesis by auto
  next
    case False
    with "2.prems" obtain j where "find_sub p xs = Some j" "i = Suc j" by auto
    with "2.IH" [OF False] show ?thesis by simp
  qed
qed (auto split: if_splits)

lemma find_sub_least:
  "take (length p) (drop i s) = p \<Longrightarrow> i \<le> length s \<Longrightarrow> \<exists>j \<le> i. find_sub p s = Some j"
proof (induction p s arbitrary: i rule: find_sub.induct)
  case (2 p x xs)
  show ?case
  proof (cases "take (length p) (x # xs) = p")
    case False
    with "2.prems" obtain j where i: "i = Suc j" by (cases i) auto
    with "2.prems" have "take (length p) (drop j xs) = p" "j \<le> length xs" by auto
    from "2.IH" [OF False this] show ?thesis using False i by auto
  qed auto
qed auto

lemma find_sub_append_le:
  "\<exists>j \<le> length xs. find_sub p (xs @ p @ ys) = Some j"
  by (rule find_sub_least) simp_all

lemma find_sub_None_iff:
  "find_sub p s = None \<longleftrightarrow> (\<forall>i \<le> length s. take (length p) (drop i s) \<noteq> p)"
proof
  assume "find_sub p s = None"
  then show "\<forall>i \<le> length s. take (length p) (drop i s) \<noteq> p"
    using find_sub_least [of p _ s] by fastforce
next
  assume a: "\<forall>i \<le> length s. take (length p) (drop i s) \<noteq> p"
  show "find_sub p s = None"
  proof (rule ccontr)
    assume "find_sub p s \<noteq> None"
    then obtain i where "find_sub p s = Some i" by auto
    from find_sub_SomeD [OF this] a show False by auto
  qed
qed

section \<open>Memory blocks\<close>

definition mem_write :: "'b list \<Rightarrow> nat \<Rightarrow> 'b list \<Rightarrow> 'b list option" where
  "mem_write buf off src =
     (if off + length src \<le> length buf
      then Some (take off buf @ src @ drop (off + length src) buf) else None)"

definition mem_fill :: "'b list \<Rightarrow> nat \<Rightarrow> nat \<Rightarrow> 'b \<Rightarrow> 'b list option" where
  "mem_fill buf off n b = mem_write buf off (replicate n b)"

definition mem_read :: "'b list \<Rightarrow> nat \<Rightarrow> nat \<Rightarrow> 'b list option" where
  "mem_read buf off n = (if off + n \<le> length buf then Some (take n (drop off buf)) else None)"

definition mem_get :: "'b list \<Rightarrow> nat \<Rightarrow> 'b option" where
  "mem_get buf i = (if i < length buf then Some (buf ! i) else None)"

lemma mem_write_length [mem_simps]: "mem_write buf off src = Some buf' \<Longrightarrow> length buf' = length buf"
  by (auto simp: mem_write_def split: if_splits)

lemma mem_fill_length [mem_simps]: "mem_fill buf off n b = Some buf' \<Longrightarrow> length buf' = length buf"
  by (auto simp: mem_fill_def mem_simps)

lemma mem_write_Some: "off + length src \<le> length buf \<Longrightarrow> \<exists>buf'. mem_write buf off src = Some buf'"
  by (simp add: mem_write_def)

lemma mem_write_nth:
  assumes "mem_write buf off src = Some buf'" and "i < length buf"
  shows "buf' ! i = (if off \<le> i \<and> i < off + length src then src ! (i - off) else buf ! i)"
  using assms by (auto simp: mem_write_def nth_append split: if_splits)

lemma mem_read_write_same:
  "mem_write buf off src = Some buf' \<Longrightarrow> mem_read buf' off (length src) = Some src"
  by (auto simp: mem_write_def mem_read_def split: if_splits)

lemma mem_read_write_other:
  assumes w: "mem_write buf off src = Some buf'"
    and d: "i + n \<le> off \<or> off + length src \<le> i"
  shows "mem_read buf' i n = mem_read buf i n"
proof -
  have len: "length buf' = length buf" using w by (rule mem_write_length)
  show ?thesis
  proof (cases "i + n \<le> length buf")
    case True
    have "take n (drop i buf') = take n (drop i buf)"
    proof (rule nth_equalityI)
      fix k assume "k < length (take n (drop i buf'))"
      then show "take n (drop i buf') ! k = take n (drop i buf) ! k"
        using len True d mem_write_nth [OF w, of "i + k"] by auto
    qed (use len in simp)
    with True len show ?thesis by (simp add: mem_read_def)
  qed (use len in \<open>simp add: mem_read_def\<close>)
qed

lemma mem_read_append [simp]: "mem_read (xs @ ys) 0 (length xs) = Some xs"
  by (simp add: mem_read_def)

section \<open>Comparison of equally long blocks\<close>

text \<open>\<open>memcmp\<close>: only the sign of the library's result is specified, so the model returns it.\<close>

fun memcmp :: "bytes \<Rightarrow> bytes \<Rightarrow> int" where
  "memcmp (x # xs) (y # ys) =
     (if x = y then memcmp xs ys else if byte_val x < byte_val y then -1 else 1)"
| "memcmp _ _ = 0"

lemma memcmp_refl [simp]: "memcmp xs xs = 0"
  by (induction xs) simp_all

lemma memcmp_eq_0: "length xs = length ys \<Longrightarrow> memcmp xs ys = 0 \<longleftrightarrow> xs = ys"
  by (induction xs ys rule: memcmp.induct) auto

lemma memcmp_antisym: "memcmp ys xs = - memcmp xs ys"
proof (induction xs ys rule: memcmp.induct)
  case (1 x xs y ys)
  have "x \<noteq> y \<Longrightarrow> byte_val x \<noteq> byte_val y" by simp
  with 1 show ?case by (auto simp del: byte_val_inject)
qed auto

lemma memcmp_range: "memcmp xs ys \<in> {-1, 0, 1}"
  by (induction xs ys rule: memcmp.induct) auto

lemma memcmp_trans:
  "memcmp xs ys < 0 \<Longrightarrow> memcmp ys zs < 0 \<Longrightarrow> memcmp xs zs < 0"
proof (induction xs ys arbitrary: zs rule: memcmp.induct)
  case (1 x xs y ys)
  then show ?case by (cases zs) (auto split: if_splits)
qed auto

section \<open>Iterating a partial step\<close>

fun ofold :: "('a \<Rightarrow> 's \<Rightarrow> 's option) \<Rightarrow> 'a list \<Rightarrow> 's \<Rightarrow> 's option" where
  "ofold f [] s = Some s"
| "ofold f (x # xs) s = do { s' \<leftarrow> f x s; ofold f xs s' }"

lemma ofold_append: "ofold f (xs @ ys) s = do { s' \<leftarrow> ofold f xs s; ofold f ys s' }"
  by (induction xs arbitrary: s) (auto split: Option.bind_splits)

lemma ofold_invariant:
  assumes "ofold f xs s = Some s'" and "P s"
    and "\<And>x t t'. x \<in> set xs \<Longrightarrow> P t \<Longrightarrow> f x t = Some t' \<Longrightarrow> P t'"
  shows "P s'"
  using assms
proof (induction xs arbitrary: s)
  case (Cons x xs)
  from Cons.prems(1) obtain t where t: "f x s = Some t" "ofold f xs t = Some s'"
    by (auto split: Option.bind_splits)
  have "P t" by (rule Cons.prems(3) [OF _ Cons.prems(2) t(1)]) simp
  then show ?case
    by (rule Cons.IH [OF t(2)]) (rule Cons.prems(3); simp)
qed simp

lemmas bind_Some = bind_eq_Some_conv

section \<open>Loops that need not end\<close>

text \<open>
  One pass of the loop body either leaves the loop with a result (\<open>Inl\<close>) or continues from
  another state (\<open>Inr\<close>); \<open>None\<close> is a loop that is never left.
\<close>

partial_function (option) run_loop :: "('s \<Rightarrow> 'r + 's) \<Rightarrow> 's \<Rightarrow> 'r option" where
  "run_loop step s = (case step s of Inl r \<Rightarrow> Some r | Inr s' \<Rightarrow> run_loop step s')"

lemma run_loop_exit: "step s = Inl r \<Longrightarrow> run_loop step s = Some r"
  by (simp add: run_loop.simps)

lemma run_loop_next: "step s = Inr s' \<Longrightarrow> run_loop step s = run_loop step s'"
  by (simp add: run_loop.simps [of step s])

lemma run_loop_invariant:
  assumes "run_loop step s = Some r" and "P s"
    and "\<And>t t'. P t \<Longrightarrow> step t = Inr t' \<Longrightarrow> P t'"
  shows "\<exists>t. P t \<and> step t = Inl r"
proof -
  have "(\<forall>t t'. P t \<longrightarrow> step t = Inr t' \<longrightarrow> P t') \<longrightarrow> P s \<longrightarrow> (\<exists>t. P t \<and> step t = Inl r)"
  proof (rule run_loop.raw_induct
      [where P = "\<lambda>st s r. (\<forall>t t'. P t \<longrightarrow> st t = Inr t' \<longrightarrow> P t') \<longrightarrow> P s \<longrightarrow> (\<exists>t. P t \<and> st t = Inl r)",
        OF _ assms(1)], intro impI)
    fix f st u q
    assume IH: "\<And>st s r. f st s = Some r \<Longrightarrow>
        (\<forall>t t'. P t \<longrightarrow> st t = Inr t' \<longrightarrow> P t') \<longrightarrow> P s \<longrightarrow> (\<exists>t. P t \<and> st t = Inl r)"
      and eq: "(case st u of Inl r \<Rightarrow> Some r | Inr s' \<Rightarrow> f st s') = Some q"
      and inv: "\<forall>t t'. P t \<longrightarrow> st t = Inr t' \<longrightarrow> P t'" and u: "P u"
    show "\<exists>t. P t \<and> st t = Inl q"
    proof (cases "st u")
      case (Inl r)
      with eq u show ?thesis by auto
    next
      case (Inr u')
      with eq IH [of st u' q] inv u show ?thesis by auto
    qed
  qed
  with assms(2,3) show ?thesis by blast
qed

text \<open>A state that is its own successor is never left.\<close>

lemma run_loop_stuck:
  assumes "step s = Inr s"
  shows "run_loop step s = None"
proof (rule ccontr)
  assume "run_loop step s \<noteq> None"
  then obtain r where "run_loop step s = Some r" by auto
  from run_loop_invariant [OF this, where P = "\<lambda>t. t = s"] assms show False by auto
qed

lemma run_loop_terminates:
  fixes m :: "'s \<Rightarrow> nat"
  assumes "P s" and "\<And>t t'. P t \<Longrightarrow> step t = Inr t' \<Longrightarrow> P t' \<and> m t' < m t"
  shows "\<exists>r. run_loop step s = Some r"
  using assms(1)
proof (induction s rule: measure_induct_rule [where f = m])
  case (less s)
  show ?case
  proof (cases "step s")
    case (Inl r)
    then show ?thesis by (auto simp: run_loop_exit)
  next
    case (Inr s')
    with less assms(2) show ?thesis by (auto simp: run_loop_next)
  qed
qed

section \<open>Readers\<close>

text \<open>A reader may report an error, and it may not return: its loops need not end, and it may read
  outside its input.\<close>

fun rbind :: "('e + 'a) option \<Rightarrow> ('a \<Rightarrow> ('e + 'b) option) \<Rightarrow> ('e + 'b) option" where
  "rbind None f = None"
| "rbind (Some (Inl e)) f = Some (Inl e)"
| "rbind (Some (Inr x)) f = f x"

end
