(* ===== verification/Std_Map.thy ===== *)
theory Std_Map
  imports Prelude
begin

text \<open>
  \<open>std::map\<close> as the code uses it: a list of key/value pairs in increasing key order, so that
  iterating over the map visits the entries in the order the C++ container does. The operations
  are \<open>operator[]\<close> used as an assignment (\<open>map_assign\<close>), \<open>find\<close> (\<open>map_of\<close>) and
  \<open>erase\<close> (\<open>map_erase\<close>). Clients see the container through the locale
  \<open>keyed_store\<close> and its extension \<open>ordered_store\<close>, interpreted here.
\<close>

section \<open>The container\<close>

fun map_assign :: "'k :: linorder \<Rightarrow> 'v \<Rightarrow> ('k \<times> 'v) list \<Rightarrow> ('k \<times> 'v) list" where
  "map_assign k v [] = [(k, v)]"
| "map_assign k v ((k', v') # m) =
     (if k < k' then (k, v) # (k', v') # m
      else if k = k' then (k, v) # m
      else (k', v') # map_assign k v m)"

definition map_erase :: "'k \<Rightarrow> ('k \<times> 'v) list \<Rightarrow> ('k \<times> 'v) list" where
  "map_erase k m = filter (\<lambda>e. fst e \<noteq> k) m"

definition map_ok :: "('k :: linorder \<times> 'v) list \<Rightarrow> bool" where
  "map_ok m \<longleftrightarrow> sorted (map fst m) \<and> distinct (map fst m)"

lemma map_ok_Nil [simp]: "map_ok []"
  by (simp add: map_ok_def)

lemma map_ok_Cons: "map_ok ((k, v) # m) \<longleftrightarrow> map_ok m \<and> (\<forall>k' \<in> set (map fst m). k < k')"
  by (auto simp: map_ok_def less_le)

lemma keys_map_assign: "set (map fst (map_assign k v m)) = insert k (set (map fst m))"
  by (induction k v m rule: map_assign.induct) auto

lemma map_ok_assign: "map_ok m \<Longrightarrow> map_ok (map_assign k v m)"
proof (induction k v m rule: map_assign.induct)
  case (2 k v k' v' m)
  have keys: "set (map fst (map_assign k v m)) = insert k (set (map fst m))"
    by (rule keys_map_assign)
  show ?case using 2 keys by (fastforce simp: map_ok_Cons)
qed (simp add: map_ok_def)

lemma map_of_assign:
  "map_of (map_assign k v m) k' = (if k' = k then Some v else map_of m k')" if "map_ok m"
  using that
proof (induction k v m rule: map_assign.induct)
  case (2 k v k1 v1 m)
  then show ?case by (auto simp: map_ok_Cons)
qed simp

lemma map_ok_erase: "map_ok m \<Longrightarrow> map_ok (map_erase k m)"
  by (induction m) (auto simp: map_erase_def map_ok_Cons)

lemma map_of_erase: "map_of (map_erase k m) k' = (if k' = k then None else map_of m k')"
  by (induction m) (auto simp: map_erase_def)

lemma map_erase_absent: "map_of m k = None \<Longrightarrow> map_erase k m = m"
  by (induction m) (auto simp: map_erase_def split: if_splits)

lemma map_of_mem: "map_ok m \<Longrightarrow> (k, v) \<in> set m \<longleftrightarrow> map_of m k = Some v"
  by (simp add: map_ok_def)

lemma length_map_assign:
  "map_ok m \<Longrightarrow> length (map_assign k v m) = (if map_of m k = None then Suc (length m) else length m)"
  by (induction k v m rule: map_assign.induct) (force simp: map_ok_Cons map_of_eq_None_iff)+

lemma length_map_erase_Some:
  "map_ok m \<Longrightarrow> map_of m k = Some v \<Longrightarrow> Suc (length (map_erase k m)) = length m"
proof (induction m)
  case (Cons e m)
  obtain k' v' where e: "e = (k', v')" by force
  show ?case
  proof (cases "k' = k")
    case True
    with Cons.prems e have "map_of m k = None"
      by (force simp: map_ok_Cons map_of_eq_None_iff)
    with True e show ?thesis by (simp add: map_erase_def) (metis map_erase_absent map_erase_def)
  next
    case False
    with Cons e show ?thesis by (simp add: map_ok_Cons map_erase_def)
  qed
qed simp

section \<open>The interface\<close>

locale keyed_store =
  fixes lookup :: "'m \<Rightarrow> 'k \<Rightarrow> 'v option"
    and assign :: "'k \<Rightarrow> 'v \<Rightarrow> 'm \<Rightarrow> 'm"
    and erase :: "'k \<Rightarrow> 'm \<Rightarrow> 'm"
    and empty :: "'m"
    and ok :: "'m \<Rightarrow> bool"
  assumes lookup_empty: "lookup empty k = None"
    and lookup_assign: "ok m \<Longrightarrow> lookup (assign k v m) k' = (if k' = k then Some v else lookup m k')"
    and lookup_erase: "lookup (erase k m) k' = (if k' = k then None else lookup m k')"
    and ok_empty: "ok empty"
    and ok_assign: "ok m \<Longrightarrow> ok (assign k v m)"
    and ok_erase: "ok m \<Longrightarrow> ok (erase k m)"
begin

lemma lookup_assign_erase:
  "ok m \<Longrightarrow> lookup (assign k v (erase k' m)) j =
     (if j = k then Some v else if j = k' then None else lookup m j)"
  by (simp add: lookup_assign lookup_erase ok_erase)

text \<open>A store that keeps every value under one key only stays so when a value moves to another key.\<close>

lemma one_key_each_erase:
  assumes "\<And>i j v. lookup m i = Some v \<Longrightarrow> lookup m j = Some v \<Longrightarrow> i = j"
    and "lookup (erase k m) i = Some v" and "lookup (erase k m) j = Some v"
  shows "i = j"
  using assms(2,3) by (intro assms(1)) (auto simp: lookup_erase split: if_splits)

lemma one_key_each_assign:
  assumes "ok m" and "\<And>i j v. lookup m i = Some v \<Longrightarrow> lookup m j = Some v \<Longrightarrow> i = j"
    and "\<And>i. lookup m i \<noteq> Some w"
    and "lookup (assign k w m) i = Some v" and "lookup (assign k w m) j = Some v"
  shows "i = j"
proof (cases "v = w")
  case True
  with assms(1,3-5) show ?thesis by (simp add: lookup_assign split: if_splits)
next
  case False
  with assms(1,4,5) have "lookup m i = Some v" "lookup m j = Some v"
    by (simp_all add: lookup_assign split: if_splits)
  then show ?thesis by (rule assms(2))
qed

end

locale ordered_store = keyed_store lookup assign erase empty ok
  for lookup :: "'m \<Rightarrow> 'k :: linorder \<Rightarrow> 'v option" and assign erase empty ok +
  fixes keys :: "'m \<Rightarrow> 'k list"
  assumes keys_lookup: "ok m \<Longrightarrow> set (keys m) = {k. lookup m k \<noteq> None}"
    and keys_sorted: "ok m \<Longrightarrow> sorted (keys m) \<and> distinct (keys m)"
begin

lemma keys_assign: "ok m \<Longrightarrow> set (keys (assign k v m)) = insert k (set (keys m))"
  by (auto simp: keys_lookup ok_assign lookup_assign)

lemma keys_erase: "ok m \<Longrightarrow> set (keys (erase k m)) = set (keys m) - {k}"
  by (auto simp: keys_lookup ok_erase lookup_erase)

text \<open>The iteration order depends only on which keys are present.\<close>

lemma keys_eqI:
  assumes "ok m" and "ok m'" and "\<And>k. lookup m k = None \<longleftrightarrow> lookup m' k = None"
  shows "keys m = keys m'"
proof (rule sorted_distinct_set_unique)
  show "set (keys m) = set (keys m')" using assms by (auto simp: keys_lookup)
qed (use assms keys_sorted in auto)

end

interpretation sm: ordered_store map_of map_assign map_erase "[]" map_ok "map fst"
proof unfold_locales
  show "map_ok m \<Longrightarrow> set (map fst m) = {k. map_of m k \<noteq> None}" for m :: "('a \<times> 'b) list"
    by (auto simp: map_of_eq_None_iff)
qed (simp_all add: map_of_assign map_of_erase map_ok_assign map_ok_erase, simp_all add: map_ok_def)

end
