(* ===== verification/Tlv.thy ===== *)
theory Tlv
  imports Prelude
begin

text \<open>
  The NDN-TLV encoder and decoder of \<open>ndn-cpp\<close> (\<open>src/c/encoding/tlv/tlv-encoder\<close>,
  \<open>tlv-decoder\<close>, \<open>src/c/util/dynamic-uint8-array\<close>). An encoder writes into a growing
  array at an offset; a decoder reads its input at a 64-bit offset, with the code's own
  (wrapping) offset arithmetic. Error codes are the left summand of the result. The locale
  \<open>byte_sink\<close> is what a writer of TLVs needs of the encoder.
\<close>

datatype ndn_Error =
    ERR_realloc_function_pointer_not_supplied
  | ERR_read_past_the_end_of_the_input
  | ERR_did_not_get_the_expected_TLV_type
  | ERR_TLV_length_exceeds_buffer_length
  | ERR_TLV_length_does_not_equal_total_length_of_nested_TLVs
  | ERR_Invalid_length_for_nonNegativeInteger
  | ERR_attempt_to_add_a_component_past_the_maximum
  | ERR_cannot_add_an_entry_past_the_maximum
  | ERR_unrecognized_ndn_KeyLocatorType
  | ERR_decodeKeyLocator_unrecognized_key_locator_type
  | ERR_Unsupported_answerOriginKind_bits
  | ERR_undefined_conversion \<comment> \<open>not a code of the library: a double outside the range of the integer type\<close>
  | ERR_memory_fault \<comment> \<open>not a code of the library: the access leaves the allocation\<close>

fun ebind :: "'e + 'a \<Rightarrow> ('a \<Rightarrow> 'e + 'b) \<Rightarrow> 'e + 'b" where
  "ebind (Inl e) f = Inl e"
| "ebind (Inr x) f = f x"

lemma ebind_Inr [simp]: "ebind r f = Inr y \<longleftrightarrow> (\<exists>x. r = Inr x \<and> f x = Inr y)"
  by (cases r) auto

section \<open>The growing output array\<close>

record dyn_array =
  da_array :: bytes
  da_realloc :: bool

definition reallocArray :: "nat \<Rightarrow> dyn_array \<Rightarrow> ndn_Error + dyn_array" where
  "reallocArray len a =
     (if \<not> da_realloc a then Inl ERR_realloc_function_pointer_not_supplied
      else let old = length (da_array a);
               newLength = (if len > old * 2 then len else old * 2)
           in Inr (a\<lparr>da_array := da_array a @ replicate (newLength - old) (char_of (0 :: nat))\<rparr>))"

definition ensureLength :: "nat \<Rightarrow> dyn_array \<Rightarrow> ndn_Error + dyn_array" where
  "ensureLength len a = (if length (da_array a) \<ge> len then Inr a else reallocArray len a)"

lemma ensureLength_realloc:
  "da_realloc a \<Longrightarrow> \<exists>a' pad. ensureLength len a = Inr a' \<and> da_realloc a' \<and>
     da_array a' = da_array a @ pad \<and> len \<le> length (da_array a')"
  by (auto simp: ensureLength_def reallocArray_def Let_def)

section \<open>The encoder\<close>

record tlv_encoder =
  te_output :: dyn_array
  te_offset :: nat
  te_enableOutput :: bool

definition TlvEncoder_initialize :: "dyn_array \<Rightarrow> tlv_encoder" where
  "TlvEncoder_initialize out = \<lparr>te_output = out, te_offset = 0, te_enableOutput = True\<rparr>"

text \<open>Make room for the bytes, store them at the offset and advance it.\<close>

definition writeArrayEnabled :: "bytes \<Rightarrow> tlv_encoder \<Rightarrow> ndn_Error + tlv_encoder" where
  "writeArrayEnabled bs e =
     ebind (ensureLength (te_offset e + length bs) (te_output e)) (\<lambda>a.
       case mem_write (da_array a) (te_offset e) bs of
         None \<Rightarrow> Inl ERR_memory_fault
       | Some m \<Rightarrow> Inr (e\<lparr>te_output := a\<lparr>da_array := m\<rparr>, te_offset := te_offset e + length bs\<rparr>))"

definition sizeOfVarNumber :: "u64 \<Rightarrow> nat" where
  "sizeOfVarNumber v =
     (if v < 253 then 1 else if v \<le> 0xffff then 3 else if v \<le> 0xffffffff then 5 else 9)"

definition writeVarNumberEnabled :: "u64 \<Rightarrow> tlv_encoder \<Rightarrow> ndn_Error + tlv_encoder" where
  "writeVarNumberEnabled v e =
     (if v < 253 then writeArrayEnabled [char_of (unat v)] e
      else if v \<le> 0xffff then writeArrayEnabled (char_of (253 :: nat) # be_bytes 2 (unat v)) e
      else if v \<le> 0xffffffff then writeArrayEnabled (char_of (254 :: nat) # be_bytes 4 (unat v)) e
      else writeArrayEnabled (char_of (255 :: nat) # be_bytes 8 (unat v)) e)"

definition writeVarNumber :: "u64 \<Rightarrow> tlv_encoder \<Rightarrow> ndn_Error + tlv_encoder" where
  "writeVarNumber v e =
     (if te_enableOutput e then writeVarNumberEnabled v e
      else Inr (e\<lparr>te_offset := te_offset e + sizeOfVarNumber v\<rparr>))"

definition writeTypeAndLength :: "nat \<Rightarrow> nat \<Rightarrow> tlv_encoder \<Rightarrow> ndn_Error + tlv_encoder" where
  "writeTypeAndLength type len e =
     (if te_enableOutput e
      then ebind (writeVarNumberEnabled (of_nat type) e) (writeVarNumberEnabled (of_nat len))
      else Inr (e\<lparr>te_offset := te_offset e + (sizeOfVarNumber (of_nat type) + sizeOfVarNumber (of_nat len))\<rparr>))"

definition sizeOfNonNegativeInteger :: "u64 \<Rightarrow> nat" where
  "sizeOfNonNegativeInteger v =
     (if v \<le> 0xff then 1 else if v \<le> 0xffff then 2 else if v \<le> 0xffffffff then 4 else 8)"

definition writeNonNegativeIntegerEnabled :: "u64 \<Rightarrow> tlv_encoder \<Rightarrow> ndn_Error + tlv_encoder" where
  "writeNonNegativeIntegerEnabled v e =
     (if v \<le> 0xff then writeArrayEnabled [char_of (unat v)] e
      else if v \<le> 0xffff then writeArrayEnabled (be_bytes 2 (unat v)) e
      else if v \<le> 0xffffffff then writeArrayEnabled (be_bytes 4 (unat v)) e
      else writeArrayEnabled (be_bytes 8 (unat v)) e)"

definition writeNonNegativeInteger :: "u64 \<Rightarrow> tlv_encoder \<Rightarrow> ndn_Error + tlv_encoder" where
  "writeNonNegativeInteger v e =
     (if te_enableOutput e then writeNonNegativeIntegerEnabled v e
      else Inr (e\<lparr>te_offset := te_offset e + sizeOfNonNegativeInteger v\<rparr>))"

definition sizeOfBlobTlv :: "nat \<Rightarrow> bytes \<Rightarrow> nat" where
  "sizeOfBlobTlv type blob =
     sizeOfVarNumber (of_nat type) + sizeOfVarNumber (of_nat (length blob)) + length blob"

definition writeBlobTlvEnabled :: "nat \<Rightarrow> bytes \<Rightarrow> tlv_encoder \<Rightarrow> ndn_Error + tlv_encoder" where
  "writeBlobTlvEnabled type blob e =
     ebind (writeTypeAndLength type (length blob) e) (writeArrayEnabled blob)"

definition writeBlobTlv :: "nat \<Rightarrow> bytes \<Rightarrow> tlv_encoder \<Rightarrow> ndn_Error + tlv_encoder" where
  "writeBlobTlv type blob e =
     (if te_enableOutput e then writeBlobTlvEnabled type blob e
      else Inr (e\<lparr>te_offset := te_offset e + sizeOfBlobTlv type blob\<rparr>))"

definition writeNonNegativeIntegerTlv :: "nat \<Rightarrow> u64 \<Rightarrow> tlv_encoder \<Rightarrow> ndn_Error + tlv_encoder" where
  "writeNonNegativeIntegerTlv type v e =
     (let n = sizeOfNonNegativeInteger v in
      if te_enableOutput e
      then ebind (writeTypeAndLength type n e) (writeNonNegativeIntegerEnabled v)
      else Inr (e\<lparr>te_offset := te_offset e +
              (sizeOfVarNumber (of_nat type) + sizeOfVarNumber (of_nat n) + n)\<rparr>))"

definition writeOptionalNonNegativeIntegerTlv ::
    "nat \<Rightarrow> int \<Rightarrow> tlv_encoder \<Rightarrow> ndn_Error + tlv_encoder" where
  "writeOptionalNonNegativeIntegerTlv type v e =
     (if v \<ge> 0 then writeNonNegativeIntegerTlv type (of_int v) e else Inr e)"

definition writeNestedTlv ::
    "nat \<Rightarrow> (tlv_encoder \<Rightarrow> ndn_Error + tlv_encoder) \<Rightarrow> bool \<Rightarrow> tlv_encoder \<Rightarrow> ndn_Error + tlv_encoder" where
  "writeNestedTlv type writeValue omitZeroLength e =
     ebind (writeValue (e\<lparr>te_enableOutput := False\<rparr>)) (\<lambda>e1.
       let valueLength = te_offset e1 - te_offset e in
       if omitZeroLength \<and> valueLength = 0 then Inr (e1\<lparr>te_enableOutput := te_enableOutput e\<rparr>)
       else if te_enableOutput e then
         ebind (writeTypeAndLength type valueLength (e1\<lparr>te_offset := te_offset e, te_enableOutput := True\<rparr>))
           writeValue
       else writeTypeAndLength type valueLength e1)"

text \<open>What the writers put on the wire.\<close>

definition var_number_bytes :: "u64 \<Rightarrow> bytes" where
  "var_number_bytes v =
     (if v < 253 then [char_of (unat v)]
      else if v \<le> 0xffff then char_of (253 :: nat) # be_bytes 2 (unat v)
      else if v \<le> 0xffffffff then char_of (254 :: nat) # be_bytes 4 (unat v)
      else char_of (255 :: nat) # be_bytes 8 (unat v))"

definition nonneg_bytes :: "u64 \<Rightarrow> bytes" where
  "nonneg_bytes v =
     (if v \<le> 0xff then [char_of (unat v)]
      else if v \<le> 0xffff then be_bytes 2 (unat v)
      else if v \<le> 0xffffffff then be_bytes 4 (unat v)
      else be_bytes 8 (unat v))"

definition blob_tlv_bytes :: "nat \<Rightarrow> bytes \<Rightarrow> bytes" where
  "blob_tlv_bytes type blob =
     var_number_bytes (of_nat type) @ var_number_bytes (of_nat (length blob)) @ blob"

lemma length_var_number_bytes [simp]: "length (var_number_bytes v) = sizeOfVarNumber v"
  by (simp add: var_number_bytes_def sizeOfVarNumber_def)

lemma length_nonneg_bytes [simp]: "length (nonneg_bytes v) = sizeOfNonNegativeInteger v"
  by (simp add: nonneg_bytes_def sizeOfNonNegativeInteger_def)

lemma length_blob_tlv_bytes [simp]: "length (blob_tlv_bytes type blob) = sizeOfBlobTlv type blob"
  by (simp add: blob_tlv_bytes_def sizeOfBlobTlv_def)

lemma sizeOfVarNumber_pos [simp]: "0 < sizeOfVarNumber v"
  by (simp add: sizeOfVarNumber_def)

lemma writeVarNumberEnabled_bytes:
  "writeVarNumberEnabled v = writeArrayEnabled (var_number_bytes v)"
  by (rule ext) (simp add: writeVarNumberEnabled_def var_number_bytes_def)

lemma writeNonNegativeIntegerEnabled_bytes:
  "writeNonNegativeIntegerEnabled v = writeArrayEnabled (nonneg_bytes v)"
  by (rule ext) (simp add: writeNonNegativeIntegerEnabled_def nonneg_bytes_def)

section \<open>The interface of a writer\<close>

text \<open>
  A byte sink accepts bytes and remembers them in order. Writing two pieces is writing their
  concatenation; a sink that never refuses keeps what was written before.
\<close>

locale byte_sink =
  fixes put :: "bytes \<Rightarrow> 's \<Rightarrow> 'e + 's"
    and content :: "'s \<Rightarrow> bytes"
    and good :: "'s \<Rightarrow> bool"
  assumes put_good: "good s \<Longrightarrow> \<exists>s'. put bs s = Inr s' \<and> good s' \<and> content s' = content s @ bs"
begin

lemma put_put:
  assumes "good s"
  shows "\<exists>s'. ebind (put as s) (put bs) = Inr s' \<and> good s' \<and> content s' = content s @ as @ bs"
proof -
  from put_good [OF assms] obtain s1 where 1: "put as s = Inr s1" "good s1" "content s1 = content s @ as"
    by blast
  from put_good [OF 1(2)] obtain s2 where "put bs s1 = Inr s2" "good s2" "content s2 = content s1 @ bs"
    by blast
  with 1 show ?thesis by auto
qed

lemma put_invD: "good s \<Longrightarrow> put bs s = Inr s' \<Longrightarrow> good s' \<and> content s' = content s @ bs"
  using put_good [of s bs] by auto

end

definition te_written :: "tlv_encoder \<Rightarrow> bytes" where
  "te_written e = take (te_offset e) (da_array (te_output e))"

definition te_good :: "tlv_encoder \<Rightarrow> bool" where
  "te_good e \<longleftrightarrow> te_enableOutput e \<and> da_realloc (te_output e) \<and>
     te_offset e \<le> length (da_array (te_output e))"

interpretation sink: byte_sink writeArrayEnabled te_written te_good
proof
  fix e :: tlv_encoder and bs :: bytes assume g: "te_good e"
  then obtain a pad where a: "ensureLength (te_offset e + length bs) (te_output e) = Inr a"
      "da_realloc a" "da_array a = da_array (te_output e) @ pad"
      "te_offset e + length bs \<le> length (da_array a)"
    using ensureLength_realloc te_good_def by blast
  then obtain m where m: "mem_write (da_array a) (te_offset e) bs = Some m"
    using mem_write_Some by blast
  have "take (te_offset e + length bs) m = te_written e @ bs"
    using m a g by (auto simp: mem_write_def te_written_def te_good_def split: if_splits)
  with m a g show "\<exists>e'. writeArrayEnabled bs e = Inr e' \<and> te_good e' \<and> te_written e' = te_written e @ bs"
    by (auto simp: writeArrayEnabled_def te_good_def te_written_def mem_write_length)
qed

lemma put_enabled: "te_good e \<Longrightarrow> te_enableOutput e"
  by (simp add: te_good_def)

lemma writeTypeAndLength_good:
  "te_good e \<Longrightarrow> \<exists>e'. writeTypeAndLength type len e = Inr e' \<and> te_good e' \<and>
     te_written e' = te_written e @ var_number_bytes (of_nat type) @ var_number_bytes (of_nat len)"
  unfolding writeTypeAndLength_def writeVarNumberEnabled_bytes
  using sink.put_put [of e] put_enabled [of e] by simp

lemma writeBlobTlv_good:
  assumes "te_good e"
  shows "\<exists>e'. writeBlobTlv type blob e = Inr e' \<and> te_good e' \<and>
     te_written e' = te_written e @ blob_tlv_bytes type blob"
proof -
  from writeTypeAndLength_good [OF assms] obtain e1 where
    1: "writeTypeAndLength type (length blob) e = Inr e1" "te_good e1"
       "te_written e1 = te_written e @ var_number_bytes (of_nat type) @ var_number_bytes (of_nat (length blob))"
    by blast
  from sink.put_good [OF 1(2)] obtain e2 where
    "writeArrayEnabled blob e1 = Inr e2" "te_good e2" "te_written e2 = te_written e1 @ blob"
    by blast
  with 1 put_enabled [OF assms] show ?thesis
    by (auto simp: writeBlobTlv_def writeBlobTlvEnabled_def blob_tlv_bytes_def)
qed

lemma writeNonNegativeInteger_good:
  "te_good e \<Longrightarrow> \<exists>e'. writeNonNegativeInteger v e = Inr e' \<and> te_good e' \<and>
     te_written e' = te_written e @ nonneg_bytes v"
  using sink.put_good [of e "nonneg_bytes v"] put_enabled [of e]
  by (simp add: writeNonNegativeInteger_def writeNonNegativeIntegerEnabled_bytes)

end
