(* ===== verification/Tlv_Decoder.thy ===== *)
theory Tlv_Decoder
  imports Tlv
begin

text \<open>
  The TLV decoder (\<open>src/c/encoding/tlv/tlv-decoder.h\<close>, \<open>tlv-decoder.c\<close>). Offsets and
  lengths are 64-bit words and their sums wrap, as \<open>size_t\<close> does on the platforms the library
  is built for. The decoder returns slices (offset and length) where the code returns a pointer
  into its input and a length; dereferencing a slice is \<open>slice_bytes\<close>, which fails when the
  slice is not inside the input. The loop that skips unknown TLVs is a partial function, since
  it need not end.
\<close>

record tlv_decoder =
  td_input :: bytes
  td_offset :: u64

definition td_inputLength :: "tlv_decoder \<Rightarrow> u64" where
  "td_inputLength d = of_nat (length (td_input d))"

definition TlvDecoder_initialize :: "bytes \<Rightarrow> tlv_decoder" where
  "TlvDecoder_initialize bs = \<lparr>td_input = bs, td_offset = 0\<rparr>"

definition td_advance :: "nat \<Rightarrow> tlv_decoder \<Rightarrow> tlv_decoder" where
  "td_advance n d = d\<lparr>td_offset := td_offset d + of_nat n\<rparr>"

text \<open>Read \<open>n\<close> bytes at the offset as a big-endian number and advance.\<close>

definition read_be :: "nat \<Rightarrow> tlv_decoder \<Rightarrow> ndn_Error + (u64 \<times> tlv_decoder)" where
  "read_be n d =
     (case mem_read (td_input d) (unat (td_offset d)) n of
        None \<Rightarrow> Inl ERR_memory_fault
      | Some bs \<Rightarrow> Inr (of_nat (be_value bs), td_advance n d))"

definition readExtendedVarNumber :: "nat \<Rightarrow> tlv_decoder \<Rightarrow> ndn_Error + (u64 \<times> tlv_decoder)" where
  "readExtendedVarNumber firstOctet d =
     (if firstOctet = 253 then
        (if td_offset d + 2 > td_inputLength d then Inl ERR_read_past_the_end_of_the_input
         else read_be 2 d)
      else if firstOctet = 254 then
        (if td_offset d + 4 > td_inputLength d then Inl ERR_read_past_the_end_of_the_input
         else read_be 4 d)
      else
        (if td_offset d + 8 > td_inputLength d then Inl ERR_read_past_the_end_of_the_input
         else read_be 8 d))"

definition readVarNumber :: "tlv_decoder \<Rightarrow> ndn_Error + (u64 \<times> tlv_decoder)" where
  "readVarNumber d =
     (if td_offset d \<ge> td_inputLength d then Inl ERR_read_past_the_end_of_the_input
      else case mem_get (td_input d) (unat (td_offset d)) of
        None \<Rightarrow> Inl ERR_memory_fault
      | Some b \<Rightarrow>
          (let firstOctet = byte_val b; d1 = td_advance 1 d in
           if firstOctet < 253 then Inr (of_nat firstOctet, d1)
           else readExtendedVarNumber firstOctet d1))"

definition readTypeAndLength :: "nat \<Rightarrow> tlv_decoder \<Rightarrow> ndn_Error + (u64 \<times> tlv_decoder)" where
  "readTypeAndLength expectedType d =
     ebind (readVarNumber d) (\<lambda>(type, d1).
       if type \<noteq> of_nat expectedType then Inl ERR_did_not_get_the_expected_TLV_type
       else ebind (readVarNumber d1) (\<lambda>(len, d2).
         if td_offset d2 + len > td_inputLength d2 then Inl ERR_TLV_length_exceeds_buffer_length
         else Inr (len, d2)))"

definition readNestedTlvsStart :: "nat \<Rightarrow> tlv_decoder \<Rightarrow> ndn_Error + (u64 \<times> tlv_decoder)" where
  "readNestedTlvsStart expectedType d =
     ebind (readTypeAndLength expectedType d) (\<lambda>(len, d1). Inr (td_offset d1 + len, d1))"

text \<open>One pass of the loop of \<open>skipRemainingNestedTlvs\<close>: \<open>Inl\<close> is a return of the function.\<close>

definition skipNestedTlv ::
    "u64 \<Rightarrow> tlv_decoder \<Rightarrow> (ndn_Error + tlv_decoder) + tlv_decoder" where
  "skipNestedTlv endOffset d =
     (if td_offset d < endOffset then
        (case readVarNumber d of
           Inl e \<Rightarrow> Inl (Inl e)
         | Inr (dummyType, d1) \<Rightarrow>
             (case readVarNumber d1 of
                Inl e \<Rightarrow> Inl (Inl e)
              | Inr (len, d2) \<Rightarrow>
                  (let d3 = d2\<lparr>td_offset := td_offset d2 + len\<rparr> in
                   if td_offset d3 > td_inputLength d3
                   then Inl (Inl ERR_TLV_length_exceeds_buffer_length)
                   else Inr d3)))
      else if td_offset d \<noteq> endOffset
      then Inl (Inl ERR_TLV_length_does_not_equal_total_length_of_nested_TLVs)
      else Inl (Inr d))"

definition skipRemainingNestedTlvs ::
    "u64 \<Rightarrow> tlv_decoder \<Rightarrow> (ndn_Error + tlv_decoder) option" where
  "skipRemainingNestedTlvs endOffset = run_loop (skipNestedTlv endOffset)"

definition finishNestedTlvs :: "u64 \<Rightarrow> tlv_decoder \<Rightarrow> (ndn_Error + tlv_decoder) option" where
  "finishNestedTlvs endOffset d =
     (if td_offset d \<noteq> endOffset then skipRemainingNestedTlvs endOffset d else Some (Inr d))"

definition peekType :: "nat \<Rightarrow> u64 \<Rightarrow> tlv_decoder \<Rightarrow> ndn_Error + (bool \<times> tlv_decoder)" where
  "peekType expectedType endOffset d =
     (if td_offset d \<ge> endOffset then Inr (False, d)
      else ebind (readVarNumber d) (\<lambda>(type, d1).
        Inr (type = of_nat expectedType, d1\<lparr>td_offset := td_offset d\<rparr>)))"

definition readExtendedNonNegativeInteger ::
    "u64 \<Rightarrow> tlv_decoder \<Rightarrow> ndn_Error + (u64 \<times> tlv_decoder)" where
  "readExtendedNonNegativeInteger len d =
     (if len = 2 then
        (if td_offset d + 2 > td_inputLength d then Inl ERR_read_past_the_end_of_the_input
         else read_be 2 d)
      else if len = 4 then
        (if td_offset d + 4 > td_inputLength d then Inl ERR_read_past_the_end_of_the_input
         else read_be 4 d)
      else if len = 8 then
        (if td_offset d + 8 > td_inputLength d then Inl ERR_read_past_the_end_of_the_input
         else read_be 8 d)
      else Inl ERR_Invalid_length_for_nonNegativeInteger)"

definition readNonNegativeInteger :: "u64 \<Rightarrow> tlv_decoder \<Rightarrow> ndn_Error + (u64 \<times> tlv_decoder)" where
  "readNonNegativeInteger len d =
     (if len = 1 then
        (if td_offset d \<ge> td_inputLength d then Inl ERR_read_past_the_end_of_the_input
         else read_be 1 d)
      else readExtendedNonNegativeInteger len d)"

definition readNonNegativeIntegerTlv :: "nat \<Rightarrow> tlv_decoder \<Rightarrow> ndn_Error + (u64 \<times> tlv_decoder)" where
  "readNonNegativeIntegerTlv expectedType d =
     ebind (readTypeAndLength expectedType d) (\<lambda>(len, d1). readNonNegativeInteger len d1)"

text \<open>The value is converted to \<open>int\<close>, or is \<open>-1\<close> when the TLV is absent.\<close>

definition readOptionalNonNegativeIntegerTlv ::
    "nat \<Rightarrow> u64 \<Rightarrow> tlv_decoder \<Rightarrow> ndn_Error + (int \<times> tlv_decoder)" where
  "readOptionalNonNegativeIntegerTlv expectedType endOffset d =
     ebind (peekType expectedType endOffset d) (\<lambda>(got, d1).
       if \<not> got then Inr (-1, d1)
       else ebind (readNonNegativeIntegerTlv expectedType d1) (\<lambda>(v, d2). Inr (wrap32 (uint v), d2)))"

type_synonym slice = "u64 \<times> u64"

definition readBlobTlv :: "nat \<Rightarrow> tlv_decoder \<Rightarrow> ndn_Error + (slice \<times> tlv_decoder)" where
  "readBlobTlv expectedType d =
     ebind (readTypeAndLength expectedType d) (\<lambda>(len, d1).
       Inr ((td_offset d1, len), d1\<lparr>td_offset := td_offset d1 + len\<rparr>))"

definition readOptionalBlobTlv ::
    "nat \<Rightarrow> u64 \<Rightarrow> tlv_decoder \<Rightarrow> ndn_Error + (slice option \<times> tlv_decoder)" where
  "readOptionalBlobTlv expectedType endOffset d =
     ebind (peekType expectedType endOffset d) (\<lambda>(got, d1).
       if \<not> got then Inr (None, d1)
       else ebind (readBlobTlv expectedType d1) (\<lambda>(v, d2). Inr (Some v, d2)))"

definition readBooleanTlv :: "nat \<Rightarrow> u64 \<Rightarrow> tlv_decoder \<Rightarrow> ndn_Error + (bool \<times> tlv_decoder)" where
  "readBooleanTlv expectedType endOffset d =
     ebind (peekType expectedType endOffset d) (\<lambda>(got, d1).
       if \<not> got then Inr (False, d1)
       else ebind (readTypeAndLength expectedType d1) (\<lambda>(len, d2).
         Inr (True, d2\<lparr>td_offset := td_offset d2 + len\<rparr>)))"

definition slice_bytes :: "bytes \<Rightarrow> slice \<Rightarrow> bytes option" where
  "slice_bytes input s = mem_read input (unat (fst s)) (unat (snd s))"

section \<open>Decoding what the encoder wrote\<close>

text \<open>The decoder stands between \<open>pre\<close> and \<open>rest\<close>, in an input of fewer than \<open>2 ^ 63\<close> bytes.\<close>

definition td_at :: "bytes \<Rightarrow> bytes \<Rightarrow> tlv_decoder \<Rightarrow> bool" where
  "td_at pre rest d \<longleftrightarrow> td_input d = pre @ rest \<and> td_offset d = of_nat (length pre) \<and>
     length (td_input d) < 2 ^ 63"

lemma td_atD:
  assumes "td_at pre rest d"
  shows "td_input d = pre @ rest" "td_offset d = of_nat (length pre)"
    "length pre + length rest < 2 ^ 63"
  using assms by (auto simp: td_at_def)

lemma td_at_offset: "td_at pre rest d \<Longrightarrow> unat (td_offset d) = length pre"
  using td_atD [of pre rest d] by (simp add: unat_of_nat_u64)

lemma td_at_length:
  assumes "td_at pre rest d" shows "unat (td_inputLength d) = length pre + length rest"
  using unat_of_nat_u64 [of "length pre + length rest"] td_atD [OF assms]
  by (simp add: td_inputLength_def)

lemmas td_at_bound = td_atD(3)

lemma td_at_advance: "td_at pre (bs @ rest) d \<Longrightarrow> td_at (pre @ bs) rest (td_advance (length bs) d)"
  by (auto simp: td_at_def td_advance_def)

lemma td_at_read: "td_at pre (bs @ rest) d \<Longrightarrow> mem_read (td_input d) (unat (td_offset d)) (length bs) = Some bs"
  using td_atD(1) [of pre "bs @ rest" d] by (simp add: td_at_offset mem_read_def)

lemma td_at_room:
  assumes "td_at pre rest d" and "n < 2 ^ 63"
  shows "td_offset d + of_nat n > td_inputLength d \<longleftrightarrow> length rest < n"
proof -
  have "unat (td_offset d + of_nat n) = length pre + n"
    using td_at_offset [OF assms(1)] td_at_bound [OF assms(1)] assms(2)
    by (simp add: unat_word_ariths unat_of_nat_u64)
  then show ?thesis
    by (simp add: word_less_nat_alt td_at_length [OF assms(1)])
qed

lemma td_at_end: "td_at pre rest d \<Longrightarrow> td_inputLength d \<le> td_offset d \<longleftrightarrow> rest = []"
  by (simp add: word_le_nat_alt td_at_length td_at_offset)

lemma read_be_at:
  assumes "td_at pre (bs @ rest) d"
  shows "read_be (length bs) d = Inr (of_nat (be_value bs), td_advance (length bs) d)"
  using td_at_read [OF assms] by (simp add: read_be_def)

lemma read_be_bytes_at:
  assumes "td_at pre (be_bytes w (unat v) @ rest) d" and "unat v < 256 ^ w"
  shows "read_be w d = Inr (v, td_advance w d)"
  using read_be_at [OF assms(1)] assms(2) by (simp add: be_value_be_bytes)

lemma readExtended_at:
  assumes at: "td_at pre (be_bytes w (unat v) @ rest) d" and "unat v < 256 ^ w"
    and "(f = 253 \<and> w = 2) \<or> (f = 254 \<and> w = 4) \<or> (f = 255 \<and> w = 8)"
  shows "readExtendedVarNumber f d = Inr (v, td_advance w d)"
  using read_be_bytes_at [OF at assms(2)] td_at_room [OF at, of w] assms(3)
  by (auto simp: readExtendedVarNumber_def)

lemma td_advance_add: "td_advance m (td_advance n d) = td_advance (n + m) d"
  by (simp add: td_advance_def)

lemma td_at_get: "td_at pre (b # rest) d \<Longrightarrow> mem_get (td_input d) (unat (td_offset d)) = Some b"
  using td_atD(1) [of pre "b # rest" d] by (simp add: td_at_offset mem_get_def)

lemma readVarNumber_ext_at:
  fixes f :: nat
  assumes at: "td_at pre ((char_of f # be_bytes w (unat v)) @ rest) d" and v: "unat v < 256 ^ w"
    and f: "(f = 253 \<and> w = 2) \<or> (f = 254 \<and> w = 4) \<or> (f = 255 \<and> w = 8)"
  shows "readVarNumber d = Inr (v, td_advance (Suc w) d)"
proof -
  have at1: "td_at (pre @ [char_of f]) (be_bytes w (unat v) @ rest) (td_advance 1 d)"
    using td_at_advance [of pre "[char_of f]" "be_bytes w (unat v) @ rest" d] at by simp
  have "byte_val (char_of f) = f" "\<not> f < 253" using f by auto
  with readExtended_at [OF at1 v f] td_at_get [of pre "char_of f" "be_bytes w (unat v) @ rest" d]
    td_at_end [OF at] at
  show ?thesis by (simp add: readVarNumber_def Let_def td_advance_add)
qed

lemma readVarNumber_at:
  assumes at: "td_at pre (var_number_bytes v @ rest) d"
  shows "readVarNumber d = Inr (v, td_advance (sizeOfVarNumber v) d)"
proof -
  consider "v < 253" | "\<not> v < 253" "v \<le> 0xffff" | "\<not> v \<le> 0xffff" "v \<le> 0xffffffff" "\<not> v < 253"
    | "\<not> v \<le> 0xffffffff" "\<not> v \<le> 0xffff" "\<not> v < 253" by blast
  then show ?thesis
  proof cases
    case 1
    then have v: "unat v < 253" by (simp add: word_less_nat_alt)
    with 1 at have at': "td_at pre (char_of (unat v) # rest) d" by (simp add: var_number_bytes_def)
    from v td_at_get [OF at'] td_at_end [OF at'] 1 show ?thesis
      by (simp add: readVarNumber_def sizeOfVarNumber_def Let_def)
  next
    case 2
    then have "unat v < 256 ^ 2" by (simp add: word_le_nat_alt)
    with 2 at readVarNumber_ext_at [of pre 253 2 v rest d] show ?thesis
      by (simp add: var_number_bytes_def sizeOfVarNumber_def)
  next
    case 3
    then have "unat v < 256 ^ 4" by (simp add: word_le_nat_alt)
    with 3 at readVarNumber_ext_at [of pre 254 4 v rest d] show ?thesis
      by (simp add: var_number_bytes_def sizeOfVarNumber_def)
  next
    case 4
    have "unat v < 256 ^ 8" using unsigned_less [of v] by simp
    with 4 at readVarNumber_ext_at [of pre 255 8 v rest d] show ?thesis
      by (simp add: var_number_bytes_def sizeOfVarNumber_def)
  qed
qed

lemma readTypeAndLength_at:
  assumes at: "td_at pre (var_number_bytes (of_nat type) @ var_number_bytes (of_nat len) @ rest) d"
    and len: "len \<le> length rest" and type: "type < 2 ^ 64"
  shows "\<exists>d'. readTypeAndLength type d = Inr (of_nat len, d') \<and>
     td_at (pre @ var_number_bytes (of_nat type) @ var_number_bytes (of_nat len)) rest d'"
proof -
  let ?t = "var_number_bytes (of_nat type)" and ?l = "var_number_bytes (of_nat len)"
  let ?d1 = "td_advance (length ?t) d" let ?d2 = "td_advance (length ?l) ?d1"
  have at1: "td_at (pre @ ?t) (?l @ rest) ?d1" by (rule td_at_advance [OF at])
  have at2: "td_at ((pre @ ?t) @ ?l) rest ?d2" by (rule td_at_advance [OF at1])
  have "len < 2 ^ 63" using len td_at_bound [OF at2] by simp
  then have "\<not> td_offset ?d2 + of_nat len > td_inputLength ?d2"
    using td_at_room [OF at2, of len] len by simp
  with readVarNumber_at [OF at] readVarNumber_at [OF at1] at2 show ?thesis
    by (simp add: readTypeAndLength_def)
qed

lemma readBlobTlv_at:
  assumes at: "td_at pre (blob_tlv_bytes type blob @ rest) d" and type: "type < 2 ^ 64"
  shows "\<exists>s d'. readBlobTlv type d = Inr (s, d') \<and> slice_bytes (td_input d) s = Some blob \<and>
     td_at (pre @ blob_tlv_bytes type blob) rest d' \<and> td_input d' = td_input d"
proof -
  let ?h = "var_number_bytes (of_nat type) @ var_number_bytes (of_nat (length blob))"
  have "td_at pre (var_number_bytes (of_nat type) @ var_number_bytes (of_nat (length blob)) @ blob @ rest) d"
    using at by (simp add: blob_tlv_bytes_def)
  from readTypeAndLength_at [OF this _ type] obtain d1 where
    d1: "readTypeAndLength type d = Inr (of_nat (length blob), d1)" "td_at (pre @ ?h) (blob @ rest) d1"
    by auto
  have inp: "td_input d1 = td_input d"
    using td_atD(1) [OF d1(2)] td_atD(1) [OF at] by (simp add: blob_tlv_bytes_def)
  have len: "unat (of_nat (length blob) :: u64) = length blob"
    using td_at_bound [OF d1(2)] by (intro unat_of_nat_u64) simp
  from td_at_advance [OF d1(2)] have "td_at (pre @ blob_tlv_bytes type blob) rest (td_advance (length blob) d1)"
    by (simp add: blob_tlv_bytes_def)
  with d1 len inp td_at_read [OF d1(2)] show ?thesis
    by (auto simp: readBlobTlv_def slice_bytes_def td_advance_def)
qed

lemma readNonNegativeInteger_at:
  assumes at: "td_at pre (nonneg_bytes v @ rest) d"
  shows "readNonNegativeInteger (of_nat (sizeOfNonNegativeInteger v)) d =
     Inr (v, td_advance (sizeOfNonNegativeInteger v) d)"
proof -
  consider "v \<le> 0xff" | "\<not> v \<le> 0xff" "v \<le> 0xffff" | "\<not> v \<le> 0xffff" "v \<le> 0xffffffff" "\<not> v \<le> 0xff"
    | "\<not> v \<le> 0xffffffff" "\<not> v \<le> 0xffff" "\<not> v \<le> 0xff" by blast
  then show ?thesis
  proof cases
    case 1
    then have v: "unat v < 256 ^ 1" by (simp add: word_le_nat_alt)
    with 1 at have at': "td_at pre (be_bytes 1 (unat v) @ rest) d" by (simp add: nonneg_bytes_def)
    from read_be_bytes_at [OF at' v] td_at_end [OF at'] 1 show ?thesis
      by (simp add: readNonNegativeInteger_def sizeOfNonNegativeInteger_def)
  next
    case 2
    then have v: "unat v < 256 ^ 2" by (simp add: word_le_nat_alt)
    with 2 at have at': "td_at pre (be_bytes 2 (unat v) @ rest) d" by (simp add: nonneg_bytes_def)
    from read_be_bytes_at [OF at' v] td_at_room [OF at', of 2] 2 show ?thesis
      by (simp add: readNonNegativeInteger_def readExtendedNonNegativeInteger_def sizeOfNonNegativeInteger_def)
  next
    case 3
    then have v: "unat v < 256 ^ 4" by (simp add: word_le_nat_alt)
    with 3 at have at': "td_at pre (be_bytes 4 (unat v) @ rest) d" by (simp add: nonneg_bytes_def)
    from read_be_bytes_at [OF at' v] td_at_room [OF at', of 4] 3 show ?thesis
      by (simp add: readNonNegativeInteger_def readExtendedNonNegativeInteger_def sizeOfNonNegativeInteger_def)
  next
    case 4
    have v: "unat v < 256 ^ 8" using unsigned_less [of v] by simp
    with 4 at have at': "td_at pre (be_bytes 8 (unat v) @ rest) d" by (simp add: nonneg_bytes_def)
    from read_be_bytes_at [OF at' v] td_at_room [OF at', of 8] 4 show ?thesis
      by (simp add: readNonNegativeInteger_def readExtendedNonNegativeInteger_def sizeOfNonNegativeInteger_def)
  qed
qed

end
