(* ===== verification/Ndn_Name.thy ===== *)
theory Ndn_Name
  imports Tlv
begin

unbundle bit_operations_syntax

text \<open>
  NDN names (\<open>ndn-cpp/src/name.cpp\<close>, \<open>include/ndn-cpp/name.hpp\<close>, \<open>src/c/name.c\<close>):
  a name is a list of components, a component is a byte string. The theory has the numeric
  components, the prefix operations and the canonical order; the order makes names and
  components instances of \<open>linorder\<close>, so that they can be keys of the containers.
\<close>

datatype component = Component (getValue: bytes)

datatype name = Name (components: "component list")

section \<open>Components that hold numbers\<close>

text \<open>The C++ \<open>TlvEncoder\<close> starts from a 16-byte vector, whatever length its constructor is given.\<close>

definition new_TlvEncoder :: "tlv_encoder" where
  "new_TlvEncoder =
     TlvEncoder_initialize \<lparr>da_array = replicate 16 (char_of (0 :: nat)), da_realloc = True\<rparr>"

text \<open>\<open>getOutput\<close> cuts the vector at the offset; the left summand is a thrown exception.\<close>

definition getOutput :: "tlv_encoder \<Rightarrow> bytes" where
  "getOutput e = take (te_offset e) (da_array (te_output e))"

definition fromNumber :: "u64 \<Rightarrow> component option" where
  "fromNumber n =
     (case writeNonNegativeInteger n new_TlvEncoder of
        Inl e \<Rightarrow> None | Inr e \<Rightarrow> Some (Component (getOutput e)))"

definition fromNumberWithMarker :: "u64 \<Rightarrow> byte \<Rightarrow> component option" where
  "fromNumberWithMarker n marker =
     (case ebind (writeNonNegativeInteger (of_nat (byte_val marker) AND 0xff) new_TlvEncoder)
             (writeNonNegativeInteger n) of
        Inl e \<Rightarrow> None | Inr e \<Rightarrow> Some (Component (getOutput e)))"

text \<open>The bytes of the number, least significant first; the caller reverses them.\<close>

function number_bytes_le :: "u64 \<Rightarrow> bytes" where
  "number_bytes_le n =
     (if n \<noteq> 0 then char_of (unat (n AND 0xff)) # number_bytes_le (drop_bit 8 n) else [])"
  by pat_completeness auto
termination
proof (relation "measure unat")
  fix n :: u64 assume "n \<noteq> 0"
  then have "0 < unat n" by (simp add: unat_gt_0)
  then have "unat n div 2 ^ 8 < unat n" by simp
  then show "(drop_bit 8 n, n) \<in> measure unat"
    by (simp add: unsigned_drop_bit_eq drop_bit_eq_div unat_div)
qed simp

declare number_bytes_le.simps [simp del]

definition fromNumberWithPrefix :: "u64 \<Rightarrow> bytes \<Rightarrow> component" where
  "fromNumberWithPrefix n prefix = Component (prefix @ rev (number_bytes_le n))"

definition number_value :: "bytes \<Rightarrow> u64" where
  "number_value bs = foldl (\<lambda>result b. result * 256 + of_nat (byte_val b)) 0 bs"

definition toNumber :: "component \<Rightarrow> u64" where
  "toNumber c = number_value (getValue c)"

definition toNumberWithMarker :: "component \<Rightarrow> byte \<Rightarrow> u64 option" where
  "toNumberWithMarker c marker =
     (case getValue c of
        [] \<Rightarrow> None
      | m # bs \<Rightarrow> if m \<noteq> marker then None else Some (number_value bs))"

definition hasPrefix :: "component \<Rightarrow> bytes \<Rightarrow> bool" where
  "hasPrefix c prefix \<longleftrightarrow> length (getValue c) \<ge> length prefix \<and>
     memcmp (take (length prefix) (getValue c)) prefix = 0"

definition toNumberWithPrefix :: "component \<Rightarrow> bytes \<Rightarrow> u64 option" where
  "toNumberWithPrefix c prefix =
     (if length (getValue c) < length prefix \<or>
         memcmp (take (length prefix) (getValue c)) prefix \<noteq> 0 then None
      else Some (number_value (drop (length prefix) (getValue c))))"

lemma number_value_be_value: "number_value bs = of_nat (be_value bs)"
proof (induction bs rule: rev_induct)
  case Nil
  then show ?case by (simp add: number_value_def)
next
  case (snoc b bs)
  then show ?case by (simp add: number_value_def algebra_simps)
qed

lemma new_TlvEncoder_good [simp]: "te_good new_TlvEncoder" "te_written new_TlvEncoder = []"
  by (simp_all add: new_TlvEncoder_def TlvEncoder_initialize_def te_good_def te_written_def)

lemma getOutput_written: "getOutput = te_written"
  by (rule ext) (simp add: getOutput_def te_written_def)

lemma fromNumber_eq: "fromNumber n = Some (Component (nonneg_bytes n))"
  using writeNonNegativeInteger_good [of new_TlvEncoder n]
  by (auto simp: fromNumber_def getOutput_written)

lemma unat_and_0xff: "unat (n AND 0xff :: u64) = unat n mod 256"
proof -
  have "n AND 0xff = take_bit 8 n" by (simp add: take_bit_eq_mask mask_eq_exp_minus_1)
  then show ?thesis by (simp add: take_bit_eq_mod unat_mod)
qed

lemma unat_byte_u64: "unat (of_nat (byte_val m) :: u64) = byte_val m"
proof -
  have "byte_val m mod 18446744073709551616 = byte_val m"
    by (rule mod_less) (use byte_val_less [of m] in linarith)
  then show ?thesis by (simp add: unsigned_of_nat take_bit_eq_mod)
qed

lemma byte_mask_u64: "(of_nat (byte_val m) :: u64) AND 0xff = of_nat (byte_val m)"
  using byte_val_less [of m] by (simp only: word_unat_eq_iff unat_and_0xff unat_byte_u64 mod_less)

lemma nonneg_bytes_byte: "nonneg_bytes (of_nat (byte_val m)) = [m]"
proof -
  have "byte_val m \<le> 255" using byte_val_less [of m] by linarith
  then have "(of_nat (byte_val m) :: u64) \<le> 0xff" by (simp add: word_le_nat_alt unat_byte_u64)
  then show ?thesis by (simp add: nonneg_bytes_def unat_byte_u64)
qed

lemma fromNumberWithMarker_eq:
  "fromNumberWithMarker n m = Some (Component (m # nonneg_bytes n))"
proof -
  obtain e1 where e1: "writeNonNegativeInteger (of_nat (byte_val m)) new_TlvEncoder = Inr e1"
      "te_good e1" "te_written e1 = [m]"
    using writeNonNegativeInteger_good [of new_TlvEncoder "of_nat (byte_val m)"]
    by (auto simp: nonneg_bytes_byte)
  obtain e2 where "writeNonNegativeInteger n e1 = Inr e2" "te_written e2 = m # nonneg_bytes n"
    using writeNonNegativeInteger_good [OF e1(2), of n] e1(3) by auto
  with e1(1) show ?thesis
    by (simp add: fromNumberWithMarker_def byte_mask_u64 getOutput_written)
qed

lemma be_value_nonneg_bytes: "be_value (nonneg_bytes v) = unat v"
proof -
  consider "v \<le> 0xff" | "\<not> v \<le> 0xff" "v \<le> 0xffff" | "\<not> v \<le> 0xff" "\<not> v \<le> 0xffff" "v \<le> 0xffffffff"
    | "\<not> v \<le> 0xff" "\<not> v \<le> 0xffff" "\<not> v \<le> 0xffffffff" by blast
  then show ?thesis
  proof cases
    case 1
    then have "unat v < 256" by (simp add: word_le_nat_alt)
    with 1 be_value_be_bytes [of 1 "unat v"] show ?thesis by (simp add: nonneg_bytes_def)
  next
    case 4
    then show ?thesis using unsigned_less [where 'a = nat, of v]
      by (simp add: nonneg_bytes_def be_value_be_bytes)
  qed (simp_all add: nonneg_bytes_def be_value_be_bytes word_le_nat_alt)
qed

lemma toNumber_nonneg_bytes: "number_value (nonneg_bytes v) = v"
  by (simp add: number_value_be_value be_value_nonneg_bytes)

lemma be_value_number_bytes: "be_value (rev (number_bytes_le n)) = unat n"
proof (induction n rule: number_bytes_le.induct)
  case (1 n)
  show ?case
  proof (cases "n = 0")
    case False
    have lo: "unat (n AND 0xff) = unat n mod 256"
      by (rule unat_and_0xff)
    have hi: "unat (drop_bit 8 n) = unat n div 256"
      by (simp add: drop_bit_eq_div unat_div)
    from 1 False show ?thesis
      by (subst number_bytes_le.simps) (simp add: lo hi)
  qed (simp add: number_bytes_le.simps)
qed

section \<open>Comparison\<close>

definition component_compare :: "component \<Rightarrow> component \<Rightarrow> int" where
  "component_compare c d =
     (let v = getValue c; w = getValue d in
      if length v < length w then -1
      else if length v > length w then 1
      else memcmp v w)"

fun components_compare :: "component list \<Rightarrow> component list \<Rightarrow> int" where
  "components_compare (c # cs) (d # ds) =
     (let comparison = component_compare c d in
      if comparison = 0 then components_compare cs ds else comparison)"
| "components_compare [] [] = 0"
| "components_compare [] (d # ds) = -1"
| "components_compare (c # cs) [] = 1"

definition name_compare :: "name \<Rightarrow> name \<Rightarrow> int" where
  "name_compare m n = components_compare (components m) (components n)"

lemma component_compare_eq_0: "component_compare c d = 0 \<longleftrightarrow> c = d"
  by (cases c; cases d) (auto simp: component_compare_def Let_def memcmp_eq_0)

lemma component_compare_antisym: "component_compare d c = - component_compare c d"
  by (auto simp: component_compare_def Let_def memcmp_antisym [of "getValue d"])

lemma component_compare_trans:
  "component_compare a b < 0 \<Longrightarrow> component_compare b c < 0 \<Longrightarrow> component_compare a c < 0"
  by (auto simp: component_compare_def Let_def split: if_splits dest: memcmp_trans)

lemma components_compare_eq_0: "components_compare cs ds = 0 \<longleftrightarrow> cs = ds"
  by (induction cs ds rule: components_compare.induct)
    (auto simp: Let_def component_compare_eq_0)

lemma components_compare_antisym: "components_compare ds cs = - components_compare cs ds"
proof (induction cs ds rule: components_compare.induct)
  case (1 c cs d ds)
  then show ?case using component_compare_antisym [of c d] by (auto simp: Let_def)
qed auto

lemma components_compare_trans:
  "components_compare a b < 0 \<Longrightarrow> components_compare b c < 0 \<Longrightarrow> components_compare a c < 0"
proof (induction a b arbitrary: c rule: components_compare.induct)
  case (1 x xs y ys)
  show ?case
  proof (cases c)
    case (Cons z zs)
    have flip: "component_compare z y = - component_compare y z" by (rule component_compare_antisym)
    from 1 Cons flip show ?thesis
      using component_compare_trans [of x y z]
      by (auto simp: Let_def component_compare_eq_0 split: if_splits)
  qed (use 1 in \<open>auto\<close>)
next
  case (3 d ds)
  then show ?case by (cases c) auto
qed auto

instantiation component :: linorder
begin

definition less_eq_component :: "component \<Rightarrow> component \<Rightarrow> bool" where
  "less_eq_component c d \<longleftrightarrow> component_compare c d \<le> 0"

definition less_component :: "component \<Rightarrow> component \<Rightarrow> bool" where
  "less_component c d \<longleftrightarrow> component_compare c d < 0"

instance
proof
  fix a b c :: component
  show "(a < b) = (a \<le> b \<and> \<not> b \<le> a)"
    using component_compare_antisym [of a b] by (auto simp: less_eq_component_def less_component_def)
  show "a \<le> a" using component_compare_eq_0 [of a a] by (simp add: less_eq_component_def)
  show "a \<le> b \<Longrightarrow> b \<le> a \<Longrightarrow> a = b"
    using component_compare_antisym [of a b] component_compare_eq_0 [of a b]
    by (simp add: less_eq_component_def)
  show "a \<le> b \<or> b \<le> a"
    using component_compare_antisym [of a b] by (auto simp: less_eq_component_def)
  show "a \<le> b \<Longrightarrow> b \<le> c \<Longrightarrow> a \<le> c"
    using component_compare_trans [of a b c] component_compare_eq_0
    by (auto simp: less_eq_component_def le_less)
qed

end

instantiation name :: linorder
begin

definition less_eq_name :: "name \<Rightarrow> name \<Rightarrow> bool" where
  "less_eq_name m n \<longleftrightarrow> name_compare m n \<le> 0"

definition less_name :: "name \<Rightarrow> name \<Rightarrow> bool" where
  "less_name m n \<longleftrightarrow> name_compare m n < 0"

instance
proof
  fix a b c :: name
  have antisym: "name_compare b a = - name_compare a b" for a b
    unfolding name_compare_def by (rule components_compare_antisym)
  have eq0: "name_compare a b = 0 \<longleftrightarrow> a = b" for a b
    by (cases a; cases b) (simp add: name_compare_def components_compare_eq_0)
  show "(a < b) = (a \<le> b \<and> \<not> b \<le> a)"
    using antisym [of b a] by (auto simp: less_eq_name_def less_name_def)
  show "a \<le> a" using eq0 [of a a] by (simp add: less_eq_name_def)
  show "a \<le> b \<Longrightarrow> b \<le> a \<Longrightarrow> a = b"
    using antisym [of b a] eq0 [of a b] by (simp add: less_eq_name_def)
  show "a \<le> b \<or> b \<le> a" using antisym [of b a] by (auto simp: less_eq_name_def)
  assume ab: "a \<le> b" and bc: "b \<le> c"
  show "a \<le> c"
  proof (cases "a = b \<or> b = c")
    case False
    with ab bc have "name_compare a b < 0" "name_compare b c < 0"
      by (simp_all add: less_eq_name_def order_le_less eq0)
    then have "name_compare a c < 0" by (simp add: name_compare_def components_compare_trans)
    then show ?thesis by (simp add: less_eq_name_def)
  qed (use ab bc in auto)
qed

end

section \<open>The vector interface\<close>

definition name_size :: "name \<Rightarrow> nat" where
  "name_size n = length (components n)"

definition name_append :: "name \<Rightarrow> component \<Rightarrow> name" where
  "name_append n c = Name (components n @ [c])"

fun name_append_all :: "name \<Rightarrow> component list \<Rightarrow> name" where
  "name_append_all n [] = n"
| "name_append_all n (c # cs) = name_append_all (name_append n c) cs"

definition name_append_name :: "name \<Rightarrow> name \<Rightarrow> name" where
  "name_append_name n m = name_append_all n (components m)"

definition name_append_string :: "name \<Rightarrow> string \<Rightarrow> name" where
  "name_append_string n s = name_append n (Component s)"

text \<open>\<open>None\<close> is the \<open>runtime_error\<close> the source throws for an index out of bounds.\<close>

definition name_get :: "name \<Rightarrow> int \<Rightarrow> component option" where
  "name_get n i =
     (let cs = components n in
      if i \<ge> 0 then
        if i \<ge> int (length cs) then None else Some (cs ! nat i)
      else
        if i < - int (length cs) then None else Some (cs ! nat (int (length cs) - (- i))))"

text \<open>
  The indices of the copying loops are \<open>size_t\<close>: a start that is still negative after the
  adjustment becomes a huge index, and the end index can wrap.
\<close>

definition adjust_start :: "name \<Rightarrow> int \<Rightarrow> u64" where
  "adjust_start n i = of_int (if i < 0 then wrap32 (int (length (components n)) - (- i)) else i)"

definition getSubName_n :: "name \<Rightarrow> int \<Rightarrow> u64 \<Rightarrow> name" where
  "getSubName_n n i k =
     (let start = adjust_start n i; iEnd = start + k in
      Name (take (unat iEnd - unat start) (drop (unat start) (components n))))"

definition getSubName :: "name \<Rightarrow> int \<Rightarrow> name" where
  "getSubName n i = Name (drop (unat (adjust_start n i)) (components n))"

definition getPrefix :: "name \<Rightarrow> int \<Rightarrow> name" where
  "getPrefix n k =
     (if k < 0 then getSubName_n n 0 (of_nat (length (components n)) + of_int k)
      else getSubName_n n 0 (of_int k))"

text \<open>Both comparison loops run from the last index down to 0.\<close>

fun components_agree_below :: "nat \<Rightarrow> component list \<Rightarrow> component list \<Rightarrow> bool" where
  "components_agree_below 0 cs ds = True"
| "components_agree_below (Suc i) cs ds =
     (if getValue (cs ! i) \<noteq> getValue (ds ! i) then False else components_agree_below i cs ds)"

definition name_equals :: "name \<Rightarrow> name \<Rightarrow> bool" where
  "name_equals m n =
     (if length (components m) \<noteq> length (components n) then False
      else components_agree_below (length (components m)) (components m) (components n))"

definition name_match :: "name \<Rightarrow> name \<Rightarrow> bool" where
  "name_match m n =
     (if length (components m) > length (components n) then False
      else components_agree_below (length (components m)) (components m) (components n))"

section \<open>Typed components\<close>

definition appendSegment :: "name \<Rightarrow> u64 \<Rightarrow> name option" where
  "appendSegment n v = map_option (name_append n) (fromNumberWithMarker v (char_of (0x00 :: nat)))"

definition appendSegmentOffset :: "name \<Rightarrow> u64 \<Rightarrow> name option" where
  "appendSegmentOffset n v = map_option (name_append n) (fromNumberWithMarker v (char_of (0xFB :: nat)))"

definition appendVersion :: "name \<Rightarrow> u64 \<Rightarrow> name option" where
  "appendVersion n v = map_option (name_append n) (fromNumberWithMarker v (char_of (0xFD :: nat)))"

definition appendTimestamp :: "name \<Rightarrow> u64 \<Rightarrow> name option" where
  "appendTimestamp n v = map_option (name_append n) (fromNumberWithMarker v (char_of (0xFC :: nat)))"

definition appendSequenceNumber :: "name \<Rightarrow> u64 \<Rightarrow> name option" where
  "appendSequenceNumber n v = map_option (name_append n) (fromNumberWithMarker v (char_of (0xFE :: nat)))"

definition toSegment :: "component \<Rightarrow> u64 option" where
  "toSegment c = toNumberWithMarker c (char_of (0x00 :: nat))"

definition toSegmentOffset :: "component \<Rightarrow> u64 option" where
  "toSegmentOffset c = toNumberWithMarker c (char_of (0xFB :: nat))"

definition toVersion :: "component \<Rightarrow> u64 option" where
  "toVersion c = toNumberWithMarker c (char_of (0xFD :: nat))"

definition toTimestamp :: "component \<Rightarrow> u64 option" where
  "toTimestamp c = toNumberWithMarker c (char_of (0xFC :: nat))"

definition toSequenceNumber :: "component \<Rightarrow> u64 option" where
  "toSequenceNumber c = toNumberWithMarker c (char_of (0xFE :: nat))"

section \<open>Facts about the operations\<close>

lemma name_append_all_eq: "name_append_all n cs = Name (components n @ cs)"
  by (induction cs arbitrary: n) (simp_all add: name_append_def)

lemma components_agree_below_iff:
  "i \<le> length cs \<Longrightarrow> i \<le> length ds \<Longrightarrow>
   components_agree_below i cs ds \<longleftrightarrow> take i cs = take i ds"
  by (induction i) (auto simp: take_Suc_conv_app_nth component.expand)

lemma name_equals_iff: "name_equals m n \<longleftrightarrow> m = n"
  by (cases m; cases n) (auto simp: name_equals_def components_agree_below_iff)

lemma name_match_iff: "name_match m n \<longleftrightarrow> (\<exists>cs. components n = components m @ cs)"
proof
  assume "name_match m n"
  then have "length (components m) \<le> length (components n)"
      "take (length (components m)) (components n) = components m"
    by (auto simp: name_match_def components_agree_below_iff split: if_splits)
  then show "\<exists>cs. components n = components m @ cs"
    by (metis append_take_drop_id)
qed (auto simp: name_match_def components_agree_below_iff)

lemma number_with_marker_roundtrip:
  "\<exists>c. fromNumberWithMarker v m = Some c \<and> toNumberWithMarker c m = Some v"
  by (simp add: fromNumberWithMarker_eq toNumberWithMarker_def toNumber_nonneg_bytes)

lemma number_with_prefix_roundtrip:
  "toNumberWithPrefix (fromNumberWithPrefix v p) p = Some v"
  by (simp add: toNumberWithPrefix_def fromNumberWithPrefix_def number_value_be_value
      be_value_number_bytes)

lemma name_get_nth: "i < length (components n) \<Longrightarrow> name_get n (int i) = Some (components n ! i)"
  by (simp add: name_get_def)

lemma name_get_neg:
  "0 < i \<Longrightarrow> i \<le> length (components n) \<Longrightarrow>
   name_get n (- int i) = Some (components n ! (length (components n) - i))"
  by (simp add: name_get_def nat_diff_distrib Let_def)

lemma getSubName_n_small:
  assumes "i + k < 2 ^ 63"
  shows "getSubName_n n (int i) (of_nat k) = Name (take k (drop i (components n)))"
proof -
  have i: "unat (of_nat i :: u64) = i" and ik: "unat (of_nat (i + k) :: u64) = i + k"
    by (rule unat_of_nat_u64, use assms in simp)+
  from ik have "unat (of_nat i + of_nat k :: u64) = i + k" by simp
  with i show ?thesis by (simp add: getSubName_n_def adjust_start_def Let_def)
qed

lemma getPrefix_nonneg:
  "k < 2 ^ 63 \<Longrightarrow> getPrefix n (int k) = Name (take k (components n))"
  using getSubName_n_small [of 0 k n] by (simp add: getPrefix_def)

lemma getPrefix_neg:
  assumes "0 < k" "k \<le> length (components n)" "length (components n) < 2 ^ 63"
  shows "getPrefix n (- int k) = Name (take (length (components n) - k) (components n))"
proof -
  have "of_nat (length (components n)) + of_int (- int k) = (of_nat (length (components n) - k) :: u64)"
    using assms by (simp add: of_nat_diff)
  then show ?thesis
    using getSubName_n_small [of 0 "length (components n) - k" n] assms
    by (simp add: getPrefix_def)
qed

text \<open>Dropping more components than there are gives the whole name: the count wraps.\<close>

lemma getPrefix_wraps:
  assumes "length (components n) < k" "k < 2 ^ 31"
  shows "getPrefix n (- int k) = n"
proof -
  let ?l = "length (components n)"
  have "(of_nat (2 ^ 64 - (k - ?l)) :: u64) = of_nat (2 ^ 64) - of_nat (k - ?l)"
    by (rule of_nat_diff) (use assms in simp)
  then have "of_nat ?l + of_int (- int k) = (of_nat (2 ^ 64 - (k - ?l)) :: u64)"
    using assms by (simp add: of_nat_diff)
  moreover have "unat (of_nat (2 ^ 64 - (k - ?l)) :: u64) = 2 ^ 64 - (k - ?l)"
    by (rule unat_of_nat_u64) (use assms in simp)
  ultimately have "unat (of_nat ?l + of_int (- int k) :: u64) = 2 ^ 64 - (k - ?l)" by (simp only:)
  moreover have "?l \<le> 2 ^ 64 - (k - ?l)" using assms by simp
  ultimately have "unat (of_nat ?l + of_int (- int k) :: u64) \<ge> ?l" by (simp only:)
  moreover have "getPrefix n (- int k) =
      Name (take (unat (of_nat ?l + of_int (- int k) :: u64)) (components n))"
    using assms by (simp add: getPrefix_def getSubName_n_def adjust_start_def Let_def)
  ultimately show ?thesis by simp
qed

end
