(* ===== verification/Name_Uri.thy ===== *)
theory Name_Uri
  imports Ndn_Name
begin

text \<open>
  Names as URIs (\<open>ndn-cpp/src/name.cpp\<close>): the trimming and unescaping helpers, \<open>Name::set\<close>,
  \<open>Name::fromEscapedString\<close>, \<open>Name::toEscapedString\<close> and \<open>Name::toUri\<close>, and the lemma that
  parsing a printed name gives the name back.
\<close>

section \<open>Helpers\<close>

definition WHITESPACE_CHARS :: "string" where
  "WHITESPACE_CHARS = [CHR '' '', CHR 0x0A, CHR 0x0D, CHR 0x09]"

definition trimLeft :: "string \<Rightarrow> string" where
  "trimLeft s = dropWhile (\<lambda>c. c \<in> set WHITESPACE_CHARS) s"

definition trimRight :: "string \<Rightarrow> string" where
  "trimRight s = rev (dropWhile (\<lambda>c. c \<in> set WHITESPACE_CHARS) (rev s))"

definition trim :: "string \<Rightarrow> string" where
  "trim s = trimRight (trimLeft s)"

definition fromHexChar :: "char \<Rightarrow> int" where
  "fromHexChar c =
     (if byte_val c \<ge> 0x30 \<and> byte_val c \<le> 0x39 then int (byte_val c) - 0x30
      else if byte_val c \<ge> 0x41 \<and> byte_val c \<le> 0x46 then int (byte_val c) - 0x41 + 10
      else if byte_val c \<ge> 0x61 \<and> byte_val c \<le> 0x66 then int (byte_val c) - 0x61 + 10
      else -1)"

fun unescape :: "string \<Rightarrow> string" where
  "unescape (c # x # y # rest) =
     (if c = CHR ''%'' then
        (let hi = fromHexChar x; lo = fromHexChar y in
         if hi < 0 \<or> lo < 0 then c # x # y # unescape rest
         else char_of (nat (16 * hi + lo)) # unescape rest)
      else c # unescape (x # y # rest))"
| "unescape (c # rest) = c # unescape rest"
| "unescape [] = []"

text \<open>A C string ends at its first NUL.\<close>

definition c_str :: "string \<Rightarrow> string" where
  "c_str s = takeWhile (\<lambda>c. c \<noteq> CHR 0x00) s"

fun find_char :: "char \<Rightarrow> string \<Rightarrow> nat option" where
  "find_char c [] = None"
| "find_char c (x # xs) = (if x = c then Some 0 else map_option Suc (find_char c xs))"

section \<open>Escaping\<close>

text \<open>\<open>None\<close> is the null \<open>Blob\<close> of an illegal component.\<close>

definition fromEscapedString :: "string \<Rightarrow> bytes option" where
  "fromEscapedString s =
     (let value = unescape (trim s) in
      if list_all (\<lambda>c. c = CHR ''.'') value then
        if length value \<le> 2 then None else Some (drop 3 value)
      else Some value)"

definition unescaped_char :: "byte \<Rightarrow> bool" where
  "unescaped_char x \<longleftrightarrow>
     (let v = byte_val x in
      (v \<ge> 0x30 \<and> v \<le> 0x39) \<or> (v \<ge> 0x41 \<and> v \<le> 0x5a) \<or> (v \<ge> 0x61 \<and> v \<le> 0x7a) \<or>
      v = 0x2b \<or> v = 0x2d \<or> v = 0x2e \<or> v = 0x5f)"

definition upper_hex :: "nat \<Rightarrow> char" where
  "upper_hex d = char_of (if d < 10 then 0x30 + d else 0x41 + (d - 10))"

definition escape_byte :: "byte \<Rightarrow> string" where
  "escape_byte x =
     (if unescaped_char x then [x]
      else CHR ''%'' #
        (if byte_val x < 16 then [CHR ''0'', upper_hex (byte_val x)]
         else [upper_hex (byte_val x div 16), upper_hex (byte_val x mod 16)]))"

definition toEscapedString :: "bytes \<Rightarrow> string" where
  "toEscapedString value =
     (if \<not> list_ex (\<lambda>c. c \<noteq> CHR ''.'') value then ''...'' @ map (\<lambda>_. CHR ''.'') value
      else concat (map escape_byte value))"

section \<open>Names\<close>

definition strip_scheme :: "string \<Rightarrow> string" where
  "strip_scheme uri =
     (case find_char (CHR '':'') uri of
        None \<Rightarrow> uri
      | Some iColon \<Rightarrow>
          (case find_char (CHR ''/'') uri of
             None \<Rightarrow> trim (drop (iColon + 1) uri)
           | Some iFirstSlash \<Rightarrow>
               if iColon < iFirstSlash then trim (drop (iColon + 1) uri) else uri))"

text \<open>\<open>None\<close>: there was only an authority, the name stays empty.\<close>

definition strip_authority :: "string \<Rightarrow> string option" where
  "strip_authority uri =
     (case uri of
        [] \<Rightarrow> Some uri
      | c # r \<Rightarrow>
          if c = CHR ''/'' then
            (case r of
               d # r' \<Rightarrow>
                 if d = CHR ''/'' then
                   (case find_char (CHR ''/'') r' of
                      None \<Rightarrow> None
                    | Some iAfterAuthority \<Rightarrow> Some (trim (drop (iAfterAuthority + 1) r')))
                 else Some (trim r)
             | [] \<Rightarrow> Some (trim r))
          else Some uri)"

text \<open>The loop over the rest of the URI; illegal components are skipped.\<close>

function parse_components :: "string \<Rightarrow> component list" where
  "parse_components uri =
     (if uri = [] then []
      else
        let part = takeWhile (\<lambda>c. c \<noteq> CHR ''/'') uri;
            others = parse_components (drop (length part + 1) uri) in
        case fromEscapedString part of None \<Rightarrow> others | Some v \<Rightarrow> Component v # others)"
  by pat_completeness auto
termination by (relation "measure length") auto

declare parse_components.simps [simp del]

definition name_set :: "string \<Rightarrow> name" where
  "name_set uri_cstr =
     (let uri = trim (c_str uri_cstr) in
      if uri = [] then Name []
      else
        (case strip_authority (strip_scheme uri) of
           None \<Rightarrow> Name []
         | Some rest \<Rightarrow> Name (parse_components rest)))"

definition toUri :: "name \<Rightarrow> bool \<Rightarrow> string" where
  "toUri n includeScheme =
     (if components n = [] then (if includeScheme then ''ndn:/'' else ''/'')
      else (if includeScheme then ''ndn:'' else []) @
        concat (map (\<lambda>c. CHR ''/'' # toEscapedString (getValue c)) (components n)))"

section \<open>The round trip\<close>

text \<open>The characters an escaped component is made of.\<close>

definition uri_char :: "char \<Rightarrow> bool" where
  "uri_char c \<longleftrightarrow> unescaped_char c \<or> c = CHR ''%''"

lemma unescaped_upper_hex: "d < 16 \<Longrightarrow> unescaped_char (upper_hex d)"
  by (auto simp: upper_hex_def unescaped_char_def Let_def byte_val_char_of)

lemma fromHexChar_upper_hex: "d < 16 \<Longrightarrow> fromHexChar (upper_hex d) = int d"
  by (auto simp: upper_hex_def fromHexChar_def byte_val_char_of)

lemma escape_byte_uri: "c \<in> set (escape_byte x) \<Longrightarrow> uri_char c"
proof -
  have "byte_val x < 256" by (rule byte_val_less)
  then have "byte_val x div 16 < 16" by linarith
  moreover have "unescaped_char CHR ''0''" by (simp add: unescaped_char_def)
  ultimately show "c \<in> set (escape_byte x) \<Longrightarrow> uri_char c"
    by (auto simp: escape_byte_def uri_char_def unescaped_upper_hex split: if_splits)
qed

lemma toEscapedString_uri: "c \<in> set (toEscapedString v) \<Longrightarrow> uri_char c"
proof -
  have "uri_char CHR ''.''" by (simp add: uri_char_def unescaped_char_def)
  then show "c \<in> set (toEscapedString v) \<Longrightarrow> uri_char c"
    by (auto simp: toEscapedString_def escape_byte_uri split: if_splits)
qed

lemma toEscapedString_nonempty: "toEscapedString v \<noteq> []"
  by (cases v) (auto simp: toEscapedString_def escape_byte_def list_ex_iff)

lemma uri_char_facts:
  "\<not> uri_char CHR ''/''" "\<not> uri_char CHR '':''" "\<not> uri_char CHR 0x00"
  "c \<in> set WHITESPACE_CHARS \<Longrightarrow> \<not> uri_char c"
  by (auto simp: uri_char_def unescaped_char_def WHITESPACE_CHARS_def)

lemma trim_id:
  assumes "\<And>c. c \<in> set s \<Longrightarrow> c \<notin> set WHITESPACE_CHARS"
  shows "trim s = s"
proof -
  have "trimLeft s = s" unfolding trimLeft_def using assms by (cases s) auto
  moreover have "trimRight s = s" unfolding trimRight_def using assms by (cases s rule: rev_cases) auto
  ultimately show ?thesis by (simp add: trim_def)
qed

lemma unescape_other: "c \<noteq> CHR ''%'' \<Longrightarrow> unescape (c # s) = c # unescape s"
  by (cases s; cases "tl s") auto

lemma unescape_escape_byte: "unescape (escape_byte x @ s) = x # unescape s"
proof -
  have "byte_val x < 256" by (rule byte_val_less)
  then have hi: "byte_val x div 16 < 16" by linarith
  have "\<not> unescaped_char CHR ''%''" by (simp add: unescaped_char_def)
  then have pc: "unescaped_char x \<Longrightarrow> x \<noteq> CHR ''%''" by auto
  have zero: "fromHexChar CHR ''0'' = 0" by (simp add: fromHexChar_def)
  have join: "nat (16 * int (byte_val x div 16) + int (byte_val x mod 16)) = byte_val x"
    by (metis mult_div_mod_eq of_nat_add of_nat_mult of_nat_numeral nat_int)
  show ?thesis
    using pc hi join fromHexChar_upper_hex [of "byte_val x"]
      fromHexChar_upper_hex [OF hi] fromHexChar_upper_hex [of "byte_val x mod 16"]
    by (auto simp: escape_byte_def unescape_other zero Let_def
        simp del: of_nat_mod of_nat_div)
qed

lemma unescape_escape: "unescape (concat (map escape_byte v)) = v"
  by (induction v) (simp_all add: unescape_escape_byte)

lemma unescape_dots: "unescape (replicate n CHR ''.'') = replicate n CHR ''.''"
  by (induction n) (simp_all add: unescape_other)

lemma fromEscapedString_toEscapedString: "fromEscapedString (toEscapedString v) = Some v"
proof -
  have t: "trim (toEscapedString v) = toEscapedString v"
    by (rule trim_id) (use toEscapedString_uri uri_char_facts(4) in blast)
  show ?thesis
  proof (cases "list_all (\<lambda>c. c = CHR ''.'') v")
    case True
    then have "replicate (length v) CHR ''.'' = v"
      by (intro replicate_length_same) (simp add: list_all_iff)
    then obtain n where v: "v = replicate n CHR ''.''" by (rule that [OF sym])
    have dots: "''...'' = replicate 3 CHR ''.''" by (simp add: numeral_3_eq_3)
    have "toEscapedString v = ''...'' @ v"
      unfolding v by (simp add: toEscapedString_def list_ex_iff map_replicate_const)
    then have e: "toEscapedString v = replicate (3 + n) CHR ''.''"
      unfolding v dots by (simp only: replicate_add)
    have u: "unescape (toEscapedString v) = replicate (3 + n) CHR ''.''"
      by (simp only: e unescape_dots)
    have "list_all (\<lambda>c. c = CHR ''.'') (replicate (3 + n) CHR ''.'')"
      by (simp only: list_all_iff in_set_replicate) simp
    moreover have "drop 3 (replicate (3 + n) CHR ''.'') = v"
      by (simp only: v drop_replicate diff_add_inverse)
    ultimately show ?thesis
      by (simp only: fromEscapedString_def t u Let_def if_True length_replicate) simp
  next
    case False
    then have "toEscapedString v = concat (map escape_byte v)"
      by (auto simp: toEscapedString_def list_all_iff list_ex_iff)
    with t False show ?thesis by (simp add: fromEscapedString_def unescape_escape)
  qed
qed

lemma takeWhile_component:
  "takeWhile (\<lambda>c. c \<noteq> CHR ''/'') (toEscapedString v) = toEscapedString v"
  unfolding takeWhile_eq_all_conv using toEscapedString_uri [of _ v] uri_char_facts(1) by auto

lemma parse_components_print:
  "parse_components (toEscapedString v @
     concat (map (\<lambda>c. CHR ''/'' # toEscapedString (getValue c)) cs)) = Component v # cs"
proof (induction cs arbitrary: v)
  case Nil
  show ?case
    using toEscapedString_nonempty [of v]
    by (subst parse_components.simps)
      (simp add: takeWhile_component fromEscapedString_toEscapedString parse_components.simps)
next
  case (Cons c cs)
  let ?tail = "toEscapedString (getValue c) @
    concat (map (\<lambda>c. CHR ''/'' # toEscapedString (getValue c)) cs)"
  have part: "takeWhile (\<lambda>c. c \<noteq> CHR ''/'') (toEscapedString v @ CHR ''/'' # ?tail) = toEscapedString v"
    using takeWhile_component [of v] toEscapedString_uri [of _ v] uri_char_facts(1)
    by (subst takeWhile_append2) auto
  have "parse_components ?tail = c # cs" using Cons.IH [of "getValue c"] by simp
  with part show ?case
    by (subst parse_components.simps) (simp add: fromEscapedString_toEscapedString)
qed

lemma find_char_None: "c \<notin> set s \<Longrightarrow> find_char c s = None"
  by (induction s) auto

lemma toUri_chars:
  "c \<in> set (concat (map (\<lambda>c. CHR ''/'' # toEscapedString (getValue c)) cs)) \<Longrightarrow>
   uri_char c \<or> c = CHR ''/''"
  using toEscapedString_uri by (auto split: if_splits)

lemma name_set_path:
  assumes "cs \<noteq> []"
  shows "strip_authority (concat (map (\<lambda>c. CHR ''/'' # toEscapedString (getValue c)) cs)) =
         Some (trim (tl (concat (map (\<lambda>c. CHR ''/'' # toEscapedString (getValue c)) cs))))"
proof -
  from assms obtain d ds where cs: "cs = d # ds" by (cases cs) auto
  obtain x r where x: "toEscapedString (getValue d) = x # r"
    using toEscapedString_nonempty by (cases "toEscapedString (getValue d)") auto
  then have "uri_char x" using toEscapedString_uri [of x "getValue d"] by simp
  then have "x \<noteq> CHR ''/''" using uri_char_facts(1) by auto
  with x cs show ?thesis by (simp add: strip_authority_def)
qed

lemma trim_uri:
  assumes "\<And>c. c \<in> set s \<Longrightarrow> uri_char c \<or> c = CHR ''/'' \<or> c = CHR '':''"
  shows "trim s = s"
  using assms uri_char_facts(4)
  by (intro trim_id) (fastforce simp: WHITESPACE_CHARS_def)

lemma trim_path:
  "trim (concat (map (\<lambda>c. CHR ''/'' # toEscapedString (getValue c)) cs)) =
   concat (map (\<lambda>c. CHR ''/'' # toEscapedString (getValue c)) cs)"
  by (rule trim_uri) (use toUri_chars in blast)

lemma trim_path_tl:
  "trim (tl (concat (map (\<lambda>c. CHR ''/'' # toEscapedString (getValue c)) cs))) =
   tl (concat (map (\<lambda>c. CHR ''/'' # toEscapedString (getValue c)) cs))"
proof (rule trim_uri)
  fix c assume c: "c \<in> set (tl (concat (map (\<lambda>c. CHR ''/'' # toEscapedString (getValue c)) cs)))"
  have "x \<in> set (tl xs) \<Longrightarrow> x \<in> set xs" for x :: char and xs by (cases xs) auto
  with c toUri_chars show "uri_char c \<or> c = CHR ''/'' \<or> c = CHR '':''" by blast
qed

lemma strip_scheme_ndn: "strip_scheme (''ndn:'' @ s) = trim s"
  by (cases "find_char CHR ''/'' s") (auto simp: strip_scheme_def)

lemma name_set_root: "name_set ''/'' = Name []" "name_set ''ndn:/'' = Name []"
  by code_simp+

text \<open>C8: Parsing the URI that \<open>toUri\<close> prints, with or without the scheme, gives the same name:
  escaping, the special case of the components made of periods, trimming and the stripping of the
  scheme and the authority lose nothing, whatever bytes the components hold.\<close>

theorem name_uri_roundtrip: "name_set (toUri n includeScheme) = n"
proof (cases "components n = []")
  case True
  then have "n = Name []" by (cases n) simp
  then show ?thesis by (simp add: toUri_def name_set_root)
next
  case False
  let ?path = "concat (map (\<lambda>c. CHR ''/'' # toEscapedString (getValue c)) (components n))"
  obtain c cs where cs: "components n = c # cs" using False by (cases "components n") auto
  then have hd: "?path = CHR ''/'' # tl ?path" by simp
  have chars: "uri_char x \<or> x = CHR ''/''" if "x \<in> set ?path" for x
    using that by (rule toUri_chars)
  have nul: "c_str ?path = ?path"
    unfolding c_str_def takeWhile_eq_all_conv using chars uri_char_facts(3) by fastforce
  have "CHR '':'' \<notin> set ?path" using chars uri_char_facts(2) by fastforce
  then have "find_char CHR '':'' ?path = None" by (rule find_char_None)
  then have scheme: "strip_scheme ?path = ?path" by (simp only: strip_scheme_def option.case)
  have rest: "strip_authority ?path = Some (tl ?path)"
    using name_set_path [OF False] trim_path_tl by simp
  have parsed: "Name (parse_components (tl ?path)) = n"
    using parse_components_print [of "getValue c" cs] cs by (cases n) simp
  have plain: "name_set ?path = n"
    unfolding name_set_def nul trim_path Let_def scheme rest
    using parsed hd by (metis list.discI option.simps(5))
  show ?thesis
  proof (cases includeScheme)
    case True
    have "c_str (''ndn:'' @ ?path) = ''ndn:'' @ ?path"
      using nul by (simp add: c_str_def)
    moreover have "trim (''ndn:'' @ ?path) = ''ndn:'' @ ?path"
      by (rule trim_id) (use chars uri_char_facts(4) in \<open>auto simp: WHITESPACE_CHARS_def\<close>)
    moreover have "strip_scheme (''ndn:'' @ ?path) = ?path"
      by (simp only: strip_scheme_ndn trim_path)
    ultimately have "name_set (''ndn:'' @ ?path) = n"
      unfolding name_set_def Let_def using rest parsed by simp
    with True False show ?thesis by (simp add: toUri_def)
  qed (use plain False in \<open>simp add: toUri_def\<close>)
qed

end
