(* ===== verification/Name_Wire.thy ===== *)
theory Name_Wire
  imports Ndn_Name Tlv_Decoder
begin

text \<open>
  Names on the wire (\<open>ndn-cpp/src/c/encoding/tlv/tlv-name.c\<close>): \<open>ndn_encodeTlvName\<close> and
  \<open>ndn_decodeTlvName\<close>. A decoded component is a slice of the input, as in the code, where it is a
  pointer into the input buffer. The decoding loop is iterated with \<open>run_loop\<close>; it always ends,
  because the structure has room for finitely many components.
\<close>

definition ndn_Tlv_Name :: nat where "ndn_Tlv_Name = 7"
definition ndn_Tlv_NameComponent :: nat where "ndn_Tlv_NameComponent = 8"

text \<open>The loop returns the offset at which the final component begins.\<close>

fun encode_components :: "component list \<Rightarrow> tlv_encoder \<Rightarrow> ndn_Error + (nat \<times> tlv_encoder)" where
  "encode_components [] e = Inr (te_offset e, e)"
| "encode_components [c] e =
     ebind (writeBlobTlv ndn_Tlv_NameComponent (getValue c) e) (\<lambda>e'. Inr (te_offset e, e'))"
| "encode_components (c # d # cs) e =
     ebind (writeBlobTlv ndn_Tlv_NameComponent (getValue c) e) (encode_components (d # cs))"

definition encodeTlvName :: "name \<Rightarrow> tlv_encoder \<Rightarrow> ndn_Error + ((nat \<times> nat) \<times> tlv_encoder)" where
  "encodeTlvName n e =
     (let nameValueLength =
            sum_list (map (\<lambda>c. sizeOfBlobTlv ndn_Tlv_NameComponent (getValue c)) (components n)) in
      ebind (writeTypeAndLength ndn_Tlv_Name nameValueLength e) (\<lambda>e1.
        ebind (encode_components (components n) e1) (\<lambda>(signedPortionEnd, e2).
          Inr ((te_offset e1, signedPortionEnd), e2))))"

definition decode_component ::
    "nat \<Rightarrow> u64 \<Rightarrow> slice list \<times> u64 \<times> tlv_decoder \<Rightarrow>
     (ndn_Error + (slice list \<times> u64 \<times> tlv_decoder)) + (slice list \<times> u64 \<times> tlv_decoder)" where
  "decode_component maxComponents endOffset st =
     (case st of (comps, signedPortionEnd, d) \<Rightarrow>
        if td_offset d < endOffset then
          (case readBlobTlv ndn_Tlv_NameComponent d of
             Inl e \<Rightarrow> Inl (Inl e)
           | Inr (component, d1) \<Rightarrow>
               if length comps \<ge> maxComponents
               then Inl (Inl ERR_attempt_to_add_a_component_past_the_maximum)
               else Inr (comps @ [component], td_offset d, d1))
        else Inl (Inr (comps, signedPortionEnd, d)))"

definition decodeTlvName ::
    "nat \<Rightarrow> tlv_decoder \<Rightarrow> (ndn_Error + (slice list \<times> u64 \<times> u64 \<times> tlv_decoder)) option" where
  "decodeTlvName maxComponents d =
     (case readNestedTlvsStart ndn_Tlv_Name d of
        Inl e \<Rightarrow> Some (Inl e)
      | Inr (endOffset, d1) \<Rightarrow>
          (case run_loop (decode_component maxComponents endOffset) ([], td_offset d1, d1) of
             None \<Rightarrow> None
           | Some (Inl e) \<Rightarrow> Some (Inl e)
           | Some (Inr (comps, signedPortionEnd, d2)) \<Rightarrow>
               (case finishNestedTlvs endOffset d2 of
                  None \<Rightarrow> None
                | Some (Inl e) \<Rightarrow> Some (Inl e)
                | Some (Inr d3) \<Rightarrow> Some (Inr (comps, td_offset d1, signedPortionEnd, d3)))))"

section \<open>Facts\<close>

definition component_tlvs :: "component list \<Rightarrow> bytes" where
  "component_tlvs cs = concat (map (\<lambda>c. blob_tlv_bytes ndn_Tlv_NameComponent (getValue c)) cs)"

definition name_tlv :: "name \<Rightarrow> bytes" where
  "name_tlv n = var_number_bytes (of_nat ndn_Tlv_Name) @
     var_number_bytes (of_nat (length (component_tlvs (components n)))) @ component_tlvs (components n)"

lemma component_tlvs_simps [simp]:
  "component_tlvs [] = []"
  "component_tlvs (c # cs) = blob_tlv_bytes ndn_Tlv_NameComponent (getValue c) @ component_tlvs cs"
  by (simp_all add: component_tlvs_def)

lemma encode_components_good:
  "te_good e \<Longrightarrow> \<exists>se e'. encode_components cs e = Inr (se, e') \<and> te_good e' \<and>
     te_written e' = te_written e @ component_tlvs cs"
proof (induction cs e rule: encode_components.induct)
  case (2 c e)
  from writeBlobTlv_good [OF 2(1), of ndn_Tlv_NameComponent "getValue c"] show ?case by auto
next
  case (3 c d cs e)
  from writeBlobTlv_good [OF 3(2), of ndn_Tlv_NameComponent "getValue c"] obtain e1 where
    e1: "writeBlobTlv ndn_Tlv_NameComponent (getValue c) e = Inr e1" "te_good e1"
      "te_written e1 = te_written e @ blob_tlv_bytes ndn_Tlv_NameComponent (getValue c)" by blast
  from 3(1) [OF e1(2)] e1 show ?case by auto
qed simp

lemma decode_components_at:
  assumes "td_at pre (component_tlvs cs @ rest) d" "length acc + length cs \<le> maxC"
    and "endOffset = of_nat (length pre + length (component_tlvs cs))"
  shows "\<exists>ss se d'. run_loop (decode_component maxC endOffset) (acc, se0, d) = Some (Inr (acc @ ss, se, d')) \<and>
    map (slice_bytes (td_input d)) ss = map (\<lambda>c. Some (getValue c)) cs \<and>
    td_at (pre @ component_tlvs cs) rest d'"
  using assms
proof (induction cs arbitrary: pre d acc se0)
  case Nil
  then have "\<not> td_offset d < endOffset" using td_atD(2) by simp
  then have "decode_component maxC endOffset (acc, se0, d) = Inl (Inr (acc, se0, d))"
    by (simp add: decode_component_def)
  with Nil show ?case by (auto simp: run_loop_exit)
next
  case (Cons c cs)
  let ?b = "blob_tlv_bytes ndn_Tlv_NameComponent (getValue c)"
  have at: "td_at pre (?b @ component_tlvs cs @ rest) d" using Cons.prems(1) by simp
  obtain s d1 where s: "readBlobTlv ndn_Tlv_NameComponent d = Inr (s, d1)"
      "slice_bytes (td_input d) s = Some (getValue c)" "td_at (pre @ ?b) (component_tlvs cs @ rest) d1"
      "td_input d1 = td_input d"
    using readBlobTlv_at [OF at] by (auto simp: ndn_Tlv_NameComponent_def)
  have "0 < length ?b" by (simp add: sizeOfBlobTlv_def)
  moreover have "unat endOffset = length pre + length (component_tlvs (c # cs))"
    unfolding Cons.prems(3) using td_atD(3) [OF at] by (intro unat_of_nat_u64) simp
  ultimately have "td_offset d < endOffset"
    using td_at_offset [OF at] by (simp add: word_less_nat_alt)
  with s Cons.prems(2) have "decode_component maxC endOffset (acc, se0, d) = Inr (acc @ [s], td_offset d, d1)"
    by (simp add: decode_component_def)
  moreover obtain ss se d' where
    "run_loop (decode_component maxC endOffset) (acc @ [s], td_offset d, d1) = Some (Inr ((acc @ [s]) @ ss, se, d'))"
    "map (slice_bytes (td_input d1)) ss = map (\<lambda>c. Some (getValue c)) cs"
    "td_at ((pre @ ?b) @ component_tlvs cs) rest d'"
    using Cons.IH [OF s(3), of "acc @ [s]" "td_offset d"] Cons.prems(2,3) by auto
  ultimately show ?case using s(2,4)
    by (intro exI [of _ "s # ss"] exI [of _ se] exI [of _ d']) (simp add: run_loop_next)
qed

lemma decode_terminates:
  "\<exists>r. run_loop (decode_component maxC endOffset) st = Some r"
proof (rule run_loop_terminates [where P = "\<lambda>_. True" and m = "\<lambda>st. maxC - length (fst st)"])
  fix t t' assume "decode_component maxC endOffset t = Inr t'"
  then show "True \<and> maxC - length (fst t') < maxC - length (fst t)"
    by (cases t) (auto simp: decode_component_def split: if_splits sum.splits)
qed simp

lemma decode_exit_offset:
  assumes "run_loop (decode_component maxC endOffset) st = Some (Inr (ss, se, d))"
  shows "\<not> td_offset d < endOffset"
proof -
  have "\<exists>t. True \<and> decode_component maxC endOffset t = Inl (Inr (ss, se, d))"
    by (rule run_loop_invariant [OF assms]) simp_all
  then show ?thesis
    by (auto simp: decode_component_def split: if_splits sum.splits prod.splits)
qed

lemma component_tlvs_length:
  "sum_list (map (\<lambda>c. sizeOfBlobTlv ndn_Tlv_NameComponent (getValue c)) cs) = length (component_tlvs cs)"
  by (induction cs) simp_all

lemma encodeTlvName_good:
  assumes "te_good e"
  shows "\<exists>signed e'. encodeTlvName n e = Inr (signed, e') \<and> te_good e' \<and> te_written e' = te_written e @ name_tlv n"
proof -
  obtain e1 where e1: "writeTypeAndLength ndn_Tlv_Name (length (component_tlvs (components n))) e = Inr e1"
      "te_good e1" "te_written e1 = te_written e @ var_number_bytes (of_nat ndn_Tlv_Name) @
        var_number_bytes (of_nat (length (component_tlvs (components n))))"
    using writeTypeAndLength_good [OF assms] by blast
  obtain sp e2 where e2: "encode_components (components n) e1 = Inr (sp, e2)" "te_good e2"
      "te_written e2 = te_written e1 @ component_tlvs (components n)"
    using encode_components_good [OF e1(2)] by blast
  from e1 e2 show ?thesis by (simp add: encodeTlvName_def component_tlvs_length Let_def name_tlv_def)
qed

lemma decodeTlvName_at:
  assumes at: "td_at pre (name_tlv n @ rest) d" and "name_size n \<le> maxComponents"
  shows "\<exists>comps sb se d'. decodeTlvName maxComponents d = Some (Inr (comps, sb, se, d')) \<and>
    map (slice_bytes (td_input d)) comps = map (\<lambda>c. Some (getValue c)) (components n) \<and>
    td_at (pre @ name_tlv n) rest d' \<and> td_input d' = td_input d"
proof -
  let ?cs = "components n"
  let ?h = "var_number_bytes (of_nat ndn_Tlv_Name) @ var_number_bytes (of_nat (length (component_tlvs ?cs)))"
  have "td_at pre (var_number_bytes (of_nat ndn_Tlv_Name) @
      var_number_bytes (of_nat (length (component_tlvs ?cs))) @ (component_tlvs ?cs @ rest)) d"
    using at by (simp add: name_tlv_def)
  from readTypeAndLength_at [OF this] obtain d1 where d1:
      "readTypeAndLength ndn_Tlv_Name d = Inr (of_nat (length (component_tlvs ?cs)), d1)"
      "td_at (pre @ ?h) (component_tlvs ?cs @ rest) d1"
    by (auto simp: ndn_Tlv_Name_def)
  have start: "readNestedTlvsStart ndn_Tlv_Name d =
      Inr (of_nat (length (pre @ ?h) + length (component_tlvs ?cs)), d1)"
    using d1(1) td_atD(2) [OF d1(2)] by (simp add: readNestedTlvsStart_def)
  obtain ss se d2 where d2: "run_loop (decode_component maxComponents
        (of_nat (length (pre @ ?h) + length (component_tlvs ?cs)))) ([], td_offset d1, d1) =
        Some (Inr ([] @ ss, se, d2))"
      "map (slice_bytes (td_input d1)) ss = map (\<lambda>c. Some (getValue c)) ?cs"
      "td_at ((pre @ ?h) @ component_tlvs ?cs) rest d2"
    using decode_components_at [OF d1(2), of "[]" maxComponents _ "td_offset d1"] assms(2)
    by (auto simp: name_size_def)
  have "td_offset d2 = of_nat (length (pre @ ?h) + length (component_tlvs ?cs))"
    using td_atD(2) [OF d2(3)] by simp
  then have dec: "decodeTlvName maxComponents d = Some (Inr (ss, td_offset d1, se, d2))"
    using start d2(1) by (simp add: decodeTlvName_def finishNestedTlvs_def)
  have "td_input d1 = td_input d" "td_input d2 = td_input d"
    using td_atD(1) [OF d1(2)] td_atD(1) [OF at] td_atD(1) [OF d2(3)] by (simp_all add: name_tlv_def)
  with dec d2(2,3) show ?thesis by (auto simp: name_tlv_def)
qed

section \<open>Properties\<close>

text \<open>What the encoder writes for a name, the decoder reads back: the same components, in
  order, from any position of a larger buffer, and it stops right behind the name.\<close>

theorem name_wire_roundtrip:
  assumes "te_good e" "name_size n \<le> maxComponents"
    and "length pre + length (name_tlv n) + length rest < 2 ^ 63"
  shows "\<exists>signed e' comps sb se d'. encodeTlvName n e = Inr (signed, e') \<and>
    te_written e' = te_written e @ name_tlv n \<and>
    decodeTlvName maxComponents \<lparr>td_input = pre @ name_tlv n @ rest, td_offset = of_nat (length pre)\<rparr> =
      Some (Inr (comps, sb, se, d')) \<and>
    map (slice_bytes (pre @ name_tlv n @ rest)) comps = map (\<lambda>c. Some (getValue c)) (components n) \<and>
    td_offset d' = of_nat (length pre + length (name_tlv n))"
proof -
  have at: "td_at pre (name_tlv n @ rest) \<lparr>td_input = pre @ name_tlv n @ rest, td_offset = of_nat (length pre)\<rparr>"
    using assms(3) by (simp add: td_at_def)
  obtain signed e' where e: "encodeTlvName n e = Inr (signed, e')" "te_written e' = te_written e @ name_tlv n"
    using encodeTlvName_good [OF assms(1)] by blast
  obtain comps sb se d' where d: "decodeTlvName maxComponents \<lparr>td_input = pre @ name_tlv n @ rest,
        td_offset = of_nat (length pre)\<rparr> = Some (Inr (comps, sb, se, d'))"
      "map (slice_bytes (pre @ name_tlv n @ rest)) comps = map (\<lambda>c. Some (getValue c)) (components n)"
      "td_at (pre @ name_tlv n) rest d'"
    using decodeTlvName_at [OF at assms(2)] by auto
  from e d td_atD(2) [OF d(3)] show ?thesis by auto
qed

theorem name_wire_roundtrip_witness:
  "\<exists>comps sb se d'. decodeTlvName 10 \<lparr>td_input = ''x'' @ name_tlv (Name [Component ''ab'', Component []]) @ [],
      td_offset = of_nat (length ''x'')\<rparr> = Some (Inr (comps, sb, se, d'))"
proof -
  have "length (name_tlv (Name [Component ''ab'', Component []])) = 8" by code_simp
  then show ?thesis
    using name_wire_roundtrip [of new_TlvEncoder "Name [Component ''ab'', Component []]" 10 "''x''" "[]"]
    by (auto simp: name_size_def)
qed

text \<open>C15: Decoding a name ends on every input, also on lengths that wrap the 64-bit offset: the
  loop fills a structure of bounded size, and what is left to skip behind it is nothing.\<close>

theorem decode_name_terminates: "\<exists>r. decodeTlvName maxComponents d = Some r"
proof (cases "readNestedTlvsStart ndn_Tlv_Name d")
  case (Inr p)
  obtain endOffset d1 where p: "p = (endOffset, d1)" by (cases p)
  obtain r where r: "run_loop (decode_component maxComponents endOffset) ([], td_offset d1, d1) = Some r"
    using decode_terminates by blast
  show ?thesis
  proof (cases r)
    case (Inr q)
    obtain ss se d2 where q: "q = (ss, se, d2)" by (cases q)
    then have "\<not> td_offset d2 < endOffset" using r Inr decode_exit_offset by blast
    then have "\<exists>x. finishNestedTlvs endOffset d2 = Some x"
      by (simp add: finishNestedTlvs_def skipRemainingNestedTlvs_def skipNestedTlv_def run_loop_exit)
    then obtain x where "finishNestedTlvs endOffset d2 = Some x" ..
    with \<open>readNestedTlvsStart ndn_Tlv_Name d = Inr p\<close> p r Inr q show ?thesis
      by (cases x) (simp_all add: decodeTlvName_def)
  qed (use \<open>readNestedTlvsStart ndn_Tlv_Name d = Inr p\<close> p r in \<open>simp add: decodeTlvName_def\<close>)
qed (simp add: decodeTlvName_def)

text \<open>C16: Skipping nested TLVs does not end on every input: the bound check adds the 64-bit length
  to the offset without a test for wrap-around, so a TLV of ten bytes whose length is
  \<open>2 ^ 64 - 10\<close> leads back to its own start.\<close>

definition looping_tlv :: tlv_decoder where
  "looping_tlv = \<lparr>td_input = [CHR 0x01, CHR 0xFF, CHR 0xFF, CHR 0xFF, CHR 0xFF, CHR 0xFF,
     CHR 0xFF, CHR 0xFF, CHR 0xFF, CHR 0xF6], td_offset = 0\<rparr>"

theorem skip_nested_tlvs_diverges: "skipRemainingNestedTlvs 10 looping_tlv = None"
proof -
  have "readVarNumber looping_tlv = Inr (1, td_advance 1 looping_tlv)"
    by (simp add: looping_tlv_def readVarNumber_def td_inputLength_def mem_get_def)
  moreover have "readVarNumber (td_advance 1 looping_tlv) = Inr (- 10, td_advance 10 looping_tlv)"
    by (simp add: looping_tlv_def readVarNumber_def td_inputLength_def mem_get_def td_advance_def
        readExtendedVarNumber_def read_be_def mem_read_def be_value_def word_le_nat_alt)
  ultimately have "skipNestedTlv 10 looping_tlv = Inr looping_tlv"
    by (simp add: skipNestedTlv_def looping_tlv_def td_advance_def td_inputLength_def)
  then show ?thesis by (simp add: skipRemainingNestedTlvs_def run_loop_stuck)
qed

end
