(* ===== verification/Rtc_Namespace.thy ===== *)
theory Rtc_Namespace
  imports Name_Uri
begin

text \<open>
  The naming scheme of the library (\<open>ndnrtc/cpp/src/ndnrtc-namespace.cpp\<close>,
  \<open>name-components.cpp\<close> and the number conversions of \<open>ndnrtc-utils.cpp\<close>). Names of media
  data have the form \<open><hub>/ndnrtc/user/<user>/streams/<stream>/<thread>/<delta|key>/<packet>/
  <data|parity>/<segment>/...\<close>. A result \<open>None\<close> stands for behaviour that C++ leaves undefined
  (overflow of a signed conversion) or for a thrown exception.
\<close>

section \<open>The components of names\<close>

definition NameComponentApp :: "string" where
  "NameComponentApp = ''ndnrtc''"

definition NameComponentUser :: "string" where
  "NameComponentUser = ''user''"

definition NameComponentSession :: "string" where
  "NameComponentSession = ''session-info''"

definition NameComponentUserStreams :: "string" where
  "NameComponentUserStreams = ''streams''"

definition NameComponentStreamKey :: "string" where
  "NameComponentStreamKey = ''key''"

definition NameComponentStreamFramesDelta :: "string" where
  "NameComponentStreamFramesDelta = ''delta''"

definition NameComponentStreamFramesKey :: "string" where
  "NameComponentStreamFramesKey = ''key''"

definition NameComponentFrameSegmentData :: "string" where
  "NameComponentFrameSegmentData = ''data''"

definition NameComponentFrameSegmentParity :: "string" where
  "NameComponentFrameSegmentParity = ''parity''"

definition KeyComponent :: "string" where
  "KeyComponent = ''DSK-1408''"

definition CertificateComponent :: "string" where
  "CertificateComponent = ''KEY/ID-CERT/0''"

section \<open>Paths\<close>

fun build_path_rest :: "string list \<Rightarrow> string" where
  "build_path_rest [] = []"
| "build_path_rest (s # rest) = s @ (if rest = [] then [] else ''/'' @ build_path_rest rest)"

definition buildPath :: "bool \<Rightarrow> string list \<Rightarrow> string" where
  "buildPath precede comps =
     (case comps of [] \<Rightarrow> []
      | c # cs \<Rightarrow> (if precede then ''/'' else []) @ build_path_rest (c # cs))"

definition getProducerPrefix :: "string \<Rightarrow> string \<Rightarrow> string" where
  "getProducerPrefix hub producerId =
     buildPath (case hub of [] \<Rightarrow> True | c # _ \<Rightarrow> c \<noteq> CHR ''/'')
       [hub, NameComponentApp, NameComponentUser, producerId]"

definition getStreamPath :: "string \<Rightarrow> string \<Rightarrow> string \<Rightarrow> string" where
  "getStreamPath hub producerId streamName =
     buildPath False [getProducerPrefix hub producerId, NameComponentUserStreams, streamName]"

definition getNumberComponent :: "nat \<Rightarrow> bytes" where
  "getNumberComponent frameNo = dec_string frameNo"

definition getStreamPrefix :: "string \<Rightarrow> string \<Rightarrow> string" where
  "getStreamPrefix userPrefix streamName =
     buildPath False [userPrefix, NameComponentUserStreams, streamName]"

definition getThreadPrefix :: "string \<Rightarrow> string \<Rightarrow> string" where
  "getThreadPrefix streamPrefix threadName = buildPath False [streamPrefix, threadName]"

definition getThreadFramesPrefix :: "string \<Rightarrow> bool \<Rightarrow> string" where
  "getThreadFramesPrefix threadPrefix isKeyNamespace =
     buildPath False
       [threadPrefix,
        if isKeyNamespace then NameComponentStreamFramesKey else NameComponentStreamFramesDelta]"

definition getSessionInfoPrefix :: "string \<Rightarrow> string" where
  "getSessionInfoPrefix userPrefix = buildPath False [userPrefix, NameComponentSession]"

definition keyPrefixForUser :: "string \<Rightarrow> name" where
  "keyPrefixForUser userPrefix =
     name_set (buildPath False [userPrefix, NameComponentStreamKey, KeyComponent])"

definition certificateNameForUser :: "string \<Rightarrow> name" where
  "certificateNameForUser userPrefix =
     name_append_name (keyPrefixForUser userPrefix) (name_set CertificateComponent)"

definition NameComponents_getThreadPrefix :: "string \<Rightarrow> string \<Rightarrow> string \<Rightarrow> string \<Rightarrow> string" where
  "NameComponents_getThreadPrefix threadName streamName username prefix =
     getThreadPrefix (getStreamPath prefix username streamName) threadName"

definition appendStringComponent :: "name \<Rightarrow> string \<Rightarrow> name" where
  "appendStringComponent prefix s = name_append prefix (Component s)"

definition appendDataKind :: "name \<Rightarrow> bool \<Rightarrow> name" where
  "appendDataKind prefix shouldAppendParity =
     appendStringComponent prefix
       (if shouldAppendParity then NameComponentFrameSegmentParity else NameComponentFrameSegmentData)"

definition getUserName :: "string \<Rightarrow> string" where
  "getUserName prefix =
     (case find_sub NameComponentUser prefix of
        None \<Rightarrow> []
      | Some userComp \<Rightarrow>
          let startPos = userComp + length NameComponentUser + 1 in
          if length prefix \<ge> startPos then takeWhile (\<lambda>c. c \<noteq> CHR ''/'') (drop startPos prefix)
          else [])"

section \<open>Numbers in components\<close>

text \<open>\<open>result *= 256.0\<close> goes through \<open>double\<close>; the conversion back is undefined out of range.\<close>

fun segmentNumber_loop :: "int \<Rightarrow> bytes \<Rightarrow> int option" where
  "segmentNumber_loop result [] = Some result"
| "segmentNumber_loop result (b # bs) =
     (if result * 256 < 2 ^ 31 then segmentNumber_loop (result * 256 + int (byte_val b)) bs else None)"

definition segmentNumber :: "component \<Rightarrow> int option" where
  "segmentNumber c = segmentNumber_loop 0 (getValue c)"

text \<open>\<open>result *= 10\<close> is a signed product, \<open>result += (unsigned int)...\<close> wraps.\<close>

fun intFromComponent_loop :: "int \<Rightarrow> bytes \<Rightarrow> int option" where
  "intFromComponent_loop result [] = Some result"
| "intFromComponent_loop result (b # bs) =
     (if \<not> (48 \<le> byte_val b \<and> byte_val b \<le> 57) then Some (-1)
      else if result * 10 < - (2 ^ 31) \<or> result * 10 \<ge> 2 ^ 31 then None
      else intFromComponent_loop (wrap32 (result * 10 + (int (byte_val b) - 48))) bs)"

definition intFromComponent :: "component \<Rightarrow> int option" where
  "intFromComponent c = intFromComponent_loop 0 (getValue c)"

definition frameNumber :: "component \<Rightarrow> int option" where
  "frameNumber c = intFromComponent c"

definition componentFromInt :: "u32 \<Rightarrow> component" where
  "componentFromInt number = Component (dec_string (unat number))"

definition nonceToBlob :: "u32 \<Rightarrow> bytes" where
  "nonceToBlob nonceValue = be_bytes 4 (unat nonceValue)"

definition blobToNonce :: "bytes \<Rightarrow> u32" where
  "blobToNonce blob = (if length blob < 4 then 0 else of_nat (be_value (take 4 blob)))"

section \<open>Classification of names\<close>

definition hasComponent :: "name \<Rightarrow> string \<Rightarrow> bool \<Rightarrow> bool" where
  "hasComponent prefix componentString isClosed =
     (let prefixStr = toUri prefix False;
          s1 = (case componentString of
                  [] \<Rightarrow> ''/''
                | c # _ \<Rightarrow> if c \<noteq> CHR ''/'' then CHR ''/'' # componentString else componentString);
          searchStr = (if isClosed \<and> last s1 \<noteq> CHR ''/'' then s1 @ ''/'' else s1) in
      find_sub searchStr prefixStr \<noteq> None)"

text \<open>The loop runs from the last component down to the first.\<close>

fun findComponent_below :: "nat \<Rightarrow> component list \<Rightarrow> component \<Rightarrow> int" where
  "findComponent_below 0 cs c = -1"
| "findComponent_below (Suc i) cs c =
     (if cs ! i = c then int i else findComponent_below i cs c)"

definition findComponent :: "name \<Rightarrow> string \<Rightarrow> int" where
  "findComponent prefix componentString =
     findComponent_below (name_size prefix) (components prefix) (Component componentString)"

definition isKeyFramePrefix :: "name \<Rightarrow> bool" where
  "isKeyFramePrefix prefix =
     (let prefixString = toUri prefix False;
          n1 = find_int NameComponentUserStreams prefixString;
          n2 = find_int NameComponentStreamFramesKey prefixString in
      \<not> (n1 = n2) \<and> n1 \<ge> 0 \<and> n1 < n2)"

definition isDeltaFramePrefix :: "name \<Rightarrow> bool" where
  "isDeltaFramePrefix prefix =
     (let prefixString = toUri prefix False;
          n1 = find_int NameComponentUserStreams prefixString;
          n2 = find_int NameComponentStreamFramesDelta prefixString in
      \<not> (n1 = n2) \<and> n1 \<ge> 0 \<and> n1 < n2)"

definition isValidInterestPrefix :: "name \<Rightarrow> bool" where
  "isValidInterestPrefix prefix \<longleftrightarrow> isKeyFramePrefix prefix \<or> isDeltaFramePrefix prefix"

definition isParitySegmentPrefix :: "name \<Rightarrow> bool" where
  "isParitySegmentPrefix prefix = hasComponent prefix NameComponentFrameSegmentParity True"

text \<open>The loop of \<open>isPrefix\<close>; \<open>get\<close> is in range there.\<close>

fun isPrefix_loop :: "component list \<Rightarrow> component list \<Rightarrow> bool" where
  "isPrefix_loop (c # cs) (p # ps) = (if p \<noteq> c then False else isPrefix_loop cs ps)"
| "isPrefix_loop cs ps = True"

definition isPrefix :: "name \<Rightarrow> name \<Rightarrow> bool" where
  "isPrefix n prefix =
     (if name_equals prefix n then True
      else if name_size prefix \<le> name_size n \<and>
          \<not> isPrefix_loop (components n) (components prefix) then False
      else True)"

text \<open>The position of the component that names the namespace of the packet.\<close>

definition framesComponent :: "name \<Rightarrow> int" where
  "framesComponent prefix =
     (if isDeltaFramePrefix prefix then findComponent prefix NameComponentStreamFramesDelta
      else if isKeyFramePrefix prefix then findComponent prefix NameComponentStreamFramesKey
      else -1)"

definition getPacketNumber :: "name \<Rightarrow> int option" where
  "getPacketNumber prefix =
     (let p = framesComponent prefix in
      if p > 0 \<and> p + 1 < int (name_size prefix) then
        Option.bind (name_get prefix (p + 1)) frameNumber
      else Some (-1))"

definition getSegmentNumber :: "name \<Rightarrow> int option" where
  "getSegmentNumber prefix =
     (let p = framesComponent prefix in
      if p > 0 \<and> p + 3 < int (name_size prefix) then
        Option.bind (name_get prefix (p + 3)) segmentNumber
      else Some (-1))"

definition getSegmentationNumbers :: "name \<Rightarrow> (int \<times> int) option" where
  "getSegmentationNumbers prefix =
     (let p = framesComponent prefix in
      if p > 0 then do {
        packetNumber \<leftarrow>
          (if p + 1 < int (name_size prefix) then Option.bind (name_get prefix (p + 1)) frameNumber
           else Some (-1));
        segNumber \<leftarrow>
          (if p + 3 < int (name_size prefix) then Option.bind (name_get prefix (p + 3)) segmentNumber
           else Some (-1));
        Some (packetNumber, segNumber)
      } else Some (-1, -1))"

section \<open>Trimming\<close>

text \<open>Each function returns the position it cut at and the trimmed name.\<close>

definition trimSegmentNumber :: "name \<Rightarrow> (int \<times> name) option" where
  "trimSegmentNumber prefix = do {
     segNo \<leftarrow> getSegmentNumber prefix;
     if segNo = -1 then Some (-1, prefix)
     else
       let p = framesComponent prefix in
       if p > 0 \<and> p + 3 < int (name_size prefix) then
         Some (p + 3, getSubName_n prefix 0 (of_int (p + 3)))
       else Some (p, prefix)
   }"

definition trimPacketNumber :: "name \<Rightarrow> int \<times> name" where
  "trimPacketNumber prefix =
     (let p = framesComponent prefix in
      if p > 0 then (p + 1, getSubName_n prefix 0 (of_int (p + 1))) else (p, prefix))"

definition trimDataTypeComponent :: "name \<Rightarrow> (int \<times> name) option" where
  "trimDataTypeComponent prefix = do {
     packetNo \<leftarrow> getPacketNumber prefix;
     if packetNo = -1 then Some (-1, prefix)
     else
       let p = (if isParitySegmentPrefix prefix then findComponent prefix NameComponentFrameSegmentParity
                else findComponent prefix NameComponentFrameSegmentData) in
       if p > 0 then Some (p, getSubName_n prefix 0 (of_int p)) else Some (p, prefix)
   }"

text \<open>\<open>n1 == n2 == n3\<close> compares the truth value of \<open>n1 == n2\<close> with \<open>n3\<close>.\<close>

definition trimmedLookupPrefix :: "name \<Rightarrow> bool \<times> name" where
  "trimmedLookupPrefix prefix =
     (let prefixString = toUri prefix False;
          n1 = find_int NameComponentUserStreams prefixString;
          n2 = find_int NameComponentStreamFramesKey prefixString;
          n3 = find_int NameComponentStreamFramesDelta prefixString in
      if \<not> ((if n1 = n2 then 1 else 0) = n3) \<and> n1 \<ge> 0 \<and> (n1 < n2 \<or> n1 < n3) then
        let p1 = find_int NameComponentFrameSegmentData prefixString;
            p2 = find_int NameComponentFrameSegmentParity prefixString in
        if \<not> (p1 = p2) then
          let p = (if p1 = -1 then findComponent prefix NameComponentFrameSegmentParity
                   else findComponent prefix NameComponentFrameSegmentData) in
          (True, getSubName_n prefix 0 (of_int p))
        else (True, prefix)
      else (False, prefix))"

section \<open>Facts\<close>

lemma segmentNumber_loop_value:
  "0 \<le> r \<Longrightarrow> r * 256 ^ length bs + int (be_value bs) < 2 ^ 31 \<Longrightarrow>
   segmentNumber_loop r bs = Some (r * 256 ^ length bs + int (be_value bs))"
proof (induction bs arbitrary: r)
  case (Cons b bs)
  let ?r = "r * 256 + int (byte_val b)"
  have eq: "r * 256 ^ length (b # bs) + int (be_value (b # bs)) = ?r * 256 ^ length bs + int (be_value bs)"
    by (simp add: be_value_Cons algebra_simps)
  have "?r \<le> ?r * 256 ^ length bs + int (be_value bs)"
    using Cons.prems(1) mult_left_mono [of 1 "256 ^ length bs" ?r] by simp
  then have "r * 256 < 2 ^ 31" using Cons.prems eq by linarith
  with Cons.IH [of ?r] Cons.prems eq show ?case by simp
qed simp

lemma segmentNumber_value:
  "int (be_value (getValue c)) < 2 ^ 31 \<Longrightarrow> segmentNumber c = Some (int (be_value (getValue c)))"
  using segmentNumber_loop_value [of 0 "getValue c"] by (simp add: segmentNumber_def)

lemma segmentNumber_appendSegment:
  assumes "uint v < 2 ^ 31"
  shows "\<exists>c. fromNumberWithMarker v (char_of (0 :: nat)) = Some c \<and> segmentNumber c = Some (uint v)"
proof -
  have "be_value (char_of (0 :: nat) # nonneg_bytes v) = unat v"
    by (simp add: be_value_Cons be_value_nonneg_bytes byte_val_char_of)
  then show ?thesis
    using assms segmentNumber_value [of "Component (char_of (0 :: nat) # nonneg_bytes v)"]
    by (simp add: fromNumberWithMarker_eq)
qed

lemma intFromComponent_loop_append:
  "intFromComponent_loop r xs = Some r' \<Longrightarrow> (\<forall>c \<in> set xs. 48 \<le> byte_val c \<and> byte_val c \<le> 57) \<Longrightarrow>
   intFromComponent_loop r (xs @ ys) = intFromComponent_loop r' ys"
  by (induction xs arbitrary: r) (auto split: if_splits)

lemma intFromComponent_digit:
  assumes "0 \<le> q" "d < 10" "q * 10 + int d < 2 ^ 31"
  shows "intFromComponent_loop q [digit d] = Some (q * 10 + int d)"
  using assms by simp

lemma intFromComponent_dec_string:
  "int n < 2 ^ 31 \<Longrightarrow> intFromComponent_loop 0 (dec_string n) = Some (int n)"
proof (induction n rule: dec_string.induct)
  case (1 n)
  show ?case
  proof (cases "n < 10")
    case False
    with 1 have "intFromComponent_loop 0 (dec_string (n div 10)) = Some (int (n div 10))" by simp
    then have "intFromComponent_loop 0 (dec_string (n div 10) @ [digit (n mod 10)]) =
        intFromComponent_loop (int (n div 10)) [digit (n mod 10)]"
      by (rule intFromComponent_loop_append) (use dec_string_digits in blast)
    moreover have "int (n div 10) * 10 + int (n mod 10) = int n"
      by (metis div_mult_mod_eq of_nat_add of_nat_mult of_nat_numeral)
    moreover from this have
      "intFromComponent_loop (int (n div 10)) [digit (n mod 10)] = Some (int (n div 10) * 10 + int (n mod 10))"
      using 1(2) by (intro intFromComponent_digit) simp_all
    ultimately show ?thesis using False
      by (subst dec_string.simps) simp
  qed (use 1 in \<open>simp add: dec_string.simps [of n]\<close>)
qed

lemma frameNumber_componentFromInt:
  "uint n < 2 ^ 31 \<Longrightarrow> frameNumber (componentFromInt n) = Some (uint n)"
  using intFromComponent_dec_string [of "unat n"]
  by (simp add: frameNumber_def intFromComponent_def componentFromInt_def)

lemma findComponent_below_cases:
  "(findComponent_below i cs c = -1 \<and> (\<forall>j < i. cs ! j \<noteq> c)) \<or>
   (\<exists>j < i. findComponent_below i cs c = int j \<and> cs ! j = c \<and> (\<forall>k. j < k \<and> k < i \<longrightarrow> cs ! k \<noteq> c))"
proof (induction i)
  case (Suc i)
  show ?case
  proof (cases "cs ! i = c")
    case False
    with Suc show ?thesis by (auto simp: less_Suc_eq)
  qed auto
qed simp

lemma findComponent_last:
  assumes "Component s \<notin> set ds"
  shows "findComponent (Name (cs @ Component s # ds)) s = int (length cs)"
proof -
  let ?all = "cs @ Component s # ds"
  have "?all ! length cs = Component s" by simp
  moreover have "?all ! k \<noteq> Component s" if "length cs < k" "k < length ?all" for k
    using assms that by (auto simp: nth_append nth_Cons' in_set_conv_nth)
  ultimately show ?thesis
    using findComponent_below_cases [of "length ?all" ?all "Component s"]
    unfolding findComponent_def name_size_def name.sel
    by (metis length_append length_Cons less_add_Suc1 linorder_neqE_nat less_le_trans add_Suc_right)
qed

lemma isPrefix_loop_iff:
  "length ps \<le> length cs \<Longrightarrow> isPrefix_loop cs ps \<longleftrightarrow> take (length ps) cs = ps"
  by (induction cs ps rule: isPrefix_loop.induct) auto

lemma nonce_roundtrip: "blobToNonce (nonceToBlob nonce) = nonce"
proof -
  have "unat nonce < 256 ^ 4" using unsigned_less [where 'a = nat, of nonce] by simp
  then show ?thesis by (simp add: blobToNonce_def nonceToBlob_def be_value_be_bytes)
qed

lemma framesComponent_delta:
  assumes "isDeltaFramePrefix n" "n = Name (pre @ Component NameComponentStreamFramesDelta # rest)"
    "Component NameComponentStreamFramesDelta \<notin> set rest"
  shows "framesComponent n = int (length pre)"
  using assms findComponent_last by (simp add: framesComponent_def)

lemma framesComponent_key:
  assumes "isKeyFramePrefix n" "\<not> isDeltaFramePrefix n"
    "n = Name (pre @ Component NameComponentStreamFramesKey # rest)"
    "Component NameComponentStreamFramesKey \<notin> set rest"
  shows "framesComponent n = int (length pre)"
  using assms findComponent_last by (simp add: framesComponent_def)

lemma name_get_append: "name_get (Name (pre @ xs)) (int (length pre) + int i) =
    (if i < length xs then Some (xs ! i) else None)"
  by (auto simp: name_get_def nth_append nat_add_distrib Let_def)

lemma segmentation_numbers_at:
  assumes "framesComponent n = int (length pre)" "pre \<noteq> []"
    "n = Name (pre @ k # componentFromInt packet # kind # segment # rest)"
    "uint packet < 2 ^ 31" "fromNumberWithMarker seg (char_of (0 :: nat)) = Some segment"
    "uint seg < 2 ^ 31"
  shows "getSegmentationNumbers n = Some (uint packet, uint seg)"
    "getPacketNumber n = Some (uint packet)" "getSegmentNumber n = Some (uint seg)"
proof -
  have g: "name_get n (int (length pre) + 1) = Some (componentFromInt packet)"
      "name_get n (int (length pre) + 3) = Some segment"
    unfolding assms(3) using name_get_append [where i = 1] name_get_append [where i = 3] by simp_all
  have f: "frameNumber (componentFromInt packet) = Some (uint packet)"
    by (rule frameNumber_componentFromInt [OF assms(4)])
  have sn: "segmentNumber segment = Some (uint seg)"
    using segmentNumber_appendSegment [OF assms(6)] assms(5) by simp
  have l: "0 < int (length pre)" "int (length pre) + 3 < int (name_size n)"
    using assms(2,3) by (simp_all add: name_size_def)
  with g f sn show "getSegmentationNumbers n = Some (uint packet, uint seg)"
    "getPacketNumber n = Some (uint packet)" "getSegmentNumber n = Some (uint seg)"
    by (simp_all add: getSegmentationNumbers_def getPacketNumber_def getSegmentNumber_def assms(1) Let_def)
qed

section \<open>Properties\<close>

text \<open>In the name of a segment, the packet number and the segment number are the ones the
  producer appended, for delta and for key frames. The hypotheses say that the name has the
  layout the producer builds and that the search for the namespace words in the URI classifies it
  (a user or stream name that holds one of these words can break the classification).\<close>

theorem segmentation_numbers_of_media_name:
  assumes "isDeltaFramePrefix n \<and> frames = NameComponentStreamFramesDelta \<or>
      isKeyFramePrefix n \<and> \<not> isDeltaFramePrefix n \<and> frames = NameComponentStreamFramesKey"
    and "n = Name (pre @ Component frames # componentFromInt packet # kind # segment # rest)"
    and "pre \<noteq> []" "Component frames \<notin> set (componentFromInt packet # kind # segment # rest)"
    and "uint packet < 2 ^ 31" "uint seg < 2 ^ 31"
    and "fromNumberWithMarker seg (char_of (0 :: nat)) = Some segment"
  shows "getSegmentationNumbers n = Some (uint packet, uint seg) \<and>
    getPacketNumber n = Some (uint packet) \<and> getSegmentNumber n = Some (uint seg)"
proof -
  have "framesComponent n = int (length pre)"
    using assms(1)
  proof (elim disjE conjE)
    assume "isDeltaFramePrefix n" "frames = NameComponentStreamFramesDelta"
    then show ?thesis using framesComponent_delta [of n pre] assms(2,4) by simp
  next
    assume "isKeyFramePrefix n" "\<not> isDeltaFramePrefix n" "frames = NameComponentStreamFramesKey"
    then show ?thesis using framesComponent_key [of n pre] assms(2,4) by simp
  qed
  from segmentation_numbers_at [OF this assms(3,2,5,7,6)] show ?thesis by simp
qed

theorem segmentation_numbers_of_media_name_witness:
  "getSegmentationNumbers (Name [Component ''ndn'', Component ''streams'', Component ''delta'',
      Component ''7'', Component ''data'', Component [CHR 0x00, CHR 0x05]]) = Some (7, 5)"
proof -
  let ?n = "Name ([Component ''ndn'', Component ''streams''] @ Component ''delta'' #
      componentFromInt 7 # Component ''data'' # Component [CHR 0x00, CHR 0x05] # [])"
  have c: "componentFromInt 7 = Component ''7''" by code_simp
  have "isDeltaFramePrefix ?n" unfolding c by code_simp
  moreover have "fromNumberWithMarker 5 (char_of (0 :: nat)) = Some (Component [CHR 0x00, CHR 0x05])"
    by code_simp
  ultimately have "getSegmentationNumbers ?n = Some (uint (7 :: u32), uint (5 :: u64))"
    using segmentation_numbers_of_media_name [of ?n NameComponentStreamFramesDelta
        "[Component ''ndn'', Component ''streams'']" 7 "Component ''data''" "Component [CHR 0x00, CHR 0x05]" "[]" 5]
    by (simp add: NameComponentStreamFramesDelta_def c)
  then show ?thesis by (simp add: c)
qed

text \<open>\<open>isPrefix\<close> decides the prefix relation except when the prefix is longer than the
  name: then it answers \<open>true\<close> whatever the components are, where \<open>Name::match\<close> answers
  \<open>false\<close>.\<close>

theorem isPrefix_exact:
  "isPrefix n prefix \<longleftrightarrow> name_size n < name_size prefix \<or> name_match prefix n"
proof -
  have "isPrefix_loop (components n) (components prefix) \<longleftrightarrow> name_match prefix n"
    if "name_size prefix \<le> name_size n"
    using that isPrefix_loop_iff [of "components prefix" "components n"]
    by (auto simp: name_size_def name_match_def components_agree_below_iff)
  moreover have "name_match n n" by (simp add: name_match_iff)
  ultimately show ?thesis by (auto simp: isPrefix_def name_equals_iff)
qed

text \<open>Numbers survive their components: packet numbers (decimal), segment numbers (marker and
  big-endian) and nonces (4 bytes, big-endian).\<close>

theorem number_component_roundtrips:
  assumes "uint packet < 2 ^ 31" "uint seg < 2 ^ 31"
  shows "frameNumber (componentFromInt packet) = Some (uint packet) \<and>
    map_option segmentNumber (fromNumberWithMarker seg (char_of (0 :: nat))) = Some (Some (uint seg)) \<and>
    blobToNonce (nonceToBlob nonce) = nonce"
  using frameNumber_componentFromInt [OF assms(1)] segmentNumber_appendSegment [OF assms(2)]
    nonce_roundtrip by auto

theorem number_component_roundtrips_witness:
  "frameNumber (componentFromInt 1234) = Some 1234 \<and> blobToNonce (nonceToBlob 77) = 77"
  using number_component_roundtrips [of 1234 12 77] by simp

end
