(* ===== verification/Frame_Data.thy ===== *)
theory Frame_Data
  imports Rtc_Namespace
begin

text \<open>
  The data that travels in segments (\<open>ndnrtc/cpp/src/frame-data.cpp\<close>, \<open>frame-data.h\<close>): the
  metadata that names carry, the header of a segment, the video frame and the audio bundle. The
  structures are packed and little-endian; a \<open>double\<close> field is kept as its 64 bits, because the
  code only copies it. A buffer is the list of bytes from a pointer to the end of its allocation;
  an access beyond it is \<open>None\<close>. A pointer that may be \<open>NULL\<close> is an option.
\<close>

definition get_le :: "bytes \<Rightarrow> nat \<Rightarrow> nat \<Rightarrow> nat option" where
  "get_le data off w = map_option le_value (mem_read data off w)"

lemma get_le_append:
  "length pre = off \<Longrightarrow> get_le (pre @ le_bytes w v @ post) off w = Some (v mod 256 ^ w)"
  by (simp add: get_le_def mem_read_def le_value_le_bytes)

lemma get_le_Nil: "get_le (le_bytes w v @ post) 0 w = Some (v mod 256 ^ w)"
  using get_le_append [of "[]" 0] by simp

lemma get_le_bound: "get_le data off w = Some v \<Longrightarrow> off + w \<le> length data \<and> v < 256 ^ w"
  using le_value_less [of "take w (drop off data)"]
  by (auto simp: get_le_def mem_read_def split: if_splits)

lemma get_le_skip: "length pre \<le> off \<Longrightarrow> get_le (pre @ xs) off w = get_le xs (off - length pre) w"
  by (auto simp: get_le_def mem_read_def)

section \<open>Metadata in names\<close>

record PrefixMetaInfo =
  totalSegmentsNum :: int
  playbackNo :: int
  pairedSequenceNo :: int
  paritySegmentsNum :: int
  crcValue :: int

definition PREFIX_META_NCOMP :: int where
  "PREFIX_META_NCOMP = 5"

definition PrefixMetaInfo_toName :: "PrefixMetaInfo \<Rightarrow> name" where
  "PrefixMetaInfo_toName meta =
     (let n0 = name_set [];
          n1 = name_append n0 (componentFromInt (of_int (totalSegmentsNum meta)));
          n2 = name_append n1 (componentFromInt (of_int (playbackNo meta)));
          n3 = name_append n2 (componentFromInt (of_int (pairedSequenceNo meta)));
          n4 = name_append n3 (componentFromInt (of_int (paritySegmentsNum meta))) in
      name_append n4 (componentFromInt (of_int (crcValue meta))))"

text \<open>\<open>meta\<close> is the structure the caller passes by reference.\<close>

definition extractMetadata :: "name \<Rightarrow> PrefixMetaInfo \<Rightarrow> (result \<times> PrefixMetaInfo) option" where
  "extractMetadata prefix meta =
     (if int (name_size prefix) \<ge> PREFIX_META_NCOMP then do {
        v0 \<leftarrow> Option.bind (name_get prefix (0 - PREFIX_META_NCOMP)) intFromComponent;
        v1 \<leftarrow> Option.bind (name_get prefix (1 - PREFIX_META_NCOMP)) intFromComponent;
        v2 \<leftarrow> Option.bind (name_get prefix (2 - PREFIX_META_NCOMP)) intFromComponent;
        v3 \<leftarrow> Option.bind (name_get prefix (3 - PREFIX_META_NCOMP)) intFromComponent;
        v4 \<leftarrow> Option.bind (name_get prefix (4 - PREFIX_META_NCOMP)) intFromComponent;
        Some (RESULT_OK, \<lparr>totalSegmentsNum = v0, playbackNo = v1, pairedSequenceNo = v2,
          paritySegmentsNum = v3, crcValue = v4\<rparr>)
      } else Some (RESULT_ERR, meta))"

lemma intFromComponent_componentFromInt:
  assumes "0 \<le> v" "v < 2 ^ 31"
  shows "intFromComponent (componentFromInt (of_int v)) = Some v"
proof -
  have "uint (of_int v :: u32) = v" using assms by (simp add: unsigned_of_int take_bit_int_eq_self)
  then show ?thesis
    using frameNumber_componentFromInt [of "of_int v"] assms by (simp add: frameNumber_def)
qed

lemma name_set_Nil: "name_set [] = Name []"
  by code_simp

lemma extractMetadata_suffix:
  assumes "\<forall>f \<in> {totalSegmentsNum, playbackNo, pairedSequenceNo, paritySegmentsNum, crcValue}.
    0 \<le> f meta \<and> f meta < 2 ^ 31"
  shows "extractMetadata (name_append_name prefix (PrefixMetaInfo_toName meta)) meta0 =
    Some (RESULT_OK, meta)"
proof -
  let ?c = "\<lambda>v. componentFromInt (of_int v)"
  have suffix: "components (PrefixMetaInfo_toName meta) =
      [?c (totalSegmentsNum meta), ?c (playbackNo meta), ?c (pairedSequenceNo meta),
       ?c (paritySegmentsNum meta), ?c (crcValue meta)]" (is "_ = ?cs")
    by (simp add: PrefixMetaInfo_toName_def name_set_Nil name_append_def Let_def)
  have get: "name_get (Name (components prefix @ ?cs)) (int i - 5) = Some (?cs ! i)" if "i < 5" for i
    using that by (simp add: name_get_def Let_def nth_append)
      (simp add: nat_add_distrib nat_diff_distrib algebra_simps flip: of_nat_diff)
  have "intFromComponent (?c (f meta)) = Some (f meta)"
    if "f \<in> {totalSegmentsNum, playbackNo, pairedSequenceNo, paritySegmentsNum, crcValue}" for f
    using assms that by (intro intFromComponent_componentFromInt) auto
  then show ?thesis
    using get [of 0] get [of 1] get [of 2] get [of 3] get [of 4]
    by (simp add: name_append_name_def name_append_all_eq suffix extractMetadata_def
        PREFIX_META_NCOMP_def name_size_def)
qed

text \<open>The metadata a producer appends to a name is what the consumer reads back from the end
  of the name, whatever prefix stands before it, when every field is a non-negative \<open>int\<close>.\<close>

theorem prefix_meta_roundtrip:
  assumes "\<forall>f \<in> {totalSegmentsNum, playbackNo, pairedSequenceNo, paritySegmentsNum, crcValue}.
    0 \<le> f meta \<and> f meta < 2 ^ 31"
  shows "extractMetadata (name_append_name prefix (PrefixMetaInfo_toName meta)) meta0 =
    Some (RESULT_OK, meta)"
  using assms by (rule extractMetadata_suffix)

theorem prefix_meta_roundtrip_witness:
  "extractMetadata (name_append_name (Name [Component ''hub''])
      (PrefixMetaInfo_toName \<lparr>totalSegmentsNum = 9, playbackNo = 120, pairedSequenceNo = 4,
        paritySegmentsNum = 2, crcValue = 65535\<rparr>))
      \<lparr>totalSegmentsNum = 0, playbackNo = 0, pairedSequenceNo = 0, paritySegmentsNum = 0, crcValue = 0\<rparr> =
    Some (RESULT_OK, \<lparr>totalSegmentsNum = 9, playbackNo = 120, pairedSequenceNo = 4,
        paritySegmentsNum = 2, crcValue = 65535\<rparr>)"
  by (rule prefix_meta_roundtrip) simp

section \<open>Segments\<close>

record SegmentMetaInfo =
  interestNonce :: u32
  interestArrivalMs :: u64
  generationDelayMs :: u32

record SegmentData =
  sd_isValid :: bool
  sd_length :: nat
  sd_data :: bytes

definition NDNRTC_SEGHDR_MRKR :: nat where "NDNRTC_SEGHDR_MRKR = 0xb4b4"
definition NDNRTC_SEGBODY_MRKR :: nat where "NDNRTC_SEGBODY_MRKR = 0xb5b5"

definition SegmentData_getHeaderSize :: nat where
  "SegmentData_getHeaderSize = 2 + (4 + 8 + 4) + 2"

definition SegmentHeader_bytes :: "SegmentMetaInfo \<Rightarrow> bytes" where
  "SegmentHeader_bytes metaInfo =
     le_bytes 2 NDNRTC_SEGHDR_MRKR @ le_bytes 4 (unat (interestNonce metaInfo)) @
     le_bytes 8 (unat (interestArrivalMs metaInfo)) @ le_bytes 4 (unat (generationDelayMs metaInfo)) @
     le_bytes 2 NDNRTC_SEGBODY_MRKR"

definition new_SegmentData :: "bytes \<Rightarrow> SegmentMetaInfo \<Rightarrow> SegmentData" where
  "new_SegmentData segmentData metadata =
     \<lparr>sd_isValid = True, sd_length = SegmentData_getHeaderSize + length segmentData,
      sd_data = SegmentHeader_bytes metadata @ segmentData\<rparr>"

definition SegmentData_getMetadata :: "SegmentData \<Rightarrow> SegmentMetaInfo option" where
  "SegmentData_getMetadata sd = do {
     n \<leftarrow> get_le (sd_data sd) 2 4;
     a \<leftarrow> get_le (sd_data sd) 6 8;
     g \<leftarrow> get_le (sd_data sd) 14 4;
     Some \<lparr>interestNonce = of_nat n, interestArrivalMs = of_nat a, generationDelayMs = of_nat g\<rparr>
   }"

definition getSegmentData :: "SegmentData \<Rightarrow> bytes" where
  "getSegmentData sd = drop SegmentData_getHeaderSize (sd_data sd)"

text \<open>\<open>length_\<close> is unsigned: without data the length wraps.\<close>

definition getSegmentDataLength :: "SegmentData \<Rightarrow> u32" where
  "getSegmentDataLength sd = of_nat (sd_length sd) - of_nat SegmentData_getHeaderSize"

definition SegmentData_initFromRawData ::
    "nat \<Rightarrow> bytes option \<Rightarrow> SegmentData \<Rightarrow> (result \<times> SegmentData) option" where
  "SegmentData_initFromRawData dataLength rawData sd =
     (case rawData of
        None \<Rightarrow> Some (RESULT_ERR, sd)
      | Some raw \<Rightarrow>
          if \<not> dataLength > SegmentData_getHeaderSize then Some (RESULT_ERR, sd)
          else do {
            headerMarker \<leftarrow> get_le raw 0 2;
            if headerMarker \<noteq> NDNRTC_SEGHDR_MRKR then Some (RESULT_ERR, sd)
            else do {
              bodyMarker \<leftarrow> get_le raw 18 2;
              if bodyMarker \<noteq> NDNRTC_SEGBODY_MRKR then Some (RESULT_ERR, sd)
              else Some (RESULT_OK, sd\<lparr>sd_isValid := True, sd_data := raw, sd_length := dataLength\<rparr>)
            }
          })"

definition segmentDataFromRaw ::
    "nat \<Rightarrow> bytes option \<Rightarrow> SegmentData \<Rightarrow> (result \<times> SegmentData) option" where
  "segmentDataFromRaw dataLength rawData sd = SegmentData_initFromRawData dataLength rawData sd"

lemma length_SegmentHeader_bytes [simp]: "length (SegmentHeader_bytes m) = SegmentData_getHeaderSize"
  by (simp add: SegmentHeader_bytes_def SegmentData_getHeaderSize_def)

lemma u32_le_roundtrip: "of_nat (unat (v :: u32) mod 4294967296) = v"
  using unsigned_less [where 'a = nat, of v] by simp

lemma u64_le_roundtrip: "of_nat (unat (v :: u64) mod 18446744073709551616) = v"
  using unsigned_less [where 'a = nat, of v] by simp

lemmas get_le_struct = get_le_append get_le_Nil get_le_skip le_value_le_bytes

lemma SegmentHeader_fields:
  "get_le (SegmentHeader_bytes m @ p) 0 2 = Some NDNRTC_SEGHDR_MRKR"
  "get_le (SegmentHeader_bytes m @ p) 18 2 = Some NDNRTC_SEGBODY_MRKR"
  "get_le (SegmentHeader_bytes m @ p) 2 4 = Some (unat (interestNonce m) mod 256 ^ 4)"
  "get_le (SegmentHeader_bytes m @ p) 6 8 = Some (unat (interestArrivalMs m) mod 256 ^ 8)"
  "get_le (SegmentHeader_bytes m @ p) 14 4 = Some (unat (generationDelayMs m) mod 256 ^ 4)"
  by (simp_all add: SegmentHeader_bytes_def get_le_Nil get_le_skip
      NDNRTC_SEGHDR_MRKR_def NDNRTC_SEGBODY_MRKR_def)

lemma new_SegmentData_facts:
  "SegmentData_getMetadata (new_SegmentData payload m) = Some m"
  "getSegmentData (new_SegmentData payload m) = payload"
  "sd_length (new_SegmentData payload m) = length (sd_data (new_SegmentData payload m))"
  "payload \<noteq> [] \<Longrightarrow> segmentDataFromRaw (length (sd_data (new_SegmentData payload m)))
     (Some (sd_data (new_SegmentData payload m))) sd = Some (RESULT_OK, new_SegmentData payload m)"
  by (cases sd, simp_all add: segmentDataFromRaw_def SegmentData_initFromRawData_def new_SegmentData_def
      SegmentHeader_fields SegmentData_getMetadata_def u32_le_roundtrip u64_le_roundtrip
      getSegmentData_def)

text \<open>A segment that the producer wraps is accepted by the consumer exactly when its payload is
  not empty, and then its metadata and its payload are the producer's.\<close>

theorem segment_data_roundtrip:
  "segmentDataFromRaw (sd_length (new_SegmentData payload m)) (Some (sd_data (new_SegmentData payload m))) sd =
     (if payload = [] then Some (RESULT_ERR, sd)
      else Some (RESULT_OK, new_SegmentData payload m)) \<and>
   SegmentData_getMetadata (new_SegmentData payload m) = Some m \<and>
   getSegmentData (new_SegmentData payload m) = payload \<and>
   getSegmentDataLength (new_SegmentData payload m) = of_nat (length payload)"
proof (cases "payload = []")
  case True
  then show ?thesis
    by (simp add: new_SegmentData_facts(1,2) segmentDataFromRaw_def SegmentData_initFromRawData_def
        getSegmentDataLength_def) (simp add: new_SegmentData_def)
next
  case False
  then show ?thesis
    using new_SegmentData_facts(4) [OF False, of m sd] new_SegmentData_facts(3) [of payload m]
    by (simp add: new_SegmentData_facts(1,2) getSegmentDataLength_def) (simp add: new_SegmentData_def)
qed

text \<open>The check reads only bytes that the caller says are there.\<close>

lemma segmentDataFromRaw_total:
  assumes "dataLength \<le> length raw"
  shows "\<exists>r sd'. segmentDataFromRaw dataLength (Some raw) sd = Some (r, sd')"
proof (cases "SegmentData_getHeaderSize < dataLength")
  case True
  then have "2 \<le> length raw" "20 \<le> length raw"
    using assms by (simp_all add: SegmentData_getHeaderSize_def)
  then show ?thesis
    by (auto simp: segmentDataFromRaw_def SegmentData_initFromRawData_def get_le_def mem_read_def)
qed (simp add: segmentDataFromRaw_def SegmentData_initFromRawData_def)

lemma segmentDataFromRaw_OK:
  "segmentDataFromRaw dataLength raw sd = Some (RESULT_OK, sd') \<Longrightarrow>
   \<exists>bs. raw = Some bs \<and> sd_data sd' = bs \<and> sd_length sd' = dataLength \<and>
     SegmentData_getHeaderSize < dataLength"
  by (auto simp: segmentDataFromRaw_def SegmentData_initFromRawData_def bind_Some
      split: option.splits if_splits)

section \<open>Packet metadata\<close>

record PacketMetadata =
  pm_packetRate :: u64
  pm_timestamp :: u64
  pm_unixTimestamp :: u64

text \<open>\<open>0xBFF0000000000000\<close> is the \<open>double\<close> -1.\<close>

definition BadMetadata :: PacketMetadata where
  "BadMetadata = \<lparr>pm_packetRate = 0xBFF0000000000000, pm_timestamp = -1,
     pm_unixTimestamp = 0xBFF0000000000000\<rparr>"

definition ZeroMetadata :: PacketMetadata where
  "ZeroMetadata = \<lparr>pm_packetRate = 0, pm_timestamp = 0, pm_unixTimestamp = 0\<rparr>"

definition PacketMetadata_bytes :: "PacketMetadata \<Rightarrow> bytes" where
  "PacketMetadata_bytes m =
     le_bytes 8 (unat (pm_packetRate m)) @ le_bytes 8 (unat (pm_timestamp m)) @
     le_bytes 8 (unat (pm_unixTimestamp m))"

definition PacketMetadata_read :: "bytes \<Rightarrow> nat \<Rightarrow> PacketMetadata option" where
  "PacketMetadata_read data off = do {
     r \<leftarrow> get_le data off 8;
     t \<leftarrow> get_le data (off + 8) 8;
     u \<leftarrow> get_le data (off + 16) 8;
     Some \<lparr>pm_packetRate = of_nat r, pm_timestamp = of_nat t, pm_unixTimestamp = of_nat u\<rparr>
   }"

lemma length_PacketMetadata_bytes [simp]: "length (PacketMetadata_bytes m) = 24"
  by (simp add: PacketMetadata_bytes_def)

lemma PacketMetadata_read_bytes:
  "PacketMetadata_read (PacketMetadata_bytes m @ post) 0 = Some m"
  by (cases m) (simp add: PacketMetadata_read_def PacketMetadata_bytes_def get_le_Nil get_le_skip
      u64_le_roundtrip)

lemma PacketMetadata_read_skip:
  "length pre \<le> off \<Longrightarrow> PacketMetadata_read (pre @ xs) off = PacketMetadata_read xs (off - length pre)"
proof -
  assume "length pre \<le> off"
  then obtain k where "off = length pre + k" using le_Suc_ex by blast
  then show ?thesis by (simp add: PacketMetadata_read_def get_le_skip)
qed

section \<open>Audio bundles\<close>

text \<open>A packet of the bundle, and the reference to a packet inside the bundle's buffer.\<close>

record AudioPacket =
  ap_isRTCP :: bool
  ap_data :: bytes

record AudioPacketRef =
  ar_isRTCP :: bool
  ar_length :: nat
  ar_offset :: nat

record NdnAudioData =
  ad_isValid :: bool
  ad_length :: nat
  ad_data :: bytes
  ad_packets :: "AudioPacketRef list"

definition NDNRTC_AUDIOHDR_MRKR :: nat where "NDNRTC_AUDIOHDR_MRKR = 0xa4a4"
definition NDNRTC_AUDIOBODY_MRKR :: nat where "NDNRTC_AUDIOBODY_MRKR = 0xabad"

definition AudioDataHeader_size :: nat where
  "AudioDataHeader_size = 2 + 1 + 24 + 2"

definition AudioDataHeader_bytes :: "nat \<Rightarrow> PacketMetadata \<Rightarrow> bytes" where
  "AudioDataHeader_bytes nPackets metadata =
     le_bytes 2 NDNRTC_AUDIOHDR_MRKR @ le_bytes 1 nPackets @ PacketMetadata_bytes metadata @
     le_bytes 2 NDNRTC_AUDIOBODY_MRKR"

definition new_NdnAudioData :: NdnAudioData where
  "new_NdnAudioData = \<lparr>ad_isValid = False, ad_length = 0, ad_data = [], ad_packets = []\<rparr>"

definition AudioPacket_getLength :: "AudioPacket \<Rightarrow> nat" where
  "AudioPacket_getLength p = 1 + 4 + length (ap_data p)"

definition AudioPacket_bytes :: "AudioPacket \<Rightarrow> bytes" where
  "AudioPacket_bytes p =
     le_bytes 1 (if ap_isRTCP p then 1 else 0) @ le_bytes 4 (length (ap_data p)) @ ap_data p"

text \<open>
  \<open>addPacket\<close>. The lengths are 32-bit: beyond \<open>2^32\<close> bytes the write lands outside the buffer
  (\<open>None\<close>). \<open>nPackets_++\<close> works on the single byte of the header. The references of earlier
  packets keep their offsets; in the code they are pointers into the buffer before \<open>realloc\<close>.
\<close>

definition addPacket :: "AudioPacket \<Rightarrow> NdnAudioData \<Rightarrow> NdnAudioData option" where
  "addPacket packet ad =
     (let base = (if ad_length ad = 0 then AudioDataHeader_size else ad_length ad);
          newLength = base + AudioPacket_getLength packet in
      if newLength \<ge> 2 ^ 32 then None
      else do {
        old \<leftarrow> (if ad_length ad = 0 then Some (AudioDataHeader_bytes 1 ZeroMetadata)
                else do {
                  n \<leftarrow> mem_get (ad_data ad) 2;
                  Some ((ad_data ad)[2 := char_of (byte_val n + 1)])
                });
        Some (ad\<lparr>ad_isValid := True, ad_length := newLength,
          ad_data := take base old @ AudioPacket_bytes packet,
          ad_packets := ad_packets ad @ [\<lparr>ar_isRTCP = ap_isRTCP packet,
            ar_length = length (ap_data packet),
            ar_offset = newLength - AudioPacket_getLength packet + 5\<rparr>]\<rparr>)
      })"

text \<open>The parsing loop takes the count and the lengths from the buffer, without a bound.\<close>

fun audio_packets :: "nat \<Rightarrow> nat \<Rightarrow> bytes \<Rightarrow> AudioPacketRef list option" where
  "audio_packets 0 dataPtr data = Some []"
| "audio_packets (Suc i) dataPtr data = do {
     r \<leftarrow> get_le data dataPtr 1;
     n \<leftarrow> get_le data (dataPtr + 1) 4;
     ps \<leftarrow> audio_packets i (dataPtr + 5 + n) data;
     Some (\<lparr>ar_isRTCP = (r \<noteq> 0), ar_length = n, ar_offset = dataPtr + 5\<rparr> # ps)
   }"

definition Audio_initFromRawData :: "bytes \<Rightarrow> NdnAudioData \<Rightarrow> (result \<times> NdnAudioData) option" where
  "Audio_initFromRawData rawData ad = do {
     hm \<leftarrow> get_le rawData 0 2;
     nPackets \<leftarrow> get_le rawData 2 1;
     bm \<leftarrow> get_le rawData 27 2;
     if hm \<noteq> NDNRTC_AUDIOHDR_MRKR \<or> bm \<noteq> NDNRTC_AUDIOBODY_MRKR then Some (RESULT_ERR, ad)
     else do {
       ps \<leftarrow> audio_packets nPackets AudioDataHeader_size (ad_data ad);
       Some (RESULT_OK, ad\<lparr>ad_packets := ad_packets ad @ ps\<rparr>)
     }
   }"

definition Audio_isValidHeader :: "nat \<Rightarrow> bytes \<Rightarrow> bool option" where
  "Audio_isValidHeader len data =
     (if len \<ge> AudioDataHeader_size then do {
        hm \<leftarrow> get_le data 0 2;
        bm \<leftarrow> get_le data 27 2;
        Some (hm = NDNRTC_AUDIOHDR_MRKR \<and> bm = NDNRTC_AUDIOBODY_MRKR)
      } else Some False)"

definition Audio_metadataFromRaw :: "nat \<Rightarrow> bytes \<Rightarrow> PacketMetadata option" where
  "Audio_metadataFromRaw len data = do {
     v \<leftarrow> Audio_isValidHeader len data;
     if v then PacketMetadata_read data 3 else Some BadMetadata
   }"

definition Audio_setMetadata :: "PacketMetadata \<Rightarrow> NdnAudioData \<Rightarrow> NdnAudioData option" where
  "Audio_setMetadata metadata ad =
     (if ad_isValid ad then do {
        d \<leftarrow> mem_write (ad_data ad) 3 (PacketMetadata_bytes metadata);
        Some (ad\<lparr>ad_data := d\<rparr>)
      } else Some ad)"

section \<open>Video frames\<close>

text \<open>
  \<open>webrtc::EncodedImage\<close> as far as the code copies it; \<open>ei_size\<close> is the value of
  \<open>webrtc::CalcBufferSize\<close>, a function of the WebRTC library and so a parameter here.
\<close>

record EncodedImage =
  ei_buffer :: bytes
  ei_size :: int
  ei_encodedWidth :: u32
  ei_encodedHeight :: u32
  ei_timeStamp :: u32
  ei_capture_time_ms :: u64
  ei_frameType :: u32
  ei_completeFrame :: bool

record NdnFrameData =
  fd_isValid :: bool
  fd_length :: nat
  fd_data :: bytes
  fd_frame :: "EncodedImage option"

definition NDNRTC_FRAMEHDR_MRKR :: nat where "NDNRTC_FRAMEHDR_MRKR = 0xf4d4"
definition NDNRTC_FRAMEBODY_MRKR :: nat where "NDNRTC_FRAMEBODY_MRKR = 0xfb0d"

definition FrameDataHeader_size :: nat where
  "FrameDataHeader_size = 2 + 4 + 4 + 4 + 8 + 4 + 1 + 24 + 2"

definition FrameDataHeader_bytes :: "EncodedImage \<Rightarrow> PacketMetadata \<Rightarrow> bytes" where
  "FrameDataHeader_bytes frame metadata =
     le_bytes 2 NDNRTC_FRAMEHDR_MRKR @ le_bytes 4 (unat (ei_encodedWidth frame)) @
     le_bytes 4 (unat (ei_encodedHeight frame)) @ le_bytes 4 (unat (ei_timeStamp frame)) @
     le_bytes 8 (unat (ei_capture_time_ms frame)) @ le_bytes 4 (unat (ei_frameType frame)) @
     le_bytes 1 (if ei_completeFrame frame then 1 else 0) @ PacketMetadata_bytes metadata @
     le_bytes 2 NDNRTC_FRAMEBODY_MRKR"

definition Frame_isValidHeader :: "nat \<Rightarrow> bytes \<Rightarrow> bool option" where
  "Frame_isValidHeader len data =
     (if len \<ge> FrameDataHeader_size then do {
        hm \<leftarrow> get_le data 0 2;
        bm \<leftarrow> get_le data 51 2;
        Some (hm = NDNRTC_FRAMEHDR_MRKR \<and> bm = NDNRTC_FRAMEBODY_MRKR)
      } else Some False)"

definition Frame_metadataFromRaw :: "nat \<Rightarrow> bytes \<Rightarrow> PacketMetadata option" where
  "Frame_metadataFromRaw len data = do {
     v \<leftarrow> Frame_isValidHeader len data;
     if v then PacketMetadata_read data 27 else Some BadMetadata
   }"

text \<open>The whole header is read before the length is compared.\<close>

definition Frame_initFromRawData ::
    "(u32 \<Rightarrow> u32 \<Rightarrow> int) \<Rightarrow> nat \<Rightarrow> bytes \<Rightarrow> NdnFrameData \<Rightarrow> (result \<times> NdnFrameData) option" where
  "Frame_initFromRawData calcBufferSize dataLength rawData fd = do {
     hm \<leftarrow> get_le rawData 0 2;
     w \<leftarrow> get_le rawData 2 4;
     h \<leftarrow> get_le rawData 6 4;
     ts \<leftarrow> get_le rawData 10 4;
     ct \<leftarrow> get_le rawData 14 8;
     ft \<leftarrow> get_le rawData 22 4;
     cf \<leftarrow> get_le rawData 26 1;
     bm \<leftarrow> get_le rawData 51 2;
     if (hm \<noteq> NDNRTC_FRAMEHDR_MRKR \<or> bm \<noteq> NDNRTC_FRAMEBODY_MRKR) \<or>
        dataLength < FrameDataHeader_size then Some (RESULT_ERR, fd)
     else do {
       buf \<leftarrow> mem_read rawData FrameDataHeader_size (dataLength - FrameDataHeader_size);
       Some (RESULT_OK, fd\<lparr>fd_frame := Some \<lparr>ei_buffer = buf,
         ei_size = calcBufferSize (of_nat w) (of_nat h),
         ei_encodedWidth = of_nat w, ei_encodedHeight = of_nat h, ei_timeStamp = of_nat ts,
         ei_capture_time_ms = of_nat ct, ei_frameType = of_nat ft, ei_completeFrame = (cf \<noteq> 0)\<rparr>\<rparr>)
     }
   }"

text \<open>
  \<open>initialize\<close>: the buffer is padded with zeros to a multiple of the segment size. The rounding
  in \<open>double\<close> is exact for 32-bit operands. A frame whose padded size does not fit 32 bits, or a
  zero segment size, is outside the defined behaviour.
\<close>

definition ceil_div :: "nat \<Rightarrow> nat \<Rightarrow> nat" where
  "ceil_div a b = (a + b - 1) div b"

definition Frame_initialize ::
    "(u32 \<Rightarrow> u32 \<Rightarrow> int) \<Rightarrow> EncodedImage \<Rightarrow> nat \<Rightarrow> PacketMetadata \<Rightarrow> NdnFrameData option" where
  "Frame_initialize calcBufferSize frame segmentSize metadata =
     (let len = length (ei_buffer frame) + FrameDataHeader_size;
          allocSize = ceil_div len segmentSize * segmentSize in
      if segmentSize = 0 \<or> allocSize \<ge> 2 ^ 32 then None
      else do {
        d1 \<leftarrow> mem_write (replicate allocSize (char_of (0 :: nat))) FrameDataHeader_size (ei_buffer frame);
        d2 \<leftarrow> mem_write d1 0 (FrameDataHeader_bytes frame metadata);
        (r, fd) \<leftarrow> Frame_initFromRawData calcBufferSize len d2
          \<lparr>fd_isValid = False, fd_length = len, fd_data = d2, fd_frame = None\<rparr>;
        Some (fd\<lparr>fd_isValid := RESULT_GOOD r\<rparr>)
      })"

definition Frame_getFrame :: "NdnFrameData \<Rightarrow> result \<times> EncodedImage option" where
  "Frame_getFrame fd = (if \<not> fd_isValid fd then (RESULT_ERR, None) else (RESULT_OK, fd_frame fd))"

section \<open>Packets of either kind\<close>

datatype packet_data = VideoPacket NdnFrameData | AudioBundle NdnAudioData

definition packetFromRaw ::
    "(u32 \<Rightarrow> u32 \<Rightarrow> int) \<Rightarrow> nat \<Rightarrow> bytes \<Rightarrow> (result \<times> packet_data option) option" where
  "packetFromRaw calcBufferSize len data = do {
     v \<leftarrow> Frame_isValidHeader len data;
     video \<leftarrow>
       (if v then
          do {
            (r, fd) \<leftarrow> Frame_initFromRawData calcBufferSize len data
              \<lparr>fd_isValid = False, fd_length = len, fd_data = data, fd_frame = None\<rparr>;
            Some (if RESULT_GOOD r then Some (fd\<lparr>fd_isValid := True\<rparr>) else None)
          }
        else Some None);
     case video of
       Some fd \<Rightarrow> Some (RESULT_OK, Some (VideoPacket fd))
     | None \<Rightarrow> do {
         a \<leftarrow> Audio_isValidHeader len data;
         if a then do {
           (r, ad) \<leftarrow> Audio_initFromRawData data (new_NdnAudioData\<lparr>ad_length := len, ad_data := data\<rparr>);
           Some (if RESULT_GOOD r then (RESULT_OK, Some (AudioBundle (ad\<lparr>ad_isValid := True\<rparr>)))
                 else (RESULT_ERR, None))
         } else Some (RESULT_ERR, None)
       }
   }"

definition metadataFromRaw :: "nat \<Rightarrow> bytes \<Rightarrow> PacketMetadata option" where
  "metadataFromRaw len data = do {
     v \<leftarrow> Frame_isValidHeader len data;
     if v then Frame_metadataFromRaw len data
     else do {
       a \<leftarrow> Audio_isValidHeader len data;
       if a then Audio_metadataFromRaw len data else Some BadMetadata
     }
   }"

definition Frame_setMetadata :: "PacketMetadata \<Rightarrow> NdnFrameData \<Rightarrow> NdnFrameData option" where
  "Frame_setMetadata metadata fd =
     (if fd_isValid fd then do {
        d \<leftarrow> mem_write (fd_data fd) 27 (PacketMetadata_bytes metadata);
        Some (fd\<lparr>fd_data := d\<rparr>)
      } else Some fd)"

section \<open>Facts about frames\<close>

lemma length_FrameDataHeader_bytes [simp]: "length (FrameDataHeader_bytes f m) = 53"
  by (simp add: FrameDataHeader_bytes_def)

lemma FrameDataHeader_fields:
  "get_le (FrameDataHeader_bytes f m @ p) 0 2 = Some NDNRTC_FRAMEHDR_MRKR"
  "get_le (FrameDataHeader_bytes f m @ p) 2 4 = Some (unat (ei_encodedWidth f) mod 4294967296)"
  "get_le (FrameDataHeader_bytes f m @ p) 6 4 = Some (unat (ei_encodedHeight f) mod 4294967296)"
  "get_le (FrameDataHeader_bytes f m @ p) 10 4 = Some (unat (ei_timeStamp f) mod 4294967296)"
  "get_le (FrameDataHeader_bytes f m @ p) 14 8 = Some (unat (ei_capture_time_ms f) mod 18446744073709551616)"
  "get_le (FrameDataHeader_bytes f m @ p) 22 4 = Some (unat (ei_frameType f) mod 4294967296)"
  "get_le (FrameDataHeader_bytes f m @ p) 26 (Suc 0) = Some (if ei_completeFrame f then 1 else 0)"
  "get_le (FrameDataHeader_bytes f m @ p) 51 2 = Some NDNRTC_FRAMEBODY_MRKR"
  "PacketMetadata_read (FrameDataHeader_bytes f m @ p) 27 = Some m"
  by (simp_all add: FrameDataHeader_bytes_def get_le_Nil get_le_skip PacketMetadata_read_skip
      PacketMetadata_read_bytes NDNRTC_FRAMEHDR_MRKR_def NDNRTC_FRAMEBODY_MRKR_def)

lemma ceil_div_bounds:
  assumes "0 < b"
  shows "a \<le> ceil_div a b * b" "ceil_div a b * b < a + b"
proof -
  have "(a + b - 1) div b * b + (a + b - 1) mod b = a + b - 1" by simp
  moreover have "(a + b - 1) mod b < b" using assms by simp
  ultimately show "a \<le> ceil_div a b * b" "ceil_div a b * b < a + b"
    using assms unfolding ceil_div_def by linarith+
qed

lemma Frame_initFromRawData_header:
  "Frame_initFromRawData cbs (length (ei_buffer f) + 53) (FrameDataHeader_bytes f m @ ei_buffer f @ pad) fd =
     Some (RESULT_OK, fd\<lparr>fd_frame := Some (f\<lparr>ei_size := cbs (ei_encodedWidth f) (ei_encodedHeight f)\<rparr>)\<rparr>)"
  by (cases f) (auto simp: Frame_initFromRawData_def FrameDataHeader_fields FrameDataHeader_size_def
      mem_read_def u32_le_roundtrip u64_le_roundtrip)

lemma Frame_initialize_data:
  assumes "0 < segmentSize" "ceil_div (length (ei_buffer f) + 53) segmentSize * segmentSize < 2 ^ 32"
  shows "\<exists>pad. Frame_initialize cbs f segmentSize m =
    Some \<lparr>fd_isValid = True, fd_length = length (ei_buffer f) + 53,
      fd_data = FrameDataHeader_bytes f m @ ei_buffer f @ pad,
      fd_frame = Some (f\<lparr>ei_size := cbs (ei_encodedWidth f) (ei_encodedHeight f)\<rparr>)\<rparr> \<and>
    length (FrameDataHeader_bytes f m @ ei_buffer f @ pad) =
      ceil_div (length (ei_buffer f) + 53) segmentSize * segmentSize"
proof -
  let ?n = "ceil_div (length (ei_buffer f) + 53) segmentSize * segmentSize"
  let ?pad = "replicate (?n - (length (ei_buffer f) + 53)) (char_of (0 :: nat))"
  have n: "length (ei_buffer f) + 53 \<le> ?n" by (rule ceil_div_bounds(1)) (rule assms(1))
  then have w1: "mem_write (replicate ?n (char_of (0 :: nat))) 53 (ei_buffer f) =
      Some (replicate 53 (char_of (0 :: nat)) @ ei_buffer f @ ?pad)"
    by (simp add: mem_write_def min_def add.commute)
  have w2: "mem_write (replicate 53 (char_of (0 :: nat)) @ ei_buffer f @ ?pad) 0 (FrameDataHeader_bytes f m) =
      Some (FrameDataHeader_bytes f m @ ei_buffer f @ ?pad)"
    by (simp add: mem_write_def)
  show ?thesis
    using assms n w1 w2
    by (intro exI [of _ ?pad])
      (simp add: Frame_initialize_def FrameDataHeader_size_def Let_def Frame_initFromRawData_header)
qed

text \<open>C10: A video frame that the producer wraps (header, metadata, padding up to whole segments) is
  what the consumer gets from the raw bytes, with any rest of the buffer behind it; the metadata can
  be read before the frame is complete, from its first bytes.\<close>

theorem frame_packet_roundtrip:
  assumes "0 < segmentSize"
    and "ceil_div (length (ei_buffer f) + FrameDataHeader_size) segmentSize * segmentSize < 2 ^ 32"
  shows "\<exists>fd. Frame_initialize cbs f segmentSize m = Some fd \<and>
    packetFromRaw cbs (fd_length fd) (fd_data fd @ rest) =
      Some (RESULT_OK, Some (VideoPacket (fd\<lparr>fd_data := fd_data fd @ rest\<rparr>))) \<and>
    Frame_getFrame fd =
      (RESULT_OK, Some (f\<lparr>ei_size := cbs (ei_encodedWidth f) (ei_encodedHeight f)\<rparr>)) \<and>
    metadataFromRaw FrameDataHeader_size (take FrameDataHeader_size (fd_data fd)) = Some m"
proof -
  obtain pad where init: "Frame_initialize cbs f segmentSize m =
    Some \<lparr>fd_isValid = True, fd_length = length (ei_buffer f) + 53,
      fd_data = FrameDataHeader_bytes f m @ ei_buffer f @ pad,
      fd_frame = Some (f\<lparr>ei_size := cbs (ei_encodedWidth f) (ei_encodedHeight f)\<rparr>)\<rparr>"
    using Frame_initialize_data [OF assms(1), of f cbs m] assms(2) by (auto simp: FrameDataHeader_size_def)
  have v: "Frame_isValidHeader (length (ei_buffer f) + 53) (FrameDataHeader_bytes f m @ xs) = Some True" for xs
    by (simp add: Frame_isValidHeader_def FrameDataHeader_size_def FrameDataHeader_fields)
  have "metadataFromRaw 53 (FrameDataHeader_bytes f m @ []) = Some m"
    using FrameDataHeader_fields [of f m "[]"]
    by (simp add: metadataFromRaw_def Frame_metadataFromRaw_def Frame_isValidHeader_def
        FrameDataHeader_size_def)
  with init v Frame_initFromRawData_header [of cbs f m "pad @ rest"] show ?thesis
    by (simp add: packetFromRaw_def Frame_getFrame_def FrameDataHeader_size_def)
qed

definition sample_frame :: EncodedImage where
  "sample_frame = \<lparr>ei_buffer = ''abc'', ei_size = 0, ei_encodedWidth = 4, ei_encodedHeight = 2,
     ei_timeStamp = 9, ei_capture_time_ms = 10, ei_frameType = 1, ei_completeFrame = True\<rparr>"

theorem frame_packet_roundtrip_witness:
  "\<exists>fd. Frame_initialize (\<lambda>w h. uint (w * h)) sample_frame 8 ZeroMetadata = Some fd \<and>
    packetFromRaw (\<lambda>w h. uint (w * h)) (fd_length fd) (fd_data fd @ []) =
      Some (RESULT_OK, Some (VideoPacket (fd\<lparr>fd_data := fd_data fd @ []\<rparr>))) \<and>
    Frame_getFrame fd = (RESULT_OK, Some (sample_frame\<lparr>ei_size :=
      uint (ei_encodedWidth sample_frame * ei_encodedHeight sample_frame)\<rparr>)) \<and>
    metadataFromRaw FrameDataHeader_size (take FrameDataHeader_size (fd_data fd)) = Some ZeroMetadata"
  by (rule frame_packet_roundtrip) (simp_all add: sample_frame_def ceil_div_def FrameDataHeader_size_def)

section \<open>Facts about audio bundles\<close>

fun audio_refs :: "nat \<Rightarrow> AudioPacket list \<Rightarrow> AudioPacketRef list" where
  "audio_refs off [] = []"
| "audio_refs off (p # ps) =
     \<lparr>ar_isRTCP = ap_isRTCP p, ar_length = length (ap_data p), ar_offset = off + 5\<rparr> #
     audio_refs (off + AudioPacket_getLength p) ps"

lemma length_AudioPacket_bytes [simp]: "length (AudioPacket_bytes p) = AudioPacket_getLength p"
  by (simp add: AudioPacket_bytes_def AudioPacket_getLength_def)

lemma audio_refs_append:
  "audio_refs off (ps @ [p]) = audio_refs off ps @
     [\<lparr>ar_isRTCP = ap_isRTCP p, ar_length = length (ap_data p),
       ar_offset = off + sum_list (map AudioPacket_getLength ps) + 5\<rparr>]"
  by (induction ps arbitrary: off) (simp_all add: add.assoc)

lemma audio_packets_concat:
  assumes "\<forall>q \<in> set qs. AudioPacket_getLength q < 2 ^ 32" "k \<le> length qs"
  shows "audio_packets k (length pre) (pre @ concat (map AudioPacket_bytes qs)) =
    Some (audio_refs (length pre) (take k qs))"
  using assms
proof (induction k arbitrary: pre qs)
  case (Suc k)
  then obtain q rest where qs: "qs = q # rest" by (cases qs) auto
  let ?data = "pre @ AudioPacket_bytes q @ concat (map AudioPacket_bytes rest)"
  have r: "get_le ?data (length pre) (Suc 0) = Some (if ap_isRTCP q then 1 else 0)"
    by (simp add: get_le_skip AudioPacket_bytes_def get_le_Nil)
  have n: "get_le ?data (Suc (length pre)) 4 = Some (length (ap_data q))"
    using Suc.prems(1) qs
    by (simp add: get_le_skip AudioPacket_bytes_def get_le_Nil AudioPacket_getLength_def)
  have "audio_packets k (length (pre @ AudioPacket_bytes q))
      ((pre @ AudioPacket_bytes q) @ concat (map AudioPacket_bytes rest)) =
      Some (audio_refs (length (pre @ AudioPacket_bytes q)) (take k rest))"
    by (rule Suc.IH) (use Suc.prems qs in auto)
  then have "audio_packets k (length pre + 5 + length (ap_data q)) ?data =
      Some (audio_refs (length pre + AudioPacket_getLength q) (take k rest))"
    by (simp add: AudioPacket_getLength_def add.assoc)
  with r n show ?case by (simp add: qs)
qed simp

lemma audio_refs_read:
  "map (\<lambda>r. (ar_isRTCP r, mem_read (pre @ concat (map AudioPacket_bytes qs) @ post) (ar_offset r) (ar_length r)))
     (audio_refs (length pre) qs) = map (\<lambda>q. (ap_isRTCP q, Some (ap_data q))) qs"
proof (induction qs arbitrary: pre)
  case (Cons q qs)
  have "mem_read (pre @ AudioPacket_bytes q @ x) (length pre + 5) (length (ap_data q)) = Some (ap_data q)" for x
    by (simp add: mem_read_def AudioPacket_bytes_def)
  then show ?case
    using Cons.IH [of "pre @ AudioPacket_bytes q"] by simp
qed simp

lemma AudioDataHeader_fields:
  "length (AudioDataHeader_bytes n m) = 29"
  "get_le (AudioDataHeader_bytes n m @ p) 0 2 = Some NDNRTC_AUDIOHDR_MRKR"
  "get_le (AudioDataHeader_bytes n m @ p) 2 (Suc 0) = Some (n mod 256)"
  "get_le (AudioDataHeader_bytes n m @ p) 27 2 = Some NDNRTC_AUDIOBODY_MRKR"
  "PacketMetadata_read (AudioDataHeader_bytes n m @ p) 3 = Some m"
  by (simp_all add: AudioDataHeader_bytes_def get_le_Nil get_le_skip PacketMetadata_read_skip
      PacketMetadata_read_bytes NDNRTC_AUDIOHDR_MRKR_def NDNRTC_AUDIOBODY_MRKR_def)

lemma le_bytes_1: "le_bytes (Suc 0) n = [char_of n]"
  by (simp add: le_bytes_def)

lemma AudioDataHeader_incr:
  "(AudioDataHeader_bytes n m @ xs)[2 := char_of (byte_val ((AudioDataHeader_bytes n m @ xs) ! 2) + 1)] =
   AudioDataHeader_bytes (Suc n) m @ xs"
proof -
  obtain a b where ab: "le_bytes 2 NDNRTC_AUDIOHDR_MRKR = [a, b]"
    by (metis length_le_bytes length_0_conv length_Suc_conv numeral_2_eq_2)
  have "char_of (byte_val (char_of n :: byte) + 1) = (char_of (Suc n) :: byte)"
    by (simp add: mod_Suc_eq)
  with ab show ?thesis
    by (simp add: AudioDataHeader_bytes_def le_bytes_1)
qed

definition audio_bundle :: "AudioPacket list \<Rightarrow> NdnAudioData option" where
  "audio_bundle ps = ofold addPacket ps new_NdnAudioData"

lemma audio_bundle_state:
  assumes "ps \<noteq> []" "AudioDataHeader_size + sum_list (map AudioPacket_getLength ps) < 2 ^ 32"
  shows "audio_bundle ps = Some \<lparr>ad_isValid = True,
    ad_length = AudioDataHeader_size + sum_list (map AudioPacket_getLength ps),
    ad_data = AudioDataHeader_bytes (length ps) ZeroMetadata @ concat (map AudioPacket_bytes ps),
    ad_packets = audio_refs AudioDataHeader_size ps\<rparr>"
  using assms
proof (induction ps rule: rev_induct)
  case (snoc p ps)
  have len: "length (concat (map AudioPacket_bytes qs)) = sum_list (map AudioPacket_getLength qs)" for qs
    by (induction qs) simp_all
  show ?case
  proof (cases "ps = []")
    case True
    with snoc.prems show ?thesis
      by (simp add: audio_bundle_def addPacket_def new_NdnAudioData_def Let_def
          AudioDataHeader_fields(1) AudioDataHeader_size_def)
  next
    case False
    let ?ad = "\<lparr>ad_isValid = True,
      ad_length = AudioDataHeader_size + sum_list (map AudioPacket_getLength ps),
      ad_data = AudioDataHeader_bytes (length ps) ZeroMetadata @ concat (map AudioPacket_bytes ps),
      ad_packets = audio_refs AudioDataHeader_size ps\<rparr>"
    have ih: "audio_bundle ps = Some ?ad" using snoc False by simp
    have "mem_get (ad_data ?ad) 2 = Some (ad_data ?ad ! 2)"
      by (simp add: mem_get_def AudioDataHeader_fields(1))
    moreover have "(ad_data ?ad)[2 := char_of (byte_val (ad_data ?ad ! 2) + 1)] =
        AudioDataHeader_bytes (Suc (length ps)) ZeroMetadata @ concat (map AudioPacket_bytes ps)"
      using AudioDataHeader_incr [of "length ps" ZeroMetadata] by simp
    ultimately have "addPacket p ?ad = Some \<lparr>ad_isValid = True,
        ad_length = AudioDataHeader_size + sum_list (map AudioPacket_getLength (ps @ [p])),
        ad_data = AudioDataHeader_bytes (length (ps @ [p])) ZeroMetadata @
          concat (map AudioPacket_bytes (ps @ [p])),
        ad_packets = audio_refs AudioDataHeader_size (ps @ [p])\<rparr>"
      using snoc.prems(2)
      by (simp add: addPacket_def Let_def len AudioDataHeader_fields(1) AudioDataHeader_size_def
          audio_refs_append)
    then show ?thesis using ih by (simp add: audio_bundle_def ofold_append)
  qed
qed simp

lemma packetFromRaw_audio:
  "packetFromRaw cbs (AudioDataHeader_size + k) (AudioDataHeader_bytes n m @ xs) =
   (case audio_packets (n mod 256) AudioDataHeader_size (AudioDataHeader_bytes n m @ xs) of
      None \<Rightarrow> None
    | Some ps \<Rightarrow> Some (RESULT_OK, Some (AudioBundle \<lparr>ad_isValid = True, ad_length = AudioDataHeader_size + k,
        ad_data = AudioDataHeader_bytes n m @ xs, ad_packets = ps\<rparr>)))"
  if "Frame_isValidHeader (AudioDataHeader_size + k) (AudioDataHeader_bytes n m @ xs) = Some False"
proof -
  have "Audio_isValidHeader (AudioDataHeader_size + k) (AudioDataHeader_bytes n m @ xs) = Some True"
    by (simp add: Audio_isValidHeader_def AudioDataHeader_fields)
  then show ?thesis using that
    by (cases "audio_packets (n mod 256) AudioDataHeader_size (AudioDataHeader_bytes n m @ xs)")
      (simp_all add: packetFromRaw_def Audio_initFromRawData_def AudioDataHeader_fields
        new_NdnAudioData_def)
qed

lemma audio_not_video:
  assumes "AudioDataHeader_size + k \<le> length (AudioDataHeader_bytes n m @ xs)"
  shows "Frame_isValidHeader (AudioDataHeader_size + k) (AudioDataHeader_bytes n m @ xs) = Some False"
proof (cases "AudioDataHeader_size + k \<ge> FrameDataHeader_size")
  case True
  then have "mem_read (AudioDataHeader_bytes n m @ xs) 51 2 \<noteq> None"
    using assms by (simp add: mem_read_def FrameDataHeader_size_def)
  then show ?thesis using True
    by (auto simp: Frame_isValidHeader_def AudioDataHeader_fields get_le_def [of _ 51]
        NDNRTC_AUDIOHDR_MRKR_def NDNRTC_FRAMEHDR_MRKR_def)
qed (simp add: Frame_isValidHeader_def)

text \<open>C11: The consumer gets the packets that the producer put into an audio bundle, in order and
  with their bytes, from the raw data of the bundle. The count is a single byte: with \<open>n\<close> packets
  the consumer gets the first \<open>n mod 256\<close>, so 256 small packets make an empty bundle.\<close>

theorem audio_bundle_roundtrip:
  assumes "ps \<noteq> []" "AudioDataHeader_size + sum_list (map AudioPacket_getLength ps) < 2 ^ 32"
  shows "\<exists>ad ad'. ofold addPacket ps new_NdnAudioData = Some ad \<and>
    packetFromRaw cbs (ad_length ad) (ad_data ad) = Some (RESULT_OK, Some (AudioBundle ad')) \<and>
    map (\<lambda>r. (ar_isRTCP r, mem_read (ad_data ad) (ar_offset r) (ar_length r))) (ad_packets ad') =
      map (\<lambda>p. (ap_isRTCP p, Some (ap_data p))) (take (length ps mod 256) ps)"
proof -
  let ?k = "length ps mod 256"
  let ?hdr = "AudioDataHeader_bytes (length ps) ZeroMetadata"
  let ?data = "?hdr @ concat (map AudioPacket_bytes ps)"
  have hdr: "AudioDataHeader_size = length ?hdr"
    by (simp add: AudioDataHeader_fields(1) AudioDataHeader_size_def)
  have len: "length (concat (map AudioPacket_bytes qs)) = sum_list (map AudioPacket_getLength qs)" for qs
    by (induction qs) simp_all
  have "\<forall>q \<in> set ps. AudioPacket_getLength q < 2 ^ 32"
    using assms(2) member_le_sum_list [of _ "map AudioPacket_getLength ps"] by fastforce
  then have parse: "audio_packets ?k AudioDataHeader_size ?data =
      Some (audio_refs AudioDataHeader_size (take ?k ps))"
    unfolding hdr by (rule audio_packets_concat) simp
  have "Frame_isValidHeader (AudioDataHeader_size + sum_list (map AudioPacket_getLength ps)) ?data = Some False"
    by (rule audio_not_video) (simp add: hdr len)
  from packetFromRaw_audio [OF this] parse have
    "packetFromRaw cbs (AudioDataHeader_size + sum_list (map AudioPacket_getLength ps)) ?data =
     Some (RESULT_OK, Some (AudioBundle \<lparr>ad_isValid = True,
       ad_length = AudioDataHeader_size + sum_list (map AudioPacket_getLength ps),
       ad_data = ?data, ad_packets = audio_refs AudioDataHeader_size (take ?k ps)\<rparr>))"
    by simp
  moreover have "map (\<lambda>r. (ar_isRTCP r, mem_read ?data (ar_offset r) (ar_length r)))
      (audio_refs AudioDataHeader_size (take ?k ps)) =
      map (\<lambda>p. (ap_isRTCP p, Some (ap_data p))) (take ?k ps)"
    using audio_refs_read [of ?hdr "take ?k ps" "concat (map AudioPacket_bytes (drop ?k ps))"]
    unfolding hdr by (simp flip: concat_append map_append)
  moreover have "ofold addPacket ps new_NdnAudioData = Some \<lparr>ad_isValid = True,
    ad_length = AudioDataHeader_size + sum_list (map AudioPacket_getLength ps),
    ad_data = ?data, ad_packets = audio_refs AudioDataHeader_size ps\<rparr>"
    using audio_bundle_state [OF assms] by (simp add: audio_bundle_def)
  ultimately show ?thesis by fastforce
qed

theorem audio_bundle_roundtrip_witness:
  "\<exists>ad ad'. ofold addPacket [\<lparr>ap_isRTCP = True, ap_data = ''xyz''\<rparr>] new_NdnAudioData = Some ad \<and>
    packetFromRaw (\<lambda>w h. 0) (ad_length ad) (ad_data ad) = Some (RESULT_OK, Some (AudioBundle ad')) \<and>
    map (\<lambda>r. (ar_isRTCP r, mem_read (ad_data ad) (ar_offset r) (ar_length r))) (ad_packets ad') =
      [(True, Some ''xyz'')]"
  using audio_bundle_roundtrip [of "[\<lparr>ap_isRTCP = True, ap_data = ''xyz''\<rparr>]" "\<lambda>w h. 0"]
  by (simp add: AudioDataHeader_size_def AudioPacket_getLength_def)

lemma Frame_isValidHeader_total: "\<exists>b. Frame_isValidHeader (length d) d = Some b"
  by (auto simp: Frame_isValidHeader_def get_le_def mem_read_def FrameDataHeader_size_def)

lemma Audio_isValidHeader_total: "\<exists>b. Audio_isValidHeader (length d) d = Some b"
  by (auto simp: Audio_isValidHeader_def get_le_def mem_read_def AudioDataHeader_size_def)

lemma PacketMetadata_read_total: "off + 24 \<le> length d \<Longrightarrow> \<exists>m. PacketMetadata_read d off = Some m"
  by (simp add: PacketMetadata_read_def get_le_def mem_read_def)

text \<open>Reading the metadata of a whole allocation never leaves it.\<close>

lemma metadataFromRaw_total: "\<exists>m. metadataFromRaw (length d) d = Some m"
proof -
  obtain v where v: "Frame_isValidHeader (length d) d = Some v" using Frame_isValidHeader_total by blast
  obtain a where a: "Audio_isValidHeader (length d) d = Some a" using Audio_isValidHeader_total by blast
  have "v \<Longrightarrow> 53 \<le> length d" using v by (auto simp: Frame_isValidHeader_def FrameDataHeader_size_def split: if_splits)
  moreover have "a \<Longrightarrow> 29 \<le> length d" using a by (auto simp: Audio_isValidHeader_def AudioDataHeader_size_def split: if_splits)
  ultimately show ?thesis
    using v a PacketMetadata_read_total [of 27 d] PacketMetadata_read_total [of 3 d]
    by (cases v; cases a)
      (auto simp: metadataFromRaw_def Frame_metadataFromRaw_def Audio_metadataFromRaw_def)
qed

end
