(* ===== verification/Segmentizer.thy ===== *)
theory Segmentizer
  imports Frame_Data
begin

text \<open>
  Slicing of packets into segments (\<open>ndnrtc/cpp/src/segmentizer.cpp\<close>). A segment of the list is
  a payload size and a pointer into the packet's buffer, modelled as the offset from its start.
  Lengths are those of the code's \<open>int\<close> arithmetic below \<open>2^31\<close>; a slice size of 0 divides by
  zero (\<open>None\<close>).
\<close>

record segment_slice =
  sl_payloadSize :: nat
  sl_dataPtr :: nat

definition getSegmentsNum :: "nat \<Rightarrow> nat \<Rightarrow> nat" where
  "getSegmentsNum dataSize segmentSize = ceil_div dataSize segmentSize"

fun segmentize_loop :: "nat \<Rightarrow> nat \<Rightarrow> nat \<Rightarrow> nat \<Rightarrow> nat \<Rightarrow> segment_slice list" where
  "segmentize_loop 0 nSegments sliceSize lastSegmentSize ptr = []"
| "segmentize_loop (Suc k) nSegments sliceSize lastSegmentSize ptr =
     (let i = nSegments - Suc k in
      \<lparr>sl_payloadSize = (if i = nSegments - 1 then lastSegmentSize else sliceSize), sl_dataPtr = ptr\<rparr> #
      segmentize_loop k nSegments sliceSize lastSegmentSize (ptr + sliceSize))"

definition segmentize ::
    "bool \<Rightarrow> nat \<Rightarrow> nat \<Rightarrow> segment_slice list \<Rightarrow> (result \<times> segment_slice list) option" where
  "segmentize isValid len segmentSize segments =
     (if isValid then
        if segmentSize = 0 then None
        else
          let nSegments = getSegmentsNum len segmentSize;
              lastSegmentSize =
                (if len div segmentSize \<noteq> nSegments then len - (len div segmentSize) * segmentSize
                 else segmentSize) in
          Some (RESULT_OK, segmentize_loop nSegments nSegments segmentSize lastSegmentSize 0)
      else Some (RESULT_ERR, segments))"

text \<open>All segments point into one buffer, of which \<open>data\<close> is the part from the first pointer on.\<close>

definition desegmentize ::
    "(u32 \<Rightarrow> u32 \<Rightarrow> int) \<Rightarrow> segment_slice list \<Rightarrow> bytes \<Rightarrow> (result \<times> packet_data option) option" where
  "desegmentize cbs segments data =
     (case segments of
        [] \<Rightarrow> Some (RESULT_ERR, None)
      | s # _ \<Rightarrow> packetFromRaw cbs (sum_list (map sl_payloadSize segments)) (drop (sl_dataPtr s) data))"

section \<open>Facts\<close>

lemma ceil_div_exact: "0 < b \<Longrightarrow> a mod b = 0 \<Longrightarrow> ceil_div a b = a div b"
proof -
  assume b: "0 < b" and "a mod b = 0"
  then have "b dvd a" by (simp add: dvd_eq_mod_eq_0)
  then obtain k where a: "a = b * k" ..
  have "(a + b - 1) div b = k"
  proof (rule div_nat_eqI)
    show "b * k \<le> a + b - 1" "a + b - 1 < b * Suc k" using a b by simp_all
  qed
  then show ?thesis using a b by (simp add: ceil_div_def)
qed

lemma ceil_div_inexact: "0 < b \<Longrightarrow> a mod b \<noteq> 0 \<Longrightarrow> ceil_div a b = Suc (a div b)"
proof -
  assume b: "0 < b" and r: "a mod b \<noteq> 0"
  have a: "a = b * (a div b) + a mod b" by simp
  have "(a + b - 1) div b = Suc (a div b)"
  proof (rule div_nat_eqI)
    have "b * (a div b) + 1 \<le> a" using a r by linarith
    then show "b * Suc (a div b) \<le> a + b - 1" by simp
    have "a < b * (a div b) + b" using a mod_less_divisor [OF b, of a] by linarith
    then show "a + b - 1 < b * Suc (Suc (a div b))" by simp
  qed
  then show ?thesis by (simp add: ceil_div_def)
qed

lemma segmentize_loop_nth:
  "k \<le> n \<Longrightarrow> i < k \<Longrightarrow> segmentize_loop k n sz lst ptr ! i =
     \<lparr>sl_payloadSize = (if i = k - 1 then lst else sz), sl_dataPtr = ptr + i * sz\<rparr>"
proof (induction k arbitrary: i ptr)
  case (Suc k)
  then show ?case by (cases i) (auto simp: Let_def)
qed simp

lemma length_segmentize_loop [simp]: "length (segmentize_loop k n sz lst ptr) = k"
  by (induction k arbitrary: ptr) (simp_all add: Let_def)

lemma segmentize_loop_concat:
  "k \<le> n \<Longrightarrow> 0 < k \<Longrightarrow> ptr + (k - 1) * sz + lst \<le> length data \<Longrightarrow>
   concat (map (\<lambda>s. take (sl_payloadSize s) (drop (sl_dataPtr s) data)) (segmentize_loop k n sz lst ptr)) =
   take ((k - 1) * sz + lst) (drop ptr data)"
proof (induction k arbitrary: ptr)
  case (Suc k)
  show ?case
  proof (cases k)
    case (Suc j)
    have "concat (map (\<lambda>s. take (sl_payloadSize s) (drop (sl_dataPtr s) data))
        (segmentize_loop k n sz lst (ptr + sz))) = take ((k - 1) * sz + lst) (drop (ptr + sz) data)"
      using Suc.prems Suc by (intro Suc.IH) (simp_all add: algebra_simps)
    then show ?thesis
      using Suc Suc.prems take_add [of sz "j * sz + lst" "drop ptr data"]
      by (simp add: Let_def algebra_simps)
  qed (use Suc.prems in \<open>simp add: Let_def\<close>)
qed simp

lemma segment_sizes:
  assumes "0 < b" "0 < a"
  defines "n \<equiv> ceil_div a b"
  defines "lst \<equiv> (if a div b \<noteq> n then a - (a div b) * b else b)"
  shows "(n - 1) * b + lst = a" "0 < n" "0 < lst" "lst \<le> b"
proof -
  have d: "a = a div b * b + a mod b" by simp
  have "(n - 1) * b + lst = a \<and> 0 < n \<and> 0 < lst \<and> lst \<le> b"
  proof (cases "a mod b = 0")
    case True
    then have "n = a div b" "0 < a div b"
      using assms ceil_div_exact by (auto simp: n_def)
    with True d assms(1) show "(n - 1) * b + lst = a \<and> 0 < n \<and> 0 < lst \<and> lst \<le> b"
      by (simp add: lst_def) (metis One_nat_def Suc_pred add.commute mult_Suc)
  next
    case False
    then have n: "n = Suc (a div b)" using assms ceil_div_inexact by (simp add: n_def)
    then have "lst = a mod b" by (simp add: lst_def minus_div_mult_eq_mod)
    with n d False mod_less_divisor [OF assms(1), of a]
    show "(n - 1) * b + lst = a \<and> 0 < n \<and> 0 < lst \<and> lst \<le> b" by simp
  qed
  then show "(n - 1) * b + lst = a" "0 < n" "0 < lst" "lst \<le> b" by blast+
qed

section \<open>Properties\<close>

text \<open>C14: The segments of a packet are the consecutive slices of its bytes: there are
  \<open>ceil (length / size)\<close> of them, all but the last have the full size, none is empty, and their
  concatenation is the packet.\<close>

theorem segmentize_partition:
  assumes "0 < segmentSize" "0 < len" "len \<le> length data"
  shows "\<exists>segs. segmentize True len segmentSize old = Some (RESULT_OK, segs) \<and>
    length segs = ceil_div len segmentSize \<and>
    (\<forall>i < length segs. sl_dataPtr (segs ! i) = i * segmentSize \<and> 0 < sl_payloadSize (segs ! i) \<and>
       sl_payloadSize (segs ! i) \<le> segmentSize \<and>
       (i < length segs - 1 \<longrightarrow> sl_payloadSize (segs ! i) = segmentSize)) \<and>
    concat (map (\<lambda>s. take (sl_payloadSize s) (drop (sl_dataPtr s) data)) segs) = take len data"
proof -
  let ?n = "ceil_div len segmentSize"
  let ?lst = "if len div segmentSize \<noteq> ?n then len - (len div segmentSize) * segmentSize else segmentSize"
  let ?segs = "segmentize_loop ?n ?n segmentSize ?lst 0"
  note sizes = segment_sizes [OF assms(1,2)]
  have "concat (map (\<lambda>s. take (sl_payloadSize s) (drop (sl_dataPtr s) data)) ?segs) =
      take ((?n - 1) * segmentSize + ?lst) (drop 0 data)"
    by (rule segmentize_loop_concat) (use sizes assms in simp_all)
  also have "\<dots> = take len data" using sizes(1) by simp
  finally have c: "concat (map (\<lambda>s. take (sl_payloadSize s) (drop (sl_dataPtr s) data)) ?segs) = take len data" .
  have s: "segmentize True len segmentSize old = Some (RESULT_OK, ?segs)"
    using assms by (simp add: segmentize_def getSegmentsNum_def Let_def)
  have nth: "?segs ! i = \<lparr>sl_payloadSize = (if i = ?n - 1 then ?lst else segmentSize),
      sl_dataPtr = i * segmentSize\<rparr>" if "i < ?n" for i
    using segmentize_loop_nth [OF order_refl that] by simp
  show ?thesis
    by (intro exI [of _ ?segs] conjI allI impI s c) (use nth sizes assms(1) in simp_all)
qed

theorem segmentize_partition_witness:
  "\<exists>segs. segmentize True 10 4 [] = Some (RESULT_OK, segs) \<and> length segs = 3"
  using segmentize_partition [of 4 10 "replicate 12 CHR ''a''" "[]"] by (auto simp: ceil_div_def)

end
