(* ===== verification/Slot.thy ===== *)
theory Slot
  imports Complex_Main Frame_Data Std_Map
begin

text \<open>
  The slot of the frame buffer (\<open>FrameBuffer::Slot\<close> and \<open>FrameBuffer::Slot::Segment\<close> in
  \<open>ndnrtc/cpp/src/frame-buffer.cpp\<close> and \<open>frame-buffer.h\<close>): one video frame or audio bundle
  while its segments are requested and arrive. The state is the record \<open>slot\<close>, an operation
  returns the new state; \<open>None\<close> is a failed \<open>assert\<close> or an access outside an allocation. The
  clock and the random nonce are arguments.

  Segments are shared pointers in the code. Here a segment is a value that lives in the map
  \<open>s_activeSegments\<close> (keyed by the segment number, parity segments by \<open>-(n + 1)\<close>) or in
  \<open>s_rightmostSegment\<close>; the copy in \<open>s_recentSegment\<close> never goes stale, because a fetched
  segment does not change before the slot is reset.
\<close>

section \<open>Segments\<close>

datatype seg_state = StateFetched | StatePending | StateMissing | StateNotUsed

record segment =
  sg_number :: int
  sg_prefix :: name
  sg_payloadSize :: u32
  sg_dataPtr :: "nat option"
  sg_state :: seg_state
  sg_requestTimeUsec :: int
  sg_arrivalTimeUsec :: int
  sg_consumeTimeMs :: int
  sg_reqCounter :: int
  sg_dataNonce :: u32
  sg_interestNonce :: u32
  sg_generationDelayMs :: int
  sg_isParity :: bool

definition Segment_resetData :: "segment \<Rightarrow> segment" where
  "Segment_resetData sg = sg\<lparr>sg_state := StateNotUsed, sg_requestTimeUsec := -1,
     sg_arrivalTimeUsec := -1, sg_reqCounter := 0, sg_dataNonce := 0, sg_interestNonce := -1,
     sg_generationDelayMs := -1, sg_number := -1, sg_payloadSize := -1, sg_consumeTimeMs := -1,
     sg_prefix := Name [], sg_isParity := False\<rparr>"

text \<open>\<open>resetData\<close> leaves the data pointer alone; a new segment has none.\<close>

definition new_Segment :: segment where
  "new_Segment = \<lparr>sg_number = -1, sg_prefix = Name [], sg_payloadSize = -1, sg_dataPtr = None,
     sg_state = StateNotUsed, sg_requestTimeUsec = -1, sg_arrivalTimeUsec = -1,
     sg_consumeTimeMs = -1, sg_reqCounter = 0, sg_dataNonce = 0, sg_interestNonce = -1,
     sg_generationDelayMs = -1, sg_isParity = False\<rparr>"

definition Segment_discard :: "segment \<Rightarrow> segment" where
  "Segment_discard sg = Segment_resetData sg"

definition interestIssued :: "u32 \<Rightarrow> int \<Rightarrow> segment \<Rightarrow> segment option" where
  "interestIssued nonceValue now sg =
     (if nonceValue = 0 then None
      else Some (sg\<lparr>sg_state := StatePending,
        sg_requestTimeUsec := (if sg_requestTimeUsec sg \<le> 0 then now else sg_requestTimeUsec sg),
        sg_interestNonce := nonceValue, sg_reqCounter := sg_reqCounter sg + 1\<rparr>))"

definition markMissed :: "segment \<Rightarrow> segment" where
  "markMissed sg = sg\<lparr>sg_state := StateMissing\<rparr>"

definition dataArrived :: "SegmentMetaInfo \<Rightarrow> int \<Rightarrow> segment \<Rightarrow> segment" where
  "dataArrived segmentMeta now sg =
     sg\<lparr>sg_state := StateFetched, sg_arrivalTimeUsec := now,
       sg_consumeTimeMs := sint (interestArrivalMs segmentMeta),
       sg_dataNonce := interestNonce segmentMeta,
       sg_generationDelayMs := sint (generationDelayMs segmentMeta)\<rparr>"

definition isOriginal :: "segment \<Rightarrow> bool" where
  "isOriginal sg \<longleftrightarrow> sg_interestNonce sg \<noteq> 0 \<and> sg_dataNonce sg = sg_interestNonce sg"

definition Segment_getMetadata :: "segment \<Rightarrow> SegmentMetaInfo" where
  "Segment_getMetadata sg = \<lparr>interestNonce = sg_interestNonce sg,
     interestArrivalMs = of_int (sg_consumeTimeMs sg),
     generationDelayMs = of_int (sg_generationDelayMs sg)\<rparr>"

definition getRoundTripDelayUsec :: "segment \<Rightarrow> int" where
  "getRoundTripDelayUsec sg =
     (if sg_arrivalTimeUsec sg \<le> 0 \<or> sg_requestTimeUsec sg \<le> 0 then -1
      else sg_arrivalTimeUsec sg - sg_requestTimeUsec sg)"

section \<open>The state of a slot\<close>

datatype slot_namespace = NsUnknown | NsKey | NsDelta

datatype slot_state = StateFree | StateNew | StateAssembling | StateReady | StateLocked

text \<open>The three bits of \<open>consistency_\<close>.\<close>

datatype consistency = Consistency (cInconsistent: bool) (cPrefixMeta: bool) (cHeaderMeta: bool)

definition FEC_RLIST_SYMREADY :: byte where "FEC_RLIST_SYMREADY = CHR ''1''"
definition FEC_RLIST_SYMEMPTY :: byte where "FEC_RLIST_SYMEMPTY = CHR ''0''"
definition FEC_RLIST_SYMREPAIRED :: byte where "FEC_RLIST_SYMREPAIRED = CHR ''2''"

text \<open>\<open>slotData_\<close> has \<open>allocatedSize_\<close> bytes; \<open>NULL\<close> is the empty list.\<close>

record slot =
  s_segmentSize :: nat
  s_useFec :: bool
  s_assembledSize :: nat
  s_slotData :: bytes
  s_fecSegmentList :: bytes
  s_state :: slot_state
  s_stashedState :: slot_state
  s_consistency :: consistency
  s_nRtx :: nat
  s_hasOriginalSegments :: bool
  s_isRecovered :: bool
  s_slotPrefix :: name
  s_packetSequenceNumber :: int
  s_pairedSequenceNumber :: int
  s_packetPlaybackNumber :: int
  s_packetNamespace :: slot_namespace
  s_requestTimeUsec :: int
  s_firstSegmentTimeUsec :: int
  s_readyTimeUsec :: int
  s_playbackDeadline :: int
  s_producerTimestamp :: int
  s_packetRate :: u64
  s_nSegmentsReady :: int
  s_nSegmentsPending :: int
  s_nSegmentsMissing :: int
  s_nSegmentsTotal :: int
  s_nSegmentsParity :: int
  s_nSegmentsParityReady :: int
  s_crcValue :: int
  s_rightmostSegment :: "segment option"
  s_recentSegment :: "segment option"
  s_freeSegments :: "segment list"
  s_activeSegments :: "(int \<times> segment) list"

definition s_allocatedSize :: "slot \<Rightarrow> nat" where
  "s_allocatedSize s = length (s_slotData s)"

definition toMapParityIdx :: "int \<Rightarrow> int" where
  "toMapParityIdx segNo = - (segNo + 1)"

definition segIdx_of :: "int \<Rightarrow> bool \<Rightarrow> int" where
  "segIdx_of segNo isParity = (if isParity then toMapParityIdx segNo else segNo)"

text \<open>The conversion of an \<open>int\<close> to \<open>unsigned int\<close>, as a natural number.\<close>

definition to_unsigned :: "int \<Rightarrow> nat" where
  "to_unsigned x = nat (x mod 2 ^ 32)"

section \<open>Reset, lock and the accessors\<close>

definition Slot_reset :: "slot \<Rightarrow> (result \<times> slot) option" where
  "Slot_reset s =
     (if s_state s = StateLocked then Some (RESULT_ERR, s)
      else do {
        n \<leftarrow> (if s_nSegmentsTotal s + s_nSegmentsParity s < 0 then None
             else Some (nat (s_nSegmentsTotal s + s_nSegmentsParity s)));
        fec \<leftarrow> mem_fill (s_fecSegmentList s) 0 n FEC_RLIST_SYMEMPTY;
        Some (RESULT_OK, s\<lparr>
          s_fecSegmentList := fec, s_state := StateFree,
          s_consistency := Consistency True False False, s_packetNamespace := NsUnknown,
          s_packetPlaybackNumber := -1, s_packetSequenceNumber := -1,
          s_pairedSequenceNumber := -1, s_producerTimestamp := -1, s_playbackDeadline := -1,
          s_packetRate := pm_packetRate BadMetadata,
          s_nSegmentsTotal := 0, s_nSegmentsReady := 0, s_nSegmentsPending := 0,
          s_nSegmentsMissing := 0, s_nSegmentsParity := 0, s_nSegmentsParityReady := 0,
          s_crcValue := 0, s_slotPrefix := Name [], s_recentSegment := None,
          s_assembledSize := 0, s_nRtx := 0, s_hasOriginalSegments := False,
          s_isRecovered := False, s_requestTimeUsec := -1, s_readyTimeUsec := -1,
          s_firstSegmentTimeUsec := -1,
          s_slotData := replicate (s_allocatedSize s) (char_of (0 :: nat)),
          s_freeSegments := s_freeSegments s @ map (Segment_discard \<circ> snd) (s_activeSegments s) @
            (case s_rightmostSegment s of None \<Rightarrow> [] | Some r \<Rightarrow> [Segment_discard r]),
          s_activeSegments := [], s_rightmostSegment := None\<rparr>)
      })"

definition new_Slot :: "nat \<Rightarrow> bool \<Rightarrow> slot" where
  "new_Slot segmentSize useFec =
     \<lparr>s_segmentSize = segmentSize, s_useFec = useFec, s_assembledSize = 0, s_slotData = [],
      s_fecSegmentList = [], s_state = StateFree, s_stashedState = StateFree,
      s_consistency = Consistency True False False, s_nRtx = 0, s_hasOriginalSegments = False,
      s_isRecovered = False, s_slotPrefix = Name [], s_packetSequenceNumber = -1,
      s_pairedSequenceNumber = -1, s_packetPlaybackNumber = -1, s_packetNamespace = NsUnknown,
      s_requestTimeUsec = -1, s_firstSegmentTimeUsec = -1, s_readyTimeUsec = -1,
      s_playbackDeadline = -1, s_producerTimestamp = -1, s_packetRate = pm_packetRate BadMetadata,
      s_nSegmentsReady = 0, s_nSegmentsPending = 0, s_nSegmentsMissing = 0, s_nSegmentsTotal = 0,
      s_nSegmentsParity = 0, s_nSegmentsParityReady = 0, s_crcValue = 0, s_rightmostSegment = None,
      s_recentSegment = None, s_freeSegments = [], s_activeSegments = []\<rparr>"

definition Slot_lock :: "slot \<Rightarrow> slot" where
  "Slot_lock s = s\<lparr>s_stashedState := s_state s, s_state := StateLocked\<rparr>"

definition Slot_unlock :: "slot \<Rightarrow> slot" where
  "Slot_unlock s = s\<lparr>s_state := s_stashedState s\<rparr>"

definition getProducerTimestamp :: "slot \<Rightarrow> int" where
  "getProducerTimestamp s = (if cHeaderMeta (s_consistency s) then s_producerTimestamp s else -1)"

definition getPlaybackNumber :: "slot \<Rightarrow> int" where
  "getPlaybackNumber s = (if cPrefixMeta (s_consistency s) then s_packetPlaybackNumber s else -1)"

definition getPairedFrameNumber :: "slot \<Rightarrow> int" where
  "getPairedFrameNumber s = (if cPrefixMeta (s_consistency s) then s_pairedSequenceNumber s else -1)"

definition getAssembledLevel :: "slot \<Rightarrow> rat" where
  "getAssembledLevel s =
     (if s_nSegmentsTotal s = 0 then 0 else of_int (s_nSegmentsReady s) / of_int (s_nSegmentsTotal s))"

definition getPacketData ::
    "(u32 \<Rightarrow> u32 \<Rightarrow> int) \<Rightarrow> slot \<Rightarrow> (result \<times> packet_data option) option" where
  "getPacketData cbs s =
     (if cPrefixMeta (s_consistency s) \<or> cHeaderMeta (s_consistency s)
      then packetFromRaw cbs (s_assembledSize s) (s_slotData s) else Some (RESULT_ERR, None))"

definition getSegments :: "seg_state set \<Rightarrow> slot \<Rightarrow> segment list" where
  "getSegments segmentStateMask s =
     filter (\<lambda>sg. sg_state sg \<in> segmentStateMask) (map snd (s_activeSegments s)) @
     (case s_rightmostSegment s of
        None \<Rightarrow> [] | Some r \<Rightarrow> if sg_state r \<in> segmentStateMask then [r] else [])"

definition getMissingSegments :: "slot \<Rightarrow> segment list" where
  "getMissingSegments s = getSegments {StateMissing} s"

definition getPendingSegments :: "slot \<Rightarrow> segment list" where
  "getPendingSegments s = getSegments {StatePending} s"

definition getFetchedSegments :: "slot \<Rightarrow> segment list" where
  "getFetchedSegments s = getSegments {StateFetched} s"

definition getSegment :: "int \<Rightarrow> bool \<Rightarrow> slot \<Rightarrow> segment option" where
  "getSegment segNo isParity s = map_of (s_activeSegments s) (segIdx_of segNo isParity)"

definition isRightmost :: "slot \<Rightarrow> bool" where
  "isRightmost s \<longleftrightarrow> s_rightmostSegment s \<noteq> None"

definition isNextPacket :: "slot \<Rightarrow> slot \<Rightarrow> bool" where
  "isNextPacket s nextSlot =
     (if cHeaderMeta (s_consistency s) \<and> cHeaderMeta (s_consistency nextSlot)
      then getPlaybackNumber s = getPlaybackNumber nextSlot - 1 else False)"

definition setPrefix :: "name \<Rightarrow> slot \<Rightarrow> slot option" where
  "setPrefix prefix s = do {
     packetNo \<leftarrow> getPacketNumber prefix;
     Some (s\<lparr>
       s_packetNamespace :=
         (if isKeyFramePrefix prefix then NsKey
          else if isDeltaFramePrefix prefix then NsDelta else NsUnknown),
       s_packetSequenceNumber := packetNo,
       s_slotPrefix := prefix\<rparr>)
   }"

section \<open>Issuing interests\<close>

text \<open>
  \<open>prepareFreeSegment\<close>: the segment to use for an interest, if there is one: a missing segment of
  the map, or a fresh one.
\<close>

definition prepareFreeSegment :: "int \<Rightarrow> bool \<Rightarrow> slot \<Rightarrow> (segment option \<times> slot) option" where
  "prepareFreeSegment segNo isParity s =
     (case map_of (s_activeSegments s) (segIdx_of segNo isParity) of
        Some seg \<Rightarrow>
          if sg_state seg = StateMissing
          then Some (Some seg, s\<lparr>s_nSegmentsMissing := s_nSegmentsMissing s - 1\<rparr>)
          else Some (None, s)
      | None \<Rightarrow>
          let freeSegment = (if s_freeSegments s \<noteq> [] then last (s_freeSegments s) else new_Segment);
              s' = s\<lparr>s_freeSegments := butlast (s_freeSegments s)\<rparr> in
          if segNo \<ge> 0 then do {
            p \<leftarrow> appendSegment (appendDataKind (s_slotPrefix s) isParity) (of_int segNo);
            Some (Some (freeSegment\<lparr>sg_prefix := p\<rparr>), s')
          } else Some (Some (freeSegment\<lparr>sg_prefix := s_slotPrefix s\<rparr>), s'))"

text \<open>
  \<open>addInterest\<close>: the interest's name, the random nonce and the clock are arguments. A product
  \<open>packetNumber * segmentNumber\<close> beyond 32 bits is a signed overflow (\<open>None\<close>).
\<close>

definition Slot_addInterest :: "name \<Rightarrow> u32 \<Rightarrow> int \<Rightarrow> slot \<Rightarrow> (result \<times> slot) option" where
  "Slot_addInterest interestName rnd now s =
     (if s_state s = StateReady \<or> s_state s = StateLocked then Some (RESULT_ERR, s)
      else do {
        (packetNumber, segNumber) \<leftarrow> getSegmentationNumbers interestName;
        if s_packetSequenceNumber s \<ge> 0 \<and> s_packetSequenceNumber s \<noteq> packetNumber
        then Some (RESULT_ERR, s)
        else do {
          let s1 = (if packetNumber \<ge> 0 then s\<lparr>s_packetSequenceNumber := packetNumber\<rparr> else s);
          let isParityPrefix = isParitySegmentPrefix interestName;
          (reserved, s2) \<leftarrow> prepareFreeSegment segNumber isParityPrefix s1;
          if packetNumber * segNumber < - (2 ^ 31) \<or> packetNumber * segNumber \<ge> 2 ^ 31 then None
          else if packetNumber * segNumber \<ge> 0 \<and> reserved \<noteq> None then do {
            seg \<leftarrow> interestIssued (blobToNonce (nonceToBlob rnd)) now (the reserved);
            let seg' = seg\<lparr>sg_number := segNumber, sg_isParity := isParityPrefix\<rparr>;
            let s3 = (if packetNumber < 0 then s2\<lparr>s_rightmostSegment := Some seg'\<rparr>
                      else s2\<lparr>s_activeSegments :=
                        map_assign (segIdx_of segNumber isParityPrefix) seg' (s_activeSegments s2)\<rparr>);
            s4 \<leftarrow> (if s_state s3 = StateFree then do {
                      (p, prefix) \<leftarrow> trimDataTypeComponent interestName;
                      Some (s3\<lparr>s_slotPrefix := prefix, s_state := StateNew,
                        s_requestTimeUsec := sg_requestTimeUsec seg'\<rparr>)
                    } else Some s3);
            Some (RESULT_OK, s4\<lparr>s_nSegmentsPending := s_nSegmentsPending s4 + 1\<rparr>)
          }
          else Some (RESULT_WARN, s2)
        }
      })"

definition Slot_markMissing :: "name \<Rightarrow> slot \<Rightarrow> (result \<times> slot) option" where
  "Slot_markMissing interestName s =
     (if s_state s = StateLocked then Some (RESULT_ERR, s)
      else do {
        packetNumber \<leftarrow> getPacketNumber interestName;
        segNumber \<leftarrow> getSegmentNumber interestName;
        let isParity = isParitySegmentPrefix interestName;
        if packetNumber < 0 \<and> segNumber < 0 \<and> s_rightmostSegment s \<noteq> None then
          Some (RESULT_OK, s\<lparr>s_rightmostSegment := map_option markMissed (s_rightmostSegment s)\<rparr>)
        else
          (case getSegment segNumber isParity s of
             None \<Rightarrow> Some (RESULT_ERR, s)
           | Some seg \<Rightarrow>
               if sg_state seg = StatePending then
                 Some (RESULT_OK, s\<lparr>s_nSegmentsMissing := s_nSegmentsMissing s + 1,
                   s_nSegmentsPending := s_nSegmentsPending s - 1,
                   s_activeSegments :=
                     map_assign (segIdx_of segNumber isParity) (markMissed seg) (s_activeSegments s)\<rparr>)
               else Some (RESULT_WARN, s))
      })"

section \<open>Metadata\<close>

text \<open>
  The loop of \<open>refineActiveSegments\<close>: the entries already passed, and the rest. It dereferences
  the iterator without comparing it with the end.
\<close>

fun refine_loop ::
    "int \<Rightarrow> int \<Rightarrow> (int \<times> segment) list \<Rightarrow> (int \<times> segment) list \<Rightarrow> (int \<times> segment) list option" where
  "refine_loop nTotal nParity passed rest =
     (if nTotal + nParity < 0 \<or> int (length passed + length rest) \<le> nTotal + nParity
      then Some (passed @ rest)
      else (case rest of
        [] \<Rightarrow> None
      | (i, seg) # rest' \<Rightarrow>
          if sg_number seg \<ge> (if sg_isParity seg then nParity else nTotal)
          then refine_loop nTotal nParity passed rest'
          else refine_loop nTotal nParity (passed @ [(i, seg)]) rest'))"

definition refineActiveSegments :: "slot \<Rightarrow> slot option" where
  "refineActiveSegments s = do {
     m \<leftarrow> refine_loop (s_nSegmentsTotal s) (s_nSegmentsParity s) [] (s_activeSegments s);
     Some (s\<lparr>s_activeSegments := m\<rparr>)
   }"

text \<open>Both loops run from the last segment number down to 0.\<close>

fun init_missing :: "nat \<Rightarrow> bool \<Rightarrow> name \<Rightarrow> slot \<Rightarrow> slot option" where
  "init_missing 0 isParity segmentPrefix s = Some s"
| "init_missing (Suc segNo) isParity segmentPrefix s =
     (case map_of (s_activeSegments s) (segIdx_of (int segNo) isParity) of
        Some _ \<Rightarrow> init_missing segNo isParity segmentPrefix s
      | None \<Rightarrow> do {
          p \<leftarrow> appendSegment segmentPrefix (of_nat segNo);
          let seg = (markMissed (new_Segment\<lparr>sg_number := int segNo, sg_isParity := isParity\<rparr>))
                      \<lparr>sg_prefix := p\<rparr>;
          init_missing segNo isParity segmentPrefix
            (s\<lparr>s_activeSegments := map_assign (segIdx_of (int segNo) isParity) seg (s_activeSegments s),
              s_nSegmentsMissing := s_nSegmentsMissing s + 1\<rparr>)
        })"

definition initMissingSegments :: "slot \<Rightarrow> slot option" where
  "initMissingSegments s =
     init_missing (nat (s_nSegmentsTotal s)) False (appendDataKind (s_slotPrefix s) False) s"

definition initMissingParitySegments :: "slot \<Rightarrow> slot option" where
  "initMissingParitySegments s =
     init_missing (nat (s_nSegmentsParity s)) True (appendDataKind (s_slotPrefix s) True) s"

definition updateConsistencyWithMeta :: "int \<Rightarrow> PrefixMetaInfo \<Rightarrow> slot \<Rightarrow> slot option" where
  "updateConsistencyWithMeta sequenceNumber prefixMeta s =
     (if cPrefixMeta (s_consistency s) then Some s
      else do {
        let s1 = s\<lparr>s_consistency := Consistency False True (cHeaderMeta (s_consistency s)),
          s_packetSequenceNumber := sequenceNumber,
          s_packetPlaybackNumber := playbackNo prefixMeta,
          s_pairedSequenceNumber := pairedSequenceNo prefixMeta,
          s_nSegmentsTotal := totalSegmentsNum prefixMeta,
          s_nSegmentsParity := paritySegmentsNum prefixMeta,
          s_crcValue := crcValue prefixMeta\<rparr>;
        s2 \<leftarrow> refineActiveSegments s1;
        s3 \<leftarrow> initMissingSegments s2;
        if s_useFec s3 then initMissingParitySegments s3 else Some s3
      })"

definition updateConsistencyFromHeader :: "slot \<Rightarrow> slot option" where
  "updateConsistencyFromHeader s =
     (if cHeaderMeta (s_consistency s) then Some s
      else do {
        metadata \<leftarrow> metadataFromRaw (s_allocatedSize s) (s_slotData s);
        Some (s\<lparr>s_consistency := Consistency False (cPrefixMeta (s_consistency s)) True,
          s_packetRate := pm_packetRate metadata,
          s_producerTimestamp := sint (pm_timestamp metadata)\<rparr>)
      })"

text \<open>The index into \<open>fecSegmentList_\<close> comes from the network and is not compared with its size.\<close>

definition hasReceivedSegment :: "int \<Rightarrow> bool \<Rightarrow> slot \<Rightarrow> bool option" where
  "hasReceivedSegment segNo isParity s =
     (if cPrefixMeta (s_consistency s) then do {
        b \<leftarrow> mem_get (s_fecSegmentList s)
               (to_unsigned (if isParity then s_nSegmentsTotal s + segNo else segNo));
        Some (b = FEC_RLIST_SYMREADY \<or> b = FEC_RLIST_SYMREPAIRED)
      } else Some False)"

text \<open>The data of a rightmost interest tells which packet and segment it was.\<close>

definition fixRightmost :: "int \<Rightarrow> int \<Rightarrow> bool \<Rightarrow> slot \<Rightarrow> slot option" where
  "fixRightmost packetNumber segNumber isParity s =
     (case (map_of (s_activeSegments s) (segIdx_of segNumber isParity), s_rightmostSegment s) of
        (None, Some r) \<Rightarrow> do {
          s1 \<leftarrow> setPrefix (name_append (s_slotPrefix s) (componentFromInt (of_int packetNumber))) s;
          p \<leftarrow> appendSegment (appendDataKind (s_slotPrefix s1) isParity) (of_int segNumber);
          Some (s1\<lparr>s_activeSegments :=
              map_assign (segIdx_of segNumber isParity) (r\<lparr>sg_prefix := p\<rparr>) (s_activeSegments s1),
            s_rightmostSegment := None\<rparr>)
        }
      | _ \<Rightarrow> Some s)"

section \<open>Data\<close>

text \<open>Sizes are unsigned 32-bit products. Growing the storage loses the data of earlier segments,
  so the code asserts that there is none.\<close>

definition prepareStorage :: "nat \<Rightarrow> nat \<Rightarrow> nat \<Rightarrow> slot \<Rightarrow> slot option" where
  "prepareStorage segmentSize nSegments nParitySegments s =
     (let slotSize = segmentSize * (nSegments + nParitySegments) mod 2 ^ 32 in
      if s_allocatedSize s < slotSize then
        (if s_assembledSize s \<noteq> 0 then None
         else Some (s\<lparr>s_slotData := replicate slotSize (char_of (0 :: nat)),
           s_fecSegmentList := replicate (nSegments + nParitySegments) FEC_RLIST_SYMEMPTY\<rparr>))
      else Some s)"

definition addData :: "bytes \<Rightarrow> int \<Rightarrow> int \<Rightarrow> bool \<Rightarrow> int \<Rightarrow> slot \<Rightarrow> slot option" where
  "addData segmentData segNo totalSegNum isParitySegment totalParitySegNum s = do {
     s1 \<leftarrow> prepareStorage (s_segmentSize s) (to_unsigned totalSegNum) (to_unsigned totalParitySegNum) s;
     let segmentIdx = to_unsigned (if isParitySegment then totalSegNum + segNo else segNo);
     d \<leftarrow> mem_write (s_slotData s1) (segmentIdx * s_segmentSize s mod 2 ^ 32) segmentData;
     fec \<leftarrow> mem_write (s_fecSegmentList s1) segmentIdx [FEC_RLIST_SYMREADY];
     Some (s1\<lparr>s_slotData := d, s_fecSegmentList := fec,
       s_assembledSize := s_assembledSize s1 + length segmentData\<rparr>)
   }"

text \<open>The offset of the segment in \<open>slotData_\<close>, computed from the size of this segment.\<close>

definition getSegmentDataPtr :: "nat \<Rightarrow> int \<Rightarrow> bool \<Rightarrow> slot \<Rightarrow> nat option" where
  "getSegmentDataPtr segmentSize segNumber isParity s =
     (let segmentIdx = to_unsigned (if isParity then segNumber + s_nSegmentsTotal s else segNumber) in
      if s_allocatedSize s > segmentSize * segmentIdx mod 2 ^ 32
      then Some (segmentSize * segmentIdx mod 2 ^ 32) else None)"

text \<open>A segment that is accepted: its payload is stored and the state of the slot advances.\<close>

definition acceptSegment ::
    "int \<Rightarrow> bool \<Rightarrow> PrefixMetaInfo \<Rightarrow> SegmentData \<Rightarrow> int \<Rightarrow> slot \<Rightarrow> slot option" where
  "acceptSegment segNumber isParity prefixMeta segmentData now s = do {
     segmentMeta \<leftarrow> SegmentData_getMetadata segmentData;
     let payload = getSegmentData segmentData;
     s1 \<leftarrow> addData payload segNumber (totalSegmentsNum prefixMeta) isParity (s_nSegmentsParity s) s;
     s2 \<leftarrow> (if segNumber = 0 \<and> \<not> isParity then updateConsistencyFromHeader s1 else Some s1);
     seg \<leftarrow> getSegment segNumber isParity s2;
     let seg' = dataArrived segmentMeta now
           (seg\<lparr>sg_dataPtr := getSegmentDataPtr (length payload) segNumber isParity s2,
             sg_number := segNumber, sg_payloadSize := of_nat (length payload)\<rparr>)
           \<lparr>sg_isParity := isParity\<rparr>;
     let s3 = s2\<lparr>s_activeSegments :=
             map_assign (segIdx_of segNumber isParity) seg' (s_activeSegments s2),
           s_nSegmentsPending := s_nSegmentsPending s2 - 1,
           s_nSegmentsReady := s_nSegmentsReady s2 + (if isParity then 0 else 1),
           s_nSegmentsParityReady := s_nSegmentsParityReady s2 + (if isParity then 1 else 0),
           s_recentSegment := Some seg',
           s_hasOriginalSegments := (s_hasOriginalSegments s2 \<or> isOriginal seg')\<rparr>;
     let nFetched = length (getFetchedSegments s3);
     if s_nSegmentsReady s3 = totalSegmentsNum prefixMeta then
       Some (s3\<lparr>s_state := StateReady, s_readyTimeUsec := sg_arrivalTimeUsec seg'\<rparr>)
     else if totalSegmentsNum prefixMeta < 0 \<or> int nFetched < totalSegmentsNum prefixMeta then
       Some (s3\<lparr>s_state := StateAssembling,
         s_firstSegmentTimeUsec := (if s_state s3 = StateNew then sg_arrivalTimeUsec seg'
                                    else s_firstSegmentTimeUsec s3)\<rparr>)
     else Some s3
   }"

text \<open>The local structure that \<open>extractMetadata\<close> fills.\<close>

definition zero_prefix_meta :: PrefixMetaInfo where
  "zero_prefix_meta = \<lparr>totalSegmentsNum = 0, playbackNo = 0, pairedSequenceNo = 0,
     paritySegmentsNum = 0, crcValue = 0\<rparr>"

text \<open>
  \<open>appendData\<close>: the name and the content of the data packet (\<open>None\<close> for a null blob) and the
  clock are arguments. The first component of the result is the returned state.
\<close>

definition Slot_appendData :: "name \<Rightarrow> bytes option \<Rightarrow> int \<Rightarrow> slot \<Rightarrow> (slot_state \<times> slot) option" where
  "Slot_appendData dataName content now s =
     (if (s_state s \<noteq> StateAssembling \<and> s_state s \<noteq> StateNew) \<or> s_nSegmentsPending s = 0
      then Some (s_state s, s)
      else do {
        (packetNumber, segNumber) \<leftarrow> getSegmentationNumbers dataName;
        let isParity = isParitySegmentPrefix dataName;
        if s_rightmostSegment s = None \<and> packetNumber \<noteq> s_packetSequenceNumber s
        then Some (StateFree, s)
        else do {
          received \<leftarrow> hasReceivedSegment segNumber isParity s;
          if received then Some (s_state s, s)
          else do {
            (r, prefixMeta) \<leftarrow> extractMetadata dataName zero_prefix_meta;
            if \<not> RESULT_GOOD r then Some (s_state s, s)
            else do {
              s1 \<leftarrow> fixRightmost packetNumber segNumber isParity s;
              s2 \<leftarrow> updateConsistencyWithMeta packetNumber prefixMeta s1;
              if totalSegmentsNum prefixMeta \<noteq> s_nSegmentsTotal s2 then None
              else do {
                (r', segmentData) \<leftarrow> segmentDataFromRaw
                   (case content of None \<Rightarrow> 0 | Some c \<Rightarrow> length c) content
                   \<lparr>sd_isValid = False, sd_length = 0, sd_data = []\<rparr>;
                if RESULT_GOOD r' then do {
                  s3 \<leftarrow> acceptSegment segNumber isParity prefixMeta segmentData now s2;
                  Some (s_state s3, s3)
                } else Some (s_state s2, s2)
              }
            }
          }
        }
      })"

text \<open>
  \<open>recover\<close>. The Reed-Solomon decoder is a library; \<open>decode\<close> stands for it: from the numbers of
  segments, the segment size, the data, the parity data and the list of symbol states it gives the
  number of recovered segments, the repaired data and the new list.
\<close>

definition Slot_recover ::
    "(nat \<Rightarrow> nat \<Rightarrow> nat \<Rightarrow> bytes \<Rightarrow> bytes \<Rightarrow> bytes \<Rightarrow> int \<times> bytes \<times> bytes) \<Rightarrow> slot \<Rightarrow> int \<times> slot" where
  "Slot_recover decode s =
     (let assembledLevel = getAssembledLevel s in
      if assembledLevel > 0 \<and> assembledLevel < 1 \<and> s_nSegmentsParity s > 0 then
        let dataSize = nat (s_nSegmentsTotal s) * s_segmentSize s;
            (nRecovered, d, fec) = decode (nat (s_nSegmentsTotal s)) (nat (s_nSegmentsParity s))
               (s_segmentSize s) (take dataSize (s_slotData s)) (drop dataSize (s_slotData s))
               (s_fecSegmentList s);
            recovered = (nRecovered + s_nSegmentsReady s \<ge> s_nSegmentsTotal s) in
        (nRecovered, s\<lparr>s_slotData := d @ drop dataSize (s_slotData s), s_fecSegmentList := fec,
           s_isRecovered := recovered,
           s_nSegmentsReady := (if recovered then s_nSegmentsTotal s else s_nSegmentsReady s)\<rparr>)
      else (0, s))"

end
