(* ===== verification/Slot_Assembly.thy ===== *)
theory Slot_Assembly
  imports Slot
begin

text \<open>
  Reassembly of a packet in a slot: the invariant that relates a slot to the set of segments that
  have arrived, its preservation by \<open>Slot_appendData\<close>, and the theorem that the segments of a
  packet, in any order and with duplicates, make the slot ready with the packet's bytes in place.
\<close>

text \<open>A packet as the producer publishes it: its number, its metadata and the payload of each
  segment, data segments first and parity segments behind them.\<close>

record packet_spec =
  pk_no :: int
  pk_meta :: PrefixMetaInfo
  pk_payload :: "nat \<Rightarrow> bytes"

definition pk_data :: "packet_spec \<Rightarrow> nat" where
  "pk_data p = nat (totalSegmentsNum (pk_meta p))"

definition pk_parity :: "packet_spec \<Rightarrow> nat" where
  "pk_parity p = nat (paritySegmentsNum (pk_meta p))"

definition pk_count :: "packet_spec \<Rightarrow> nat" where
  "pk_count p = pk_data p + pk_parity p"

definition pk_ok :: "nat \<Rightarrow> packet_spec \<Rightarrow> bool" where
  "pk_ok segmentSize p \<longleftrightarrow> 0 < segmentSize \<and> 0 < totalSegmentsNum (pk_meta p) \<and>
     0 \<le> paritySegmentsNum (pk_meta p) \<and> pk_count p * segmentSize < 2 ^ 32 \<and>
     (\<forall>k < pk_count p. pk_payload p k \<noteq> [] \<and> length (pk_payload p k) \<le> segmentSize)"

text \<open>The key of a segment in the map, from its index among data and parity segments.\<close>

definition key_of :: "packet_spec \<Rightarrow> nat \<Rightarrow> int" where
  "key_of p k = segIdx_of (int (if k < pk_data p then k else k - pk_data p)) (k \<ge> pk_data p)"

definition fec_mark :: "nat set \<Rightarrow> nat \<Rightarrow> byte" where
  "fec_mark R k = (if k \<in> R then FEC_RLIST_SYMREADY else FEC_RLIST_SYMEMPTY)"

text \<open>
  The part of the invariant that does not depend on whether the metadata is known. \<open>R\<close> is the set
  of the segments that have arrived and \<open>L\<close> the number of interests that were given up: both are
  subtracted from the count of pending segments, also when a segment belongs to both.
\<close>

definition assembling_core :: "packet_spec \<Rightarrow> nat \<Rightarrow> nat set \<Rightarrow> slot \<Rightarrow> bool" where
  "assembling_core p L R s \<longleftrightarrow>
     R \<subseteq> {..< pk_count p} \<and> s_rightmostSegment s = None \<and>
     s_packetSequenceNumber s = pk_no p \<and> map_ok (s_activeSegments s) \<and>
     length (s_activeSegments s) = pk_count p \<and>
     (\<forall>k < pk_count p. \<exists>seg. map_of (s_activeSegments s) (key_of p k) = Some seg \<and>
        (sg_state seg = StateFetched \<longleftrightarrow> k \<in> R)) \<and>
     s_nSegmentsReady s = int (card {k \<in> R. k < pk_data p}) \<and>
     s_nSegmentsPending s = int (pk_count p) - int (card R) - int L \<and>
     s_assembledSize s = (\<Sum>k \<in> R. length (pk_payload p k)) \<and>
     length (s_slotData s) = length (s_fecSegmentList s) * s_segmentSize s \<and>
     (R \<noteq> {} \<longrightarrow> pk_count p \<le> length (s_fecSegmentList s)) \<and>
     (\<forall>k < length (s_fecSegmentList s). s_fecSegmentList s ! k = fec_mark R k) \<and>
     (\<forall>k \<in> R. mem_read (s_slotData s) (k * s_segmentSize s) (length (pk_payload p k)) =
        Some (pk_payload p k))"

definition meta_known :: "packet_spec \<Rightarrow> slot \<Rightarrow> bool" where
  "meta_known p s \<longleftrightarrow> cPrefixMeta (s_consistency s) \<and>
     s_nSegmentsTotal s = totalSegmentsNum (pk_meta p) \<and>
     s_nSegmentsParity s = paritySegmentsNum (pk_meta p)"

definition assembling :: "packet_spec \<Rightarrow> nat \<Rightarrow> nat set \<Rightarrow> slot \<Rightarrow> bool" where
  "assembling p L R s \<longleftrightarrow> assembling_core p L R s \<and>
     (if R = {} then \<not> cPrefixMeta (s_consistency s) \<and> s_nSegmentsTotal s = 0 \<and> s_nSegmentsParity s = 0
      else meta_known p s) \<and>
     (if {..< pk_data p} \<subseteq> R then s_state s = StateReady
      else s_state s = StateNew \<or> s_state s = StateAssembling)"

section \<open>Keys and indices\<close>

lemma key_of_inj: "key_of p i = key_of p j \<longleftrightarrow> i = j"
  by (auto simp: key_of_def segIdx_of_def toMapParityIdx_def split: if_splits)

lemma pk_okD:
  assumes "pk_ok sz p"
  shows "0 < sz" "totalSegmentsNum (pk_meta p) = int (pk_data p)" "0 < pk_data p"
    "paritySegmentsNum (pk_meta p) = int (pk_parity p)" "pk_count p * sz < 2 ^ 32"
    "k < pk_count p \<Longrightarrow> pk_payload p k \<noteq> [] \<and> length (pk_payload p k) \<le> sz"
  using assms by (auto simp: pk_ok_def pk_data_def pk_parity_def)

lemma to_unsigned_of_nat: "n < 2 ^ 32 \<Longrightarrow> to_unsigned (int n) = n"
  by (simp add: to_unsigned_def)

lemma pk_count_less: "pk_ok sz p \<Longrightarrow> pk_count p < 2 ^ 32"
  using pk_okD(1,5) [of sz p] by (metis le_less_trans mult.right_neutral mult_le_mono2 Suc_leI One_nat_def)

text \<open>The \<open>(number, parity)\<close> pair of an index.\<close>

definition seg_no :: "packet_spec \<Rightarrow> nat \<Rightarrow> int" where
  "seg_no p k = int (if k < pk_data p then k else k - pk_data p)"

definition seg_par :: "packet_spec \<Rightarrow> nat \<Rightarrow> bool" where
  "seg_par p k \<longleftrightarrow> pk_data p \<le> k"

lemma key_of_seg: "key_of p k = segIdx_of (seg_no p k) (seg_par p k)"
  by (simp add: key_of_def seg_no_def seg_par_def)

lemma seg_index:
  "(if seg_par p k then int (pk_data p) + seg_no p k else seg_no p k) = int k"
  by (auto simp: seg_no_def seg_par_def)

section \<open>Writing a segment\<close>

lemma prepareStorage_core:
  assumes core: "assembling_core p L R s" and ok: "pk_ok (s_segmentSize s) p"
  shows "\<exists>d f. prepareStorage (s_segmentSize s) (pk_data p) (pk_parity p) s =
      Some (s\<lparr>s_slotData := d, s_fecSegmentList := f\<rparr>) \<and>
    length d = length f * s_segmentSize s \<and> pk_count p \<le> length f \<and>
    (\<forall>k < length f. f ! k = fec_mark R k) \<and>
    (\<forall>k \<in> R. mem_read d (k * s_segmentSize s) (length (pk_payload p k)) = Some (pk_payload p k))"
proof -
  let ?sz = "s_segmentSize s"
  have size: "?sz * (pk_data p + pk_parity p) mod 2 ^ 32 = pk_count p * ?sz"
    using pk_okD(5) [OF ok] by (simp add: pk_count_def mult.commute)
  show ?thesis
  proof (cases "s_allocatedSize s < pk_count p * ?sz")
    case True
    have "R = {}"
    proof (rule ccontr)
      assume "R \<noteq> {}"
      then have "pk_count p * ?sz \<le> length (s_fecSegmentList s) * ?sz"
        using core by (intro mult_le_mono1) (simp add: assembling_core_def)
      with True core show False by (simp add: assembling_core_def s_allocatedSize_def)
    qed
    then have "s_assembledSize s = 0" using core by (simp add: assembling_core_def)
    with True size \<open>R = {}\<close> show ?thesis
      by (intro exI [of _ "replicate (pk_count p * ?sz) (char_of (0 :: nat))"]
            exI [of _ "replicate (pk_count p) FEC_RLIST_SYMEMPTY"])
        (simp add: prepareStorage_def Let_def fec_mark_def pk_count_def)
  next
    case False
    then have "pk_count p \<le> length (s_fecSegmentList s)"
      using core pk_okD(1) [OF ok] by (simp add: assembling_core_def s_allocatedSize_def)
    with False size core show ?thesis
      by (intro exI [of _ "s_slotData s"] exI [of _ "s_fecSegmentList s"])
        (simp add: prepareStorage_def Let_def assembling_core_def)
  qed
qed

lemma block_disjoint:
  assumes "(i :: nat) \<noteq> j" "a \<le> sz" "b \<le> sz"
  shows "i * sz + a \<le> j * sz \<or> j * sz + b \<le> i * sz"
proof (cases "i < j")
  case True
  then have "Suc i * sz \<le> j * sz" by (intro mult_le_mono1) simp
  with assms show ?thesis by simp
next
  case False
  then have "Suc j * sz \<le> i * sz" using assms(1) by (intro mult_le_mono1) simp
  with assms show ?thesis by simp
qed

lemma addData_core:
  assumes core: "assembling_core p L R s" and ok: "pk_ok (s_segmentSize s) p"
    and k: "k < pk_count p" "k \<notin> R"
  shows "\<exists>d f. addData (pk_payload p k) (seg_no p k) (int (pk_data p)) (seg_par p k) (int (pk_parity p)) s =
      Some (s\<lparr>s_slotData := d, s_fecSegmentList := f,
        s_assembledSize := s_assembledSize s + length (pk_payload p k)\<rparr>) \<and>
    length d = length f * s_segmentSize s \<and> pk_count p \<le> length f \<and>
    (\<forall>j < length f. f ! j = fec_mark (insert k R) j) \<and>
    (\<forall>j \<in> insert k R. mem_read d (j * s_segmentSize s) (length (pk_payload p j)) = Some (pk_payload p j))"
proof -
  let ?sz = "s_segmentSize s" and ?b = "pk_payload p k"
  obtain d f where df: "prepareStorage ?sz (pk_data p) (pk_parity p) s =
        Some (s\<lparr>s_slotData := d, s_fecSegmentList := f\<rparr>)"
      "length d = length f * ?sz" "pk_count p \<le> length f" "\<forall>j < length f. f ! j = fec_mark R j"
      "\<forall>j \<in> R. mem_read d (j * ?sz) (length (pk_payload p j)) = Some (pk_payload p j)"
    using prepareStorage_core [OF core ok] by blast
  have small: "pk_count p < 2 ^ 32" by (rule pk_count_less [OF ok])
  then have u: "to_unsigned (int (pk_data p)) = pk_data p" "to_unsigned (int (pk_parity p)) = pk_parity p"
      "to_unsigned (if seg_par p k then int (pk_data p) + seg_no p k else seg_no p k) = k"
    using k by (simp_all add: seg_index to_unsigned_of_nat pk_count_def)
  have kb: "k * ?sz + ?sz \<le> pk_count p * ?sz" using k mult_le_mono1 [of "Suc k" "pk_count p" ?sz] by simp
  then have m: "k * ?sz mod 2 ^ 32 = k * ?sz" using pk_okD(1,5) [OF ok] by simp
  have "k * ?sz + length ?b \<le> length d"
    using kb df(2) mult_le_mono1 [OF df(3), of ?sz] pk_okD(6) [OF ok k(1)] by linarith
  then obtain d' where d': "mem_write d (k * ?sz) ?b = Some d'" using mem_write_Some by blast
  have f': "mem_write f k [FEC_RLIST_SYMREADY] = Some (f[k := FEC_RLIST_SYMREADY])"
    using k df(3) by (simp add: mem_write_def upd_conv_take_nth_drop)
  have "mem_read d' (j * ?sz) (length (pk_payload p j)) = Some (pk_payload p j)" if "j \<in> insert k R" for j
  proof (cases "j = k")
    case False
    with that have j: "j \<in> R" "j < pk_count p" using core by (auto simp: assembling_core_def)
    have "j * ?sz + length (pk_payload p j) \<le> k * ?sz \<or> k * ?sz + length ?b \<le> j * ?sz"
      by (rule block_disjoint) (use False pk_okD(6) [OF ok] j k in auto)
    then show ?thesis using mem_read_write_other [OF d'] df(5) j by metis
  qed (use mem_read_write_same [OF d'] in simp)
  moreover have "\<forall>j < length f. f[k := FEC_RLIST_SYMREADY] ! j = fec_mark (insert k R) j"
    using df(3,4) k(1) by (auto simp: nth_list_update fec_mark_def)
  ultimately show ?thesis
    using df d' f' u m mem_write_length [OF d']
    by (intro exI [of _ d'] exI [of _ "f[k := FEC_RLIST_SYMREADY]"]) (simp add: addData_def Let_def)
qed

section \<open>Accepting a segment\<close>

lemma core_finite: "assembling_core p L R s \<Longrightarrow> finite R"
  by (auto simp: assembling_core_def intro: finite_subset)

lemma core_keys:
  assumes "assembling_core p L R s"
  shows "set (map fst (s_activeSegments s)) = key_of p ` {..< pk_count p}"
proof -
  let ?m = "s_activeSegments s"
  have sub: "key_of p ` {..< pk_count p} \<subseteq> set (map fst ?m)"
  proof
    fix i assume "i \<in> key_of p ` {..< pk_count p}"
    then obtain seg where "map_of ?m i = Some seg" using assms by (auto simp: assembling_core_def)
    then show "i \<in> set (map fst ?m)" by (force dest: map_of_SomeD)
  qed
  have "card (key_of p ` {..< pk_count p}) = pk_count p"
    by (simp add: card_image inj_on_def key_of_inj)
  moreover have "card (set (map fst ?m)) = pk_count p"
    using assms distinct_card [of "map fst ?m"] by (simp add: assembling_core_def map_ok_def)
  ultimately show ?thesis using card_subset_eq [OF _ sub] by simp
qed

lemma core_fetched:
  assumes core: "assembling_core p L R s"
  shows "length (getFetchedSegments s) = card R"
proof -
  let ?m = "s_activeSegments s" and ?P = "\<lambda>sg. sg_state sg \<in> {StateFetched}"
  have ok: "map_ok ?m" using core by (simp add: assembling_core_def)
  have "set (map fst (filter (?P \<circ> snd) ?m)) = key_of p ` R"
  proof (intro equalityI subsetI)
    fix i assume "i \<in> set (map fst (filter (?P \<circ> snd) ?m))"
    then obtain sg where m: "(i, sg) \<in> set ?m" "sg_state sg = StateFetched" by auto
    then have "i \<in> key_of p ` {..< pk_count p}" using core_keys [OF core] by force
    then obtain k where k: "k < pk_count p" "i = key_of p k" by auto
    have "map_of ?m i = Some sg" using m(1) map_of_mem [OF ok] by simp
    with k m(2) core show "i \<in> key_of p ` R" by (auto simp: assembling_core_def)
  next
    fix i assume "i \<in> key_of p ` R"
    then obtain k where k: "k \<in> R" "i = key_of p k" by auto
    with core obtain sg where "map_of ?m i = Some sg" "sg_state sg = StateFetched"
      by (auto simp: assembling_core_def)
    then show "i \<in> set (map fst (filter (?P \<circ> snd) ?m))"
      by (force dest: map_of_SomeD)
  qed
  moreover have "distinct (map fst (filter (?P \<circ> snd) ?m))"
    using ok by (simp add: map_ok_def distinct_map_filter)
  ultimately have "length (filter (?P \<circ> snd) ?m) = card (key_of p ` R)"
    by (metis distinct_card length_map)
  then show ?thesis
    using core by (simp add: getFetchedSegments_def getSegments_def assembling_core_def filter_map
        card_image inj_on_def key_of_inj)
qed

lemma header_update:
  "\<exists>c r t. (if b then updateConsistencyFromHeader s else Some s) =
     Some (s\<lparr>s_consistency := c, s_packetRate := r, s_producerTimestamp := t\<rparr>) \<and>
     cPrefixMeta c = cPrefixMeta (s_consistency s)"
proof (cases "b \<and> \<not> cHeaderMeta (s_consistency s)")
  case True
  obtain m where "metadataFromRaw (s_allocatedSize s) (s_slotData s) = Some m"
    using metadataFromRaw_total by (auto simp: s_allocatedSize_def)
  with True show ?thesis
    by (auto simp: updateConsistencyFromHeader_def intro!: exI)
next
  case False
  then have "(if b then updateConsistencyFromHeader s else Some s) =
      Some (s\<lparr>s_consistency := s_consistency s, s_packetRate := s_packetRate s,
        s_producerTimestamp := s_producerTimestamp s\<rparr>)"
    by (simp add: updateConsistencyFromHeader_def)
  then show ?thesis by blast
qed

lemma card_insert_data:
  assumes "finite R" "k \<notin> R"
  shows "card {j \<in> insert k R. j < n} = card {j \<in> R. j < n} + (if k < n then 1 else 0)"
proof -
  have "{j \<in> insert k R. j < n} = (if k < n then insert k {j \<in> R. j < n} else {j \<in> R. j < n})"
    by auto
  with assms show ?thesis by simp
qed

lemma all_data_iff:
  assumes "finite R"
  shows "card {j \<in> R. j < n} = n \<longleftrightarrow> {..< n} \<subseteq> R"
proof -
  have sub: "{j \<in> R. j < n} \<subseteq> {..< n}" by auto
  show ?thesis
  proof
    assume "card {j \<in> R. j < n} = n"
    then have "{j \<in> R. j < n} = {..< n}" using card_subset_eq [OF _ sub] by simp
    then show "{..< n} \<subseteq> R" by auto
  next
    assume "{..< n} \<subseteq> R"
    then have "{j \<in> R. j < n} = {..< n}" by auto
    then show "card {j \<in> R. j < n} = n" by simp
  qed
qed

text \<open>The slot after the data is in place and the segment is marked.\<close>

lemma core_insert:
  assumes core: "assembling_core p L R s" and k: "k < pk_count p" "k \<notin> R"
    and df: "length d = length f * s_segmentSize s" "pk_count p \<le> length f"
      "\<forall>j < length f. f ! j = fec_mark (insert k R) j"
      "\<forall>j \<in> insert k R. mem_read d (j * s_segmentSize s) (length (pk_payload p j)) = Some (pk_payload p j)"
    and seg: "sg_state seg = StateFetched"
    and s': "s_segmentSize s' = s_segmentSize s" "s_slotData s' = d" "s_fecSegmentList s' = f"
      "s_assembledSize s' = s_assembledSize s + length (pk_payload p k)"
      "s_rightmostSegment s' = s_rightmostSegment s"
      "s_packetSequenceNumber s' = s_packetSequenceNumber s"
      "s_activeSegments s' = map_assign (key_of p k) seg (s_activeSegments s)"
      "s_nSegmentsReady s' = s_nSegmentsReady s + (if k < pk_data p then 1 else 0)"
      "s_nSegmentsPending s' = s_nSegmentsPending s - 1"
  shows "assembling_core p L (insert k R) s'"
proof -
  have fin: "finite R" by (rule core_finite [OF core])
  have ok: "map_ok (s_activeSegments s)" using core by (simp add: assembling_core_def)
  obtain old where "map_of (s_activeSegments s) (key_of p k) = Some old"
    using core k(1) by (auto simp: assembling_core_def)
  then have len: "length (s_activeSegments s') = pk_count p"
    using core s' ok by (simp add: length_map_assign assembling_core_def)
  have "\<exists>sg. map_of (s_activeSegments s') (key_of p j) = Some sg \<and>
      (sg_state sg = StateFetched \<longleftrightarrow> j \<in> insert k R)" if "j < pk_count p" for j
    using that core seg ok by (auto simp: s' sm.lookup_assign key_of_inj assembling_core_def)
  with core df k fin len ok show ?thesis
    using card_insert_data [OF fin k(2), of "pk_data p"]
    by (simp add: assembling_core_def s' sm.ok_assign)
qed

lemma assembling_core_upd:
  "assembling_core p L R (s\<lparr>s_state := a, s_readyTimeUsec := b\<rparr>) = assembling_core p L R s"
  "assembling_core p L R (s\<lparr>s_state := a, s_firstSegmentTimeUsec := b\<rparr>) = assembling_core p L R s"
  "meta_known p (s\<lparr>s_state := a, s_readyTimeUsec := b\<rparr>) = meta_known p s"
  "meta_known p (s\<lparr>s_state := a, s_firstSegmentTimeUsec := b\<rparr>) = meta_known p s"
  by (simp_all add: assembling_core_def meta_known_def)

lemma acceptSegment_step:
  assumes core: "assembling_core p L R s" and known: "meta_known p s" and ok: "pk_ok (s_segmentSize s) p"
    and k: "k < pk_count p" "k \<notin> R" and st: "s_state s = StateNew \<or> s_state s = StateAssembling"
  shows "\<exists>s'. acceptSegment (seg_no p k) (seg_par p k) (pk_meta p)
      (new_SegmentData (pk_payload p k) sm) now s = Some s' \<and> assembling p L (insert k R) s' \<and>
      s_segmentSize s' = s_segmentSize s"
proof -
  have tot: "totalSegmentsNum (pk_meta p) = int (pk_data p)" "s_nSegmentsParity s = int (pk_parity p)"
    using pk_okD(2,4) [OF ok] known by (simp_all add: meta_known_def)
  obtain d f where add: "addData (pk_payload p k) (seg_no p k) (int (pk_data p)) (seg_par p k) (int (pk_parity p)) s =
        Some (s\<lparr>s_slotData := d, s_fecSegmentList := f,
          s_assembledSize := s_assembledSize s + length (pk_payload p k)\<rparr>)"
      and df: "length d = length f * s_segmentSize s" "pk_count p \<le> length f"
        "\<forall>j < length f. f ! j = fec_mark (insert k R) j"
        "\<forall>j \<in> insert k R. mem_read d (j * s_segmentSize s) (length (pk_payload p j)) = Some (pk_payload p j)"
    using addData_core [OF core ok k] by blast
  let ?s1 = "s\<lparr>s_slotData := d, s_fecSegmentList := f,
      s_assembledSize := s_assembledSize s + length (pk_payload p k)\<rparr>"
  obtain c r t where hdr: "(if seg_no p k = 0 \<and> \<not> seg_par p k then updateConsistencyFromHeader ?s1 else Some ?s1) =
        Some (?s1\<lparr>s_consistency := c, s_packetRate := r, s_producerTimestamp := t\<rparr>)"
      "cPrefixMeta c = cPrefixMeta (s_consistency ?s1)"
    using header_update [of "seg_no p k = 0 \<and> \<not> seg_par p k" ?s1] by blast
  let ?s2 = "?s1\<lparr>s_consistency := c, s_packetRate := r, s_producerTimestamp := t\<rparr>"
  obtain seg where seg: "map_of (s_activeSegments s) (key_of p k) = Some seg"
    using core k(1) by (auto simp: assembling_core_def)
  let ?seg' = "dataArrived sm now
       (seg\<lparr>sg_dataPtr := getSegmentDataPtr (length (pk_payload p k)) (seg_no p k) (seg_par p k) ?s2,
         sg_number := seg_no p k, sg_payloadSize := of_nat (length (pk_payload p k))\<rparr>)
       \<lparr>sg_isParity := seg_par p k\<rparr>"
  let ?s3 = "?s2\<lparr>s_activeSegments := map_assign (key_of p k) ?seg' (s_activeSegments ?s2),
       s_nSegmentsPending := s_nSegmentsPending ?s2 - 1,
       s_nSegmentsReady := s_nSegmentsReady ?s2 + (if seg_par p k then 0 else 1),
       s_nSegmentsParityReady := s_nSegmentsParityReady ?s2 + (if seg_par p k then 1 else 0),
       s_recentSegment := Some ?seg',
       s_hasOriginalSegments := (s_hasOriginalSegments ?s2 \<or> isOriginal ?seg')\<rparr>"
  have core3: "assembling_core p L (insert k R) ?s3"
    by (rule core_insert [OF core k df, where seg = ?seg'])
      (simp_all add: dataArrived_def seg_par_def)
  have known3: "meta_known p ?s3" using known hdr(2) by (simp add: meta_known_def)
  have result: "acceptSegment (seg_no p k) (seg_par p k) (pk_meta p)
      (new_SegmentData (pk_payload p k) sm) now s =
    (if s_nSegmentsReady ?s3 = int (pk_data p) then
       Some (?s3\<lparr>s_state := StateReady, s_readyTimeUsec := sg_arrivalTimeUsec ?seg'\<rparr>)
     else if int (length (getFetchedSegments ?s3)) < int (pk_data p) then
       Some (?s3\<lparr>s_state := StateAssembling,
         s_firstSegmentTimeUsec := (if s_state ?s3 = StateNew then sg_arrivalTimeUsec ?seg'
                                    else s_firstSegmentTimeUsec ?s3)\<rparr>)
     else Some ?s3)"
    using add hdr(1) seg
    by (simp add: acceptSegment_def new_SegmentData_facts(1,2) tot getSegment_def Let_def
        flip: key_of_seg del: if_image_distrib)
  have keep: "s_state ?s3 = s_state s" "s_segmentSize ?s3 = s_segmentSize s" by simp_all
  obtain s3 where s3: "s3 = ?s3" by blast
  note facts = core3 known3 keep result
  note facts' = facts [folded s3]
  have ready: "s_nSegmentsReady s3 = int (pk_data p) \<longleftrightarrow> {..< pk_data p} \<subseteq> insert k R"
    using facts'(1) all_data_iff [OF core_finite [OF facts'(1)], of "pk_data p"]
    by (simp add: assembling_core_def)
  show ?thesis
    unfolding facts'(5) ready
    by (auto simp: assembling_def assembling_core_upd facts'(1-4) st)
qed

section \<open>Appending data\<close>

text \<open>The name of the data packet that carries segment \<open>k\<close> of the packet.\<close>

definition segment_name :: "packet_spec \<Rightarrow> nat \<Rightarrow> name \<Rightarrow> bool" where
  "segment_name p k n \<longleftrightarrow> getSegmentationNumbers n = Some (pk_no p, seg_no p k) \<and>
     isParitySegmentPrefix n = seg_par p k \<and>
     extractMetadata n zero_prefix_meta = Some (RESULT_OK, pk_meta p)"

lemma init_missing_id:
  "\<forall>j < n. map_of (s_activeSegments s) (segIdx_of (int j) par) \<noteq> None \<Longrightarrow>
   init_missing n par pre s = Some s"
  by (induction n) auto

lemma core_active:
  assumes "assembling_core p L R s"
  shows "\<forall>j < pk_data p. map_of (s_activeSegments s) (segIdx_of (int j) False) \<noteq> None"
    "\<forall>j < pk_parity p. map_of (s_activeSegments s) (segIdx_of (int j) True) \<noteq> None"
proof -
  have *: "map_of (s_activeSegments s) (key_of p k) \<noteq> None" if "k < pk_count p" for k
    using assms that by (auto simp: assembling_core_def)
  show "\<forall>j < pk_data p. map_of (s_activeSegments s) (segIdx_of (int j) False) \<noteq> None"
  proof (intro allI impI)
    fix j assume "j < pk_data p"
    then show "map_of (s_activeSegments s) (segIdx_of (int j) False) \<noteq> None"
      using * [of j] by (simp add: key_of_def pk_count_def)
  qed
  show "\<forall>j < pk_parity p. map_of (s_activeSegments s) (segIdx_of (int j) True) \<noteq> None"
  proof (intro allI impI)
    fix j assume "j < pk_parity p"
    then show "map_of (s_activeSegments s) (segIdx_of (int j) True) \<noteq> None"
      using * [of "pk_data p + j"] by (simp add: key_of_def pk_count_def)
  qed
qed

lemma assembling_core_meta:
  "assembling_core p L R (s\<lparr>s_consistency := c, s_packetSequenceNumber := pk_no p,
     s_packetPlaybackNumber := a, s_pairedSequenceNumber := b, s_nSegmentsTotal := t,
     s_nSegmentsParity := q, s_crcValue := v\<rparr>) = assembling_core p L R s"
  if "s_packetSequenceNumber s = pk_no p"
  using that by (simp add: assembling_core_def)

lemma updateConsistencyWithMeta_step:
  assumes core: "assembling_core p L R s" and ok: "pk_ok sz p"
    and m: "if R = {} then \<not> cPrefixMeta (s_consistency s) else meta_known p s"
  shows "\<exists>s'. updateConsistencyWithMeta (pk_no p) (pk_meta p) s = Some s' \<and>
    assembling_core p L R s' \<and> meta_known p s' \<and> s_state s' = s_state s \<and>
    s_segmentSize s' = s_segmentSize s"
proof (cases "R = {}")
  case False
  with m core show ?thesis by (simp add: meta_known_def updateConsistencyWithMeta_def)
next
  case True
  let ?s1 = "s\<lparr>s_consistency := Consistency False True (cHeaderMeta (s_consistency s)),
      s_packetSequenceNumber := pk_no p, s_packetPlaybackNumber := playbackNo (pk_meta p),
      s_pairedSequenceNumber := pairedSequenceNo (pk_meta p),
      s_nSegmentsTotal := totalSegmentsNum (pk_meta p),
      s_nSegmentsParity := paritySegmentsNum (pk_meta p), s_crcValue := crcValue (pk_meta p)\<rparr>"
  have no: "s_packetSequenceNumber s = pk_no p" using core by (simp add: assembling_core_def)
  have core1: "assembling_core p L R ?s1" using core assembling_core_meta [OF no] by simp
  have len: "int (length (s_activeSegments s)) = totalSegmentsNum (pk_meta p) + paritySegmentsNum (pk_meta p)"
    using core pk_okD(2,4) [OF ok] by (simp add: assembling_core_def pk_count_def)
  have refine: "refineActiveSegments ?s1 = Some ?s1"
    using len by (simp add: refineActiveSegments_def)
  have init: "initMissingSegments ?s1 = Some ?s1" "initMissingParitySegments ?s1 = Some ?s1"
    using core_active [OF core] pk_okD(2,4) [OF ok] init_missing_id [of _ ?s1]
    by (simp_all add: initMissingSegments_def initMissingParitySegments_def)
  have "updateConsistencyWithMeta (pk_no p) (pk_meta p) s = Some ?s1"
    using True m refine init by (simp add: updateConsistencyWithMeta_def Let_def)
  with core1 show ?thesis by (simp add: meta_known_def)
qed

lemma hasReceived_step:
  assumes core: "assembling_core p L R s" and ok: "pk_ok sz p" and k: "k < pk_count p"
    and m: "if R = {} then \<not> cPrefixMeta (s_consistency s) else meta_known p s"
  shows "hasReceivedSegment (seg_no p k) (seg_par p k) s = Some (k \<in> R)"
proof (cases "R = {}")
  case False
  with m have known: "cPrefixMeta (s_consistency s)" "s_nSegmentsTotal s = int (pk_data p)"
    using pk_okD(2) [OF ok] by (simp_all add: meta_known_def)
  have "to_unsigned (if seg_par p k then int (pk_data p) + seg_no p k else seg_no p k) = k"
    unfolding seg_index using k pk_count_less [OF ok] by (simp add: to_unsigned_of_nat)
  moreover have "mem_get (s_fecSegmentList s) k = Some (fec_mark R k)"
    using core False k by (simp add: assembling_core_def mem_get_def)
  ultimately show ?thesis using known
    by (cases "seg_par p k") (simp_all add: hasReceivedSegment_def fec_mark_def FEC_RLIST_SYMREADY_def
        FEC_RLIST_SYMEMPTY_def FEC_RLIST_SYMREPAIRED_def)
qed (use m in \<open>simp add: hasReceivedSegment_def\<close>)

lemma appendData_step:
  assumes inv: "assembling p L R s" and ok: "pk_ok (s_segmentSize s) p" and k: "k < pk_count p"
    and nm: "segment_name p k n" and open_: "\<not> {..< pk_data p} \<subseteq> R"
    and pend: "k \<notin> R \<Longrightarrow> card R + L < pk_count p"
  shows "\<exists>st s'. Slot_appendData n (Some (sd_data (new_SegmentData (pk_payload p k) sm))) now s = Some (st, s') \<and>
    assembling p L (insert k R) s' \<and> s_segmentSize s' = s_segmentSize s"
proof -
  have core: "assembling_core p L R s" and st: "s_state s = StateNew \<or> s_state s = StateAssembling"
    and m: "if R = {} then \<not> cPrefixMeta (s_consistency s) else meta_known p s"
    using inv open_ by (auto simp: assembling_def)
  have rm: "s_rightmostSegment s = None" "s_packetSequenceNumber s = pk_no p"
    using core by (simp_all add: assembling_core_def)
  note rcv = hasReceived_step [OF core ok k m]
  note numbers = nm [unfolded segment_name_def]
  show ?thesis
  proof (cases "k \<in> R")
    case True
    then have "Slot_appendData n (Some (sd_data (new_SegmentData (pk_payload p k) sm))) now s = Some (s_state s, s)"
      using st numbers rm rcv by (auto simp: Slot_appendData_def)
    with inv True show ?thesis by (simp add: insert_absorb)
  next
    case False
    obtain s2 where s2: "updateConsistencyWithMeta (pk_no p) (pk_meta p) s = Some s2"
        "assembling_core p L R s2" "meta_known p s2" "s_state s2 = s_state s" "s_segmentSize s2 = s_segmentSize s"
      using updateConsistencyWithMeta_step [OF core ok m] by blast
    obtain s3 where s3: "acceptSegment (seg_no p k) (seg_par p k) (pk_meta p)
          (new_SegmentData (pk_payload p k) sm) now s2 = Some s3"
        "assembling p L (insert k R) s3" "s_segmentSize s3 = s_segmentSize s2"
      using acceptSegment_step [OF s2(2,3) _ k False, of sm now] ok s2(4,5) st by auto
    have fix_: "fixRightmost (pk_no p) (seg_no p k) (seg_par p k) s = Some s"
      using rm by (simp add: fixRightmost_def split: option.split)
    have ne: "pk_payload p k \<noteq> []" using pk_okD(6) [OF ok k] by simp
    have "Slot_appendData n (Some (sd_data (new_SegmentData (pk_payload p k) sm))) now s = Some (s_state s3, s3)"
      using st pend [OF False] core numbers rm rcv False fix_ s2(1,3) s3(1)
        new_SegmentData_facts(4) [OF ne]
      by (auto simp: Slot_appendData_def meta_known_def assembling_core_def)
    with s3 s2(5) show ?thesis by simp
  qed
qed

section \<open>A whole packet\<close>

text \<open>One delivery: the index of the segment, the data name, the producer's segment header and the
  time of arrival.\<close>

definition deliver :: "packet_spec \<Rightarrow> nat \<times> name \<times> SegmentMetaInfo \<times> int \<Rightarrow> slot \<Rightarrow> slot option" where
  "deliver p e s =
     (case e of (k, n, sm, now) \<Rightarrow>
        map_option snd (Slot_appendData n (Some (sd_data (new_SegmentData (pk_payload p k) sm))) now s))"

definition delivery_ok :: "packet_spec \<Rightarrow> nat \<times> name \<times> SegmentMetaInfo \<times> int \<Rightarrow> bool" where
  "delivery_ok p e \<longleftrightarrow> fst e < pk_count p \<and> segment_name p (fst e) (fst (snd e))"

lemma deliver_ready: "s_state s = StateReady \<Longrightarrow> deliver p e s = Some s"
  by (cases e) (simp add: deliver_def Slot_appendData_def)

lemma deliver_all:
  assumes "assembling p L R s" "pk_ok (s_segmentSize s) p" "list_all (delivery_ok p) ds"
    "card (R \<union> fst ` set ds) + L \<le> pk_count p"
  shows "\<exists>s' R'. ofold (deliver p) ds s = Some s' \<and> assembling p L R' s' \<and>
    s_segmentSize s' = s_segmentSize s \<and> R' \<subseteq> R \<union> fst ` set ds \<and>
    (R \<union> fst ` set ds \<subseteq> R' \<or> {..< pk_data p} \<subseteq> R')"
  using assms
proof (induction ds arbitrary: s R)
  case (Cons e ds)
  obtain k n sm now where e: "e = (k, n, sm, now)" by (cases e)
  have fin: "finite R" using Cons.prems(1) core_finite by (auto simp: assembling_def)
  have sub: "card (R \<union> fst ` set ds) \<le> card (R \<union> fst ` set (e # ds))"
    by (rule card_mono) (use fin in auto)
  show ?case
  proof (cases "{..< pk_data p} \<subseteq> R")
    case True
    then have "deliver p e s = Some s"
      using Cons.prems(1) by (intro deliver_ready) (simp add: assembling_def)
    moreover obtain s' R' where "ofold (deliver p) ds s = Some s'" "assembling p L R' s'"
        "s_segmentSize s' = s_segmentSize s" "R' \<subseteq> R \<union> fst ` set ds"
        "R \<union> fst ` set ds \<subseteq> R' \<or> {..< pk_data p} \<subseteq> R'"
      using Cons.IH [OF Cons.prems(1,2)] Cons.prems(3,4) sub by auto
    ultimately show ?thesis using True by (intro exI [of _ s'] exI [of _ R']) auto
  next
    case False
    have kc: "k < pk_count p" "segment_name p k n" using Cons.prems(3) e by (auto simp: delivery_ok_def)
    have "card R + L < pk_count p" if "k \<notin> R"
    proof -
      have "card (insert k R) \<le> card (R \<union> fst ` set (e # ds))"
        by (rule card_mono) (use fin e in auto)
      with that fin Cons.prems(4) show ?thesis by simp
    qed
    then obtain st s1 where s1: "Slot_appendData n (Some (sd_data (new_SegmentData (pk_payload p k) sm))) now s = Some (st, s1)"
        "assembling p L (insert k R) s1" "s_segmentSize s1 = s_segmentSize s"
      using appendData_step [OF Cons.prems(1,2) kc False] by blast
    have eq: "insert k R \<union> fst ` set ds = R \<union> fst ` set (e # ds)" using e by auto
    have "list_all (delivery_ok p) ds" using Cons.prems(3) by simp
    from Cons.IH [OF s1(2) Cons.prems(2) [folded s1(3)] this Cons.prems(4) [folded eq]]
    obtain s' R' where "ofold (deliver p) ds s1 = Some s'" "assembling p L R' s'"
        "s_segmentSize s' = s_segmentSize s1" "R' \<subseteq> insert k R \<union> fst ` set ds"
        "insert k R \<union> fst ` set ds \<subseteq> R' \<or> {..< pk_data p} \<subseteq> R'"
      by blast
    moreover have "deliver p e s = Some s1" using s1(1) e by (simp add: deliver_def)
    ultimately show ?thesis using s1(3) e by (intro exI [of _ s'] exI [of _ R']) auto
  qed
qed (auto intro!: exI)

lemma packet_in_place:
  assumes inv: "assembling p L R s" and ok: "pk_ok (s_segmentSize s) p" and all: "{..< pk_data p} \<subseteq> R"
    and full: "\<forall>k. k + 1 < pk_data p \<longrightarrow> length (pk_payload p k) = s_segmentSize s"
    and n: "n \<le> pk_data p"
  shows "take (length (concat (map (pk_payload p) [0 ..< n]))) (s_slotData s) =
    concat (map (pk_payload p) [0 ..< n])"
  using n
proof (induction n)
  case (Suc n)
  have "n \<in> R" using all Suc.prems by auto
  then have r: "mem_read (s_slotData s) (n * s_segmentSize s) (length (pk_payload p n)) = Some (pk_payload p n)"
    using inv by (simp add: assembling_def assembling_core_def)
  have "length (concat (map (pk_payload p) [0 ..< m])) = m * s_segmentSize s" if "m < pk_data p" for m
    using that full by (induction m) (simp_all add: add.commute)
  then have len: "length (concat (map (pk_payload p) [0 ..< n])) = n * s_segmentSize s"
    using Suc.prems by simp
  with r Suc show ?case
    by (simp add: take_add mem_read_def split: if_splits)
qed simp

section \<open>Requesting the segments\<close>

text \<open>The name of the interest for segment \<open>k\<close>.\<close>

definition interest_name :: "packet_spec \<Rightarrow> nat \<Rightarrow> name \<Rightarrow> bool" where
  "interest_name p k n \<longleftrightarrow> getSegmentationNumbers n = Some (pk_no p, seg_no p k) \<and>
     isParitySegmentPrefix n = seg_par p k \<and> trimDataTypeComponent n \<noteq> None"

definition requested :: "packet_spec \<Rightarrow> nat set \<Rightarrow> slot \<Rightarrow> bool" where
  "requested p A s \<longleftrightarrow>
     A \<subseteq> {..< pk_count p} \<and> s_rightmostSegment s = None \<and>
     s_packetSequenceNumber s = (if A = {} then -1 else pk_no p) \<and>
     map_ok (s_activeSegments s) \<and> length (s_activeSegments s) = card A \<and>
     (\<forall>k < pk_count p. case map_of (s_activeSegments s) (key_of p k) of
        None \<Rightarrow> k \<notin> A | Some seg \<Rightarrow> k \<in> A \<and> sg_state seg = StatePending) \<and>
     s_nSegmentsReady s = 0 \<and> s_nSegmentsPending s = int (card A) \<and> s_assembledSize s = 0 \<and>
     length (s_slotData s) = length (s_fecSegmentList s) * s_segmentSize s \<and>
     (\<forall>k < length (s_fecSegmentList s). s_fecSegmentList s ! k = FEC_RLIST_SYMEMPTY) \<and>
     s_consistency s = Consistency True False False \<and>
     s_nSegmentsTotal s = 0 \<and> s_nSegmentsParity s = 0 \<and>
     s_state s = (if A = {} then StateFree else StateNew)"

definition request :: "nat \<times> name \<times> u32 \<times> int \<Rightarrow> slot \<Rightarrow> slot option" where
  "request e s = (case e of (k, n, rnd, now) \<Rightarrow> map_option snd (Slot_addInterest n rnd now s))"

definition request_ok :: "packet_spec \<Rightarrow> nat \<times> name \<times> u32 \<times> int \<Rightarrow> bool" where
  "request_ok p e \<longleftrightarrow> fst e < pk_count p \<and> interest_name p (fst e) (fst (snd e)) \<and>
     fst (snd (snd e)) \<noteq> 0 \<and> 0 \<le> pk_no p * seg_no p (fst e) \<and> pk_no p * seg_no p (fst e) < 2 ^ 31"

lemma new_Slot_size [simp]: "s_segmentSize (new_Slot sz fec) = sz"
  by (simp add: new_Slot_def)

lemma requested_new: "requested p {} (new_Slot sz fec)"
  by (simp add: requested_def new_Slot_def)

lemma appendSegment_total: "\<exists>n'. appendSegment n v = Some n'"
  by (simp add: appendSegment_def fromNumberWithMarker_eq)

lemma request_step:
  assumes inv: "requested p A s" and no: "0 \<le> pk_no p" and e: "request_ok p (k, n, rnd, now)" and k: "k \<notin> A"
  shows "\<exists>s'. request (k, n, rnd, now) s = Some s' \<and> requested p (insert k A) s' \<and>
    s_segmentSize s' = s_segmentSize s"
proof -
  have kc: "k < pk_count p" and nm: "interest_name p k n" and rnd: "rnd \<noteq> 0"
    and prod: "0 \<le> pk_no p * seg_no p k" "pk_no p * seg_no p k < 2 ^ 31"
    using e by (simp_all add: request_ok_def)
  obtain pos prefix where trim: "trimDataTypeComponent n = Some (pos, prefix)"
    using nm by (auto simp: interest_name_def)
  have absent: "map_of (s_activeSegments s) (key_of p k) = None"
    using inv k kc by (fastforce simp: requested_def split: option.splits)
  have seg0: "0 \<le> seg_no p k" by (simp add: seg_no_def)
  let ?s1 = "s\<lparr>s_packetSequenceNumber := pk_no p\<rparr>"
  obtain sg where prep: "prepareFreeSegment (seg_no p k) (seg_par p k) ?s1 =
      Some (Some sg, ?s1\<lparr>s_freeSegments := butlast (s_freeSegments s)\<rparr>)"
    using absent seg0 appendSegment_total [of "appendDataKind (s_slotPrefix s) (seg_par p k)" "of_int (seg_no p k)"]
    by (auto simp: prepareFreeSegment_def key_of_seg)
  obtain sg' where sg': "interestIssued (blobToNonce (nonceToBlob rnd)) now sg = Some sg'" "sg_state sg' = StatePending"
    using rnd by (simp add: interestIssued_def nonce_roundtrip)
  let ?seg = "sg'\<lparr>sg_number := seg_no p k, sg_isParity := seg_par p k\<rparr>"
  obtain pfx t where add: "Slot_addInterest n rnd now s = Some (RESULT_OK,
      s\<lparr>s_packetSequenceNumber := pk_no p, s_freeSegments := butlast (s_freeSegments s),
        s_activeSegments := map_assign (key_of p k) ?seg (s_activeSegments s),
        s_slotPrefix := pfx, s_state := StateNew, s_requestTimeUsec := t,
        s_nSegmentsPending := s_nSegmentsPending s + 1\<rparr>)"
  proof (cases "A = {}")
    case True
    then have "Slot_addInterest n rnd now s = Some (RESULT_OK,
      s\<lparr>s_packetSequenceNumber := pk_no p, s_freeSegments := butlast (s_freeSegments s),
        s_activeSegments := map_assign (key_of p k) ?seg (s_activeSegments s),
        s_slotPrefix := prefix, s_state := StateNew, s_requestTimeUsec := sg_requestTimeUsec ?seg,
        s_nSegmentsPending := s_nSegmentsPending s + 1\<rparr>)"
      using inv nm no prod prep sg'(1) trim
      by (simp add: Slot_addInterest_def requested_def interest_name_def Let_def key_of_seg)
    then show ?thesis by (rule that)
  next
    case False
    then have "Slot_addInterest n rnd now s = Some (RESULT_OK,
      s\<lparr>s_packetSequenceNumber := pk_no p, s_freeSegments := butlast (s_freeSegments s),
        s_activeSegments := map_assign (key_of p k) ?seg (s_activeSegments s),
        s_slotPrefix := s_slotPrefix s, s_state := StateNew, s_requestTimeUsec := s_requestTimeUsec s,
        s_nSegmentsPending := s_nSegmentsPending s + 1\<rparr>)"
      using inv nm no prod prep sg'(1)
      by (simp add: Slot_addInterest_def requested_def interest_name_def Let_def key_of_seg)
    then show ?thesis by (rule that)
  qed
  have fin: "finite A" using inv by (auto simp: requested_def intro: finite_subset)
  have "case map_of (map_assign (key_of p k) ?seg (s_activeSegments s)) (key_of p j) of
      None \<Rightarrow> j \<notin> insert k A | Some seg \<Rightarrow> j \<in> insert k A \<and> sg_state seg = StatePending"
    if "j < pk_count p" for j
    using inv that sg'(2) by (auto simp: requested_def sm.lookup_assign key_of_inj split: option.splits)
  then show ?thesis
    using inv add kc k fin absent
    by (auto simp: request_def requested_def sm.ok_assign length_map_assign)
qed

lemma requested_all: "requested p {..< pk_count p} s \<Longrightarrow> pk_ok sz p \<Longrightarrow> assembling p 0 {} s"
  using pk_okD(3) [of sz p]
  by (auto simp: requested_def assembling_def assembling_core_def fec_mark_def pk_count_def split: option.splits)

lemma request_all:
  assumes "requested p A s" "0 \<le> pk_no p" "list_all (request_ok p) es"
    "distinct (map fst es)" "fst ` set es \<inter> A = {}"
  shows "\<exists>s'. ofold request es s = Some s' \<and> requested p (A \<union> fst ` set es) s' \<and>
    s_segmentSize s' = s_segmentSize s"
  using assms
proof (induction es arbitrary: s A)
  case (Cons e es)
  obtain k n rnd now where e: "e = (k, n, rnd, now)" by (cases e)
  obtain s1 where s1: "request e s = Some s1" "requested p (insert k A) s1" "s_segmentSize s1 = s_segmentSize s"
    using request_step [OF Cons.prems(1,2), of k n rnd now] Cons.prems(3,5) e by auto
  obtain s' where "ofold request es s1 = Some s'" "requested p (insert k A \<union> fst ` set es) s'"
      "s_segmentSize s' = s_segmentSize s1"
    using Cons.IH [OF s1(2) Cons.prems(2)] Cons.prems(3-5) e by auto
  with s1 e show ?case by auto
qed simp

lemma segmentation_numbers_parts:
  "getSegmentationNumbers n = Some (a, b) \<Longrightarrow> getPacketNumber n = Some a \<and> getSegmentNumber n = Some b"
  by (auto simp: getSegmentationNumbers_def getPacketNumber_def getSegmentNumber_def Let_def bind_Some
      split: if_splits)

text \<open>A time-out of one of the requested segments.\<close>

lemma markMissing_step:
  assumes inv: "requested p {..< pk_count p} s" and ok: "pk_ok sz p" and j: "j < pk_count p"
    and nm: "interest_name p j n" and no: "0 \<le> pk_no p"
  shows "\<exists>s'. Slot_markMissing n s = Some (RESULT_OK, s') \<and> assembling p 1 {} s' \<and>
    s_segmentSize s' = s_segmentSize s"
proof -
  have a: "assembling p 0 {} s" by (rule requested_all [OF inv ok])
  obtain seg where seg: "map_of (s_activeSegments s) (key_of p j) = Some seg" "sg_state seg = StatePending"
    using inv j by (fastforce simp: requested_def split: option.splits)
  let ?s = "s\<lparr>s_nSegmentsMissing := s_nSegmentsMissing s + 1,
      s_nSegmentsPending := s_nSegmentsPending s - 1,
      s_activeSegments := map_assign (key_of p j) (markMissed seg) (s_activeSegments s)\<rparr>"
  have "Slot_markMissing n s = Some (RESULT_OK, ?s)"
    using inv nm seg no segmentation_numbers_parts [of n "pk_no p" "seg_no p j"] pk_okD(3) [OF ok]
    by (auto simp: Slot_markMissing_def interest_name_def getSegment_def requested_def pk_count_def
        simp flip: key_of_seg)
  moreover have core: "assembling_core p 1 {} ?s"
  proof -
    have ok_map: "map_ok (s_activeSegments s)" using inv by (simp add: requested_def)
    have "\<exists>sg. map_of (s_activeSegments ?s) (key_of p k) = Some sg \<and> (sg_state sg = StateFetched \<longleftrightarrow> k \<in> {})"
      if "k < pk_count p" for k
      using that a ok_map by (auto simp: sm.lookup_assign key_of_inj assembling_def assembling_core_def markMissed_def)
    with a ok_map seg(1) show ?thesis
      by (simp add: assembling_def assembling_core_def sm.ok_assign length_map_assign)
  qed
  moreover have "assembling p 1 {} ?s" using a core by (simp add: assembling_def)
  ultimately show ?thesis by auto
qed

definition packet_bytes :: "packet_spec \<Rightarrow> bytes" where
  "packet_bytes p = concat (map (pk_payload p) [0 ..< pk_data p])"

lemma length_packet_bytes: "length (packet_bytes p) = (\<Sum>k < pk_data p. length (pk_payload p k))"
proof -
  have "length (concat (map f [0 ..< n])) = (\<Sum>k < n. length (f k))" for f :: "nat \<Rightarrow> bytes" and n
    by (induction n) simp_all
  then show ?thesis by (simp add: packet_bytes_def)
qed

lemma assembled_size:
  assumes "assembling p L R s" "{..< pk_data p} \<subseteq> R"
  shows "s_assembledSize s = length (packet_bytes p) + (\<Sum>k \<in> R - {..< pk_data p}. length (pk_payload p k))"
proof -
  have "finite R" using assms(1) core_finite by (auto simp: assembling_def)
  then have "(\<Sum>k \<in> R. length (pk_payload p k)) =
      (\<Sum>k \<in> R - {..< pk_data p}. length (pk_payload p k)) + (\<Sum>k < pk_data p. length (pk_payload p k))"
    using assms(2) by (simp add: sum.subset_diff)
  then show ?thesis using assms(1) by (simp add: assembling_def assembling_core_def length_packet_bytes)
qed

lemma delivered_count:
  assumes "list_all (delivery_ok p) ds"
  shows "card (fst ` set ds) \<le> pk_count p"
proof -
  have "fst ` set ds \<subseteq> {..< pk_count p}" using assms by (auto simp: list_all_iff delivery_ok_def)
  then show ?thesis using card_mono [of "{..< pk_count p}"] by simp
qed

section \<open>Properties\<close>

lemma slot_assembles:
  assumes "pk_ok sz p" "0 \<le> pk_no p"
    and "list_all (request_ok p) es" "distinct (map fst es)" "fst ` set es = {..< pk_count p}"
    and "list_all (delivery_ok p) ds" "{..< pk_data p} \<subseteq> fst ` set ds"
    and "\<forall>k. k + 1 < pk_data p \<longrightarrow> length (pk_payload p k) = sz"
  shows "\<exists>s Q. do { s0 \<leftarrow> ofold request es (new_Slot sz useFec); ofold (deliver p) ds s0 } = Some s \<and>
    s_state s = StateReady \<and> take (length (packet_bytes p)) (s_slotData s) = packet_bytes p \<and>
    s_nSegmentsTotal s = int (pk_data p) \<and>
    Q \<subseteq> fst ` set ds \<inter> {pk_data p ..} \<and>
    getPacketData cbs s = packetFromRaw cbs
      (length (packet_bytes p) + (\<Sum>k \<in> Q. length (pk_payload p k))) (s_slotData s)"
proof -
  obtain s0 where s0: "ofold request es (new_Slot sz useFec) = Some s0"
      "requested p ({} \<union> fst ` set es) s0" "s_segmentSize s0 = s_segmentSize (new_Slot sz useFec)"
    using request_all [OF requested_new assms(2-4)] by auto
  have sz: "s_segmentSize s0 = sz" using s0(3) by (simp add: new_Slot_def)
  have init: "assembling p 0 {} s0" using requested_all [OF _ assms(1)] s0(2) assms(5) by simp
  obtain s R where s: "ofold (deliver p) ds s0 = Some s" "assembling p 0 R s"
      "s_segmentSize s = s_segmentSize s0" "R \<subseteq> {} \<union> fst ` set ds"
      "{} \<union> fst ` set ds \<subseteq> R \<or> {..< pk_data p} \<subseteq> R"
    using deliver_all [OF init _ assms(6)] assms(1) sz delivered_count [OF assms(6)] by auto
  have all: "{..< pk_data p} \<subseteq> R" using s(5) assms(7) by auto
  have "R \<noteq> {}" using all pk_okD(3) [OF assms(1)] by auto
  then have known: "meta_known p s" "s_state s = StateReady"
    using s(2) all by (simp_all add: assembling_def)
  have bytes: "take (length (packet_bytes p)) (s_slotData s) = packet_bytes p"
    unfolding packet_bytes_def
    by (rule packet_in_place [OF s(2) _ all _ order_refl]) (use assms(1,8) s(3) sz in simp_all)
  have "getPacketData cbs s = packetFromRaw cbs
      (length (packet_bytes p) + (\<Sum>k \<in> R - {..< pk_data p}. length (pk_payload p k))) (s_slotData s)"
    using known(1) assembled_size [OF s(2) all] by (simp add: getPacketData_def meta_known_def)
  with s0(1) s(1,4) known bytes pk_okD(2) [OF assms(1)] show ?thesis
    by (intro exI [of _ s] exI [of _ "R - {..< pk_data p}"]) (auto simp: meta_known_def)
qed

text \<open>C1: Reassembly. A fresh slot for which the interests of a packet's data and parity segments
  have been issued, and to which the segments are then delivered in any order, with duplicates and
  with any parity segments among them, becomes ready as soon as all data segments have arrived, and
  its buffer starts with the packet's bytes. The size it hands to the parser is the size of the
  packet plus the sizes of the parity segments (\<open>Q\<close>) that arrived before it was complete.\<close>

theorem slot_reassembles_packet:
  assumes "pk_ok sz p" "0 \<le> pk_no p"
    and "list_all (request_ok p) es" "distinct (map fst es)" "fst ` set es = {..< pk_count p}"
    and "list_all (delivery_ok p) ds" "{..< pk_data p} \<subseteq> fst ` set ds"
    and "\<forall>k. k + 1 < pk_data p \<longrightarrow> length (pk_payload p k) = sz"
  shows "\<exists>s Q. do { s0 \<leftarrow> ofold request es (new_Slot sz useFec); ofold (deliver p) ds s0 } = Some s \<and>
    s_state s = StateReady \<and> take (length (packet_bytes p)) (s_slotData s) = packet_bytes p \<and>
    s_nSegmentsTotal s = int (pk_data p) \<and>
    Q \<subseteq> fst ` set ds \<inter> {pk_data p ..} \<and>
    getPacketData cbs s = packetFromRaw cbs
      (length (packet_bytes p) + (\<Sum>k \<in> Q. length (pk_payload p k))) (s_slotData s)"
  using assms by (rule slot_assembles)

text \<open>A packet of two data segments and one parity segment.\<close>

definition sample_packet :: packet_spec where
  "sample_packet = \<lparr>pk_no = 7,
     pk_meta = \<lparr>totalSegmentsNum = 2, playbackNo = 40, pairedSequenceNo = 3, paritySegmentsNum = 1,
       crcValue = 0\<rparr>,
     pk_payload = (\<lambda>k. if k = 0 then ''abcd'' else if k = 1 then ''ef'' else ''wxyz'')\<rparr>"

definition sample_name :: "nat \<Rightarrow> name" where
  "sample_name k = Name ([Component ''ndn'', Component ''streams'', Component ''delta'', Component ''7''] @
     (if k < 2 then [Component ''data'', Component [CHR 0x00, char_of k]]
      else [Component ''parity'', Component [CHR 0x00, char_of (k - 2)]]))"

definition sample_data_name :: "nat \<Rightarrow> name" where
  "sample_data_name k = Name (components (sample_name k) @
     [Component ''2'', Component ''40'', Component ''3'', Component ''1'', Component ''0''])"

lemma sample_names:
  "interest_name sample_packet 0 (sample_name 0)" "interest_name sample_packet 1 (sample_name 1)"
  "interest_name sample_packet 2 (sample_name 2)" "segment_name sample_packet 0 (sample_data_name 0)"
  "segment_name sample_packet 1 (sample_data_name 1)" "segment_name sample_packet 2 (sample_data_name 2)"
  by code_simp+

lemma sample_facts:
  "pk_no sample_packet = 7" "pk_data sample_packet = 2" "pk_count sample_packet = 3"
  "seg_no sample_packet 0 = 0" "seg_no sample_packet 1 = 1" "seg_no sample_packet 2 = 0"
  by (simp_all add: pk_count_def pk_data_def pk_parity_def seg_no_def sample_packet_def)

lemma sample_ok: "pk_ok 4 sample_packet"
  unfolding pk_ok_def sample_facts by (simp add: sample_packet_def)

theorem slot_reassembles_packet_witness:
  "\<exists>s. do { s0 \<leftarrow> ofold request [(0, sample_name 0, 5, 100), (1, sample_name 1, 6, 100), (2, sample_name 2, 7, 100)]
              (new_Slot 4 True);
            ofold (deliver sample_packet)
              [(1, sample_data_name 1, \<lparr>interestNonce = 0, interestArrivalMs = 0, generationDelayMs = 0\<rparr>, 200),
               (1, sample_data_name 1, \<lparr>interestNonce = 0, interestArrivalMs = 0, generationDelayMs = 0\<rparr>, 201),
               (0, sample_data_name 0, \<lparr>interestNonce = 0, interestArrivalMs = 0, generationDelayMs = 0\<rparr>, 202)] s0 } = Some s \<and>
     s_state s = StateReady \<and> take 6 (s_slotData s) = ''abcdef''"
proof -
  let ?sm = "\<lparr>interestNonce = 0, interestArrivalMs = 0, generationDelayMs = 0\<rparr>"
  let ?es = "[(0, sample_name 0, 5, 100), (1, sample_name 1, 6, 100), (2, sample_name 2, 7, 100 :: int)] :: (nat \<times> name \<times> u32 \<times> int) list"
  let ?ds = "[(1, sample_data_name 1, ?sm, 200), (1, sample_data_name 1, ?sm, 201), (0, sample_data_name 0, ?sm, 202)] :: (nat \<times> name \<times> SegmentMetaInfo \<times> int) list"
  have b: "packet_bytes sample_packet = ''abcdef''"
    by (simp add: packet_bytes_def sample_facts) (simp add: sample_packet_def numeral_eq_Suc)
  have es: "list_all (request_ok sample_packet) ?es"
    using sample_names sample_facts by (simp add: request_ok_def)
  have ds: "list_all (delivery_ok sample_packet) ?ds"
    using sample_names sample_facts by (simp add: delivery_ok_def)
  have full: "\<forall>k. k + 1 < pk_data sample_packet \<longrightarrow> length (pk_payload sample_packet k) = 4"
    by (simp add: sample_facts) (simp add: sample_packet_def)
  have sets: "{..< (3 :: nat)} = {0, 1, 2}" "{..< (2 :: nat)} = {0, 1}" by auto
  have "\<exists>s Q. do { s0 \<leftarrow> ofold request ?es (new_Slot 4 True); ofold (deliver sample_packet) ?ds s0 } = Some s \<and>
      s_state s = StateReady \<and> take (length (packet_bytes sample_packet)) (s_slotData s) = packet_bytes sample_packet \<and>
      s_nSegmentsTotal s = int (pk_data sample_packet) \<and> Q \<subseteq> fst ` set ?ds \<inter> {pk_data sample_packet ..} \<and>
      getPacketData (\<lambda>w h. 0) s = packetFromRaw (\<lambda>w h. 0)
        (length (packet_bytes sample_packet) + (\<Sum>k \<in> Q. length (pk_payload sample_packet k))) (s_slotData s)"
    by (rule slot_reassembles_packet [OF sample_ok _ es _ _ ds _ full]) (auto simp: sample_facts sets)
  then obtain s where s: "do { s0 \<leftarrow> ofold request ?es (new_Slot 4 True); ofold (deliver sample_packet) ?ds s0 } = Some s"
      "s_state s = StateReady" "take (length (packet_bytes sample_packet)) (s_slotData s) = packet_bytes sample_packet"
    by blast
  have "length (packet_bytes sample_packet) = 6" by (simp add: b)
  with s(3) b have "take 6 (s_slotData s) = ''abcdef''" by (simp only:)
  with s(1,2) show ?thesis by blast
qed

text \<open>C3: A time-out that is not followed by a new interest makes the slot refuse the last segment
  of the packet. The segment \<open>j\<close> is marked missing and arrives late; all other segments but \<open>k\<close>
  arrive too. Each arrival and the time-out decrement the count of pending segments, so the count is
  0 while the segment \<open>k\<close> is still not there: from then on the slot ignores all data, the missing
  segment included, and never gets ready.\<close>

theorem late_segment_blocks_slot:
  assumes "pk_ok sz p" "0 \<le> pk_no p"
    and "list_all (request_ok p) es" "distinct (map fst es)" "fst ` set es = {..< pk_count p}"
    and "j < pk_count p" "interest_name p j nj"
    and "list_all (delivery_ok p) ds" "k < pk_data p" "fst ` set ds = {..< pk_count p} - {k}"
  shows "\<exists>s. do { s0 \<leftarrow> ofold request es (new_Slot sz useFec); (r, s1) \<leftarrow> Slot_markMissing nj s0;
                 ofold (deliver p) ds s1 } = Some s \<and>
    s_state s \<noteq> StateReady \<and>
    map_option sg_state (getSegment (seg_no p k) (seg_par p k) s) \<noteq> Some StateFetched \<and>
    (\<forall>n c now. Slot_appendData n c now s = Some (s_state s, s))"
proof -
  obtain s0 where s0: "ofold request es (new_Slot sz useFec) = Some s0"
      "requested p {..< pk_count p} s0" "s_segmentSize s0 = sz"
    using request_all [OF requested_new [of p sz useFec] assms(2-4)] assms(5) by auto
  obtain s1 where s1: "Slot_markMissing nj s0 = Some (RESULT_OK, s1)" "assembling p 1 {} s1"
      "s_segmentSize s1 = sz"
    using markMissing_step [OF s0(2) assms(1,6,7,2)] s0(3) by auto
  have kc: "k < pk_count p" using assms(9) by (simp add: pk_count_def)
  then have card: "card ({..< pk_count p} - {k}) + 1 = pk_count p" by simp
  obtain s R where s: "ofold (deliver p) ds s1 = Some s" "assembling p 1 R s"
      "R \<subseteq> {..< pk_count p} - {k}" "{..< pk_count p} - {k} \<subseteq> R \<or> {..< pk_data p} \<subseteq> R"
    using deliver_all [OF s1(2) _ assms(8)] s1(3) assms(1,10) card by auto
  have open_: "\<not> {..< pk_data p} \<subseteq> R" using s(3) assms(9) by auto
  then have R: "R = {..< pk_count p} - {k}" using s(3,4) by auto
  have core: "assembling_core p 1 R s" using s(2) by (simp add: assembling_def)
  then have "s_nSegmentsPending s = 0" using card by (simp add: assembling_core_def R)
  then have stuck: "\<forall>n c now. Slot_appendData n c now s = Some (s_state s, s)"
    by (simp add: Slot_appendData_def)
  have "s_state s \<noteq> StateReady" using s(2) open_ by (auto simp: assembling_def)
  moreover have "map_option sg_state (getSegment (seg_no p k) (seg_par p k) s) \<noteq> Some StateFetched"
    using core kc R by (auto simp: assembling_core_def getSegment_def simp flip: key_of_seg)
  ultimately show ?thesis using s0(1) s1(1) s(1) stuck by auto
qed

theorem late_segment_blocks_slot_witness:
  "\<exists>s. do { s0 \<leftarrow> ofold request [(0, sample_name 0, 5, 100), (1, sample_name 1, 6, 100), (2, sample_name 2, 7, 100)]
              (new_Slot 4 True);
            (r, s1) \<leftarrow> Slot_markMissing (sample_name 0) s0;
            ofold (deliver sample_packet)
              [(0, sample_data_name 0, \<lparr>interestNonce = 0, interestArrivalMs = 0, generationDelayMs = 0\<rparr>, 200),
               (2, sample_data_name 2, \<lparr>interestNonce = 0, interestArrivalMs = 0, generationDelayMs = 0\<rparr>, 202)] s1 } = Some s \<and>
     s_state s \<noteq> StateReady"
proof -
  let ?sm = "\<lparr>interestNonce = 0, interestArrivalMs = 0, generationDelayMs = 0\<rparr>"
  let ?es = "[(0, sample_name 0, 5, 100), (1, sample_name 1, 6, 100), (2, sample_name 2, 7, 100 :: int)] :: (nat \<times> name \<times> u32 \<times> int) list"
  let ?ds = "[(0, sample_data_name 0, ?sm, 200), (2, sample_data_name 2, ?sm, 202)] :: (nat \<times> name \<times> SegmentMetaInfo \<times> int) list"
  have es: "list_all (request_ok sample_packet) ?es"
    using sample_names sample_facts by (simp add: request_ok_def)
  have ds: "list_all (delivery_ok sample_packet) ?ds"
    using sample_names sample_facts by (simp add: delivery_ok_def)
  have sets: "{..< (3 :: nat)} = {0, 1, 2}" by auto
  have "\<exists>s. do { s0 \<leftarrow> ofold request ?es (new_Slot 4 True); (r, s1) \<leftarrow> Slot_markMissing (sample_name 0) s0;
                 ofold (deliver sample_packet) ?ds s1 } = Some s \<and>
    s_state s \<noteq> StateReady \<and>
    map_option sg_state (getSegment (seg_no sample_packet 1) (seg_par sample_packet 1) s) \<noteq> Some StateFetched \<and>
    (\<forall>n c now. Slot_appendData n c now s = Some (s_state s, s))"
    by (rule late_segment_blocks_slot [OF sample_ok _ es _ _ _ sample_names(1) ds]) (auto simp: sample_facts sets)
  then show ?thesis by blast
qed

lemma reset_assembling:
  assumes inv: "assembling p L R s" and ok: "pk_ok sz p"
  shows "\<exists>s'. Slot_reset s = Some (RESULT_OK, s') \<and> requested q {} s' \<and>
    s_segmentSize s' = s_segmentSize s"
proof -
  have core: "assembling_core p L R s" using inv by (simp add: assembling_def)
  have st: "s_state s \<noteq> StateLocked" using inv by (auto simp: assembling_def split: if_splits)
  let ?n = "nat (s_nSegmentsTotal s + s_nSegmentsParity s)" and ?f = "s_fecSegmentList s"
  have n: "0 \<le> s_nSegmentsTotal s + s_nSegmentsParity s" "?n \<le> length ?f"
      "\<forall>k < length ?f. ?n \<le> k \<longrightarrow> k \<notin> R"
  proof -
    have "0 \<le> s_nSegmentsTotal s + s_nSegmentsParity s \<and> ?n \<le> length ?f \<and>
      (\<forall>k < length ?f. ?n \<le> k \<longrightarrow> k \<notin> R)"
    proof (cases "R = {}")
      case False
      then have "meta_known p s" using inv by (simp add: assembling_def)
      then have "s_nSegmentsTotal s + s_nSegmentsParity s = int (pk_count p)"
        using pk_okD(2,4) [OF ok] by (simp add: meta_known_def pk_count_def)
      with False core show ?thesis by (auto simp: assembling_core_def)
    qed (use inv in \<open>simp add: assembling_def\<close>)
    then show "0 \<le> s_nSegmentsTotal s + s_nSegmentsParity s" "?n \<le> length ?f"
      "\<forall>k < length ?f. ?n \<le> k \<longrightarrow> k \<notin> R" by blast+
  qed
  let ?f' = "replicate ?n FEC_RLIST_SYMEMPTY @ drop ?n ?f"
  have fill: "mem_fill ?f 0 ?n FEC_RLIST_SYMEMPTY = Some ?f'"
    using n(2) by (simp add: mem_fill_def mem_write_def)
  have empty: "\<forall>k < length ?f. ?f' ! k = FEC_RLIST_SYMEMPTY"
    using n(2,3) core by (auto simp: nth_append assembling_core_def fec_mark_def)
  have "length (s_slotData s) = length ?f * s_segmentSize s" using core by (simp add: assembling_core_def)
  with st fill n(1,2) empty show ?thesis
    by (simp add: Slot_reset_def requested_def s_allocatedSize_def)
qed

text \<open>C2: Reuse. Resetting a slot in which a packet was being assembled, or is complete, with any
  segments still out, gives a slot as good as a new one: the segments of any next packet \<open>q\<close> that
  fits can be requested and delivered, and the slot becomes ready for it.\<close>

theorem reset_slot_reassembles:
  assumes "assembling p L R s" "pk_ok (s_segmentSize s) p"
    and "pk_ok (s_segmentSize s) q" "0 \<le> pk_no q"
    and "list_all (request_ok q) es" "distinct (map fst es)" "fst ` set es = {..< pk_count q}"
    and "list_all (delivery_ok q) ds" "{..< pk_data q} \<subseteq> fst ` set ds"
  shows "\<exists>s'. do { (r, s0) \<leftarrow> Slot_reset s; s1 \<leftarrow> ofold request es s0; ofold (deliver q) ds s1 } = Some s' \<and>
    s_state s' = StateReady \<and>
    (\<forall>k < pk_data q. mem_read (s_slotData s') (k * s_segmentSize s) (length (pk_payload q k)) =
       Some (pk_payload q k))"
proof -
  obtain s0 where s0: "Slot_reset s = Some (RESULT_OK, s0)" "requested q {} s0"
      "s_segmentSize s0 = s_segmentSize s"
    using reset_assembling [OF assms(1,2)] by blast
  obtain s1 where s1: "ofold request es s0 = Some s1" "requested q {..< pk_count q} s1"
      "s_segmentSize s1 = s_segmentSize s0"
    using request_all [OF s0(2) assms(4-6)] assms(7) by auto
  have init: "assembling q 0 {} s1" by (rule requested_all [OF s1(2) assms(3)])
  obtain s' R' where s': "ofold (deliver q) ds s1 = Some s'" "assembling q 0 R' s'"
      "s_segmentSize s' = s_segmentSize s1" "{} \<union> fst ` set ds \<subseteq> R' \<or> {..< pk_data q} \<subseteq> R'"
    using deliver_all [OF init _ assms(8)] assms(3) s0(3) s1(3) delivered_count [OF assms(8)] by auto
  have all: "{..< pk_data q} \<subseteq> R'" using s'(4) assms(9) by auto
  then have "s_state s' = StateReady" using s'(2) by (simp add: assembling_def)
  moreover have "\<forall>k < pk_data q. mem_read (s_slotData s') (k * s_segmentSize s) (length (pk_payload q k)) =
       Some (pk_payload q k)"
    using s'(2,3) s1(3) s0(3) all by (auto simp: assembling_def assembling_core_def)
  ultimately show ?thesis using s0(1) s1(1) s'(1) by auto
qed

theorem reset_slot_reassembles_witness:
  "\<exists>s. do { s \<leftarrow> ofold request [(0, sample_name 0, 5, 100), (1, sample_name 1, 6, 100), (2, sample_name 2, 7, 100)]
                   (new_Slot 4 True);
            (r, s0) \<leftarrow> Slot_reset s;
            s1 \<leftarrow> ofold request [(0, sample_name 0, 5, 100), (1, sample_name 1, 6, 100), (2, sample_name 2, 7, 100)] s0;
            ofold (deliver sample_packet)
              [(1, sample_data_name 1, \<lparr>interestNonce = 0, interestArrivalMs = 0, generationDelayMs = 0\<rparr>, 200),
               (0, sample_data_name 0, \<lparr>interestNonce = 0, interestArrivalMs = 0, generationDelayMs = 0\<rparr>, 202)] s1 } = Some s \<and>
     s_state s = StateReady"
proof -
  let ?sm = "\<lparr>interestNonce = 0, interestArrivalMs = 0, generationDelayMs = 0\<rparr>"
  let ?es = "[(0, sample_name 0, 5, 100), (1, sample_name 1, 6, 100), (2, sample_name 2, 7, 100 :: int)] :: (nat \<times> name \<times> u32 \<times> int) list"
  let ?ds = "[(1, sample_data_name 1, ?sm, 200), (0, sample_data_name 0, ?sm, 202)] :: (nat \<times> name \<times> SegmentMetaInfo \<times> int) list"
  have es: "list_all (request_ok sample_packet) ?es"
    using sample_names sample_facts by (simp add: request_ok_def)
  have ds: "list_all (delivery_ok sample_packet) ?ds"
    using sample_names sample_facts by (simp add: delivery_ok_def)
  have sets: "{..< (3 :: nat)} = {0, 1, 2}" "{..< (2 :: nat)} = {0, 1}" by auto
  obtain s where s: "ofold request ?es (new_Slot 4 True) = Some s"
      "requested sample_packet ({} \<union> fst ` set ?es) s" "s_segmentSize s = s_segmentSize (new_Slot 4 True)"
    using request_all [OF requested_new _ es, of 4 True] by (auto simp: sample_facts)
  have sz: "pk_ok (s_segmentSize s) sample_packet" using s(3) sample_ok by simp
  have init: "assembling sample_packet 0 {} s"
    by (rule requested_all [OF _ sz]) (use s(2) in \<open>simp add: sample_facts sets\<close>)
  have "\<exists>s'. do { (r, s0) \<leftarrow> Slot_reset s; s1 \<leftarrow> ofold request ?es s0; ofold (deliver sample_packet) ?ds s1 } = Some s' \<and>
    s_state s' = StateReady \<and>
    (\<forall>k < pk_data sample_packet. mem_read (s_slotData s') (k * s_segmentSize s) (length (pk_payload sample_packet k)) =
       Some (pk_payload sample_packet k))"
    by (rule reset_slot_reassembles [OF init sz sz _ es _ _ ds]) (auto simp: sample_facts sets)
  then obtain s' where "do { (r, s0) \<leftarrow> Slot_reset s; s1 \<leftarrow> ofold request ?es s0; ofold (deliver sample_packet) ?ds s1 } = Some s'"
      "s_state s' = StateReady" by blast
  with s(1) show ?thesis
    by (intro exI [of _ s']) (simp only: bind.bind_lunit)
qed

end
