(* ===== verification/Ieee_Double.thy ===== *)
theory Ieee_Double
  imports Complex_Main Prelude "HOL-Library.Log_Nat"
begin

text \<open>
  The type \<open>double\<close> of C++, as the estimators and the buffers use it. A value is an exact rational,
  an infinity or not a number; the sign of zero is not kept (the code never divides by a zero it
  could tell apart). Every operation computes the exact result and rounds it to the nearest
  value with 53 significant bits, ties to even. Converting a value outside the range of the
  integer type is undefined in C++ and \<open>None\<close> here.
\<close>

datatype double = Finite rat | Infinite bool | NotANumber

section \<open>Rounding\<close>

definition round_even :: "rat \<Rightarrow> int" where
  "round_even q =
     (let f = \<lfloor>q\<rfloor>; r = q - of_int f in
      if r < 1 / 2 then f else if r > 1 / 2 then f + 1 else if even f then f else f + 1)"

text \<open>The exponent \<open>e\<close> with \<open>2 ^ e \<le> x < 2 ^ (e + 1)\<close>, for a positive \<open>x\<close>.\<close>

definition ilog2 :: "rat \<Rightarrow> int" where
  "ilog2 x = (if x \<ge> 1 then bitlen \<lfloor>x\<rfloor> - 1 else - bitlen (\<lceil>1 / x\<rceil> - 1))"

definition rat_pow2 :: "int \<Rightarrow> rat" where
  "rat_pow2 e = (if e \<ge> 0 then 2 ^ nat e else 1 / 2 ^ nat (- e))"

definition round_rat :: "rat \<Rightarrow> rat" where
  "round_rat x =
     (if x = 0 then 0
      else let e = max (ilog2 \<bar>x\<bar> - 52) (- 1074) in of_int (round_even (x / rat_pow2 e)) * rat_pow2 e)"

definition to_double :: "rat \<Rightarrow> double" where
  "to_double x =
     (let y = round_rat x in if \<bar>y\<bar> \<ge> 2 ^ 1024 then Infinite (y < 0) else Finite y)"

section \<open>Arithmetic\<close>

fun d_neg :: "double \<Rightarrow> double" where
  "d_neg (Finite x) = Finite (- x)"
| "d_neg (Infinite s) = Infinite (\<not> s)"
| "d_neg NotANumber = NotANumber"

fun d_add :: "double \<Rightarrow> double \<Rightarrow> double" where
  "d_add (Finite x) (Finite y) = to_double (x + y)"
| "d_add (Infinite s) (Finite y) = Infinite s"
| "d_add (Finite x) (Infinite s) = Infinite s"
| "d_add (Infinite s) (Infinite t) = (if s = t then Infinite s else NotANumber)"
| "d_add _ _ = NotANumber"

definition d_sub :: "double \<Rightarrow> double \<Rightarrow> double" where
  "d_sub x y = d_add x (d_neg y)"

fun d_mul :: "double \<Rightarrow> double \<Rightarrow> double" where
  "d_mul (Finite x) (Finite y) = to_double (x * y)"
| "d_mul (Infinite s) (Finite y) = (if y = 0 then NotANumber else Infinite (s \<noteq> (y < 0)))"
| "d_mul (Finite x) (Infinite s) = (if x = 0 then NotANumber else Infinite (s \<noteq> (x < 0)))"
| "d_mul (Infinite s) (Infinite t) = Infinite (s \<noteq> t)"
| "d_mul _ _ = NotANumber"

fun d_div :: "double \<Rightarrow> double \<Rightarrow> double" where
  "d_div (Finite x) (Finite y) =
     (if y = 0 then (if x = 0 then NotANumber else Infinite (x < 0)) else to_double (x / y))"
| "d_div (Infinite s) (Finite y) = Infinite (s \<noteq> (y < 0))"
| "d_div (Finite x) (Infinite s) = Finite 0"
| "d_div _ _ = NotANumber"

fun d_less :: "double \<Rightarrow> double \<Rightarrow> bool" where
  "d_less (Finite x) (Finite y) \<longleftrightarrow> x < y"
| "d_less (Infinite s) (Finite y) \<longleftrightarrow> s"
| "d_less (Finite x) (Infinite s) \<longleftrightarrow> \<not> s"
| "d_less (Infinite s) (Infinite t) \<longleftrightarrow> s \<and> \<not> t"
| "d_less _ _ \<longleftrightarrow> False"

fun d_eq :: "double \<Rightarrow> double \<Rightarrow> bool" where
  "d_eq (Finite x) (Finite y) \<longleftrightarrow> x = y"
| "d_eq (Infinite s) (Infinite t) \<longleftrightarrow> s = t"
| "d_eq _ _ \<longleftrightarrow> False"

definition d_le :: "double \<Rightarrow> double \<Rightarrow> bool" where
  "d_le x y \<longleftrightarrow> d_less x y \<or> d_eq x y"

fun d_abs :: "double \<Rightarrow> double" where
  "d_abs (Finite x) = Finite \<bar>x\<bar>"
| "d_abs (Infinite s) = Infinite False"
| "d_abs NotANumber = NotANumber"

text \<open>The square root, correctly rounded: of a number scaled so that its root has 53 bits.\<close>

fun isqrt :: "nat \<Rightarrow> nat" where
  "isqrt n =
     (if n = 0 then 0
      else let r = 2 * isqrt (n div 4) in if (r + 1) * (r + 1) \<le> n then r + 1 else r)"

declare isqrt.simps [simp del]

fun d_sqrt :: "double \<Rightarrow> double" where
  "d_sqrt (Finite x) =
     (if x < 0 then NotANumber
      else if x = 0 then Finite 0
      else let k = ilog2 x div 2 - 52; q = x / rat_pow2 (2 * k); f = isqrt (nat \<lfloor>q\<rfloor>);
               m = (if q > of_nat (f * f + f) + 1 / 4 then f + 1 else f) in
           Finite (of_nat m * rat_pow2 k))"
| "d_sqrt (Infinite s) = (if s then NotANumber else Infinite False)"
| "d_sqrt NotANumber = NotANumber"

fun d_ceil :: "double \<Rightarrow> double" where
  "d_ceil (Finite x) = Finite (of_int \<lceil>x\<rceil>)"
| "d_ceil d = d"

definition d_of_int :: "int \<Rightarrow> double" where
  "d_of_int i = to_double (of_int i)"

section \<open>Conversions\<close>

definition i64 :: "int \<Rightarrow> int option" where
  "i64 x = (if - (2 ^ 63) \<le> x \<and> x < 2 ^ 63 then Some x else None)"

definition i32 :: "int \<Rightarrow> int option" where
  "i32 x = (if - (2 ^ 31) \<le> x \<and> x < 2 ^ 31 then Some x else None)"

fun trunc_rat :: "rat \<Rightarrow> int" where
  "trunc_rat x = (if x \<ge> 0 then \<lfloor>x\<rfloor> else \<lceil>x\<rceil>)"

fun d_to_i64 :: "double \<Rightarrow> int option" where
  "d_to_i64 (Finite x) = i64 (trunc_rat x)"
| "d_to_i64 _ = None"

fun d_to_i32 :: "double \<Rightarrow> int option" where
  "d_to_i32 (Finite x) = i32 (trunc_rat x)"
| "d_to_i32 _ = None"

text \<open>The value of a bit pattern: sign, 11 bits of exponent, 52 bits of fraction.\<close>

definition double_of_bits :: "u64 \<Rightarrow> double" where
  "double_of_bits w =
     (let n = unat w; s = (n div 2 ^ 63 = 1); e = n div 2 ^ 52 mod 2 ^ 11; m = n mod 2 ^ 52;
          v = (if e = 0 then of_nat m * rat_pow2 (- 1074)
               else of_nat (2 ^ 52 + m) * rat_pow2 (int e - 1075)) in
      if e = 2047 then (if m = 0 then Infinite s else NotANumber)
      else Finite (if s then - v else v))"

section \<open>Exact values\<close>

named_theorems double_simps \<open>operations whose exact result is a double\<close>

lemma round_even_of_int [simp]: "round_even (of_int k) = k"
  by (simp add: round_even_def)

lemma round_even_nonneg: "0 \<le> q \<Longrightarrow> 0 \<le> round_even q"
  by (simp add: round_even_def Let_def)

lemma rat_pow2_pos [simp]: "0 < rat_pow2 e"
  by (simp add: rat_pow2_def)

lemma rat_pow2_neq_0 [simp]: "rat_pow2 e \<noteq> 0"
  using rat_pow2_pos [of e] by linarith

lemma round_rat_0 [simp]: "round_rat 0 = 0"
  by (simp add: round_rat_def)

lemma round_rat_nonneg: "0 \<le> x \<Longrightarrow> 0 \<le> round_rat x"
  by (simp add: round_rat_def Let_def round_even_nonneg less_imp_le)

lemma round_even_nonpos: "q \<le> 0 \<Longrightarrow> round_even q \<le> 0"
proof -
  assume q: "q \<le> 0"
  show "round_even q \<le> 0"
  proof (cases "\<lfloor>q\<rfloor> = 0")
    case True
    then have "q = 0" using q by linarith
    then show ?thesis by (simp add: round_even_def)
  next
    case False
    then have "\<lfloor>q\<rfloor> < 0" using q by linarith
    then show ?thesis by (simp add: round_even_def Let_def)
  qed
qed

lemma round_rat_nonpos: "x \<le> 0 \<Longrightarrow> round_rat x \<le> 0"
  by (simp add: round_rat_def Let_def round_even_nonpos mult_nonpos_nonneg less_imp_le
      divide_nonpos_pos)

lemma not_positive_d_of_int: "k \<le> 0 \<Longrightarrow> \<not> d_less (Finite 0) (d_of_int k)"
  using round_rat_nonpos [of "of_int k"]
  by (auto simp: d_of_int_def to_double_def Let_def)

text \<open>Integers of at most 53 bits are values of the type.\<close>

lemma div_rat_pow2_nonpos:
  assumes "e \<le> 0" shows "of_int k / rat_pow2 e = (of_int (k * 2 ^ nat (- e)) :: rat)"
  using assms by (cases "e = 0") (simp_all add: rat_pow2_def)

lemma round_rat_of_int:
  assumes "\<bar>k\<bar> < 2 ^ 53" shows "round_rat (of_int k) = of_int k"
proof (cases "k = 0")
  case False
  have pos: "0 < \<bar>k\<bar>" using False by simp
  have "bitlen \<bar>k\<bar> \<le> 53"
    using assms bitlen_le_iff_power [of "\<bar>k\<bar>" 53] pos by simp
  then have l: "ilog2 \<bar>of_int k :: rat\<bar> - 52 \<le> 0"
    using zless_imp_add1_zle [OF pos] by (simp add: ilog2_def flip: of_int_abs)
  define e where "e = max (ilog2 \<bar>of_int k :: rat\<bar> - 52) (- 1074)"
  have e0: "e \<le> 0" using l by (simp add: e_def)
  have "round_rat (of_int k) = of_int (round_even (of_int k / rat_pow2 e)) * rat_pow2 e"
    using False by (simp add: round_rat_def e_def Let_def)
  also have "of_int k / rat_pow2 e = (of_int (k * 2 ^ nat (- e)) :: rat)"
    by (rule div_rat_pow2_nonpos [OF e0])
  also have "round_even (of_int (k * 2 ^ nat (- e))) = k * 2 ^ nat (- e)"
    by (rule round_even_of_int)
  also have "of_int (k * 2 ^ nat (- e)) * rat_pow2 e = (of_int k :: rat)"
    using div_rat_pow2_nonpos [OF e0, of k] by (metis nonzero_divide_eq_eq rat_pow2_neq_0)
  finally show ?thesis .
qed simp

lemma to_double_of_int [double_simps]:
  assumes "\<bar>k\<bar> < 2 ^ 53" shows "to_double (of_int k) = Finite (of_int k)"
proof -
  have "\<bar>of_int k :: rat\<bar> < 2 ^ 53"
    using assms by (metis of_int_abs of_int_less_numeral_power_cancel_iff)
  also have "(2 :: rat) ^ 53 \<le> 2 ^ 1024" by (rule power_increasing) simp_all
  finally show ?thesis
    by (simp add: to_double_def round_rat_of_int [OF assms])
qed

lemma to_double_numeral [double_simps]:
  "(numeral k :: int) < 2 ^ 53 \<Longrightarrow> to_double (numeral k) = Finite (numeral k)"
  using to_double_of_int [of "numeral k"] by simp

lemma d_of_int_exact [double_simps]: "\<bar>k\<bar> < 2 ^ 53 \<Longrightarrow> d_of_int k = Finite (of_int k)"
  by (simp add: d_of_int_def to_double_of_int)

lemma to_double_0 [simp]: "to_double 0 = Finite 0"
  by (simp add: to_double_def)

lemma to_double_nonneg: "0 \<le> x \<Longrightarrow> to_double x = Finite y \<Longrightarrow> 0 \<le> y"
  by (auto simp: to_double_def Let_def round_rat_nonneg split: if_splits)

lemma d_sub_self [double_simps]: "d_sub (Finite x) (Finite x) = Finite 0"
  by (simp add: d_sub_def)

lemma d_add_0 [double_simps]: "\<bar>k\<bar> < 2 ^ 53 \<Longrightarrow> d_add (Finite (of_int k)) (Finite 0) = Finite (of_int k)"
  by (simp add: to_double_of_int)

lemma isqrt_floor: "isqrt n * isqrt n \<le> n \<and> n < (isqrt n + 1) * (isqrt n + 1)"
proof (induction n rule: isqrt.induct)
  case (1 n)
  show ?case
  proof (cases "n = 0")
    case False
    define r where "r = isqrt (n div 4)"
    have IH: "r * r \<le> n div 4" "n div 4 < (r + 1) * (r + 1)"
      using 1 [OF False] by (simp_all add: r_def)
    have lo: "(2 * r) * (2 * r) \<le> n"
      using IH(1) div_mult_mod_eq [of n 4] by linarith
    have "n div 4 + 1 \<le> (r + 1) * (r + 1)" using IH(2) by simp
    then have "4 * (n div 4) + 4 \<le> 4 * ((r + 1) * (r + 1))" by linarith
    then have hi: "n < (2 * r + 1 + 1) * (2 * r + 1 + 1)"
      using div_mult_mod_eq [of n 4] mod_less_divisor [of 4 n] by (simp add: algebra_simps)
    show ?thesis
      using lo hi False by (auto simp: isqrt.simps [of n] Let_def simp flip: r_def)
  qed (simp add: isqrt.simps)
qed

lemma trunc_rat_of_int [simp]: "trunc_rat (of_int k) = k"
  by simp

lemma i64_Some_iff: "i64 x = Some y \<longleftrightarrow> y = x \<and> - (2 ^ 63) \<le> x \<and> x < 2 ^ 63"
  by (auto simp: i64_def)

lemma i32_Some_iff: "i32 x = Some y \<longleftrightarrow> y = x \<and> - (2 ^ 31) \<le> x \<and> x < 2 ^ 31"
  by (auto simp: i32_def)

end
