(* ===== verification/Estimators.thy ===== *)
theory Estimators
  imports Ieee_Double "HOL-Library.Multiset"
begin

text \<open>
  The meters and estimators of \<open>ndnrtc/cpp/src/ndnrtc-utils.cpp\<close>, and the round-trip and buffer
  size estimates that rest on them (\<open>rtt-estimation.cpp\<close>, \<open>buffer-estimator.cpp\<close>). The code
  keeps all meters in static vectors and hands out indices; here the vectors are the record
  \<open>meters\<close>. Readings of the clock are arguments. Counters that only count calls are natural
  numbers.
\<close>

section \<open>The registries\<close>

record frequency_meter =
  fm_cycleDuration :: double
  fm_nCyclesPerSec :: nat
  fm_callsPerSecond :: double
  fm_lastCheckTime :: int
  fm_meanEstimatorId :: nat

record data_rate_meter =
  dm_cycleDuration :: double
  dm_bytesPerCycle :: u32
  dm_nBytesPerSec :: double
  dm_lastCheckTime :: int
  dm_meanEstimatorId :: nat

record mean_estimator =
  me_sampleSize :: nat
  me_nValues :: nat
  me_startValue :: double
  me_prevValue :: double
  me_valueMean :: double
  me_valueMeanSq :: double
  me_valueVariance :: double
  me_currentMean :: double
  me_currentDeviation :: double

record filter_state =
  fl_coeff :: double
  fl_filteredValue :: double

record incline_estimator =
  ie_avgEstimatorId :: nat
  ie_nValues :: nat
  ie_lastValue :: double
  ie_sampleSize :: nat
  ie_skipCounter :: nat

text \<open>\<open>sample_\<close> is an allocation of its own, with the size it was requested with.\<close>

record sliding_average =
  sa_sampleSize :: nat
  sa_nValues :: nat
  sa_accumulatedSum :: double
  sa_currentAverage :: double
  sa_currentDeviation :: double
  sa_sample :: "double list"

record meters =
  freqMeters :: "frequency_meter list"
  dataMeters :: "data_rate_meter list"
  meanEstimators :: "mean_estimator list"
  filters :: "filter_state list"
  inclineEstimators :: "incline_estimator list"
  slidingAverageEstimators :: "sliding_average list"

section \<open>Mean estimators\<close>

definition start_mean :: "nat \<Rightarrow> double \<Rightarrow> mean_estimator" where
  "start_mean sampleSize startValue =
     \<lparr>me_sampleSize = sampleSize, me_nValues = 0, me_startValue = startValue,
      me_prevValue = startValue, me_valueMean = startValue, me_valueMeanSq = Finite 0,
      me_valueVariance = Finite 0, me_currentMean = startValue, me_currentDeviation = Finite 0\<rparr>"

definition setupMeanEstimator :: "nat \<Rightarrow> double \<Rightarrow> meters \<Rightarrow> nat \<times> meters" where
  "setupMeanEstimator sampleSize startValue mt =
     (length (meanEstimators mt),
      mt\<lparr>meanEstimators := meanEstimators mt @ [start_mean sampleSize startValue]\<rparr>)"

definition mean_new_value :: "double \<Rightarrow> mean_estimator \<Rightarrow> mean_estimator" where
  "mean_new_value v e =
     (let n = me_nValues e + 1; e1 = e\<lparr>me_nValues := n\<rparr>;
          e2 = (if n > 1 then
                  let delta = d_sub v (me_valueMean e1);
                      e2 = e1\<lparr>me_valueMean := d_add (me_valueMean e1) (d_div delta (d_of_int (int n))),
                        me_valueMeanSq := d_add (me_valueMeanSq e1) (d_mul delta delta)\<rparr> in
                  if me_sampleSize e2 = 0 \<or> n mod me_sampleSize e2 = 0 then
                    e2\<lparr>me_currentMean := me_valueMean e2,
                      me_currentDeviation :=
                        d_sqrt (d_div (me_valueMeanSq e2) (d_of_int (int n - 1))),
                      me_nValues := (if me_sampleSize e2 = 0 then n else 0)\<rparr>
                  else e2
                else e1\<lparr>me_currentMean := v, me_valueMean := v, me_valueMeanSq := Finite 0,
                       me_valueVariance := Finite 0\<rparr>) in
      e2\<lparr>me_prevValue := v\<rparr>)"

definition meanEstimatorNewValue :: "nat \<Rightarrow> double \<Rightarrow> meters \<Rightarrow> meters" where
  "meanEstimatorNewValue estimatorId v mt =
     (if estimatorId \<ge> length (meanEstimators mt) then mt
      else mt\<lparr>meanEstimators :=
        (meanEstimators mt)[estimatorId := mean_new_value v (meanEstimators mt ! estimatorId)]\<rparr>)"

definition currentMeanEstimation :: "nat \<Rightarrow> meters \<Rightarrow> double" where
  "currentMeanEstimation estimatorId mt =
     (if estimatorId \<ge> length (meanEstimators mt) then Finite 0
      else me_currentMean (meanEstimators mt ! estimatorId))"

definition currentDeviationEstimation :: "nat \<Rightarrow> meters \<Rightarrow> double" where
  "currentDeviationEstimation estimatorId mt =
     (if estimatorId \<ge> length (meanEstimators mt) then Finite 0
      else me_currentDeviation (meanEstimators mt ! estimatorId))"

definition resetMeanEstimator :: "nat \<Rightarrow> meters \<Rightarrow> meters" where
  "resetMeanEstimator estimatorId mt =
     (if estimatorId \<ge> length (meanEstimators mt) then mt
      else let e = meanEstimators mt ! estimatorId in
        mt\<lparr>meanEstimators :=
          (meanEstimators mt)[estimatorId := start_mean (me_sampleSize e) (me_startValue e)]\<rparr>)"

section \<open>Meters\<close>

definition setupFrequencyMeter :: "nat \<Rightarrow> meters \<Rightarrow> nat \<times> meters" where
  "setupFrequencyMeter granularity mt =
     (let (i, mt1) = setupMeanEstimator 0 (Finite 0) mt in
      (length (freqMeters mt1),
       mt1\<lparr>freqMeters := freqMeters mt1 @
         [\<lparr>fm_cycleDuration = d_div (Finite 1000) (d_of_int (int granularity)),
           fm_nCyclesPerSec = 0, fm_callsPerSecond = Finite 0, fm_lastCheckTime = 0,
           fm_meanEstimatorId = i\<rparr>]\<rparr>))"

definition frequencyMeterTick :: "nat \<Rightarrow> int \<Rightarrow> meters \<Rightarrow> meters" where
  "frequencyMeterTick meterId now mt =
     (if meterId \<ge> length (freqMeters mt) then mt
      else
        let m = (freqMeters mt ! meterId)
              \<lparr>fm_nCyclesPerSec := fm_nCyclesPerSec (freqMeters mt ! meterId) + 1\<rparr>;
            delta = now - fm_lastCheckTime m in
        if d_le (fm_cycleDuration m) (d_of_int delta) \<and> fm_lastCheckTime m \<ge> 0 then
          (if fm_lastCheckTime m > 0 then
             let calls = d_div (d_mul (Finite 1000) (d_of_int (int (fm_nCyclesPerSec m))))
                           (d_of_int delta);
                 m' = m\<lparr>fm_callsPerSecond := calls, fm_nCyclesPerSec := 0, fm_lastCheckTime := now\<rparr> in
             meanEstimatorNewValue (fm_meanEstimatorId m) calls
               (mt\<lparr>freqMeters := (freqMeters mt)[meterId := m']\<rparr>)
           else mt\<lparr>freqMeters := (freqMeters mt)[meterId := m\<lparr>fm_lastCheckTime := now\<rparr>]\<rparr>)
        else mt\<lparr>freqMeters := (freqMeters mt)[meterId := m]\<rparr>)"

definition currentFrequencyMeterValue :: "nat \<Rightarrow> meters \<Rightarrow> double" where
  "currentFrequencyMeterValue meterId mt =
     (if meterId \<ge> length (freqMeters mt) then Finite 0
      else currentMeanEstimation (fm_meanEstimatorId (freqMeters mt ! meterId)) mt)"

definition setupDataRateMeter :: "nat \<Rightarrow> meters \<Rightarrow> nat \<times> meters" where
  "setupDataRateMeter granularity mt =
     (let (i, mt1) = setupMeanEstimator 0 (Finite 0) mt in
      (length (dataMeters mt1),
       mt1\<lparr>dataMeters := dataMeters mt1 @
         [\<lparr>dm_cycleDuration = d_div (Finite 1000) (d_of_int (int granularity)),
           dm_bytesPerCycle = 0, dm_nBytesPerSec = Finite 0, dm_lastCheckTime = 0,
           dm_meanEstimatorId = i\<rparr>]\<rparr>))"

definition dataRateMeterMoreData :: "nat \<Rightarrow> u32 \<Rightarrow> int \<Rightarrow> meters \<Rightarrow> meters" where
  "dataRateMeterMoreData meterId dataSize now mt =
     (if meterId \<ge> length (dataMeters mt) then mt
      else
        let m = (dataMeters mt ! meterId)
              \<lparr>dm_bytesPerCycle := dm_bytesPerCycle (dataMeters mt ! meterId) + dataSize\<rparr>;
            delta = now - dm_lastCheckTime m in
        if d_le (dm_cycleDuration m) (d_of_int delta) \<and> dm_lastCheckTime m \<ge> 0 then
          (if dm_lastCheckTime m > 0 then
             let rate = d_div (d_mul (Finite 1000) (d_of_int (uint (dm_bytesPerCycle m))))
                          (d_of_int delta);
                 m' = m\<lparr>dm_nBytesPerSec := rate, dm_bytesPerCycle := 0, dm_lastCheckTime := now\<rparr> in
             meanEstimatorNewValue (dm_meanEstimatorId m) rate
               (mt\<lparr>dataMeters := (dataMeters mt)[meterId := m']\<rparr>)
           else mt\<lparr>dataMeters := (dataMeters mt)[meterId := m\<lparr>dm_lastCheckTime := now\<rparr>]\<rparr>)
        else mt\<lparr>dataMeters := (dataMeters mt)[meterId := m]\<rparr>)"

definition currentDataRateMeterValue :: "nat \<Rightarrow> meters \<Rightarrow> double" where
  "currentDataRateMeterValue meterId mt =
     (if meterId \<ge> length (dataMeters mt) then Finite 0
      else currentMeanEstimation (dm_meanEstimatorId (dataMeters mt ! meterId)) mt)"

section \<open>Sliding averages\<close>

definition start_sliding :: "nat \<Rightarrow> sliding_average" where
  "start_sliding sampleSize =
     \<lparr>sa_sampleSize = (if sampleSize = 0 then 2 else sampleSize), sa_nValues = 0,
      sa_accumulatedSum = Finite 0, sa_currentAverage = Finite 0, sa_currentDeviation = Finite 0,
      sa_sample = replicate sampleSize (Finite 0)\<rparr>"

definition setupSlidingAverageEstimator :: "nat \<Rightarrow> meters \<Rightarrow> nat \<times> meters" where
  "setupSlidingAverageEstimator sampleSize mt =
     (length (slidingAverageEstimators mt),
      mt\<lparr>slidingAverageEstimators := slidingAverageEstimators mt @ [start_sliding sampleSize]\<rparr>)"

text \<open>The loop adds the squared distances in the order of the buffer.\<close>

definition squared_distances :: "double \<Rightarrow> double list \<Rightarrow> double" where
  "squared_distances avg xs =
     fold (\<lambda>x acc. d_add acc (d_mul (d_sub x avg) (d_sub x avg))) xs (Finite 0)"

definition sliding_new_value :: "double \<Rightarrow> sliding_average \<Rightarrow> sliding_average option" where
  "sliding_new_value v e = do {
     sample \<leftarrow> mem_write (sa_sample e) (sa_nValues e mod sa_sampleSize e) [v];
     let n = sa_nValues e + 1;
     let e1 = e\<lparr>sa_sample := sample, sa_nValues := n\<rparr>;
     if n \<ge> sa_sampleSize e then do {
       old \<leftarrow> mem_get sample (n mod sa_sampleSize e);
       window \<leftarrow> mem_read sample 0 (sa_sampleSize e);
       let avg = d_div (d_add (sa_accumulatedSum e) v) (d_of_int (int (sa_sampleSize e)));
       Some (e1\<lparr>sa_currentAverage := avg,
         sa_accumulatedSum := d_add (sa_accumulatedSum e) (d_sub v old),
         sa_currentDeviation := d_sqrt (d_div (squared_distances avg window) (d_of_int (int n)))\<rparr>)
     }
     else Some (e1\<lparr>sa_accumulatedSum := d_add (sa_accumulatedSum e) v\<rparr>)
   }"

definition slidingAverageEstimatorNewValue :: "nat \<Rightarrow> double \<Rightarrow> meters \<Rightarrow> meters option" where
  "slidingAverageEstimatorNewValue estimatorId v mt =
     (if estimatorId \<ge> length (slidingAverageEstimators mt) then Some mt
      else do {
        e \<leftarrow> sliding_new_value v (slidingAverageEstimators mt ! estimatorId);
        Some (mt\<lparr>slidingAverageEstimators := (slidingAverageEstimators mt)[estimatorId := e]\<rparr>)
      })"

definition currentSlidingAverageValue :: "nat \<Rightarrow> meters \<Rightarrow> double" where
  "currentSlidingAverageValue estimatorId mt =
     (if estimatorId \<ge> length (slidingAverageEstimators mt) then Finite 0
      else sa_currentAverage (slidingAverageEstimators mt ! estimatorId))"

definition currentSlidingDeviationValue :: "nat \<Rightarrow> meters \<Rightarrow> double" where
  "currentSlidingDeviationValue estimatorId mt =
     (if estimatorId \<ge> length (slidingAverageEstimators mt) then Finite 0
      else sa_currentDeviation (slidingAverageEstimators mt ! estimatorId))"

section \<open>Filters and inclines\<close>

definition setupFilter :: "double \<Rightarrow> meters \<Rightarrow> nat \<times> meters" where
  "setupFilter coeff mt =
     (length (filters mt),
      mt\<lparr>filters := filters mt @ [\<lparr>fl_coeff = coeff, fl_filteredValue = Finite 0\<rparr>]\<rparr>)"

definition filterNewValue :: "nat \<Rightarrow> double \<Rightarrow> meters \<Rightarrow> meters" where
  "filterNewValue filterId v mt =
     (if filterId < length (filters mt) then
        let f = filters mt ! filterId in
        mt\<lparr>filters := (filters mt)[filterId := f\<lparr>fl_filteredValue :=
          (if d_eq (fl_filteredValue f) (Finite 0) then v
           else d_add (fl_filteredValue f) (d_mul (d_sub v (fl_filteredValue f)) (fl_coeff f)))\<rparr>]\<rparr>
      else mt)"

definition currentFilteredValue :: "nat \<Rightarrow> meters \<Rightarrow> double" where
  "currentFilteredValue filterId mt =
     (if filterId < length (filters mt) then fl_filteredValue (filters mt ! filterId) else Finite 0)"

definition setupInclineEstimator :: "nat \<Rightarrow> meters \<Rightarrow> nat \<times> meters" where
  "setupInclineEstimator sampleSize mt =
     (let (i, mt1) = setupSlidingAverageEstimator sampleSize mt in
      (length (inclineEstimators mt1),
       mt1\<lparr>inclineEstimators := inclineEstimators mt1 @
         [\<lparr>ie_avgEstimatorId = i, ie_nValues = 0, ie_lastValue = Finite 0,
           ie_sampleSize = sampleSize, ie_skipCounter = 0\<rparr>]\<rparr>))"

definition inclineEstimatorNewValue :: "nat \<Rightarrow> double \<Rightarrow> meters \<Rightarrow> meters option" where
  "inclineEstimatorNewValue estimatorId v mt =
     (if estimatorId < length (inclineEstimators mt) then do {
        let ie = inclineEstimators mt ! estimatorId;
        mt1 \<leftarrow> (if ie_nValues ie = 0 then Some mt
               else slidingAverageEstimatorNewValue (ie_avgEstimatorId ie)
                      (d_sub v (ie_lastValue ie)) mt);
        Some (mt1\<lparr>inclineEstimators := (inclineEstimators mt1)[estimatorId :=
          ie\<lparr>ie_lastValue := v, ie_nValues := ie_nValues ie + 1\<rparr>]\<rparr>)
      } else Some mt)"

definition currentIncline :: "nat \<Rightarrow> meters \<Rightarrow> double" where
  "currentIncline estimatorId mt =
     (if estimatorId < length (inclineEstimators mt)
      then currentSlidingAverageValue (ie_avgEstimatorId (inclineEstimators mt ! estimatorId)) mt
      else Finite 0)"

section \<open>The sliding average\<close>

text \<open>
  What the estimator holds after the values \<open>xs\<close>: the buffer has the last values at their
  positions, the sum covers the last values but one window's first.
\<close>

definition sliding_inv :: "nat \<Rightarrow> int list \<Rightarrow> sliding_average \<Rightarrow> bool" where
  "sliding_inv n xs e \<longleftrightarrow>
     sa_sampleSize e = n \<and> sa_nValues e = length xs \<and> length (sa_sample e) = n \<and>
     sa_accumulatedSum e = Finite (of_int (sum_list (drop (length xs - (n - 1)) xs))) \<and>
     (\<forall>k < length xs. length xs \<le> k + n \<longrightarrow> sa_sample e ! (k mod n) = Finite (of_int (xs ! k)))"

lemma sliding_inv_start: "0 < n \<Longrightarrow> sliding_inv n [] (start_sliding n)"
  by (simp add: sliding_inv_def start_sliding_def)

lemma abs_sum_list_le: "(\<forall>x \<in> set xs. \<bar>x\<bar> \<le> (b :: int)) \<Longrightarrow> \<bar>sum_list xs\<bar> \<le> int (length xs) * b"
proof (induction xs)
  case (Cons x xs)
  then have "\<bar>x\<bar> \<le> b" "\<bar>sum_list xs\<bar> \<le> int (length xs) * b" by auto
  then show ?case by (simp add: algebra_simps)
qed simp

text \<open>Within a window no two positions share a slot of the buffer.\<close>

lemma mod_window_inject:
  assumes "(j :: nat) mod n = k mod n" and "j \<le> k" and "k < j + n" shows "j = k"
  using assms by (metis add.commute le_add_diff_inverse less_diff_conv2 mod_eq_dvd_iff_nat nat_dvd_not_less
      diff_is_0_eq' less_imp_le_nat linorder_neqE_nat not_less)

lemma drop_last_sum:
  assumes "m \<le> length xs"
  shows "sum_list (drop (length xs - m) (xs @ [x])) = sum_list (drop (length xs - m) xs) + (x :: int)"
  using assms by simp

lemma sum_list_drop_Suc:
  "k < length xs \<Longrightarrow> sum_list (drop k xs) = xs ! k + sum_list (drop (Suc k) (xs :: int list))"
  by (metis Cons_nth_drop_Suc sum_list.Cons)

text \<open>The bounds keep every sum an exact \<open>double\<close>.\<close>

definition sliding_small :: "nat \<Rightarrow> int list \<Rightarrow> bool" where
  "sliding_small n xs \<longleftrightarrow> 0 < n \<and> n < 2 ^ 32 \<and> (\<forall>x \<in> set xs. \<bar>x\<bar> * int (n + 1) < 2 ^ 53)"

lemma sliding_small_sum:
  assumes "sliding_small n xs" and "length ys \<le> n" and "set ys \<subseteq> set xs"
  shows "\<bar>sum_list ys\<bar> < 2 ^ 53"
proof -
  define b where "b = (2 ^ 53 - 1) div int (n + 1)"
  have le: "\<bar>x\<bar> \<le> b" if "x \<in> set ys" for x
  proof -
    have "x \<in> set xs" using that assms(3) by blast
    then have "\<bar>x\<bar> * int (n + 1) < 2 ^ 53" using assms(1) unfolding sliding_small_def by blast
    then have "\<bar>x\<bar> * int (n + 1) \<le> 2 ^ 53 - 1" by linarith
    then have "\<bar>x\<bar> * int (n + 1) div int (n + 1) \<le> b"
      unfolding b_def by (rule zdiv_mono1) simp
    then show ?thesis by simp
  qed
  have "0 \<le> b" by (simp add: b_def pos_imp_zdiv_nonneg_iff)
  have "\<bar>sum_list ys\<bar> \<le> int (length ys) * b" by (rule abs_sum_list_le) (use le in blast)
  also have "\<dots> \<le> int (n + 1) * b"
    using assms(2) \<open>0 \<le> b\<close> by (intro mult_right_mono) auto
  also have "\<dots> \<le> 2 ^ 53 - 1"
    unfolding b_def by (metis div_mult_mod_eq le_add_same_cancel1 mult.commute of_nat_0_less_iff
        pos_mod_sign zero_less_Suc Suc_eq_plus1)
  finally show ?thesis by simp
qed

text \<open>The new value goes where the value of a window ago was.\<close>

lemma sliding_sample_update:
  fixes x :: int
  assumes inv: "sliding_inv n xs e" and n: "0 < n"
  defines "s \<equiv> (sa_sample e)[length xs mod n := Finite (of_int x)]"
  shows "mem_write (sa_sample e) (sa_nValues e mod sa_sampleSize e) [Finite (of_int x)] = Some s"
    and "\<forall>k < Suc (length xs). Suc (length xs) \<le> k + n \<longrightarrow> s ! (k mod n) = Finite (of_int ((xs @ [x]) ! k))"
proof -
  have len: "length (sa_sample e) = n" and m: "length xs mod n < n"
    using inv n by (simp_all add: sliding_inv_def)
  then have le: "length xs mod n + length [Finite (of_int x)] \<le> length (sa_sample e)" by simp
  show "mem_write (sa_sample e) (sa_nValues e mod sa_sampleSize e) [Finite (of_int x)] = Some s"
    using inv le upd_conv_take_nth_drop [of "length xs mod n" "sa_sample e"] len m
    by (simp add: mem_write_def sliding_inv_def s_def)
  show "\<forall>k < Suc (length xs). Suc (length xs) \<le> k + n \<longrightarrow> s ! (k mod n) = Finite (of_int ((xs @ [x]) ! k))"
  proof (intro allI impI)
    fix k assume k: "k < Suc (length xs)" "Suc (length xs) \<le> k + n"
    show "s ! (k mod n) = Finite (of_int ((xs @ [x]) ! k))"
    proof (cases "k = length xs")
      case True
      then show ?thesis using len m by (simp add: s_def)
    next
      case False
      then have "k mod n \<noteq> length xs mod n" using mod_window_inject [of k n "length xs"] k by auto
      then show ?thesis using inv k False by (simp add: s_def sliding_inv_def nth_append)
    qed
  qed
qed

definition window_sum :: "nat \<Rightarrow> int list \<Rightarrow> int" where
  "window_sum n xs = sum_list (drop (length xs - n) xs)"

lemma sliding_step:
  assumes inv: "sliding_inv n xs e" and small: "sliding_small n (xs @ [x])"
  shows "\<exists>e'. sliding_new_value (Finite (of_int x)) e = Some e' \<and> sliding_inv n (xs @ [x]) e' \<and>
    (n \<le> length (xs @ [x]) \<longrightarrow>
       sa_currentAverage e' = to_double (of_int (window_sum n (xs @ [x])) / of_nat n) \<and>
       sa_currentDeviation e' =
         d_sqrt (d_div (squared_distances (sa_currentAverage e') (sa_sample e'))
                       (d_of_int (int (length (xs @ [x]))))))"
proof -
  have n: "0 < n" "n < 2 ^ 32" using small by (simp_all add: sliding_small_def)
  define s where "s = (sa_sample e)[length xs mod n := Finite (of_int x)]"
  define L where "L = length xs"
  have fields: "sa_sampleSize e = n" "sa_nValues e = L"
    and acc: "sa_accumulatedSum e = Finite (of_int (window_sum (n - 1) xs))"
    using inv by (simp_all add: sliding_inv_def window_sum_def L_def)
  have lens: "length s = n" using inv by (simp add: s_def sliding_inv_def)
  note upd = sliding_sample_update [OF inv n(1), of x, folded s_def, folded L_def]
  have sum_x: "window_sum (n - 1) xs + x = window_sum n (xs @ [x])"
    using n(1) by (simp add: window_sum_def Suc_diff_le)
  have small_n: "\<bar>window_sum n (xs @ [x])\<bar> < 2 ^ 53"
    unfolding window_sum_def by (rule sliding_small_sum [OF small]) (auto dest: in_set_dropD)
  have avg: "d_add (Finite (of_int (window_sum (n - 1) xs))) (Finite (of_int x)) =
      Finite (of_int (window_sum n (xs @ [x])))"
    using to_double_of_int [OF small_n] by (simp add: flip: sum_x)
  show ?thesis
  proof (cases "n \<le> Suc L")
    case False
    have "window_sum n (xs @ [x]) = window_sum (n - 1) (xs @ [x])"
      using False by (simp add: window_sum_def L_def)
    then show ?thesis
      using False upd lens avg n fields acc
      by (simp add: sliding_new_value_def sliding_inv_def window_sum_def L_def)
  next
    case True
    have k0: "Suc L - n < Suc L" "Suc L \<le> (Suc L - n) + n" using n(1) True by auto
    have "(Suc L - n) mod n = Suc L mod n" using True by (metis le_add_diff_inverse2 mod_add_self2)
    then have old: "s ! (Suc L mod n) = Finite (of_int ((xs @ [x]) ! (Suc L - n)))"
      using upd(2) k0 by metis
    have split: "window_sum n (xs @ [x]) = (xs @ [x]) ! (Suc L - n) + window_sum (n - 1) (xs @ [x])"
      using sum_list_drop_Suc [of "Suc L - n" "xs @ [x]"] True n(1)
      by (simp add: window_sum_def L_def Suc_diff_le)
    have "\<bar>window_sum (n - 1) (xs @ [x])\<bar> < 2 ^ 53"
      unfolding window_sum_def by (rule sliding_small_sum [OF small]) (auto dest: in_set_dropD)
    then have exact: "to_double (of_int (window_sum (n - 1) (xs @ [x]))) =
        Finite (of_int (window_sum (n - 1) (xs @ [x])))"
      by (rule to_double_of_int)
    have bound: "\<bar>y\<bar> < 2 ^ 52" if "y \<in> set (xs @ [x])" for y
    proof -
      have "\<bar>y\<bar> * int (n + 1) < 2 ^ 53" using small that unfolding sliding_small_def by blast
      moreover have "\<bar>y\<bar> * 2 \<le> \<bar>y\<bar> * int (n + 1)" using n(1) by (intro mult_left_mono) auto
      ultimately have "\<bar>y\<bar> * 2 < 2 ^ 53" by (rule le_less_trans [rotated])
      then show ?thesis by simp
    qed
    have "(xs @ [x]) ! (Suc L - n) \<in> set (xs @ [x])" using k0 by (intro nth_mem) (simp add: L_def)
    then have diff: "\<bar>x - (xs @ [x]) ! (Suc L - n)\<bar> < 2 ^ 53"
      using bound [of x] bound [of "(xs @ [x]) ! (Suc L - n)"] by simp
    have sub: "d_sub (Finite (of_int x)) (Finite (of_int ((xs @ [x]) ! (Suc L - n)))) =
        Finite (of_int (x - (xs @ [x]) ! (Suc L - n)))"
      using to_double_of_int [OF diff] by (simp add: d_sub_def)
    have new_acc: "d_add (Finite (of_int (window_sum (n - 1) xs)))
          (Finite (of_int (x - (xs @ [x]) ! (Suc L - n)))) =
        Finite (of_int (window_sum (n - 1) (xs @ [x])))"
    proof -
      have "of_int (window_sum (n - 1) xs) + of_int (x - (xs @ [x]) ! (Suc L - n)) =
          (of_int (window_sum (n - 1) (xs @ [x])) :: rat)"
        unfolding of_int_add [symmetric] of_int_eq_iff using split sum_x by linarith
      then show ?thesis using exact by simp
    qed
    have div: "d_div (Finite (of_int (window_sum n (xs @ [x])))) (d_of_int (int n)) =
        to_double (of_int (window_sum n (xs @ [x])) / of_nat n)"
      using n d_of_int_exact [of "int n"] by simp
    have read: "mem_read s 0 n = Some s" and get: "mem_get s (Suc L mod n) = Some (s ! (Suc L mod n))"
      using lens n(1) by (simp_all add: mem_read_def mem_get_def)
    let ?avg = "to_double (of_int (window_sum n (xs @ [x])) / of_nat n)"
    define e' where "e' = e\<lparr>sa_sample := s, sa_nValues := Suc L, sa_currentAverage := ?avg,
      sa_accumulatedSum := Finite (of_int (window_sum (n - 1) (xs @ [x]))),
      sa_currentDeviation := d_sqrt (d_div (squared_distances ?avg s) (d_of_int (int (Suc L))))\<rparr>"
    have "sliding_new_value (Finite (of_int x)) e = Some e'"
      using True by (simp add: sliding_new_value_def upd(1) [unfolded fields] fields read get old sub
          acc [unfolded One_nat_def] avg [unfolded One_nat_def] div e'_def
          new_acc [unfolded One_nat_def] Let_def del: d_add.simps d_div.simps of_int_diff)
    then show ?thesis
      using upd(2) lens fields by (auto simp: e'_def sliding_inv_def window_sum_def L_def)
  qed
qed

text \<open>Feeding a list of integers from the start.\<close>

definition feed_sliding :: "int list \<Rightarrow> sliding_average \<Rightarrow> sliding_average option" where
  "feed_sliding xs e = ofold (\<lambda>x. sliding_new_value (Finite (of_int x))) xs e"

lemma sliding_small_append: "sliding_small n (xs @ ys) \<Longrightarrow> sliding_small n xs"
  by (simp add: sliding_small_def)

lemma feed_sliding_inv:
  assumes "sliding_small n xs"
  shows "\<exists>e. feed_sliding xs (start_sliding n) = Some e \<and> sliding_inv n xs e"
  using assms
proof (induction xs rule: rev_induct)
  case Nil
  then show ?case by (simp add: feed_sliding_def sliding_inv_start sliding_small_def)
next
  case (snoc x xs)
  from snoc.IH [OF sliding_small_append [OF snoc.prems]]
  obtain e where e: "feed_sliding xs (start_sliding n) = Some e" "sliding_inv n xs e" by blast
  from sliding_step [OF e(2) snoc.prems] obtain e' where
    "sliding_new_value (Finite (of_int x)) e = Some e'" "sliding_inv n (xs @ [x]) e'" by blast
  then show ?case using e(1) by (simp add: feed_sliding_def ofold_append)
qed

text \<open>The buffer is the window, up to rotation.\<close>

lemma mod_window_inj:
  fixes n L :: nat
  assumes "n \<le> L" shows "inj_on (\<lambda>k. k mod n) {L - n..<L}"
proof (rule inj_onI)
  fix j k assume jk: "j \<in> {L - n..<L}" "k \<in> {L - n..<L}" "j mod n = k mod n"
  then have "k < j + n" "j < k + n" using assms by auto
  then show "j = k"
    using mod_window_inject [OF jk(3)] mod_window_inject [OF jk(3) [symmetric]] by linarith
qed

lemma mod_window_image:
  fixes n L :: nat
  assumes "n \<le> L" "0 < n" shows "(\<lambda>k. k mod n) ` {L - n..<L} = {0..<n}"
  using assms by (intro card_subset_eq) (auto simp: card_image [OF mod_window_inj])

lemma sliding_buffer_mset:
  assumes inv: "sliding_inv n xs e" and n: "0 < n" "n \<le> length xs"
  shows "mset (sa_sample e) = mset (map (Finite \<circ> of_int) (drop (length xs - n) xs))"
proof -
  let ?s = "sa_sample e" and ?K = "{length xs - n..<length xs}"
  have "mset (map (Finite \<circ> of_int) (drop (length xs - n) xs)) =
      mset (map (\<lambda>k. Finite (of_int (xs ! k))) [length xs - n..<length xs])"
    by (rule arg_cong [where f = mset], rule nth_equalityI) simp_all
  also have "\<dots> = image_mset (\<lambda>k. ?s ! (k mod n)) (mset_set ?K)"
    unfolding mset_map mset_upt by (rule image_mset_cong) (use inv in \<open>auto simp: sliding_inv_def\<close>)
  also have "\<dots> = image_mset ((!) ?s) (image_mset (\<lambda>k. k mod n) (mset_set ?K))"
    by (simp add: image_mset.compositionality comp_def)
  also have "\<dots> = image_mset ((!) ?s) (mset_set {0..<n})"
    by (simp add: image_mset_mset_set [OF mod_window_inj [OF n(2)]] mod_window_image [OF n(2,1)])
  also have "\<dots> = mset (map ((!) ?s) [0..<length ?s])"
    using inv by (simp add: sliding_inv_def)
  also have "\<dots> = mset ?s" by (simp add: map_nth)
  finally show ?thesis by simp
qed



end
