(* ===== verification/Rtt_Estimation.thy ===== *)
theory Rtt_Estimation
  imports Estimators
begin

text \<open>
  Estimates built on the meters: the round-trip time (\<open>rtt-estimation.cpp\<close>), the target size of the
  buffer (\<open>buffer-estimator.cpp\<close>) and the three detectors of \<open>chase-estimation.cpp\<close>. The
  statistics storage (\<open>statistics.h\<close>) is a map from indicators to doubles that has every
  indicator of a consumer.
\<close>

section \<open>Statistics\<close>

datatype (plugins only: ) indicator =
  AcquiredNum | AcquiredKeyNum | DroppedNum | DroppedKeyNum | AssembledNum | AssembledKeyNum
| RecoveredNum | RecoveredKeyNum | RescuedNum | RescuedKeyNum | IncompleteNum | IncompleteKeyNum
| BufferTargetSize | BufferPlayableSize | BufferEstimatedSize | CurrentProducerFramerate
| LastPlayedNo | LastPlayedDeltaNo | LastPlayedKeyNo | PlayedNum | PlayedKeyNum
| SkippedNoKeyNum | SkippedIncompleteNum | SkippedBadGopNum | SkippedIncompleteKeyNum
| LatencyEstimated | SegmentsDeltaAvgNum | SegmentsKeyAvgNum | SegmentsDeltaParityAvgNum
| SegmentsKeyParityAvgNum | RtxFrequency | RtxNum | RebufferingsNum | RequestedNum
| RequestedKeyNum | DWInd | WInd | RttPrime | InBitrateKbps | InRateSegments | SegmentsReceivedNum
| TimeoutsNum | RttEstimationInd | InterestRate | QueueSize | InterestsSentNum

type_synonym stat_storage = "indicator \<Rightarrow> double"

definition ConsumerStatRepo :: stat_storage where
  "ConsumerStatRepo = (\<lambda>_. Finite 0)"

definition updateIndicator :: "indicator \<Rightarrow> double \<Rightarrow> stat_storage \<Rightarrow> stat_storage" where
  "updateIndicator i v st = st(i := v)"

definition stat_inc :: "indicator \<Rightarrow> stat_storage \<Rightarrow> stat_storage" where
  "stat_inc i st = st(i := d_add (st i) (Finite 1))"

section \<open>Round-trip time\<close>

definition RttStartEstimate :: double where
  "RttStartEstimate = Finite 30"

record rtt_estimation =
  re_estimatorId :: nat

definition new_RttEstimation :: "double \<Rightarrow> meters \<Rightarrow> rtt_estimation \<times> meters" where
  "new_RttEstimation startEstimate mt =
     (let (i, mt1) = setupMeanEstimator 0 startEstimate mt in (\<lparr>re_estimatorId = i\<rparr>, mt1))"

definition getCurrentEstimation :: "rtt_estimation \<Rightarrow> meters \<Rightarrow> double" where
  "getCurrentEstimation re mt = currentMeanEstimation (re_estimatorId re) mt"

text \<open>The difference is an \<open>int64_t\<close> before it becomes a \<open>double\<close>.\<close>

definition updateEstimation ::
    "rtt_estimation \<Rightarrow> int \<Rightarrow> int \<Rightarrow> meters \<Rightarrow> stat_storage \<Rightarrow> (double \<times> meters \<times> stat_storage) option" where
  "updateEstimation re roundtripTimeMs generationDelay mt st = do {
     diff \<leftarrow> i64 (roundtripTimeMs - generationDelay);
     let rawValue = d_of_int diff;
     let (mt1, st1) =
       (if d_less (Finite 0) rawValue then
          let mt1 = meanEstimatorNewValue (re_estimatorId re) rawValue mt in
          (mt1, st(RttEstimationInd := getCurrentEstimation re mt1))
        else (mt, st));
     Some (currentMeanEstimation (re_estimatorId re) mt1, mt1, st1)
   }"

definition RttEstimation_reset :: "rtt_estimation \<Rightarrow> meters \<Rightarrow> meters" where
  "RttEstimation_reset re mt = resetMeanEstimator (re_estimatorId re) mt"

section \<open>Target size of the buffer\<close>

definition MinBufferSizeMs :: int where
  "MinBufferSizeMs = 250"

record buffer_estimator =
  be_rttEstimation :: rtt_estimation
  be_minBufferSizeMs :: int

definition new_BufferEstimator :: "rtt_estimation \<Rightarrow> int \<Rightarrow> buffer_estimator" where
  "new_BufferEstimator re minBufferSizeMs =
     \<lparr>be_rttEstimation = re, be_minBufferSizeMs = minBufferSizeMs\<rparr>"

definition setMinimalBufferSize :: "int \<Rightarrow> buffer_estimator \<Rightarrow> buffer_estimator" where
  "setMinimalBufferSize v be = be\<lparr>be_minBufferSizeMs := v\<rparr>"

definition setRttEstimation :: "rtt_estimation \<Rightarrow> buffer_estimator \<Rightarrow> buffer_estimator" where
  "setRttEstimation re be = be\<lparr>be_rttEstimation := re\<rparr>"

definition getTargetSize :: "buffer_estimator \<Rightarrow> meters \<Rightarrow> int option" where
  "getTargetSize be mt =
     (let rttEstimate = getCurrentEstimation (be_rttEstimation be) mt;
          size = d_mul rttEstimate (Finite 2) in
      if d_less (d_of_int (be_minBufferSizeMs be)) size then d_to_i64 size
      else Some (be_minBufferSizeMs be))"

section \<open>Stability of the arrival of packets\<close>

record stability =
  st_sampleSize :: nat
  st_minOccurrences :: nat
  st_threshold :: double
  st_meanEstimatorId :: nat
  st_nStableOccurrences :: nat
  st_nUnstableOccurrences :: nat
  st_isStable :: bool

definition new_BaseStabilityEstimator ::
    "nat \<Rightarrow> nat \<Rightarrow> double \<Rightarrow> meters \<Rightarrow> stability \<times> meters" where
  "new_BaseStabilityEstimator sampleSize minStableOccurrences threshold mt =
     (let (i, mt1) = setupSlidingAverageEstimator sampleSize mt in
      (\<lparr>st_sampleSize = sampleSize, st_minOccurrences = minStableOccurrences,
        st_threshold = threshold, st_meanEstimatorId = i, st_nStableOccurrences = 0,
        st_nUnstableOccurrences = 0, st_isStable = False\<rparr>, mt1))"

definition getMeanValue :: "('a) stability_scheme \<Rightarrow> meters \<Rightarrow> double" where
  "getMeanValue e mt = currentSlidingAverageValue (st_meanEstimatorId e) mt"

record stability_estimator = stability +
  se_rateSimilarityLevel :: double
  se_lastTimestamp :: u64
  se_lastDelta :: u32

definition new_StabilityEstimator ::
    "nat \<Rightarrow> nat \<Rightarrow> double \<Rightarrow> double \<Rightarrow> meters \<Rightarrow> stability_estimator \<times> meters" where
  "new_StabilityEstimator sampleSize minStableOccurrences threshold rateSimilarityLevel mt =
     (let (b, mt1) = new_BaseStabilityEstimator sampleSize minStableOccurrences threshold mt in
      (stability.extend b \<lparr>se_rateSimilarityLevel = rateSimilarityLevel, se_lastTimestamp = 0,
         se_lastDelta = 0\<rparr>, mt1))"

text \<open>The clock is read twice: for the difference and for the new time stamp.\<close>

definition trackInterArrival ::
    "u64 \<Rightarrow> u64 \<Rightarrow> stability_estimator \<Rightarrow> meters \<Rightarrow> (stability_estimator \<times> meters) option" where
  "trackInterArrival now now' e mt = do {
     (e1, mt1) \<leftarrow>
       (if se_lastTimestamp e \<noteq> 0 then do {
          let delta = (ucast (now - se_lastTimestamp e) :: u32);
          mt1 \<leftarrow> slidingAverageEstimatorNewValue (st_meanEstimatorId e) (d_of_int (uint delta)) mt;
          let mean = currentSlidingAverageValue (st_meanEstimatorId e) mt1;
          let e1 = e\<lparr>se_lastDelta := delta\<rparr>;
          Some (if \<not> d_eq mean (Finite 0) then
              let deviationPercentage =
                    d_div (currentSlidingDeviationValue (st_meanEstimatorId e) mt1) mean;
                  e2 = (if d_le deviationPercentage (st_threshold e1) then
                          e1\<lparr>st_nUnstableOccurrences := 0,
                            st_nStableOccurrences := st_nStableOccurrences e1 + 1\<rparr>
                        else
                          e1\<lparr>st_nUnstableOccurrences := st_nUnstableOccurrences e1 + 1,
                            st_nStableOccurrences :=
                              (if st_nUnstableOccurrences e1 + 1 \<ge> st_minOccurrences e1 then 0
                               else st_nStableOccurrences e1)\<rparr>) in
              e2\<lparr>st_isStable := (st_nStableOccurrences e2 \<ge> st_minOccurrences e2)\<rparr>
            else e1, mt1)
        } else Some (e, mt));
     Some (e1\<lparr>se_lastTimestamp := now'\<rparr>, mt1)
   }"

definition StabilityEstimator_flush :: "stability_estimator \<Rightarrow> stability_estimator" where
  "StabilityEstimator_flush e =
     e\<lparr>st_isStable := False, st_nStableOccurrences := 0, st_nUnstableOccurrences := 0,
       se_lastTimestamp := 0, se_lastDelta := 0\<rparr>"

section \<open>Changes of the round-trip time\<close>

record rtt_change_estimator = stability +
  rc_nChanges :: nat
  rc_nMinorConsecutiveChanges :: nat
  rc_lastCheckedChangeNumber :: nat

text \<open>The constructor leaves the three counters uninitialised: they are arguments.\<close>

definition new_RttChangeEstimator ::
    "nat \<Rightarrow> nat \<Rightarrow> nat \<Rightarrow> nat \<Rightarrow> nat \<Rightarrow> double \<Rightarrow> meters \<Rightarrow> rtt_change_estimator \<times> meters" where
  "new_RttChangeEstimator u1 u2 u3 sampleSize minStableOccurrences threshold mt =
     (let (b, mt1) = new_BaseStabilityEstimator sampleSize minStableOccurrences threshold mt in
      (stability.extend b \<lparr>rc_nChanges = u1, rc_nMinorConsecutiveChanges = u2,
         rc_lastCheckedChangeNumber = u3\<rparr>, mt1))"

text \<open>The bookkeeping of a value in the stable phase: small changes count when they come in a row.\<close>

definition count_change :: "double \<Rightarrow> rtt_change_estimator \<Rightarrow> rtt_change_estimator" where
  "count_change changePercentage e =
     (if d_le (to_double (8 / 100)) changePercentage then
        (if d_le changePercentage (to_double (2 / 10)) then
           let n = rc_nMinorConsecutiveChanges e + 1 in
           if n \<ge> st_sampleSize e then
             e\<lparr>rc_nMinorConsecutiveChanges := 0, rc_nChanges := rc_nChanges e + 1\<rparr>
           else e\<lparr>rc_nMinorConsecutiveChanges := n\<rparr>
         else e\<lparr>rc_nChanges := rc_nChanges e + 1\<rparr>)
      else e\<lparr>rc_nMinorConsecutiveChanges := 0\<rparr>)"

definition newRttValue ::
    "double \<Rightarrow> rtt_change_estimator \<Rightarrow> meters \<Rightarrow> (rtt_change_estimator \<times> meters) option" where
  "newRttValue rtt e mt = do {
     mt1 \<leftarrow> slidingAverageEstimatorNewValue (st_meanEstimatorId e) rtt mt;
     let mean = currentSlidingAverageValue (st_meanEstimatorId e) mt1;
     Some (if \<not> d_eq mean (Finite 0) then
         let deviationPercentage =
               d_div (currentSlidingDeviationValue (st_meanEstimatorId e) mt1) mean;
             e1 = (if d_le deviationPercentage (st_threshold e)
                   then e\<lparr>st_nStableOccurrences := st_nStableOccurrences e + 1\<rparr>
                   else e\<lparr>st_isStable := False, rc_nChanges := 0, rc_nMinorConsecutiveChanges := 0,
                          st_nStableOccurrences := 0\<rparr>);
             e2 = e1\<lparr>st_isStable := (st_nStableOccurrences e1 \<ge> st_minOccurrences e1)\<rparr> in
         if st_isStable e2 then count_change (d_div (d_abs (d_sub rtt mean)) mean) e2 else e2
       else e, mt1)
   }"

definition hasChange :: "rtt_change_estimator \<Rightarrow> bool \<times> rtt_change_estimator" where
  "hasChange e =
     (rc_nChanges e > rc_lastCheckedChangeNumber e,
      e\<lparr>rc_lastCheckedChangeNumber := rc_nChanges e\<rparr>)"

definition RttChangeEstimator_flush :: "rtt_change_estimator \<Rightarrow> rtt_change_estimator" where
  "RttChangeEstimator_flush e =
     e\<lparr>st_isStable := False, st_nStableOccurrences := 0, rc_nChanges := 0,
       rc_nMinorConsecutiveChanges := 0, rc_lastCheckedChangeNumber := 0\<rparr>"

section \<open>The end of the chasing phase\<close>

definition ChaseInclineEstimatorSample :: nat where
  "ChaseInclineEstimatorSample = 3"

definition ChaseMinOccurences :: nat where
  "ChaseMinOccurences = 1"

record chase_estimation =
  ce_sampleSize :: nat
  ce_changeThreshold :: double
  ce_arrivalDelayEstimatorId :: nat
  ce_inclineEstimator :: nat
  ce_lastArrivalTimeMs :: int
  ce_startTime :: int
  ce_lastPacketRateUpdate :: double
  ce_nStabilizedOccurences :: nat
  ce_stabilized :: bool
  ce_stabilizedValue :: double
  ce_lastCheckedValue :: double

definition new_ChaseEstimation ::
    "nat \<Rightarrow> double \<Rightarrow> meters \<Rightarrow> chase_estimation \<times> meters" where
  "new_ChaseEstimation sampleSize changeThreshold mt =
     (let (i, mt1) = setupMeanEstimator sampleSize (Finite 0) mt;
          (j, mt2) = setupInclineEstimator ChaseInclineEstimatorSample mt1 in
      (\<lparr>ce_sampleSize = sampleSize, ce_changeThreshold = changeThreshold,
        ce_arrivalDelayEstimatorId = i, ce_inclineEstimator = j, ce_lastArrivalTimeMs = -1,
        ce_startTime = 0, ce_lastPacketRateUpdate = Finite 33, ce_nStabilizedOccurences = 0,
        ce_stabilized = False, ce_stabilizedValue = Finite 0, ce_lastCheckedValue = Finite 0\<rparr>, mt2))"

definition chase_check :: "meters \<Rightarrow> chase_estimation \<Rightarrow> chase_estimation" where
  "chase_check mt e =
     (if ce_stabilized e then e
      else
        let incline = d_abs (currentIncline (ce_inclineEstimator e) mt);
            mean = currentMeanEstimation (ce_arrivalDelayEstimatorId e) mt;
            level = d_mul (to_double (7 / 10)) (d_div (Finite 1000) (ce_lastPacketRateUpdate e));
            e1 = (if \<not> d_eq incline (Finite 0) \<and> d_less incline (ce_changeThreshold e) \<and> d_le level mean
                  then e\<lparr>ce_lastCheckedValue := incline,
                         ce_nStabilizedOccurences := ce_nStabilizedOccurences e + 1\<rparr>
                  else e\<lparr>ce_nStabilizedOccurences := 0\<rparr>) in
        if ce_nStabilizedOccurences e1 > ChaseMinOccurences * ChaseInclineEstimatorSample
        then e1\<lparr>ce_stabilized := True, ce_stabilizedValue := incline\<rparr> else e1)"

definition trackArrival ::
    "double \<Rightarrow> int \<Rightarrow> chase_estimation \<Rightarrow> meters \<Rightarrow> (chase_estimation \<times> meters) option" where
  "trackArrival currentRate arrivalTimestamp e mt = do {
     let e1 = (if d_less (Finite 0) currentRate then e\<lparr>ce_lastPacketRateUpdate := currentRate\<rparr> else e);
     let e2 = (if ce_startTime e1 = 0 then e1\<lparr>ce_startTime := arrivalTimestamp\<rparr> else e1);
     (e3, mt3) \<leftarrow>
       (if ce_lastArrivalTimeMs e2 \<noteq> -1 then do {
          let mt1 = meanEstimatorNewValue (ce_arrivalDelayEstimatorId e2)
                (d_of_int (arrivalTimestamp - ce_lastArrivalTimeMs e2)) mt;
          mt2 \<leftarrow> inclineEstimatorNewValue (ce_inclineEstimator e2)
                (currentMeanEstimation (ce_arrivalDelayEstimatorId e2) mt1) mt1;
          Some (chase_check mt2 e2, mt2)
        } else Some (e2, mt));
     Some (e3\<lparr>ce_lastArrivalTimeMs := arrivalTimestamp\<rparr>, mt3)
   }"

definition getArrivalEstimation :: "chase_estimation \<Rightarrow> meters \<Rightarrow> double" where
  "getArrivalEstimation e mt =
     (if ce_stabilized e then ce_stabilizedValue e
      else currentMeanEstimation (ce_arrivalDelayEstimatorId e) mt)"

definition ChaseEstimation_reset :: "bool \<Rightarrow> chase_estimation \<Rightarrow> meters \<Rightarrow> chase_estimation \<times> meters" where
  "ChaseEstimation_reset resetStartTime e mt =
     (let (i, mt1) = setupMeanEstimator (ce_sampleSize e) (Finite 0) mt;
          (j, mt2) = setupInclineEstimator ChaseInclineEstimatorSample mt1 in
      (e\<lparr>ce_startTime := (if resetStartTime then 0 else ce_startTime e),
         ce_lastArrivalTimeMs := -1, ce_nStabilizedOccurences := 0, ce_stabilized := False,
         ce_stabilizedValue := Finite 0, ce_lastCheckedValue := Finite 0,
         ce_arrivalDelayEstimatorId := i, ce_inclineEstimator := j\<rparr>, mt2))"

section \<open>Facts\<close>

lemma start_mean_simps [simp]:
  "me_sampleSize (start_mean n v) = n" "me_nValues (start_mean n v) = 0"
  "me_startValue (start_mean n v) = v" "me_currentMean (start_mean n v) = v"
  by (simp_all add: start_mean_def)

text \<open>What a mean estimator without sample size holds after \<open>k\<close> equal values.\<close>

definition mean_inv :: "double \<Rightarrow> int \<Rightarrow> nat \<Rightarrow> mean_estimator \<Rightarrow> bool" where
  "mean_inv start r k e \<longleftrightarrow> me_sampleSize e = 0 \<and> me_nValues e = k \<and>
     (if k = 0 then me_currentMean e = start
      else me_currentMean e = Finite (of_int r) \<and> me_valueMean e = Finite (of_int r))"

lemma mean_inv_start: "mean_inv start r 0 (start_mean 0 start)"
  by (simp add: mean_inv_def)

lemma mean_inv_step:
  assumes "mean_inv start r k e" and "\<bar>r\<bar> < 2 ^ 53" and "Suc k < 2 ^ 53"
  shows "mean_inv start r (Suc k) (mean_new_value (Finite (of_int r)) e)"
proof (cases k)
  case 0
  with assms(1) show ?thesis by (simp add: mean_inv_def mean_new_value_def)
next
  case (Suc j)
  have "d_div (Finite 0) (d_of_int (int (Suc k))) = Finite 0"
    using assms(3) d_of_int_exact [of "int (Suc k)"] by simp
  with assms(1) Suc show ?thesis
    using d_add_0 [OF assms(2)]
    by (simp add: mean_inv_def mean_new_value_def Let_def d_sub_self del: d_add.simps d_div.simps)
qed

text \<open>Samples are pairs of a round trip and a generation delay.\<close>

definition feed_rtt ::
    "rtt_estimation \<Rightarrow> (int \<times> int) list \<Rightarrow> meters \<times> stat_storage \<Rightarrow> (meters \<times> stat_storage) option" where
  "feed_rtt re xs ms =
     ofold (\<lambda>(t, g) (mt, st). do { (d, mt', st') \<leftarrow> updateEstimation re t g mt st; Some (mt', st') }) xs ms"

definition good_sample :: "int \<Rightarrow> int \<times> int \<Rightarrow> bool" where
  "good_sample r tg \<longleftrightarrow> (case tg of (t, g) \<Rightarrow> t - g = r)"

definition bad_sample :: "int \<times> int \<Rightarrow> bool" where
  "bad_sample tg \<longleftrightarrow> (case tg of (t, g) \<Rightarrow> - (2 ^ 63) \<le> t - g \<and> t - g \<le> 0)"

definition rtt_inv :: "rtt_estimation \<Rightarrow> double \<Rightarrow> int \<Rightarrow> nat \<Rightarrow> meters \<times> stat_storage \<Rightarrow> bool" where
  "rtt_inv re start r k ms \<longleftrightarrow> re_estimatorId re < length (meanEstimators (fst ms)) \<and>
     mean_inv start r k (meanEstimators (fst ms) ! re_estimatorId re) \<and>
     (k > 0 \<longrightarrow> snd ms RttEstimationInd = Finite (of_int r))"

lemma rtt_inv_new:
  "new_RttEstimation start mt = (re, mt') \<Longrightarrow> rtt_inv re start r 0 (mt', st)"
  by (auto simp: new_RttEstimation_def setupMeanEstimator_def rtt_inv_def mean_inv_start)

lemma rtt_inv_bad:
  assumes "rtt_inv re start r k (mt, st)" and "bad_sample (t, g)"
  shows "updateEstimation re t g mt st = Some (currentMeanEstimation (re_estimatorId re) mt, mt, st)"
  using assms not_positive_d_of_int [of "t - g"]
  by (auto simp: updateEstimation_def bad_sample_def i64_def)

lemma rtt_inv_good:
  assumes inv: "rtt_inv re start r k (mt, st)" and good: "good_sample r (t, g)"
    and r: "0 < r" "r < 2 ^ 53" and k: "Suc k < 2 ^ 53"
  shows "\<exists>d mt' st'. updateEstimation re t g mt st = Some (d, mt', st') \<and>
    rtt_inv re start r (Suc k) (mt', st')"
proof -
  have "mean_inv start r (Suc k)
      (mean_new_value (Finite (of_int r)) (meanEstimators mt ! re_estimatorId re))"
    by (rule mean_inv_step) (use inv r k in \<open>auto simp: rtt_inv_def\<close>)
  moreover have "t - g = r" using good by (simp add: good_sample_def)
  moreover have "i64 r = Some r" using r by (simp add: i64_def)
  ultimately show ?thesis
    using inv r d_of_int_exact [of r]
    by (simp add: updateEstimation_def rtt_inv_def meanEstimatorNewValue_def Let_def
        getCurrentEstimation_def currentMeanEstimation_def mean_inv_def)
qed

lemma feed_rtt_inv:
  assumes "rtt_inv re start r k (mt, st)" and "\<forall>x \<in> set xs. good_sample r x \<or> bad_sample x"
    and "0 < r" "r < 2 ^ 53" and "k + length xs < 2 ^ 53"
  shows "\<exists>mt' st'. feed_rtt re xs (mt, st) = Some (mt', st') \<and>
    rtt_inv re start r (k + length (filter (good_sample r) xs)) (mt', st')"
  using assms
proof (induction xs arbitrary: k mt st)
  case Nil
  then show ?case by (simp add: feed_rtt_def)
next
  case (Cons x xs)
  obtain t g where x: "x = (t, g)" by force
  show ?case
  proof (cases "good_sample r x")
    case True
    from rtt_inv_good [OF Cons.prems(1)] True x Cons.prems(3,4,5)
    obtain d mt1 st1 where u: "updateEstimation re t g mt st = Some (d, mt1, st1)"
      "rtt_inv re start r (Suc k) (mt1, st1)" by fastforce
    show ?thesis
      using Cons.IH [OF u(2)] Cons.prems(2-5) u(1) x True by (auto simp: feed_rtt_def)
  next
    case False
    then have "bad_sample (t, g)" using Cons.prems(2) x by auto
    from rtt_inv_bad [OF Cons.prems(1) this]
    show ?thesis
      using Cons.IH [OF Cons.prems(1)] Cons.prems(2-5) x False by (auto simp: feed_rtt_def)
  qed
qed

lemma d_double_exact: "\<bar>r\<bar> < 2 ^ 52 \<Longrightarrow> d_mul (Finite (of_int r)) (Finite 2) = Finite (of_int (2 * r))"
  using to_double_of_int [of "r * 2"] by (simp add: mult.commute)



text \<open>One tracked arrival.\<close>

lemma trackInterArrival_step:
  assumes "trackInterArrival now now' e mt = Some (e', mt')"
  shows "st_minOccurrences e' = st_minOccurrences e"
    and "se_lastTimestamp e = 0 \<Longrightarrow> st_nStableOccurrences e' = st_nStableOccurrences e"
    and "st_nStableOccurrences e' \<le> Suc (st_nStableOccurrences e)"
    and "st_isStable e' \<Longrightarrow> (st_isStable e \<Longrightarrow> st_minOccurrences e \<le> st_nStableOccurrences e) \<Longrightarrow>
      st_minOccurrences e \<le> st_nStableOccurrences e'"
  using assms by (auto simp: trackInterArrival_def Let_def split: Option.bind_splits if_splits)

definition feed_arrivals ::
    "(u64 \<times> u64) list \<Rightarrow> stability_estimator \<times> meters \<Rightarrow> (stability_estimator \<times> meters) option" where
  "feed_arrivals xs em = ofold (\<lambda>(a, b) (e, mt). trackInterArrival a b e mt) xs em"

lemma feed_arrivals_count:
  "feed_arrivals xs (e, mt) = Some (e', mt') \<Longrightarrow>
   (st_isStable e \<Longrightarrow> st_minOccurrences e \<le> st_nStableOccurrences e) \<Longrightarrow>
   st_minOccurrences e' = st_minOccurrences e \<and>
   st_nStableOccurrences e' \<le> st_nStableOccurrences e + length xs \<and>
   (st_isStable e' \<longrightarrow> st_minOccurrences e \<le> st_nStableOccurrences e')"
proof (induction xs arbitrary: e mt)
  case Nil
  then show ?case by (simp add: feed_arrivals_def)
next
  case (Cons x xs)
  obtain a b where x: "x = (a, b)" by force
  from Cons.prems(1) x obtain e1 mt1 where st: "trackInterArrival a b e mt = Some (e1, mt1)"
    "feed_arrivals xs (e1, mt1) = Some (e', mt')"
    by (auto simp: feed_arrivals_def split: Option.bind_splits)
  note step = trackInterArrival_step [OF st(1)]
  show ?case
    using Cons.IH [OF st(2)] step Cons.prems(2) by fastforce
qed


definition sample_stability :: "stability_estimator \<times> meters" where
  "sample_stability = new_StabilityEstimator 1 1 (Finite (3 / 20)) (Finite (7 / 10))
     \<lparr>freqMeters = [], dataMeters = [], meanEstimators = [], filters = [], inclineEstimators = [],
      slidingAverageEstimators = []\<rparr>"


end
