(* ===== verification/Playback_Queue.thy ===== *)
theory Playback_Queue
  imports Slot Ieee_Double "HOL-Library.Multiset" "HOL-Library.Product_Lexorder"
begin

text \<open>
  The order of playback (\<open>FrameBuffer::Slot::PlaybackComparator\<close> and \<open>FrameBuffer::PlaybackQueue\<close>
  in \<open>ndnrtc/cpp/src/frame-buffer.cpp\<close> and \<open>frame-buffer.h\<close>). Slots are shared by the
  containers of the frame buffer, so they live in a store from addresses to slots and the queue
  is a list of addresses. Time stamps are 64-bit: a signed overflow is \<open>None\<close>, as is a failed
  \<open>assert\<close>. \<open>std::sort\<close> is insertion sort, which is what the library does on short sequences;
  under the conditions of the theorems every sorting algorithm gives a sequence with the same
  properties.
\<close>

type_synonym slot_store = "nat \<Rightarrow> slot"

section \<open>The comparator\<close>

definition Inconsistent :: consistency where
  "Inconsistent = Consistency True False False"

definition PlaybackComparator :: "bool \<Rightarrow> slot \<Rightarrow> slot \<Rightarrow> bool option" where
  "PlaybackComparator inverted slot1 slot2 =
     (let c1 = s_consistency slot1; c2 = s_consistency slot2;
          ascending =
            (if s_state slot1 = StateLocked \<or> s_state slot2 = StateLocked
             then Some (s_state slot1 = StateLocked)
             else if cPrefixMeta c1 \<and> cPrefixMeta c2
             then Some (getPlaybackNumber slot1 < getPlaybackNumber slot2)
             else if cHeaderMeta c1 \<or> cHeaderMeta c2
             then (if c1 = c2 then Some (getProducerTimestamp slot1 < getProducerTimestamp slot2)
                   else Some (cHeaderMeta c1))
             else if s_packetNamespace slot1 = s_packetNamespace slot2
             then (if c1 = c2 then
                     (if c1 = Inconsistent
                      then Some (s_packetSequenceNumber slot1 < s_packetSequenceNumber slot2) else None)
                   else Some (cInconsistent c2))
             else (if c1 = c2 then
                     (if c1 = Inconsistent then Some (s_packetNamespace slot1 = NsDelta) else None)
                   else Some (cPrefixMeta c1))) in
      map_option (\<lambda>a. a \<noteq> inverted) ascending)"

section \<open>Sorting\<close>

text \<open>The sorted part is kept in reverse, as the algorithm walks it from its end.\<close>

fun sort_insert :: "('a \<Rightarrow> 'a \<Rightarrow> bool option) \<Rightarrow> 'a \<Rightarrow> 'a list \<Rightarrow> 'a list option" where
  "sort_insert lt v [] = Some [v]"
| "sort_insert lt v (p # ps) = do {
     b \<leftarrow> lt v p;
     if b then do { r \<leftarrow> sort_insert lt v ps; Some (p # r) } else Some (v # p # ps)
   }"

definition std_sort :: "('a \<Rightarrow> 'a \<Rightarrow> bool option) \<Rightarrow> 'a list \<Rightarrow> 'a list option" where
  "std_sort lt xs = map_option rev (ofold (sort_insert lt) xs [])"

section \<open>The queue\<close>

record playback_queue =
  pq_items :: "nat list"
  pq_playbackRate :: double
  pq_lastFrameDuration :: int

definition frame_duration :: "double \<Rightarrow> int option" where
  "frame_duration rate = d_to_i64 (d_ceil (d_div (Finite 1000) rate))"

definition new_PlaybackQueue :: "double \<Rightarrow> playback_queue option" where
  "new_PlaybackQueue playbackRate = do {
     d \<leftarrow> frame_duration playbackRate;
     Some \<lparr>pq_items = [], pq_playbackRate = playbackRate, pq_lastFrameDuration = d\<rparr>
   }"

definition getInferredFrameDuration :: "playback_queue \<Rightarrow> int option" where
  "getInferredFrameDuration q = frame_duration (pq_playbackRate q)"

definition pq_sort :: "slot_store \<Rightarrow> playback_queue \<Rightarrow> playback_queue option" where
  "pq_sort h q = do {
     items \<leftarrow> std_sort (\<lambda>i j. PlaybackComparator False (h i) (h j)) (pq_items q);
     Some (q\<lparr>pq_items := items\<rparr>)
   }"

text \<open>\<open>i\<close> is the slot before the rest of the queue; \<open>acc\<close> is the duration so far.\<close>

fun duration_loop ::
    "slot_store \<Rightarrow> bool \<Rightarrow> nat \<Rightarrow> nat list \<Rightarrow> int \<Rightarrow> playback_queue \<Rightarrow> (int \<times> playback_queue) option" where
  "duration_loop h estimate i [] acc q = Some (acc, q)"
| "duration_loop h estimate i (j # js) acc q =
     (let slot1 = h i; slot2 = h j in do {
        next \<leftarrow> (if cHeaderMeta (s_consistency slot1) \<and> cHeaderMeta (s_consistency slot2) then do {
                  n \<leftarrow> i32 (getPlaybackNumber slot1 + 1);
                  Some (n = getPlaybackNumber slot2)
                } else Some False);
        if next then do {
          d \<leftarrow> i64 (getProducerTimestamp slot2 - getProducerTimestamp slot1);
          if d < 0 then None
          else do {
            acc' \<leftarrow> i64 (acc + d);
            duration_loop h estimate j js acc' (q\<lparr>pq_lastFrameDuration := d\<rparr>)
          }
        } else do {
          d \<leftarrow> (if estimate then getInferredFrameDuration q else Some 0);
          acc' \<leftarrow> i64 (acc + d);
          duration_loop h estimate j js acc' q
        }
      })"

definition getPlaybackDuration ::
    "slot_store \<Rightarrow> bool \<Rightarrow> playback_queue \<Rightarrow> (int \<times> playback_queue) option" where
  "getPlaybackDuration h estimate q =
     (case pq_items q of
        [] \<Rightarrow> Some (0, q)
      | i # is \<Rightarrow> duration_loop h estimate i is 0 q)"

definition setPlaybackDeadline :: "int \<Rightarrow> slot \<Rightarrow> slot" where
  "setPlaybackDeadline d s = s\<lparr>s_playbackDeadline := d\<rparr>"

fun deadline_loop ::
    "playback_queue \<Rightarrow> nat \<Rightarrow> nat list \<Rightarrow> int \<Rightarrow> slot_store \<Rightarrow> slot_store option" where
  "deadline_loop q i [] acc h = Some (h(i := setPlaybackDeadline acc (h i)))"
| "deadline_loop q i (j # js) acc h =
     (let h1 = h(i := setPlaybackDeadline acc (h i)) in do {
        d \<leftarrow> (if cHeaderMeta (s_consistency (h1 i)) \<and> cHeaderMeta (s_consistency (h1 j))
             then i64 (getProducerTimestamp (h1 j) - getProducerTimestamp (h1 i))
             else getInferredFrameDuration q);
        acc' \<leftarrow> i64 (acc + d);
        deadline_loop q j js acc' h1
      })"

definition updatePlaybackDeadlines ::
    "slot_store \<Rightarrow> playback_queue \<Rightarrow> (slot_store \<times> playback_queue) option" where
  "updatePlaybackDeadlines h q = do {
     q1 \<leftarrow> pq_sort h q;
     h1 \<leftarrow> (case pq_items q1 of [] \<Rightarrow> Some h | i # is \<Rightarrow> deadline_loop q1 i is 0 h);
     Some (h1, q1)
   }"

definition pushSlot ::
    "nat \<Rightarrow> slot_store \<Rightarrow> playback_queue \<Rightarrow> (slot_store \<times> playback_queue) option" where
  "pushSlot i h q = updatePlaybackDeadlines h (q\<lparr>pq_items := pq_items q @ [i]\<rparr>)"

definition peekSlot :: "playback_queue \<Rightarrow> nat option" where
  "peekSlot q = (case pq_items q of [] \<Rightarrow> None | i # _ \<Rightarrow> Some i)"

definition popSlot :: "slot_store \<Rightarrow> playback_queue \<Rightarrow> (slot_store \<times> playback_queue) option" where
  "popSlot h q =
     (case pq_items q of
        [] \<Rightarrow> Some (h, q)
      | _ # is \<Rightarrow> updatePlaybackDeadlines h (q\<lparr>pq_items := is\<rparr>))"

definition updatePlaybackRate :: "double \<Rightarrow> playback_queue \<Rightarrow> playback_queue" where
  "updatePlaybackRate rate q = q\<lparr>pq_playbackRate := rate\<rparr>"

definition pq_clear :: "playback_queue \<Rightarrow> playback_queue" where
  "pq_clear q = q\<lparr>pq_items := []\<rparr>"

section \<open>Sorting is sorting\<close>

text \<open>
  The interface of a comparator: on the elements in question it is the order of a key. This is
  what makes \<open>std::sort\<close> give a sorted permutation.
\<close>

locale keyed_comparator =
  fixes lt :: "'a \<Rightarrow> 'a \<Rightarrow> bool option" and key :: "'a \<Rightarrow> 'k :: linorder" and ok :: "'a list \<Rightarrow> bool"
  assumes lt_key: "ok xs \<Longrightarrow> distinct xs \<Longrightarrow> x \<in> set xs \<Longrightarrow> y \<in> set xs \<Longrightarrow> x \<noteq> y \<Longrightarrow>
      lt x y = Some (key x < key y)"
    and ok_subset: "ok xs \<Longrightarrow> set ys \<subseteq> set xs \<Longrightarrow> distinct ys \<Longrightarrow> ok ys"
begin

lemma sort_insert_key:
  assumes "ok (v # ps)" and "distinct (v # ps)" and "sorted (rev (map key ps))"
  shows "\<exists>r. sort_insert lt v ps = Some r \<and> mset r = add_mset v (mset ps) \<and> sorted (rev (map key r))"
  using assms
proof (induction ps)
  case (Cons p ps)
  have lt: "lt v p = Some (key v < key p)"
    by (rule lt_key [OF Cons.prems(1,2)]) (use Cons.prems(2) in auto)
  have ps_le: "\<forall>x \<in> set ps. key x \<le> key p"
    using Cons.prems(3) by (auto simp: sorted_append)
  show ?case
  proof (cases "key v < key p")
    case True
    have "ok (v # ps)" by (rule ok_subset [OF Cons.prems(1)]) (use Cons.prems(2) in auto)
    then obtain r where r: "sort_insert lt v ps = Some r" "mset r = add_mset v (mset ps)"
      "sorted (rev (map key r))"
      using Cons.IH Cons.prems(2,3) by (auto simp: sorted_append)
    have "set r = insert v (set ps)" using r(2) by (metis set_mset_add_mset_insert set_mset_mset)
    then have "\<forall>x \<in> set r. key x \<le> key p" using ps_le True by auto
    then show ?thesis using r lt True by (auto simp: sorted_append)
  next
    case False
    have "sorted (rev (map key (v # p # ps)))"
      using Cons.prems(3) False ps_le by (auto simp: sorted_append not_less dest: order_trans)
    then show ?thesis using lt False by (simp add: add_mset_commute)
  qed
qed simp

lemma ofold_sort_insert_key:
  assumes "ok (xs @ ps)" and "distinct (xs @ ps)" and "sorted (rev (map key ps))"
  shows "\<exists>r. ofold (sort_insert lt) xs ps = Some r \<and> mset r = mset xs + mset ps \<and>
    sorted (rev (map key r))"
  using assms
proof (induction xs arbitrary: ps)
  case (Cons x xs)
  have "ok (x # ps)" by (rule ok_subset [OF Cons.prems(1)]) (use Cons.prems(2) in auto)
  then obtain r where r: "sort_insert lt x ps = Some r" "mset r = add_mset x (mset ps)"
    "sorted (rev (map key r))"
    using sort_insert_key [of x ps] Cons.prems(2,3) by auto
  have "set r = insert x (set ps)" using r(2) by (metis set_mset_add_mset_insert set_mset_mset)
  moreover have "distinct r"
    using r(2) Cons.prems(2) mset_eq_imp_distinct_iff [of r "x # ps"] by simp
  ultimately have d: "distinct (xs @ r)" "set (xs @ r) \<subseteq> set ((x # xs) @ ps)"
    using Cons.prems(2) by auto
  from Cons.IH [OF ok_subset [OF Cons.prems(1) d(2,1)] d(1) r(3)] r show ?case by auto
qed simp

lemma std_sort_sorts:
  assumes "ok xs" and "distinct xs"
  shows "\<exists>ys. std_sort lt xs = Some ys \<and> mset ys = mset xs \<and> sorted (map key ys)"
  using ofold_sort_insert_key [of xs "[]"] assms
  by (auto simp: std_sort_def rev_map)

end

section \<open>The playback order\<close>

text \<open>
  The rank of a slot: a slot that is being played first, then the slots with a playback number in
  that order, then expected delta frames and last expected key frames by sequence number.
\<close>

definition playback_rank :: "slot \<Rightarrow> int \<times> int" where
  "playback_rank s =
     (if s_state s = StateLocked then (0, 0)
      else if cPrefixMeta (s_consistency s) then (1, s_packetPlaybackNumber s)
      else if s_packetNamespace s = NsDelta then (2, s_packetSequenceNumber s)
      else (3, s_packetSequenceNumber s))"

text \<open>
  The slots the queue is meant for: header data never comes without the data of the prefix, and
  a slot without either is in one of the two namespaces.
\<close>

definition queueable :: "slot \<Rightarrow> bool" where
  "queueable s \<longleftrightarrow>
     (if cPrefixMeta (s_consistency s) then \<not> cInconsistent (s_consistency s)
      else s_consistency s = Inconsistent \<and> s_packetNamespace s \<noteq> NsUnknown)"

definition playable_items :: "slot_store \<Rightarrow> nat list \<Rightarrow> bool" where
  "playable_items h is \<longleftrightarrow> (\<forall>i \<in> set is. queueable (h i)) \<and>
     (\<forall>i \<in> set is. \<forall>j \<in> set is. s_state (h i) = StateLocked \<longrightarrow> s_state (h j) = StateLocked \<longrightarrow> i = j)"

lemma PlaybackComparator_rank:
  assumes "queueable s1" "queueable s2" "\<not> (s_state s1 = StateLocked \<and> s_state s2 = StateLocked)"
  shows "PlaybackComparator False s1 s2 = Some (playback_rank s1 < playback_rank s2)"
proof -
  have inc: "queueable s \<Longrightarrow> \<not> cPrefixMeta (s_consistency s) \<Longrightarrow>
      s_consistency s = Inconsistent \<and> (s_packetNamespace s = NsKey \<or> s_packetNamespace s = NsDelta)" for s
    by (cases "s_packetNamespace s") (auto simp: queueable_def)
  have con: "queueable s \<Longrightarrow> cPrefixMeta (s_consistency s) \<Longrightarrow> \<not> cInconsistent (s_consistency s)" for s
    by (simp add: queueable_def)
  note defs = PlaybackComparator_def playback_rank_def getPlaybackNumber_def Let_def
  consider "s_state s1 = StateLocked \<or> s_state s2 = StateLocked"
    | "s_state s1 \<noteq> StateLocked" "s_state s2 \<noteq> StateLocked"
      "cPrefixMeta (s_consistency s1)" "cPrefixMeta (s_consistency s2)"
    | "s_state s1 \<noteq> StateLocked" "s_state s2 \<noteq> StateLocked"
      "\<not> cPrefixMeta (s_consistency s1)" "cPrefixMeta (s_consistency s2)"
    | "s_state s1 \<noteq> StateLocked" "s_state s2 \<noteq> StateLocked"
      "cPrefixMeta (s_consistency s1)" "\<not> cPrefixMeta (s_consistency s2)"
    | "s_state s1 \<noteq> StateLocked" "s_state s2 \<noteq> StateLocked"
      "\<not> cPrefixMeta (s_consistency s1)" "\<not> cPrefixMeta (s_consistency s2)"
    by blast
  then show ?thesis
  proof cases
    case 1
    then show ?thesis using assms(3) by (auto simp: defs)
  next
    case 2
    then show ?thesis by (simp add: defs)
  next
    case 3
    then have "s_consistency s1 \<noteq> s_consistency s2" by auto
    with 3 inc [OF assms(1)] con [OF assms(2)] show ?thesis
      by (auto simp: defs Inconsistent_def)
  next
    case 4
    then have "s_consistency s1 \<noteq> s_consistency s2" by auto
    with 4 con [OF assms(1)] inc [OF assms(2)] show ?thesis
      by (auto simp: defs Inconsistent_def)
  next
    case 5
    with inc [OF assms(1)] inc [OF assms(2)] show ?thesis
      by (auto simp: defs Inconsistent_def)
  qed
qed

lemma playable_items_subset:
  "playable_items h xs \<Longrightarrow> set ys \<subseteq> set xs \<Longrightarrow> playable_items h ys"
  unfolding playable_items_def by blast

interpretation pq: keyed_comparator "\<lambda>i j. PlaybackComparator False (h i) (h j)"
  "\<lambda>i. playback_rank (h i)" "playable_items h" for h :: slot_store
proof unfold_locales
  fix xs x y
  assume "playable_items h xs" "x \<in> set xs" "y \<in> set xs" "x \<noteq> y"
  then show "PlaybackComparator False (h x) (h y) = Some (playback_rank (h x) < playback_rank (h y))"
    by (intro PlaybackComparator_rank) (auto simp: playable_items_def)
qed (rule playable_items_subset)

section \<open>Deadlines\<close>

lemma setPlaybackDeadline_simps [simp]:
  "s_playbackDeadline (setPlaybackDeadline d s) = d"
  "s_consistency (setPlaybackDeadline d s) = s_consistency s"
  "s_state (setPlaybackDeadline d s) = s_state s"
  "s_packetNamespace (setPlaybackDeadline d s) = s_packetNamespace s"
  "getProducerTimestamp (setPlaybackDeadline d s) = getProducerTimestamp s"
  "getPlaybackNumber (setPlaybackDeadline d s) = getPlaybackNumber s"
  "playback_rank (setPlaybackDeadline d s) = playback_rank s"
  "queueable (setPlaybackDeadline d s) = queueable s"
  "setPlaybackDeadline d (setPlaybackDeadline d' s) = setPlaybackDeadline d s"
  by (simp_all add: setPlaybackDeadline_def getProducerTimestamp_def getPlaybackNumber_def
      playback_rank_def queueable_def)

text \<open>The time between two neighbours of the queue; \<open>d\<close> is the inferred duration.\<close>

definition playback_gap :: "slot_store \<Rightarrow> int \<Rightarrow> nat \<Rightarrow> nat \<Rightarrow> int" where
  "playback_gap h d i j =
     (if cHeaderMeta (s_consistency (h i)) \<and> cHeaderMeta (s_consistency (h j))
      then getProducerTimestamp (h j) - getProducerTimestamp (h i) else d)"

text \<open>Time stamps and durations small enough for sums over the queue.\<close>

definition small_times :: "slot_store \<Rightarrow> int \<Rightarrow> nat list \<Rightarrow> bool" where
  "small_times h d is \<longleftrightarrow> (\<forall>i \<in> set is. \<bar>getProducerTimestamp (h i)\<bar> < 2 ^ 42) \<and> \<bar>d\<bar> < 2 ^ 42 \<and>
     length is < 2 ^ 20"

lemma playback_gap_bound:
  "small_times h d is \<Longrightarrow> i \<in> set is \<Longrightarrow> j \<in> set is \<Longrightarrow> \<bar>playback_gap h d i j\<bar> < 2 ^ 43"
proof -
  assume a: "small_times h d is" "i \<in> set is" "j \<in> set is"
  then have "\<bar>getProducerTimestamp (h i)\<bar> < 2 ^ 42" "\<bar>getProducerTimestamp (h j)\<bar> < 2 ^ 42"
    "\<bar>d\<bar> < 2 ^ 42" by (auto simp: small_times_def)
  then show ?thesis by (auto simp: playback_gap_def abs_less_iff)
qed

lemma deadline_loop_spec:
  assumes "distinct (i # is)" and "getInferredFrameDuration q = Some d"
    and "\<And>a b. a \<in> set (i # is) \<Longrightarrow> b \<in> set (i # is) \<Longrightarrow> \<bar>playback_gap h d a b\<bar> < 2 ^ 43"
    and "\<bar>acc\<bar> + int (length is) * 2 ^ 43 < 2 ^ 63"
  shows "\<exists>h'. deadline_loop q i is acc h = Some h' \<and>
    (\<forall>k. h' k = (if k \<in> set (i # is) then setPlaybackDeadline (s_playbackDeadline (h' k)) (h k) else h k)) \<and>
    s_playbackDeadline (h' i) = acc \<and>
    (\<forall>k < length is. s_playbackDeadline (h' (is ! k)) =
       s_playbackDeadline (h' ((i # is) ! k)) + playback_gap h d ((i # is) ! k) (is ! k))"
  using assms
proof (induction "is" arbitrary: i acc h)
  case (Cons j js)
  define h1 where "h1 = h(i := setPlaybackDeadline acc (h i))"
  have gap1: "playback_gap h1 d a b = playback_gap h d a b" for a b
    by (auto simp: h1_def playback_gap_def)
  have g: "\<bar>playback_gap h d i j\<bar> < 2 ^ 43" by (rule Cons.prems(3)) auto
  have acc': "\<bar>acc + playback_gap h d i j\<bar> + int (length js) * 2 ^ 43 < 2 ^ 63"
    using Cons.prems(4) g by (simp add: algebra_simps)
  then have acc'_i64: "i64 (acc + playback_gap h d i j) = Some (acc + playback_gap h d i j)"
    by (simp add: i64_def) linarith
  from Cons.IH [of j h1 "acc + playback_gap h d i j"] Cons.prems acc' obtain h' where
    h': "deadline_loop q j js (acc + playback_gap h d i j) h1 = Some h'"
    "\<forall>k. h' k = (if k \<in> set (j # js) then setPlaybackDeadline (s_playbackDeadline (h' k)) (h1 k) else h1 k)"
    "s_playbackDeadline (h' j) = acc + playback_gap h d i j"
    "\<forall>k < length js. s_playbackDeadline (h' (js ! k)) =
       s_playbackDeadline (h' ((j # js) ! k)) + playback_gap h d ((j # js) ! k) (js ! k)"
    by (auto simp: gap1)
  have "h' i = h1 i" using h'(2) [rule_format, of i] Cons.prems(1) by auto
  then have hi: "h' i = setPlaybackDeadline acc (h i)" by (simp add: h1_def)
  have loop: "deadline_loop q i (j # js) acc h = Some h'"
    using h'(1) acc'_i64 g Cons.prems(2)
    by (auto simp: Let_def h1_def playback_gap_def i64_def abs_less_iff split: if_splits)
  have other: "\<forall>k. h' k = (if k \<in> set (i # j # js)
      then setPlaybackDeadline (s_playbackDeadline (h' k)) (h k) else h k)"
  proof
    fix k show "h' k = (if k \<in> set (i # j # js)
      then setPlaybackDeadline (s_playbackDeadline (h' k)) (h k) else h k)"
      using h'(2) [rule_format, of k] hi by (cases "k = i") (auto simp: h1_def)
  qed
  have "\<forall>k < length (j # js). s_playbackDeadline (h' ((j # js) ! k)) =
     s_playbackDeadline (h' ((i # j # js) ! k)) + playback_gap h d ((i # j # js) ! k) ((j # js) ! k)"
  proof (intro allI impI)
    fix k assume "k < length (j # js)"
    then show "s_playbackDeadline (h' ((j # js) ! k)) =
     s_playbackDeadline (h' ((i # j # js) ! k)) + playback_gap h d ((i # j # js) ! k) ((j # js) ! k)"
      using h'(3,4) hi by (cases k) auto
  qed
  with loop other hi show ?case by auto
qed auto


definition sample_slot :: "int \<Rightarrow> int \<Rightarrow> slot" where
  "sample_slot no ts = (new_Slot 1000 False)\<lparr>s_consistency := Consistency False True True,
     s_packetPlaybackNumber := no, s_producerTimestamp := ts, s_packetNamespace := NsDelta,
     s_state := StateReady\<rparr>"

definition sample_store :: slot_store where
  "sample_store = (\<lambda>i. if i = 0 then sample_slot 5 240 else sample_slot 4 200)"


text \<open>A locked slot is ordered before itself: the comparator is not irreflexive.\<close>

lemma comparator_locked_not_irreflexive:
  "s_state s = StateLocked \<Longrightarrow> PlaybackComparator False s s = Some True"
  by (simp add: PlaybackComparator_def)

section \<open>Durations\<close>

definition consecutive :: "slot_store \<Rightarrow> nat \<Rightarrow> nat \<Rightarrow> bool" where
  "consecutive h i j \<longleftrightarrow> cHeaderMeta (s_consistency (h i)) \<and> cHeaderMeta (s_consistency (h j)) \<and>
     getPlaybackNumber (h i) + 1 = getPlaybackNumber (h j)"

definition duration_gap :: "slot_store \<Rightarrow> bool \<Rightarrow> int \<Rightarrow> nat \<Rightarrow> nat \<Rightarrow> int" where
  "duration_gap h estimate d i j =
     (if consecutive h i j then getProducerTimestamp (h j) - getProducerTimestamp (h i)
      else if estimate then d else 0)"

definition regress :: "slot_store \<Rightarrow> nat \<times> nat \<Rightarrow> bool" where
  "regress h ij \<longleftrightarrow> (case ij of (i, j) \<Rightarrow> consecutive h i j \<and>
     getProducerTimestamp (h j) < getProducerTimestamp (h i))"

lemma duration_gap_bound:
  "small_times h d is \<Longrightarrow> i \<in> set is \<Longrightarrow> j \<in> set is \<Longrightarrow> \<bar>duration_gap h e d i j\<bar> < 2 ^ 43"
proof -
  assume a: "small_times h d is" "i \<in> set is" "j \<in> set is"
  then have "\<bar>getProducerTimestamp (h i)\<bar> < 2 ^ 42" "\<bar>getProducerTimestamp (h j)\<bar> < 2 ^ 42"
    "\<bar>d\<bar> < 2 ^ 42" by (auto simp: small_times_def)
  then show ?thesis by (auto simp: duration_gap_def abs_less_iff)
qed

text \<open>Playback numbers that can be incremented.\<close>

definition small_numbers :: "slot_store \<Rightarrow> nat list \<Rightarrow> bool" where
  "small_numbers h is \<longleftrightarrow>
     (\<forall>i \<in> set is. - (2 ^ 31) \<le> getPlaybackNumber (h i) \<and> getPlaybackNumber (h i) < 2 ^ 31 - 1)"

lemma duration_loop_spec:
  assumes "small_numbers h (i # is)" and "getInferredFrameDuration q = Some d"
    and "\<And>a b. a \<in> set (i # is) \<Longrightarrow> b \<in> set (i # is) \<Longrightarrow> \<bar>duration_gap h e d a b\<bar> < 2 ^ 43"
    and "\<bar>acc\<bar> + int (length is) * 2 ^ 43 < 2 ^ 63"
  shows "if \<exists>ij \<in> set (zip (i # is) is). regress h ij then duration_loop h e i is acc q = None
    else \<exists>q'. duration_loop h e i is acc q =
        Some (acc + (\<Sum>(a, b) \<leftarrow> zip (i # is) is. duration_gap h e d a b), q') \<and>
      pq_items q' = pq_items q \<and> pq_playbackRate q' = pq_playbackRate q"
  using assms
proof (induction "is" arbitrary: i acc q)
  case (Cons j js)
  define g where "g = duration_gap h e d i j"
  have "\<bar>g\<bar> < 2 ^ 43" unfolding g_def by (rule Cons.prems(3)) auto
  then have acc': "\<bar>acc + g\<bar> + int (length js) * 2 ^ 43 < 2 ^ 63" and g64: "i64 g = Some g"
    using Cons.prems(4) by (simp_all add: i64_def algebra_simps) linarith+
  then have acc64: "i64 (acc + g) = Some (acc + g)" by (simp add: i64_def) linarith
  have n: "i32 (getPlaybackNumber (h i) + 1) = Some (getPlaybackNumber (h i) + 1)"
    using Cons.prems(1) by (simp add: small_numbers_def i32_def)
  have IH: "if \<exists>ij \<in> set (zip (j # js) js). regress h ij then duration_loop h e j js (acc + g) q1 = None
    else \<exists>q'. duration_loop h e j js (acc + g) q1 =
        Some (acc + g + (\<Sum>(a, b) \<leftarrow> zip (j # js) js. duration_gap h e d a b), q') \<and>
      pq_items q' = pq_items q1 \<and> pq_playbackRate q' = pq_playbackRate q1"
    if "pq_playbackRate q1 = pq_playbackRate q" for q1
    using that Cons.prems acc' by (intro Cons.IH) (auto simp: small_numbers_def getInferredFrameDuration_def)
  show ?case
  proof (cases "consecutive h i j")
    case True
    then have gt: "g = getProducerTimestamp (h j) - getProducerTimestamp (h i)"
      by (simp add: g_def duration_gap_def)
    have loop: "duration_loop h e i (j # js) acc q = (if g < 0 then None else
        duration_loop h e j js (acc + g) (q\<lparr>pq_lastFrameDuration := g\<rparr>))"
      using True n g64 acc64 by (simp add: consecutive_def Let_def flip: gt)
    have "regress h (i, j) \<longleftrightarrow> g < 0" using True gt by (auto simp: regress_def)
    then show ?thesis
      using loop IH [of "q\<lparr>pq_lastFrameDuration := g\<rparr>"]
      by (auto simp: add.assoc simp del: duration_loop.simps simp flip: g_def)
  next
    case False
    then have "duration_loop h e i (j # js) acc q = duration_loop h e j js (acc + g) q"
      using n acc64 Cons.prems(2)
      by (cases e) (auto simp: consecutive_def g_def duration_gap_def Let_def)
    moreover have "\<not> regress h (i, j)" using False by (simp add: regress_def)
    ultimately show ?thesis using IH [of q]
      by (auto simp: add.assoc simp del: duration_loop.simps simp flip: g_def)
  qed
qed simp

text \<open>C19: The playback duration of a queue is the sum, over neighbours, of the difference of their
  time stamps when they are consecutive frames with headers, and of the inferred frame duration
  (or nothing, for the playable duration) when they are not. The computation fails on an
  assertion exactly when some consecutive frame carries an earlier time stamp than its
  predecessor, which is data from the network. It changes neither the queue nor its rate.\<close>

theorem getPlaybackDuration_spec:
  assumes "getInferredFrameDuration q = Some d" and "small_times h d (pq_items q)"
    and "small_numbers h (pq_items q)"
  shows "if \<exists>ij \<in> set (zip (pq_items q) (tl (pq_items q))). regress h ij
    then getPlaybackDuration h estimate q = None
    else \<exists>q'. getPlaybackDuration h estimate q =
        Some (\<Sum>(a, b) \<leftarrow> zip (pq_items q) (tl (pq_items q)). duration_gap h estimate d a b, q') \<and>
      pq_items q' = pq_items q \<and> pq_playbackRate q' = pq_playbackRate q"
proof (cases "pq_items q")
  case (Cons i js)
  have gaps: "a \<in> set (i # js) \<Longrightarrow> b \<in> set (i # js) \<Longrightarrow> \<bar>duration_gap h estimate d a b\<bar> < 2 ^ 43" for a b
    by (rule duration_gap_bound [OF assms(2)]) (use Cons in auto)
  have "int (length js) < 2 ^ 20" using assms(2) Cons by (simp add: small_times_def)
  then have l: "\<bar>0\<bar> + int (length js) * 2 ^ 43 < 2 ^ 63" by simp
  from duration_loop_spec [OF assms(3) [unfolded Cons] assms(1) gaps l] Cons
  show ?thesis by (simp add: getPlaybackDuration_def split: if_splits)
qed (simp add: getPlaybackDuration_def)

theorem getPlaybackDuration_spec_witness:
  "if \<exists>ij \<in> set (zip [1, 0] [0 :: nat]). regress sample_store ij
   then getPlaybackDuration sample_store True
      \<lparr>pq_items = [1, 0], pq_playbackRate = Finite 25, pq_lastFrameDuration = 0\<rparr> = None
   else \<exists>q'. getPlaybackDuration sample_store True
      \<lparr>pq_items = [1, 0], pq_playbackRate = Finite 25, pq_lastFrameDuration = 0\<rparr> =
      Some (\<Sum>(a, b) \<leftarrow> zip [1, 0] [0]. duration_gap sample_store True 40 a b, q') \<and>
      pq_items q' = [1, 0] \<and> pq_playbackRate q' = Finite 25"
proof -
  let ?q = "\<lparr>pq_items = [1, 0], pq_playbackRate = Finite 25, pq_lastFrameDuration = 0\<rparr> :: playback_queue"
  have r: "getInferredFrameDuration ?q = Some 40"
    by (simp add: getInferredFrameDuration_def frame_duration_def to_double_numeral i64_def)
  have t: "small_times sample_store 40 (pq_items ?q)" "small_numbers sample_store (pq_items ?q)"
    by (simp_all add: small_times_def small_numbers_def getProducerTimestamp_def getPlaybackNumber_def
        sample_store_def sample_slot_def)
  show ?thesis
    using getPlaybackDuration_spec [OF r t, of True] unfolding playback_queue.simps list.sel .
qed

end
