(* ===== verification/Frame_Buffer.thy ===== *)
theory Frame_Buffer
  imports Playback_Queue Rtt_Estimation
begin

text \<open>
  The frame buffer (\<open>FrameBuffer\<close> in \<open>ndnrtc/cpp/src/frame-buffer.cpp\<close> and \<open>frame-buffer.h\<close>): a
  pool of slots, the map of the slots in use, the playback queue and the list of pending events.
  Slots are shared by these containers: they are addresses into \<open>fb_slots\<close>, and \<open>fb_nSlots\<close>
  addresses have been handed out. Locks are left out, an operation runs to its end.

  The record can be extended by the state of a client: callbacks of the client run in the middle of
  operations and change both, so they are arguments of type
  \<open>'a frame_buffer_scheme \<Rightarrow> 'a frame_buffer_scheme option\<close>. As everywhere \<open>None\<close> is a
  failed assertion, a null pointer that is followed or an iterator that leaves its container. The
  operands of log statements are evaluated by the code also when nothing is logged, so pointers
  they follow are followed here.
\<close>

section \<open>State\<close>

datatype fb_state = Invalid | Valid

datatype event_type =
  Ready | FirstSegment | FreeSlot | Timeout | StateChanged | Playout | Underrun | NeedKey | Error
| Empty | SegmentEvent

record event =
  ev_type :: event_type
  ev_slot :: "nat option"

text \<open>What the buffer reads from its consumer's parameters.\<close>

record consumer_params =
  cp_jitterSizeMs :: int
  cp_bufferSlotsNum :: nat
  cp_segmentSize :: u32
  cp_useFec :: bool
  cp_useRtx :: bool
  cp_interestLifetime :: int

record frame_buffer =
  fb_slots :: slot_store
  fb_nSlots :: nat
  fb_state :: fb_state
  fb_playbackNo :: int
  fb_lastKeySeqNo :: int
  fb_nKeyFrames :: int
  fb_skipFrame :: bool
  fb_playbackSlot :: "nat option"
  fb_targetSizeMs :: int
  fb_estimatedSizeMs :: int
  fb_isEstimationNeeded :: bool
  fb_isWaitingForRightmost :: bool
  fb_retransmissionsEnabled :: bool
  fb_frameReleaseCount :: int
  fb_freeSlots :: "nat list"
  fb_activeSlots :: "(name \<times> nat) list"
  fb_playbackQueue :: playback_queue
  fb_forcedRelease :: bool
  fb_pendingEventsFlushed :: bool
  fb_pendingEvents :: "event list"
  fb_params :: consumer_params
  fb_rtt :: rtt_estimation
  fb_bufferEstimator :: buffer_estimator
  fb_meters :: meters
  fb_stats :: stat_storage

abbreviation fb_slot :: "'a frame_buffer_scheme \<Rightarrow> nat \<Rightarrow> slot" where
  "fb_slot fb i \<equiv> fb_slots fb i"

definition set_slot :: "nat \<Rightarrow> slot \<Rightarrow> 'a frame_buffer_scheme \<Rightarrow> 'a frame_buffer_scheme" where
  "set_slot i s fb = fb\<lparr>fb_slots := (fb_slots fb)(i := s)\<rparr>"

definition stat :: "(stat_storage \<Rightarrow> stat_storage) \<Rightarrow> 'a frame_buffer_scheme \<Rightarrow> 'a frame_buffer_scheme" where
  "stat f fb = fb\<lparr>fb_stats := f (fb_stats fb)\<rparr>"

section \<open>Events, rate and size\<close>

definition addBufferEvent ::
    "event_type \<Rightarrow> nat option \<Rightarrow> 'a frame_buffer_scheme \<Rightarrow> 'a frame_buffer_scheme" where
  "addBufferEvent ty sl fb =
     fb\<lparr>fb_pendingEvents := fb_pendingEvents fb @ [\<lparr>ev_type = ty, ev_slot = sl\<rparr>]\<rparr>"

definition addStateChangedEvent :: "'a frame_buffer_scheme \<Rightarrow> 'a frame_buffer_scheme" where
  "addStateChangedEvent fb = addBufferEvent StateChanged None fb"

definition recycleEvent :: "event \<Rightarrow> 'a frame_buffer_scheme \<Rightarrow> 'a frame_buffer_scheme" where
  "recycleEvent e fb = addBufferEvent (ev_type e) (ev_slot e) fb"

definition setState :: "fb_state \<Rightarrow> 'a frame_buffer_scheme \<Rightarrow> 'a frame_buffer_scheme" where
  "setState st fb = addBufferEvent StateChanged None (fb\<lparr>fb_state := st\<rparr>)"

definition release :: "'a frame_buffer_scheme \<Rightarrow> 'a frame_buffer_scheme" where
  "release fb = fb\<lparr>fb_forcedRelease := True\<rparr>"

definition setTargetSize :: "int \<Rightarrow> 'a frame_buffer_scheme \<Rightarrow> 'a frame_buffer_scheme" where
  "setTargetSize sz fb =
     stat (updateIndicator BufferTargetSize (d_of_int sz)) (fb\<lparr>fb_targetSizeMs := sz\<rparr>)"

definition setRetransmissionsEnabled :: "bool \<Rightarrow> 'a frame_buffer_scheme \<Rightarrow> 'a frame_buffer_scheme" where
  "setRetransmissionsEnabled b fb = fb\<lparr>fb_retransmissionsEnabled := b\<rparr>"

definition getCurrentRate :: "'a frame_buffer_scheme \<Rightarrow> double" where
  "getCurrentRate fb = pq_playbackRate (fb_playbackQueue fb)"

definition updateCurrentRate :: "double \<Rightarrow> 'a frame_buffer_scheme \<Rightarrow> 'a frame_buffer_scheme" where
  "updateCurrentRate playbackRate fb =
     (if \<not> d_eq playbackRate (Finite 0) \<and> \<not> d_eq playbackRate (getCurrentRate fb) then
        stat (updateIndicator CurrentProducerFramerate playbackRate)
          (fb\<lparr>fb_isEstimationNeeded := True,
             fb_playbackQueue := updatePlaybackRate playbackRate (fb_playbackQueue fb)\<rparr>)
      else fb)"

definition estimateBufferSize :: "'a frame_buffer_scheme \<Rightarrow> 'a frame_buffer_scheme option" where
  "estimateBufferSize fb = do {
     (sz, q) \<leftarrow> getPlaybackDuration (fb_slots fb) True (fb_playbackQueue fb);
     Some (stat (updateIndicator BufferEstimatedSize (d_of_int sz))
       (fb\<lparr>fb_playbackQueue := q, fb_estimatedSizeMs := sz\<rparr>))
   }"

definition getEstimatedBufferSize ::
    "'a frame_buffer_scheme \<Rightarrow> (int \<times> 'a frame_buffer_scheme) option" where
  "getEstimatedBufferSize fb = do {
     fb1 \<leftarrow> (if fb_isEstimationNeeded fb then do {
               fb1 \<leftarrow> estimateBufferSize fb;
               Some (fb1\<lparr>fb_isEstimationNeeded := False\<rparr>)
             } else Some fb);
     Some (fb_estimatedSizeMs fb1, fb1)
   }"

definition getPlayableBufferSize ::
    "'a frame_buffer_scheme \<Rightarrow> (int \<times> 'a frame_buffer_scheme) option" where
  "getPlayableBufferSize fb = do {
     (sz, q) \<leftarrow> getPlaybackDuration (fb_slots fb) False (fb_playbackQueue fb);
     Some (sz, stat (updateIndicator BufferPlayableSize (d_of_int sz)) (fb\<lparr>fb_playbackQueue := q\<rparr>))
   }"

text \<open>The queue's operations on the slots of the buffer.\<close>

definition with_queue ::
    "(slot_store \<Rightarrow> playback_queue \<Rightarrow> (slot_store \<times> playback_queue) option) \<Rightarrow>
     'a frame_buffer_scheme \<Rightarrow> 'a frame_buffer_scheme option" where
  "with_queue f fb = do {
     (h, q) \<leftarrow> f (fb_slots fb) (fb_playbackQueue fb);
     Some (fb\<lparr>fb_slots := h, fb_playbackQueue := q\<rparr>)
   }"

section \<open>Slots by name\<close>

definition getLookupPrefix :: "name \<Rightarrow> bool \<times> name" where
  "getLookupPrefix prefix = trimmedLookupPrefix prefix"

definition getSlot :: "name \<Rightarrow> bool \<Rightarrow> 'a frame_buffer_scheme \<Rightarrow> nat option \<times> 'a frame_buffer_scheme" where
  "getSlot prefix remove fb =
     (let (found, lookupPrefix) = getLookupPrefix prefix in
      if found then
        (case map_of (fb_activeSlots fb) lookupPrefix of
           None \<Rightarrow> (None, fb)
         | Some i \<Rightarrow> (Some i,
             if remove then fb\<lparr>fb_activeSlots := map_erase lookupPrefix (fb_activeSlots fb)\<rparr> else fb))
      else (None, fb))"

definition setSlot :: "name \<Rightarrow> nat \<Rightarrow> 'a frame_buffer_scheme \<Rightarrow> (result \<times> 'a frame_buffer_scheme) option" where
  "setSlot prefix i fb =
     (let (found, lookupPrefix) = getLookupPrefix prefix in
      if found then do {
        s \<leftarrow> setPrefix lookupPrefix (fb_slot fb i);
        Some (RESULT_OK, set_slot i s
          (fb\<lparr>fb_activeSlots := map_assign lookupPrefix i (fb_activeSlots fb)\<rparr>))
      } else Some (RESULT_ERR, fb))"

definition getSlots :: "slot_state set \<Rightarrow> 'a frame_buffer_scheme \<Rightarrow> nat list" where
  "getSlots slotStateMask fb = filter (\<lambda>i. s_state (fb_slot fb i) \<in> slotStateMask) (map snd (fb_activeSlots fb))"

definition getTotalSlotsNum :: "'a frame_buffer_scheme \<Rightarrow> nat" where
  "getTotalSlotsNum fb = length (fb_activeSlots fb)"

definition getActiveSlotsNum :: "'a frame_buffer_scheme \<Rightarrow> nat" where
  "getActiveSlotsNum fb = length (getSlots {StateNew, StateAssembling, StateReady, StateLocked} fb)"

definition getNewSlotsNum :: "'a frame_buffer_scheme \<Rightarrow> nat" where
  "getNewSlotsNum fb = length (getSlots {StateNew} fb)"

definition getFetchedSlotsNum :: "'a frame_buffer_scheme \<Rightarrow> nat" where
  "getFetchedSlotsNum fb = length (getSlots {StateAssembling, StateReady, StateLocked} fb)"

definition getFreeSlotsNum :: "'a frame_buffer_scheme \<Rightarrow> nat" where
  "getFreeSlotsNum fb = length (getSlots {StateFree} fb)"

text \<open>The result of \<open>setSlot\<close> is not looked at.\<close>

definition reserveSlot :: "name \<Rightarrow> 'a frame_buffer_scheme \<Rightarrow> (nat option \<times> 'a frame_buffer_scheme) option" where
  "reserveSlot interestName fb =
     (if fb_freeSlots fb \<noteq> [] then do {
        let i = last (fb_freeSlots fb);
        (r, fb1) \<leftarrow> setSlot interestName i fb;
        fb2 \<leftarrow> with_queue (pushSlot i) (fb1\<lparr>fb_freeSlots := butlast (fb_freeSlots fb1)\<rparr>);
        if isKeyFramePrefix interestName then do {
          frameNo \<leftarrow> getPacketNumber interestName;
          Some (Some i, fb2\<lparr>fb_lastKeySeqNo := frameNo, fb_nKeyFrames := fb_nKeyFrames fb2 + 1\<rparr>)
        } else Some (Some i, fb2)
      } else Some (None, fb))"

definition fb_fixRightmost :: "name \<Rightarrow> 'a frame_buffer_scheme \<Rightarrow> 'a frame_buffer_scheme" where
  "fb_fixRightmost dataName fb =
     (let (p, rightmostPrefix) = trimPacketNumber dataName in
      case map_of (fb_activeSlots fb) rightmostPrefix of
        None \<Rightarrow> fb
      | Some i \<Rightarrow>
          let (found, lookupPrefix) = getLookupPrefix dataName in
          fb\<lparr>fb_activeSlots := map_assign lookupPrefix i
               (map_erase rightmostPrefix (fb_activeSlots fb)),
             fb_isWaitingForRightmost := False\<rparr>)"

definition freeSlot :: "name \<Rightarrow> 'a frame_buffer_scheme \<Rightarrow> (slot_state \<times> 'a frame_buffer_scheme) option" where
  "freeSlot prefix fb =
     (case getSlot prefix True fb of
        (None, fb1) \<Rightarrow> Some (StateFree, fb1)
      | (Some i, fb1) \<Rightarrow>
          if s_state (fb_slot fb1 i) \<noteq> StateLocked then do {
            let fb2 = (if s_packetNamespace (fb_slot fb1 i) = NsKey then
                let n = fb_nKeyFrames fb1 - 1 in
                if n \<le> 0 then addBufferEvent NeedKey (Some i) (fb1\<lparr>fb_nKeyFrames := 0\<rparr>)
                else fb1\<lparr>fb_nKeyFrames := n\<rparr>
              else fb1);
            (r, s) \<leftarrow> Slot_reset (fb_slot fb2 i);
            let fb3 = set_slot i s (fb2\<lparr>fb_freeSlots := fb_freeSlots fb2 @ [i]\<rparr>);
            Some (s_state s, addBufferEvent FreeSlot (Some i) fb3)
          } else Some (StateFree, fb1))"

section \<open>Initialisation and reset\<close>

text \<open>The pool is filled up; the payload size is an unsigned difference.\<close>

definition initialize :: "'a frame_buffer_scheme \<Rightarrow> 'a frame_buffer_scheme" where
  "initialize fb =
     fold (\<lambda>_ fb.
        let payloadSegmentSize =
              unat (cp_segmentSize (fb_params fb) - of_nat SegmentData_getHeaderSize);
            i = fb_nSlots fb in
        addBufferEvent FreeSlot (Some i)
          (set_slot i (new_Slot payloadSegmentSize (cp_useFec (fb_params fb)))
            (fb\<lparr>fb_nSlots := i + 1, fb_freeSlots := fb_freeSlots fb @ [i]\<rparr>)))
      [length (fb_freeSlots fb) ..< cp_bufferSlotsNum (fb_params fb)] fb"

definition resetData :: "'a frame_buffer_scheme \<Rightarrow> 'a frame_buffer_scheme" where
  "resetData fb =
     setTargetSize (cp_jitterSizeMs (fb_params fb))
       ((addStateChangedEvent
          (fb\<lparr>fb_activeSlots := [], fb_playbackQueue := pq_clear (fb_playbackQueue fb),
             fb_state := Invalid\<rparr>))
        \<lparr>fb_isWaitingForRightmost := True, fb_targetSizeMs := -1, fb_estimatedSizeMs := -1,
         fb_isEstimationNeeded := True, fb_playbackNo := -1, fb_lastKeySeqNo := -1,
         fb_skipFrame := False, fb_playbackSlot := None, fb_nKeyFrames := 0,
         fb_retransmissionsEnabled := False, fb_frameReleaseCount := 0, fb_forcedRelease := False\<rparr>)"

definition reset_slot_of :: "nat \<Rightarrow> 'a frame_buffer_scheme \<Rightarrow> 'a frame_buffer_scheme option" where
  "reset_slot_of i fb =
     (if s_state (fb_slot fb i) \<noteq> StateLocked then do {
        (r, s) \<leftarrow> Slot_reset (fb_slot fb i);
        Some (addBufferEvent FreeSlot (Some i)
          (set_slot i s (fb\<lparr>fb_freeSlots := fb_freeSlots fb @ [i]\<rparr>)))
      } else Some fb)"

definition fb_reset :: "'a frame_buffer_scheme \<Rightarrow> 'a frame_buffer_scheme option" where
  "fb_reset fb = do {
     fb1 \<leftarrow> ofold reset_slot_of (map snd (fb_activeSlots fb))
              (fb\<lparr>fb_pendingEvents := [], fb_pendingEventsFlushed := True\<rparr>);
     Some (resetData fb1)
   }"

definition fb_init :: "'a frame_buffer_scheme \<Rightarrow> (result \<times> 'a frame_buffer_scheme) option" where
  "fb_init fb = do {
     fb1 \<leftarrow> fb_reset fb;
     Some (RESULT_OK, initialize fb1)
   }"

section \<open>Interests\<close>

definition fb_interestIssued ::
    "name \<Rightarrow> u32 \<Rightarrow> int \<Rightarrow> 'a frame_buffer_scheme \<Rightarrow> (slot_state \<times> 'a frame_buffer_scheme) option" where
  "fb_interestIssued interestName rnd now fb = do {
     (reserved, fb1) \<leftarrow> (case getSlot interestName False fb of
         (Some i, fb1) \<Rightarrow> Some (Some i, fb1)
       | (None, fb1) \<Rightarrow> reserveSlot interestName fb1);
     case reserved of
       None \<Rightarrow> Some (StateFree, fb1)
     | Some i \<Rightarrow> do {
         (r, s) \<leftarrow> Slot_addInterest interestName rnd now (fb_slot fb1 i);
         let fb2 = set_slot i s fb1;
         if RESULT_GOOD r then Some (s_state s, fb2\<lparr>fb_isEstimationNeeded := True\<rparr>)
         else Some (StateFree, fb2)
       }
   }"

text \<open>
  The loop over a range of segments: it stops at the first interest the slot does not accept and
  gives the names of those it did. Each interest takes the next random nonce.
\<close>

fun issue_range ::
    "name \<Rightarrow> nat \<Rightarrow> int list \<Rightarrow> u32 list \<Rightarrow> int \<Rightarrow> bool \<Rightarrow> 'a frame_buffer_scheme \<Rightarrow>
     (name list \<times> 'a frame_buffer_scheme) option" where
  "issue_range packetName i [] rnds now isParity fb = Some ([], fb)"
| "issue_range packetName i (segNo # segNos) rnds now isParity fb = do {
     segName \<leftarrow> appendSegment (appendDataKind packetName isParity) (of_int segNo);
     rnd \<leftarrow> (case rnds of [] \<Rightarrow> None | r # _ \<Rightarrow> Some r);
     (r, s) \<leftarrow> Slot_addInterest segName rnd now (fb_slot fb i);
     let fb1 = set_slot i s fb;
     if RESULT_GOOD r then do {
       (names, fb2) \<leftarrow> issue_range packetName i segNos (tl rnds) now isParity fb1;
       Some (segName # names, fb2)
     } else Some ([], fb1)
   }"

definition interestRangeIssued ::
    "name \<Rightarrow> int \<Rightarrow> int \<Rightarrow> bool \<Rightarrow> u32 list \<Rightarrow> int \<Rightarrow> 'a frame_buffer_scheme \<Rightarrow>
     (slot_state \<times> name list \<times> 'a frame_buffer_scheme) option" where
  "interestRangeIssued packetName startSegmentNo endSegmentNo isParity rnds now fb = do {
     packetNo \<leftarrow> getPacketNumber packetName;
     if packetNo < 0 \<or> startSegmentNo > endSegmentNo then Some (StateFree, [], fb)
     else do {
       (reserved, fb1) \<leftarrow> (case getSlot packetName False fb of
           (Some i, fb1) \<Rightarrow> Some (Some i, fb1)
         | (None, fb1) \<Rightarrow> reserveSlot packetName fb1);
       case reserved of
         None \<Rightarrow> Some (StateFree, [], fb1)
       | Some i \<Rightarrow> do {
           (names, fb2) \<leftarrow> issue_range packetName i [startSegmentNo..endSegmentNo] rnds now isParity fb1;
           Some (s_state (fb_slot fb2 i), names, fb2\<lparr>fb_isEstimationNeeded := True\<rparr>)
         }
     }
   }"

definition interestTimeout :: "name \<Rightarrow> 'a frame_buffer_scheme \<Rightarrow> 'a frame_buffer_scheme option" where
  "interestTimeout interestName fb =
     (case getSlot interestName False fb of
        (None, fb1) \<Rightarrow> Some fb1
      | (Some i, fb1) \<Rightarrow> do {
          (r, s) \<leftarrow> Slot_markMissing interestName (fb_slot fb1 i);
          let fb2 = set_slot i s fb1;
          Some (if RESULT_GOOD r then addBufferEvent Timeout (Some i) fb2 else fb2)
        })"

section \<open>Retransmissions\<close>

text \<open>C++ division of signed integers rounds towards 0.\<close>

definition tdiv :: "int \<Rightarrow> int \<Rightarrow> int" where
  "tdiv a b = sgn a * sgn b * (\<bar>a\<bar> div \<bar>b\<bar>)"

definition MinRetransmissionInterval :: int where
  "MinRetransmissionInterval = 150"

text \<open>\<open>getLifetime\<close>: the age in milliseconds, computed as a \<open>double\<close>.\<close>

definition getLifetime :: "int \<Rightarrow> slot \<Rightarrow> int option" where
  "getLifetime now s =
     (if s_requestTimeUsec s > 0
      then d_to_i64 (d_sub (d_of_int now) (d_div (d_of_int (s_requestTimeUsec s)) (Finite 1000)))
      else Some 0)"

text \<open>
  The loop of \<open>checkRetransmissions\<close>: \<open>k\<close> is the position of the iterator. It is dereferenced before
  it is compared with the end. A callback that changes the vector invalidates the iterator.
\<close>

definition retransmission_body ::
    "(nat \<Rightarrow> nat \<Rightarrow> nat \<Rightarrow> bytes \<Rightarrow> bytes \<Rightarrow> bytes \<Rightarrow> int \<times> bytes \<times> bytes) \<Rightarrow>
     (nat \<Rightarrow> 'a frame_buffer_scheme \<Rightarrow> 'a frame_buffer_scheme option) option \<Rightarrow>
     nat \<Rightarrow> 'a frame_buffer_scheme \<Rightarrow> 'a frame_buffer_scheme option" where
  "retransmission_body decode onRetransmissionNeeded i fb =
     (if getAssembledLevel (fb_slot fb i) < 1 then
        let (n, s) = Slot_recover decode (fb_slot fb i); fb1 = set_slot i s fb in
        if \<not> s_isRecovered s \<and> s_nRtx s = 0 then
          (case onRetransmissionNeeded of
             None \<Rightarrow> Some fb1
           | Some callback \<Rightarrow> do {
               fb2 \<leftarrow> callback i fb1;
               if pq_items (fb_playbackQueue fb2) = pq_items (fb_playbackQueue fb1) then Some fb2 else None
             })
        else Some fb1
      else Some fb)"

function retransmission_loop ::
    "(nat \<Rightarrow> nat \<Rightarrow> nat \<Rightarrow> bytes \<Rightarrow> bytes \<Rightarrow> bytes \<Rightarrow> int \<times> bytes \<times> bytes) \<Rightarrow>
     (nat \<Rightarrow> 'a frame_buffer_scheme \<Rightarrow> 'a frame_buffer_scheme option) option \<Rightarrow>
     int \<Rightarrow> int \<Rightarrow> nat list \<Rightarrow> nat \<Rightarrow> 'a frame_buffer_scheme \<Rightarrow> 'a frame_buffer_scheme option" where
  "retransmission_loop decode onRtx now deadline items k fb =
     (if k \<ge> length items then None
      else do {
        let s = fb_slot fb (items ! k);
        lifetime \<leftarrow> (if s_playbackDeadline s \<le> deadline then getLifetime now s else Some 0);
        if s_playbackDeadline s \<le> deadline \<and> lifetime > MinRetransmissionInterval then do {
          fb1 \<leftarrow> retransmission_body decode onRtx (items ! k) fb;
          retransmission_loop decode onRtx now deadline items (k + 1) fb1
        } else Some fb
      })"
  by auto
termination
  by (relation "measure (\<lambda>(_, _, _, _, items, k, _). length items - k)") auto

declare retransmission_loop.simps [simp del]

text \<open>The deadline is half the target size or half the round trip, whichever is longer.\<close>

definition retransmission_deadline :: "'a frame_buffer_scheme \<Rightarrow> int option" where
  "retransmission_deadline fb =
     (let deadline = wrap32 (tdiv (fb_targetSizeMs fb) 2);
          half = d_div (getCurrentEstimation (fb_rtt fb) (fb_meters fb)) (Finite 2) in
      if d_less (d_of_int deadline) half then d_to_i32 half else Some deadline)"

definition checkRetransmissions ::
    "(nat \<Rightarrow> nat \<Rightarrow> nat \<Rightarrow> bytes \<Rightarrow> bytes \<Rightarrow> bytes \<Rightarrow> int \<times> bytes \<times> bytes) \<Rightarrow>
     (nat \<Rightarrow> 'a frame_buffer_scheme \<Rightarrow> 'a frame_buffer_scheme option) option \<Rightarrow>
     int \<Rightarrow> 'a frame_buffer_scheme \<Rightarrow> 'a frame_buffer_scheme option" where
  "checkRetransmissions decode onRtx now fb = do {
     deadline \<leftarrow> retransmission_deadline fb;
     retransmission_loop decode onRtx now deadline (pq_items (fb_playbackQueue fb)) 0 fb
   }"

section \<open>Data\<close>

text \<open>
  The callbacks of the client (\<open>IFrameBufferCallback\<close>) and the decoder of the FEC library, as they
  are passed to the operations that call them. A missing \<open>onKeyNeeded\<close> is a null pointer.
\<close>

record 'fb callbacks =
  cb_onKeyNeeded :: "(int \<Rightarrow> 'fb \<Rightarrow> 'fb option) option"
  cb_onRetransmissionNeeded :: "(nat \<Rightarrow> 'fb \<Rightarrow> 'fb option) option"
  cb_decode :: "nat \<Rightarrow> nat \<Rightarrow> nat \<Rightarrow> bytes \<Rightarrow> bytes \<Rightarrow> bytes \<Rightarrow> int \<times> bytes \<times> bytes"

definition onKeyNeeded :: "'fb callbacks \<Rightarrow> int \<Rightarrow> 'fb \<Rightarrow> 'fb option" where
  "onKeyNeeded cbs seqNo fb = (case cb_onKeyNeeded cbs of None \<Rightarrow> None | Some f \<Rightarrow> f seqNo fb)"

text \<open>Statistics of a slot that became ready.\<close>

definition count_ready :: "slot \<Rightarrow> stat_storage \<Rightarrow> stat_storage" where
  "count_ready s st =
     (if s_nRtx s = 0 then
        (if s_packetNamespace s = NsKey then stat_inc AssembledKeyNum else id) (stat_inc AssembledNum st)
      else
        (if s_packetNamespace s = NsKey then stat_inc RescuedKeyNum else id) (stat_inc RescuedNum st))"

text \<open>The round-trip time of the last segment updates the estimate and the target size.\<close>

definition track_rtt :: "segment \<Rightarrow> 'a frame_buffer_scheme \<Rightarrow> 'a frame_buffer_scheme option" where
  "track_rtt sg fb = do {
     (d, mt, st) \<leftarrow> updateEstimation (fb_rtt fb) (tdiv (getRoundTripDelayUsec sg) 1000)
        (sint (generationDelayMs (Segment_getMetadata sg))) (fb_meters fb) (fb_stats fb);
     let fb1 = fb\<lparr>fb_meters := mt, fb_stats := st\<rparr>;
     targetBufferSize \<leftarrow> getTargetSize (fb_bufferEstimator fb1) (fb_meters fb1);
     Some (if fb_targetSizeMs fb1 \<noteq> targetBufferSize then setTargetSize targetBufferSize fb1 else fb1)
   }"

text \<open>What \<open>newData\<close> does once the slot has accepted a segment.\<close>

definition segment_accepted ::
    "'a frame_buffer_scheme callbacks \<Rightarrow> int \<Rightarrow> nat \<Rightarrow> slot_state \<Rightarrow> consistency \<Rightarrow> slot_state \<Rightarrow>
     'a frame_buffer_scheme \<Rightarrow> (event_type \<times> 'a frame_buffer_scheme) option" where
  "segment_accepted cbs now i oldState oldConsistency newState fb = do {
     let newConsistency = s_consistency (fb_slot fb i);
     fb1 \<leftarrow> (if oldConsistency \<noteq> newConsistency then do {
          let fb' = (if cHeaderMeta newConsistency
                     then updateCurrentRate (double_of_bits (s_packetRate (fb_slot fb i))) fb else fb);
          fb'' \<leftarrow> with_queue updatePlaybackDeadlines fb';
          Some (fb''\<lparr>fb_isEstimationNeeded := True\<rparr>)
        } else Some fb);
     let s = fb_slot fb1 i;
     fb2 \<leftarrow> (if cPrefixMeta (s_consistency s) \<and> s_packetNamespace s = NsDelta \<and>
               fb_lastKeySeqNo fb1 < getPairedFrameNumber s
            then onKeyNeeded cbs (getPairedFrameNumber s) fb1 else Some fb1);
     let fb3 = (if oldState = StateNew then addBufferEvent FirstSegment (Some i) fb2 else fb2);
     let fb4 = (if newState = StateReady
                then addBufferEvent Ready (Some i) (stat (count_ready (fb_slot fb3 i)) fb3) else fb3);
     let ty = (if newState = StateReady then Ready
               else if oldState = StateNew then FirstSegment else SegmentEvent);
     fb5 \<leftarrow> (if s_nRtx (fb_slot fb4 i) = 0 then do {
             sg \<leftarrow> s_recentSegment (fb_slot fb4 i);
             track_rtt sg fb4
           } else Some fb4);
     fb6 \<leftarrow> (if fb_retransmissionsEnabled fb5
           then checkRetransmissions (cb_decode cbs) (cb_onRetransmissionNeeded cbs) now fb5
           else Some fb5);
     Some (ty, fb6)
   }"

text \<open>
  \<open>newData\<close>: name and content of the data packet and the clock in micro- and milliseconds are
  arguments. The log statement after \<open>appendData\<close> follows the pointer to the recent segment.
\<close>

definition newData ::
    "'a frame_buffer_scheme callbacks \<Rightarrow> name \<Rightarrow> bytes option \<Rightarrow> int \<Rightarrow> int \<Rightarrow> 'a frame_buffer_scheme \<Rightarrow>
     (event \<times> 'a frame_buffer_scheme) option" where
  "newData cbs dataName content nowUsec now fb =
     (let fb1 = (if fb_isWaitingForRightmost fb then fb_fixRightmost dataName fb else fb) in
      case getSlot dataName False fb1 of
        (None, fb2) \<Rightarrow> Some (\<lparr>ev_type = Error, ev_slot = None\<rparr>, fb2)
      | (Some i, fb2) \<Rightarrow>
          let oldState = s_state (fb_slot fb2 i); oldConsistency = s_consistency (fb_slot fb2 i) in
          if oldState = StateNew \<or> oldState = StateAssembling then do {
            (newState, s) \<leftarrow> Slot_appendData dataName content nowUsec (fb_slot fb2 i);
            let fb3 = set_slot i s fb2;
            recent \<leftarrow> s_recentSegment s;
            if oldState \<noteq> newState \<or> newState = StateAssembling then do {
              (ty, fb4) \<leftarrow> segment_accepted cbs now i oldState oldConsistency newState fb3;
              Some (\<lparr>ev_type = ty, ev_slot = Some i\<rparr>, fb4)
            } else Some (\<lparr>ev_type = SegmentEvent, ev_slot = Some i\<rparr>, fb3)
          } else Some (\<lparr>ev_type = Error, ev_slot = None\<rparr>, fb2))"

section \<open>Recycling\<close>

text \<open>The slot in front leaves the queue and is freed. An empty queue gives a null pointer.\<close>

definition recycle_first :: "'a frame_buffer_scheme \<Rightarrow> 'a frame_buffer_scheme option" where
  "recycle_first fb = do {
     oldSlot \<leftarrow> peekSlot (fb_playbackQueue fb);
     fb1 \<leftarrow> with_queue popSlot fb;
     (st, fb2) \<leftarrow> freeSlot (s_slotPrefix (fb_slot fb1 oldSlot)) fb1;
     Some fb2
   }"

partial_function (option) recycle_loop :: "int \<Rightarrow> 'a frame_buffer_scheme \<Rightarrow> 'a frame_buffer_scheme option" where
  "recycle_loop playbackDuration fb =
     (if playbackDuration > fb_targetSizeMs fb then do {
        fb1 \<leftarrow> recycle_first fb;
        (sz, q) \<leftarrow> getPlaybackDuration (fb_slots fb1) True (fb_playbackQueue fb1);
        recycle_loop sz (fb1\<lparr>fb_playbackQueue := q\<rparr>)
      } else Some fb)"

definition recycleOldSlots :: "'a frame_buffer_scheme \<Rightarrow> 'a frame_buffer_scheme option" where
  "recycleOldSlots fb = do {
     (playbackDuration, fb1) \<leftarrow> getEstimatedBufferSize fb;
     fb2 \<leftarrow> recycle_loop playbackDuration fb1;
     Some (fb2\<lparr>fb_isEstimationNeeded := True\<rparr>)
   }"

fun recycle_count :: "nat \<Rightarrow> 'a frame_buffer_scheme \<Rightarrow> 'a frame_buffer_scheme option" where
  "recycle_count 0 fb = Some fb"
| "recycle_count (Suc n) fb =
     (if pq_items (fb_playbackQueue fb) \<noteq> [] then do { fb1 \<leftarrow> recycle_first fb; recycle_count n fb1 }
      else Some fb)"

definition recycleOldSlots_n :: "int \<Rightarrow> 'a frame_buffer_scheme \<Rightarrow> 'a frame_buffer_scheme option" where
  "recycleOldSlots_n nSlotsToRecycle fb = do {
     fb1 \<leftarrow> recycle_count (nat nSlotsToRecycle) fb;
     Some (fb1\<lparr>fb_isEstimationNeeded := True\<rparr>)
   }"

text \<open>\<open>cleanBuffer\<close>: which slots are outdated.\<close>

definition outdated :: "int \<Rightarrow> int \<Rightarrow> int \<Rightarrow> slot \<Rightarrow> bool" where
  "outdated deltaPacketNo keyPacketNo absolutePacketNo s =
     (if getPlaybackNumber s \<noteq> -1 then getPlaybackNumber s < absolutePacketNo
      else s_packetSequenceNumber s \<noteq> -1 \<and>
        ((s_packetNamespace s = NsDelta \<and> s_packetSequenceNumber s < deltaPacketNo) \<or>
         (s_packetNamespace s = NsKey \<and> s_packetSequenceNumber s < keyPacketNo)))"

text \<open>The loop over the queue: \<open>kept\<close> are the slots already passed.\<close>

fun clean_loop ::
    "int \<Rightarrow> int \<Rightarrow> int \<Rightarrow> nat list \<Rightarrow> nat list \<Rightarrow> 'a frame_buffer_scheme \<Rightarrow> 'a frame_buffer_scheme option" where
  "clean_loop dn kn an kept [] fb = Some fb"
| "clean_loop dn kn an kept (i # rest) fb =
     (if outdated dn kn an (fb_slot fb i) then do {
        let st = (if s_packetNamespace (fb_slot fb i) = NsKey then stat_inc DroppedKeyNum else id) \<circ>
              stat_inc DroppedNum;
        let fb1 = stat st (fb\<lparr>fb_playbackQueue := (fb_playbackQueue fb)\<lparr>pq_items := kept @ rest\<rparr>\<rparr>);
        (r, fb2) \<leftarrow> freeSlot (s_slotPrefix (fb_slot fb1 i)) fb1;
        clean_loop dn kn an kept rest fb2
      } else clean_loop dn kn an (kept @ [i]) rest fb)"

definition cleanBuffer :: "int \<Rightarrow> int \<Rightarrow> int \<Rightarrow> 'a frame_buffer_scheme \<Rightarrow> 'a frame_buffer_scheme option" where
  "cleanBuffer deltaPacketNo keyPacketNo absolutePacketNo fb = do {
     fb1 \<leftarrow> clean_loop deltaPacketNo keyPacketNo absolutePacketNo []
              (pq_items (fb_playbackQueue fb)) fb;
     Some (fb1\<lparr>fb_isEstimationNeeded := True\<rparr>)
   }"

section \<open>Playout\<close>

text \<open>What \<open>acquireSlot\<close> hands out.\<close>

record acquired =
  aq_packetData :: "packet_data option"
  aq_packetNo :: int
  aq_sequencePacketNo :: int
  aq_pairedPacketNo :: int
  aq_isKey :: bool
  aq_assembledLevel :: rat

text \<open>The part for a slot that is not skipped: recovery, packet data and statistics.\<close>

definition acquire_play ::
    "(u32 \<Rightarrow> u32 \<Rightarrow> int) \<Rightarrow>
     (nat \<Rightarrow> nat \<Rightarrow> nat \<Rightarrow> bytes \<Rightarrow> bytes \<Rightarrow> bytes \<Rightarrow> int \<times> bytes \<times> bytes) \<Rightarrow> nat \<Rightarrow> bool \<Rightarrow> rat \<Rightarrow>
     'a frame_buffer_scheme \<Rightarrow> (packet_data option \<times> rat \<times> 'a frame_buffer_scheme) option" where
  "acquire_play cbSize decode i isKey level fb = do {
     let fb1 = fb\<lparr>fb_playbackNo := getPlaybackNumber (fb_slot fb i)\<rparr>;
     let recovering = (level \<ge> 0 \<and> level < 1 \<and> cp_useFec (fb_params fb1));
     let s = (if recovering then snd (Slot_recover decode (fb_slot fb1 i)) else fb_slot fb1 i);
     let fb2 = set_slot i s fb1;
     let recovered = (recovering \<and> s_isRecovered s);
     let level' = (if recovered then 1 else level);
     let fb3 = (if recovered
                then stat ((if isKey then stat_inc RecoveredKeyNum else id) \<circ> stat_inc RecoveredNum) fb2
                else fb2);
     let fb4 = (if level' < 1 then stat (stat_inc IncompleteNum) fb3 else fb3);
     (r, packetData) \<leftarrow> getPacketData cbSize s;
     let fb5 = stat ((if isKey then stat_inc AcquiredKeyNum else id) \<circ> stat_inc AcquiredNum)
                 (addBufferEvent Playout (Some i) fb4);
     Some (if RESULT_GOOD r then packetData else None, level', fb5)
   }"

definition acquireSlot ::
    "(u32 \<Rightarrow> u32 \<Rightarrow> int) \<Rightarrow>
     (nat \<Rightarrow> nat \<Rightarrow> nat \<Rightarrow> bytes \<Rightarrow> bytes \<Rightarrow> bytes \<Rightarrow> int \<times> bytes \<times> bytes) \<Rightarrow>
     'a frame_buffer_scheme \<Rightarrow> (acquired option \<times> 'a frame_buffer_scheme) option" where
  "acquireSlot cbSize decode fb =
     (case peekSlot (fb_playbackQueue fb) of
        None \<Rightarrow> Some (None, fb\<lparr>fb_playbackSlot := None\<rparr>)
      | Some raw \<Rightarrow> do {
          i \<leftarrow> fst (getSlot (s_slotPrefix (fb_slot fb raw)) False fb);
          let s = fb_slot fb i;
          let isKey = (s_packetNamespace s = NsKey);
          let level = getAssembledLevel s;
          let skip = (fb_skipFrame fb \<or> (fb_playbackNo fb \<ge> 0 \<and> getPlaybackNumber s \<ge> 0 \<and>
                fb_playbackNo fb + 1 \<noteq> getPlaybackNumber s \<and> getPlaybackNumber s \<le> fb_playbackNo fb));
          let fb1 = set_slot i (Slot_lock s) (fb\<lparr>fb_skipFrame := skip, fb_playbackSlot := Some i\<rparr>);
          (packetData, level', fb2) \<leftarrow>
            (if \<not> skip then acquire_play cbSize decode i isKey level fb1
             else Some (None, level,
               stat ((if isKey then stat_inc DroppedKeyNum else id) \<circ> stat_inc DroppedNum) fb1));
          (playableSize, fb3) \<leftarrow> getPlayableBufferSize fb2;
          Some (Some \<lparr>aq_packetData = packetData, aq_packetNo = getPlaybackNumber s,
            aq_sequencePacketNo = s_packetSequenceNumber s,
            aq_pairedPacketNo = getPairedFrameNumber s, aq_isKey = isKey,
            aq_assembledLevel = level'\<rparr>, fb3)
        })"

text \<open>The delay until the next frame: from the time stamps of consecutive frames, or inferred.\<close>

definition release_delay :: "nat \<Rightarrow> int \<Rightarrow> 'a frame_buffer_scheme \<Rightarrow> int \<times> bool" where
  "release_delay i inferred fb =
     (case peekSlot (fb_playbackQueue fb) of
        Some j \<Rightarrow>
          if isNextPacket (fb_slot fb i) (fb_slot fb j)
          then (wrap32 (getProducerTimestamp (fb_slot fb j) - getProducerTimestamp (fb_slot fb i)), False)
          else (inferred, True)
      | None \<Rightarrow> (inferred, True))"

definition releaseAcquiredSlot ::
    "'a frame_buffer_scheme callbacks \<Rightarrow> int \<Rightarrow> 'a frame_buffer_scheme \<Rightarrow>
     (int \<times> bool \<times> 'a frame_buffer_scheme) option" where
  "releaseAcquiredSlot cbs now fb = do {
     inferred \<leftarrow> (if fb_skipFrame fb then Some 0
                else map_option wrap32 (getInferredFrameDuration (fb_playbackQueue fb)));
     (delay, isInferred, fb1) \<leftarrow> (case fb_playbackSlot fb of
         None \<Rightarrow> Some (inferred, True, fb)
       | Some i \<Rightarrow> do {
           fb1 \<leftarrow> with_queue popSlot fb;
           fb2 \<leftarrow> (if cPrefixMeta (s_consistency (fb_slot fb1 i)) \<and>
                    s_packetNamespace (fb_slot fb1 i) = NsKey \<and>
                    fb_lastKeySeqNo fb1 \<le> s_packetSequenceNumber (fb_slot fb1 i)
                 then onKeyNeeded cbs (s_packetSequenceNumber (fb_slot fb1 i) + 1) fb1
                 else Some fb1);
           let (delay, isInferred) =
             (if fb_skipFrame fb2 then (inferred, False) else release_delay i inferred fb2);
           let fb3 = (if fb_skipFrame fb2 then fb2 else fb2\<lparr>fb_isEstimationNeeded := True\<rparr>);
           let fb4 = fb3\<lparr>fb_frameReleaseCount := fb_frameReleaseCount fb3 + 1\<rparr>;
           let s = fb_slot fb4 i;
           fb5 \<leftarrow> (if fb_frameReleaseCount fb4 mod 60 = 0
                 then cleanBuffer (if s_packetNamespace s = NsKey then getPairedFrameNumber s
                                   else s_packetSequenceNumber s)
                        (fb_lastKeySeqNo fb4) (getPlaybackNumber s) fb4
                 else Some fb4);
           let fb6 = set_slot i (Slot_unlock (fb_slot fb5 i)) fb5;
           (st, fb7) \<leftarrow> freeSlot (s_slotPrefix (fb_slot fb6 i)) fb6;
           Some (delay, isInferred, fb7\<lparr>fb_playbackSlot := None\<rparr>)
         });
     let fb8 = fb1\<lparr>fb_skipFrame := False\<rparr>;
     fb9 \<leftarrow> (if fb_retransmissionsEnabled fb8
           then checkRetransmissions (cb_decode cbs) (cb_onRetransmissionNeeded cbs) now fb8
           else Some fb8);
     Some (delay, isInferred, fb9)
   }"

section \<open>Waiting for events\<close>

text \<open>One look through the pending events for the first of a wanted type, which is taken out.\<close>

fun take_event :: "event_type set \<Rightarrow> event list \<Rightarrow> (event \<times> event list) option" where
  "take_event wanted [] = None"
| "take_event wanted (e # es) =
     (if ev_type e \<in> wanted then Some (e, es)
      else map_option (\<lambda>(x, es'). (x, e # es')) (take_event wanted es))"

text \<open>
  \<open>waitForEvents\<close> up to the point where it would block: \<open>Inl\<close> is the event it returns, \<open>Inr\<close> means
  that it sleeps until another event is added. A buffer that was released returns no event.
\<close>

definition waitForEvents ::
    "event_type set \<Rightarrow> 'a frame_buffer_scheme \<Rightarrow> (event + unit) \<times> 'a frame_buffer_scheme" where
  "waitForEvents eventsMask fb =
     (let fb1 = fb\<lparr>fb_pendingEventsFlushed := False\<rparr> in
      if fb_forcedRelease fb1 then (Inl \<lparr>ev_type = Empty, ev_slot = None\<rparr>, fb1)
      else (case take_event eventsMask (fb_pendingEvents fb1) of
          Some (e, es) \<Rightarrow> (Inl e, fb1\<lparr>fb_pendingEvents := es\<rparr>)
        | None \<Rightarrow> (Inr (), fb1)))"

end
