(* ===== verification/Media_Names.thy ===== *)
theory Media_Names
  imports Rtc_Namespace "HOL-Library.Sublist"
begin

text \<open>
  The names of media packets and of their segments, and what the functions of the naming scheme
  give for them. The scheme classifies a name by searching words in its URI; the names of a
  stream are classified correctly when its path (hub, user, stream and thread) does not hold one
  of these words by accident.
\<close>

section \<open>Searching words in URIs\<close>

lemma find_sub_sublist: "find_sub w s \<noteq> None \<longleftrightarrow> sublist w s"
proof
  assume "find_sub w s \<noteq> None"
  then obtain i where "find_sub w s = Some i" by auto
  then have "take (length w) (drop i s) = w" using find_sub_SomeD by blast
  then have "s = take i s @ w @ drop (length w) (drop i s)" by (metis append_take_drop_id)
  then show "sublist w s" unfolding sublist_def by blast
next
  assume "sublist w s"
  then obtain a b where "s = a @ w @ b" by (auto simp: sublist_def)
  then show "find_sub w s \<noteq> None" using find_sub_append_le [of a w b] by auto
qed

lemma find_int_sublist: "find_int w s = -1 \<longleftrightarrow> \<not> sublist w s" "find_int w s \<ge> 0 \<longleftrightarrow> sublist w s"
  using find_sub_sublist [of w s] by (auto simp: find_int_def split: option.splits)

text \<open>A word that is in the first part of a text comes before one that is not and holds no slash.\<close>

lemma find_int_before:
  assumes w1: "sublist w1 A" "w1 \<noteq> []" and w2: "\<not> sublist w2 A" "CHR ''/'' \<notin> set w2"
    and occ: "sublist w2 (A @ CHR ''/'' # B)"
  shows "0 \<le> find_int w1 (A @ CHR ''/'' # B)"
    and "find_int w1 (A @ CHR ''/'' # B) < find_int w2 (A @ CHR ''/'' # B)"
proof -
  let ?s = "A @ CHR ''/'' # B"
  obtain a b where A: "A = a @ w1 @ b" using w1(1) by (auto simp: sublist_def)
  then obtain i where i: "find_sub w1 ?s = Some i" "i \<le> length a"
    using find_sub_append_le [of a w1 "b @ CHR ''/'' # B"] by auto
  obtain j where j: "find_sub w2 ?s = Some j"
    using occ find_sub_sublist [of w2 ?s] by auto
  have t: "take (length w2) (drop j ?s) = w2" using find_sub_SomeD [OF j] by blast
  have "length A \<le> j"
  proof (rule ccontr)
    assume "\<not> length A \<le> j"
    then have d: "drop j ?s = drop j A @ CHR ''/'' # B" by simp
    show False
    proof (cases "j + length w2 \<le> length A")
      case True
      then have "take (length w2) (drop j A) = w2" using t d by simp
      then have "A = take j A @ w2 @ drop (length w2) (drop j A)" by (metis append_take_drop_id)
      then show False using w2(1) by (metis sublist_appendI)
    next
      case False
      then have "length w2 - length (drop j A) \<noteq> 0" using \<open>\<not> length A \<le> j\<close> by simp
      then have "CHR ''/'' \<in> set (take (length w2 - length (drop j A)) (CHR ''/'' # B))"
        by (cases "length w2 - length (drop j A)") auto
      then have "CHR ''/'' \<in> set (take (length w2) (drop j ?s))" unfolding d by auto
      then show False using w2(2) unfolding t by simp
    qed
  qed
  moreover have "length a < length A" using A w1(2) by simp
  ultimately show "0 \<le> find_int w1 ?s" "find_int w1 ?s < find_int w2 ?s"
    using i j by (simp_all add: find_int_def)
qed

section \<open>The URI of a name\<close>

abbreviation esc :: "component \<Rightarrow> string" where
  "esc c \<equiv> toEscapedString (getValue c)"

definition comps_uri :: "component list \<Rightarrow> string" where
  "comps_uri cs = concat (map (\<lambda>c. CHR ''/'' # esc c) cs)"

lemma comps_uri_simps [simp]:
  "comps_uri [] = []" "comps_uri (c # cs) = CHR ''/'' # esc c @ comps_uri cs"
  "comps_uri (cs @ ds) = comps_uri cs @ comps_uri ds"
  by (simp_all add: comps_uri_def)

lemma toUri_comps: "cs \<noteq> [] \<Longrightarrow> toUri (Name cs) False = comps_uri cs"
  by (simp add: toUri_def comps_uri_def)

definition word :: "string \<Rightarrow> bool" where
  "word w \<longleftrightarrow> w \<noteq> [] \<and> CHR ''/'' \<notin> set w"

text \<open>A word is in the URI when it is in one of the components.\<close>

lemma sublist_comps_uri:
  "word w \<Longrightarrow> sublist w (comps_uri cs) \<longleftrightarrow> (\<exists>c \<in> set cs. sublist w (esc c))"
proof (induction cs)
  case (Cons c cs)
  have w: "w \<noteq> []" "CHR ''/'' \<notin> set w" using Cons.prems by (simp_all add: word_def)
  have "sublist w (esc c @ comps_uri cs) \<longleftrightarrow> sublist w (esc c) \<or> sublist w (comps_uri cs)"
  proof
    assume "sublist w (esc c @ comps_uri cs)"
    then consider "sublist w (esc c)" | "sublist w (comps_uri cs)"
      | w1 w2 where "w = w1 @ w2" "suffix w1 (esc c)" "prefix w2 (comps_uri cs)"
      by (auto simp: sublist_append)
    then show "sublist w (esc c) \<or> sublist w (comps_uri cs)"
    proof cases
      case 3
      show ?thesis
      proof (cases w2)
        case Nil
        then show ?thesis using 3 by (simp add: suffix_imp_sublist)
      next
        case (Cons x w2')
        then have "x = CHR ''/''" using 3(3) by (cases cs) auto
        then show ?thesis using 3(1) Cons w(2) by simp
      qed
    qed simp_all
  qed (auto simp: sublist_append)
  moreover have "sublist w (CHR ''/'' # s) \<longleftrightarrow> sublist w s" for s
    using w by (cases w) (auto simp: sublist_Cons_right)
  ultimately show ?case using Cons by simp
qed (simp add: word_def)

text \<open>Escaping adds no lower-case letters.\<close>

definition lower :: "char \<Rightarrow> bool" where
  "lower c \<longleftrightarrow> 97 \<le> byte_val c \<and> byte_val c \<le> 122"

lemma lower_upper_hex: "d < 16 \<Longrightarrow> \<not> lower (upper_hex d)"
  by (auto simp: lower_def upper_hex_def byte_val_char_of)

lemma lower_escape_byte: "length (filter lower (escape_byte x)) \<le> (if lower x then 1 else 0)"
proof -
  have "byte_val x < 256" by (rule byte_val_less)
  then have "byte_val x div 16 < 16" by linarith
  moreover have "\<not> lower CHR ''%''" "\<not> lower CHR ''0''" by (simp_all add: lower_def)
  ultimately show ?thesis by (auto simp: escape_byte_def lower_upper_hex)
qed

lemma lower_escaped: "length (filter lower (toEscapedString v)) \<le> length (filter lower v)"
proof -
  have dot: "\<not> lower CHR ''.''" by (simp add: lower_def)
  have "length (filter lower (concat (map escape_byte v))) \<le> length (filter lower v)"
  proof (induction v)
    case (Cons x v)
    then show ?case using lower_escape_byte [of x] by (auto split: if_splits)
  qed simp
  then show ?thesis using dot by (simp add: toEscapedString_def)
qed

lemma sublist_lower:
  assumes "sublist w s" "\<forall>c \<in> set w. lower c" shows "length w \<le> length (filter lower s)"
proof -
  obtain a b where "s = a @ w @ b" using assms(1) by (auto simp: sublist_def)
  moreover have "filter lower w = w" using assms(2) by simp
  ultimately show ?thesis by simp
qed

text \<open>A component with fewer letters than the word does not hold it.\<close>

lemma not_in_component:
  "length (filter lower (getValue c)) < length w \<Longrightarrow> \<forall>c \<in> set w. lower c \<Longrightarrow> \<not> sublist w (esc c)"
  using sublist_lower [of w "esc c"] lower_escaped [of "getValue c"] by fastforce

section \<open>Names of packets and segments\<close>

definition stream_path :: "component list \<Rightarrow> bool" where
  "stream_path pre \<longleftrightarrow> (\<exists>c \<in> set pre. sublist NameComponentUserStreams (esc c)) \<and>
     (\<forall>c \<in> set pre. \<not> sublist NameComponentStreamFramesDelta (esc c) \<and>
        \<not> sublist NameComponentStreamFramesKey (esc c) \<and>
        \<not> sublist NameComponentFrameSegmentData (esc c) \<and>
        \<not> sublist NameComponentFrameSegmentParity (esc c)) \<and> length pre < 2 ^ 32"

definition frames_word :: "string \<Rightarrow> bool" where
  "frames_word frames \<longleftrightarrow>
     frames = NameComponentStreamFramesDelta \<or> frames = NameComponentStreamFramesKey"

definition kind_word :: "bool \<Rightarrow> string" where
  "kind_word parity = (if parity then NameComponentFrameSegmentParity else NameComponentFrameSegmentData)"

definition segment_component :: "u64 \<Rightarrow> component" where
  "segment_component seg = Component (char_of (0 :: nat) # nonneg_bytes seg)"

definition packet_name :: "component list \<Rightarrow> string \<Rightarrow> u32 \<Rightarrow> name" where
  "packet_name pre frames no = Name (pre @ [Component frames, componentFromInt no])"

definition segment_name :: "component list \<Rightarrow> string \<Rightarrow> u32 \<Rightarrow> bool \<Rightarrow> u64 \<Rightarrow> name" where
  "segment_name pre frames no parity seg =
     Name (pre @ [Component frames, componentFromInt no, Component (kind_word parity), segment_component seg])"

lemmas media_words = NameComponentUserStreams_def NameComponentStreamFramesDelta_def
  NameComponentStreamFramesKey_def NameComponentFrameSegmentData_def NameComponentFrameSegmentParity_def

lemma words_ok:
  "word NameComponentUserStreams" "word NameComponentStreamFramesDelta" "word NameComponentStreamFramesKey"
  "word NameComponentFrameSegmentData" "word NameComponentFrameSegmentParity"
  "\<forall>c \<in> set NameComponentStreamFramesDelta. lower c" "\<forall>c \<in> set NameComponentStreamFramesKey. lower c"
  "\<forall>c \<in> set NameComponentFrameSegmentData. lower c" "\<forall>c \<in> set NameComponentFrameSegmentParity. lower c"
  by (simp_all add: media_words word_def lower_def)

lemma esc_words [simp]:
  "toEscapedString NameComponentStreamFramesDelta = NameComponentStreamFramesDelta"
  "toEscapedString NameComponentStreamFramesKey = NameComponentStreamFramesKey"
  "toEscapedString NameComponentFrameSegmentData = NameComponentFrameSegmentData"
  "toEscapedString NameComponentFrameSegmentParity = NameComponentFrameSegmentParity"
  by code_simp+

lemma words_apart:
  "\<not> sublist NameComponentStreamFramesDelta NameComponentStreamFramesKey"
  "\<not> sublist NameComponentStreamFramesDelta NameComponentFrameSegmentData"
  "\<not> sublist NameComponentStreamFramesDelta NameComponentFrameSegmentParity"
  "\<not> sublist NameComponentFrameSegmentData NameComponentStreamFramesDelta"
  "\<not> sublist NameComponentFrameSegmentData NameComponentStreamFramesKey"
  "\<not> sublist NameComponentFrameSegmentData NameComponentFrameSegmentParity"
  "\<not> sublist NameComponentFrameSegmentParity NameComponentStreamFramesDelta"
  "\<not> sublist NameComponentFrameSegmentParity NameComponentStreamFramesKey"
  "\<not> sublist NameComponentFrameSegmentParity NameComponentFrameSegmentData"
  unfolding find_sub_sublist [symmetric] by code_simp+

lemma lower_number: "filter lower (getValue (componentFromInt no)) = []"
  using dec_string_digits [of _ "unat no"]
  by (fastforce simp: componentFromInt_def filter_empty_conv lower_def)

lemma be_bytes_4: "\<exists>bs. be_bytes 4 n = char_of (n div 2 ^ 24 mod 256) # bs \<and> length bs = 3"
proof -
  have four: "4 = Suc (Suc (Suc (Suc 0)))" by simp
  have "n div 256 div 256 div 256 = n div 2 ^ 24" by (simp flip: div_mult2_eq)
  then show ?thesis unfolding four by simp
qed

lemma lower_segment:
  assumes "uint seg < 2 ^ 30"
  shows "length (filter lower (getValue (segment_component seg))) \<le> 3"
proof -
  have z: "\<not> lower (char_of (0 :: nat))" by (simp add: lower_def byte_val_char_of)
  have "length (filter lower (nonneg_bytes seg)) \<le> 3"
  proof (cases "seg \<le> 0xffff")
    case True
    then have "length (nonneg_bytes seg) \<le> 2"
      by (auto simp: nonneg_bytes_def)
    then show ?thesis using length_filter_le [of lower "nonneg_bytes seg"] by linarith
  next
    case False
    have "int (unat seg) < int (2 ^ 30)" using assms by simp
    then have lt: "unat seg < 2 ^ 30" by (simp only: of_nat_less_iff)
    have le: "(seg \<le> 0xffffffff) = True" using lt by (simp add: word_le_nat_alt)
    have ge: "(seg \<le> 0xff) = False" using False by (simp add: word_le_nat_alt)
    have eq: "nonneg_bytes seg = be_bytes 4 (unat seg)"
      unfolding nonneg_bytes_def using False le ge by simp
    obtain bs where bs: "be_bytes 4 (unat seg) = char_of (unat seg div 2 ^ 24 mod 256) # bs" "length bs = 3"
      using be_bytes_4 by blast
    have low: "\<not> lower (char_of (k mod 256))" if "k < 64" for k :: nat
      using that by (simp add: lower_def byte_val_char_of)
    have "unat seg div 2 ^ 24 < 64" using lt by (simp add: div_less_iff_less_mult)
    then have "\<not> lower (char_of (unat seg div 2 ^ 24 mod 256))" by (rule low)
    then have "filter lower (nonneg_bytes seg) = filter lower bs" unfolding eq bs(1) by (simp only: filter.simps if_False)
    then show ?thesis using length_filter_le [of lower bs] bs(2) by simp
  qed
  then show ?thesis using z by (simp add: segment_component_def)
qed

section \<open>Classification\<close>

lemma not_in_number: "\<forall>c \<in> set w. lower c \<Longrightarrow> w \<noteq> [] \<Longrightarrow> \<not> sublist w (esc (componentFromInt no))"
  by (rule not_in_component) (simp_all add: lower_number)

lemma not_in_segment:
  "\<forall>c \<in> set w. lower c \<Longrightarrow> 3 < length w \<Longrightarrow> uint seg < 2 ^ 30 \<Longrightarrow> \<not> sublist w (esc (segment_component seg))"
  by (rule not_in_component) (use lower_segment [of seg] in simp_all)

lemma long_words:
  "3 < length NameComponentStreamFramesDelta" "3 < length NameComponentFrameSegmentData"
  "3 < length NameComponentFrameSegmentParity"
  by (simp_all add: media_words)

lemma uri_split:
  "toUri (Name (pre @ Component frames # rest)) False =
   comps_uri pre @ CHR ''/'' # (toEscapedString frames @ comps_uri rest)"
  by (simp add: toUri_comps)

text \<open>What is found in the URI of a name below the frames of a stream.\<close>

lemma stream_words:
  fixes pre rest :: "component list" and frames :: string
  assumes "stream_path pre" and "frames_word frames"
  defines "uri \<equiv> toUri (Name (pre @ Component frames # rest)) False"
  shows "0 \<le> find_int NameComponentUserStreams uri"
    and "find_int NameComponentUserStreams uri < find_int frames uri"
    and "frames = NameComponentStreamFramesKey \<Longrightarrow>
      \<forall>c \<in> set rest. \<not> sublist NameComponentStreamFramesDelta (esc c) \<Longrightarrow>
      find_int NameComponentStreamFramesDelta uri = -1"
    and "\<forall>c \<in> set rest. \<not> sublist NameComponentFrameSegmentData (esc c) \<Longrightarrow>
      find_int NameComponentFrameSegmentData uri = -1"
    and "\<forall>c \<in> set rest. \<not> sublist NameComponentFrameSegmentParity (esc c) \<Longrightarrow>
      find_int NameComponentFrameSegmentParity uri = -1"
    and "c \<in> set rest \<Longrightarrow> sublist w (esc c) \<Longrightarrow> word w \<Longrightarrow> 0 \<le> find_int w uri"
proof -
  have uri: "uri = comps_uri pre @ CHR ''/'' # (toEscapedString frames @ comps_uri rest)"
    unfolding uri_def by (rule uri_split)
  have uri': "uri = comps_uri (pre @ Component frames # rest)" by (simp add: uri)
  have fr: "word frames" "toEscapedString frames = frames" "\<forall>c \<in> set pre. \<not> sublist frames (esc c)"
    using assms(1,2) words_ok by (auto simp: frames_word_def stream_path_def)
  have "sublist NameComponentUserStreams (comps_uri pre)"
    using assms(1) by (simp add: sublist_comps_uri words_ok stream_path_def)
  moreover have "\<not> sublist frames (comps_uri pre)" using fr by (simp add: sublist_comps_uri)
  moreover have "sublist frames uri" using fr by (simp add: uri' sublist_comps_uri del: comps_uri_simps)
  ultimately show "0 \<le> find_int NameComponentUserStreams uri"
    "find_int NameComponentUserStreams uri < find_int frames uri"
    using find_int_before [of NameComponentUserStreams "comps_uri pre" frames] fr(1) words_ok(1)
    unfolding uri by (auto simp: word_def)
  show "find_int NameComponentStreamFramesDelta uri = -1"
    if "frames = NameComponentStreamFramesKey"
      "\<forall>c \<in> set rest. \<not> sublist NameComponentStreamFramesDelta (esc c)"
    using that assms(1) words_apart
    by (auto simp: find_int_sublist uri' sublist_comps_uri words_ok stream_path_def simp del: comps_uri_simps)
  show "find_int NameComponentFrameSegmentData uri = -1"
    if "\<forall>c \<in> set rest. \<not> sublist NameComponentFrameSegmentData (esc c)"
    using that assms(1,2) words_apart
    by (auto simp: find_int_sublist uri' sublist_comps_uri words_ok stream_path_def frames_word_def
        simp del: comps_uri_simps)
  show "find_int NameComponentFrameSegmentParity uri = -1"
    if "\<forall>c \<in> set rest. \<not> sublist NameComponentFrameSegmentParity (esc c)"
    using that assms(1,2) words_apart
    by (auto simp: find_int_sublist uri' sublist_comps_uri words_ok stream_path_def frames_word_def
        simp del: comps_uri_simps)
  show "0 \<le> find_int w uri" if "c \<in> set rest" "sublist w (esc c)" "word w"
    using that by (auto simp: find_int_sublist uri' sublist_comps_uri simp del: comps_uri_simps)
qed

lemma classified:
  fixes pre rest :: "component list" and frames :: string
  assumes "stream_path pre" and "frames_word frames"
    and "\<forall>c \<in> set rest. \<not> sublist NameComponentStreamFramesDelta (esc c)"
  defines "n \<equiv> Name (pre @ Component frames # rest)"
  shows "if frames = NameComponentStreamFramesDelta then isDeltaFramePrefix n
    else isKeyFramePrefix n \<and> \<not> isDeltaFramePrefix n"
  using stream_words(1,2) [OF assms(1,2), of rest] stream_words(3) [OF assms(1,2) _ assms(3)] assms(2)
  unfolding n_def isDeltaFramePrefix_def isKeyFramePrefix_def frames_word_def Let_def by auto

lemma framesComponent_stream:
  assumes "stream_path pre" and "frames_word frames"
    and "\<forall>c \<in> set rest. \<not> sublist NameComponentStreamFramesDelta (esc c)"
    and "Component frames \<notin> set rest"
  shows "framesComponent (Name (pre @ Component frames # rest)) = int (length pre)"
  using classified [OF assms(1-3)] framesComponent_delta [OF _ refl] framesComponent_key [OF _ _ refl]
    assms(2,4) by (auto simp: frames_word_def split: if_splits)

lemma stream_path_nonempty: "stream_path pre \<Longrightarrow> pre \<noteq> []"
  by (auto simp: stream_path_def)

lemma distinct_components [simp]:
  "componentFromInt no \<noteq> Component NameComponentStreamFramesDelta"
  "componentFromInt no \<noteq> Component NameComponentStreamFramesKey"
  "segment_component seg \<noteq> Component NameComponentStreamFramesDelta"
  "segment_component seg \<noteq> Component NameComponentStreamFramesKey"
  "segment_component seg \<noteq> Component (kind_word parity)"
  "Component (kind_word parity) \<noteq> Component NameComponentStreamFramesDelta"
  "Component (kind_word parity) \<noteq> Component NameComponentStreamFramesKey"
proof -
  show "componentFromInt no \<noteq> Component NameComponentStreamFramesDelta"
    "componentFromInt no \<noteq> Component NameComponentStreamFramesKey"
    using lower_number [of no] by (auto simp: media_words lower_def)
  have "char_of (0 :: nat) = CHR 0x00" by code_simp
  then show "segment_component seg \<noteq> Component NameComponentStreamFramesDelta"
    "segment_component seg \<noteq> Component NameComponentStreamFramesKey"
    "segment_component seg \<noteq> Component (kind_word parity)"
    by (auto simp: segment_component_def kind_word_def media_words)
qed (auto simp: kind_word_def media_words)

lemma packet_rest_facts:
  assumes "frames_word frames" "uint seg < 2 ^ 30"
  shows "Component frames \<notin> set [componentFromInt no, Component (kind_word parity), segment_component seg]"
    and "\<forall>c \<in> set [componentFromInt no, Component (kind_word parity), segment_component seg].
      \<not> sublist NameComponentStreamFramesDelta (esc c)"
proof -
  show "Component frames \<notin> set [componentFromInt no, Component (kind_word parity), segment_component seg]"
    using assms(1) distinct_components unfolding frames_word_def by (metis empty_iff empty_set set_ConsD)
  have "\<not> sublist NameComponentStreamFramesDelta (esc (componentFromInt no))"
    by (rule not_in_number) (use words_ok in \<open>simp_all add: word_def\<close>)
  moreover have "\<not> sublist NameComponentStreamFramesDelta (esc (segment_component seg))"
    by (rule not_in_segment [OF words_ok(6) long_words(1) assms(2)])
  moreover have "\<not> sublist NameComponentStreamFramesDelta (esc (Component (kind_word parity)))"
    using words_apart by (simp add: kind_word_def)
  ultimately show "\<forall>c \<in> set [componentFromInt no, Component (kind_word parity), segment_component seg].
      \<not> sublist NameComponentStreamFramesDelta (esc c)" by simp
qed

section \<open>What the naming functions give\<close>

lemma find_int_apart:
  assumes "0 \<le> find_int w1 s" "hd w1 \<noteq> hd w2" "w1 \<noteq> []" "w2 \<noteq> []"
  shows "find_int w1 s \<noteq> find_int w2 s"
proof
  assume eq: "find_int w1 s = find_int w2 s"
  then obtain i where i: "find_sub w1 s = Some i" "find_sub w2 s = Some i"
    using assms(1) by (auto simp: find_int_def split: option.splits)
  have "hd w = hd (drop i s)" if "find_sub w s = Some i" "w \<noteq> []" for w
  proof -
    have "take (length w) (drop i s) = w" using find_sub_SomeD [OF that(1)] by blast
    then show ?thesis using that(2) by (metis hd_take length_greater_0_conv)
  qed
  then show False using i assms by metis
qed

lemma lookup_condition:
  assumes "stream_path pre" and "frames_word frames"
    and "\<forall>c \<in> set rest. \<not> sublist NameComponentStreamFramesDelta (esc c)"
  shows "let uri = toUri (Name (pre @ Component frames # rest)) False;
      n1 = find_int NameComponentUserStreams uri;
      n2 = find_int NameComponentStreamFramesKey uri;
      n3 = find_int NameComponentStreamFramesDelta uri in
    \<not> ((if n1 = n2 then 1 else 0) = n3) \<and> n1 \<ge> 0 \<and> (n1 < n2 \<or> n1 < n3)"
proof -
  let ?uri = "toUri (Name (pre @ Component frames # rest)) False"
  note s = stream_words(1,2) [OF assms(1,2), of rest] stream_words(3) [OF assms(1,2) _ assms(3)]
  have "find_int NameComponentUserStreams ?uri \<noteq> find_int NameComponentStreamFramesKey ?uri"
    by (rule find_int_apart [OF s(1)]) (simp_all add: media_words)
  then show ?thesis using s assms(2) by (auto simp: frames_word_def Let_def)
qed

lemma packet_lookup:
  assumes "stream_path pre" and "frames_word frames"
  shows "trimmedLookupPrefix (packet_name pre frames no) = (True, packet_name pre frames no)"
proof -
  let ?uri = "toUri (Name (pre @ Component frames # [componentFromInt no])) False"
  have no: "\<forall>c \<in> set [componentFromInt no]. \<not> sublist w (esc c)" if "\<forall>c \<in> set w. lower c" "word w" for w
    using not_in_number [OF that(1)] that(2) by (simp add: word_def)
  have "find_int NameComponentFrameSegmentData ?uri = -1" "find_int NameComponentFrameSegmentParity ?uri = -1"
    using stream_words(4,5) [OF assms] no words_ok by blast+
  then show ?thesis
    using lookup_condition [OF assms no] words_ok
    by (simp add: trimmedLookupPrefix_def packet_name_def Let_def)
qed

lemma segment_parts:
  "segment_name pre frames no parity seg = Name ((pre @ [Component frames, componentFromInt no]) @
     Component (kind_word parity) # [segment_component seg])"
  by (simp add: segment_name_def)

lemma find_kind: "findComponent (segment_name pre frames no parity seg) (kind_word parity) = int (length pre + 2)"
  unfolding segment_parts by (subst findComponent_last) (use distinct_components(5) in \<open>simp, metis\<close>, simp)

lemma cut_segment:
  assumes "stream_path pre"
  shows "getSubName_n (segment_name pre frames no parity seg) 0 (of_int (int (length pre + 2))) =
    packet_name pre frames no"
proof -
  have "length pre < 2 ^ 32" using assms by (simp add: stream_path_def)
  then have "getSubName_n (segment_name pre frames no parity seg) (int 0) (of_nat (length pre + 2)) =
      Name (take (length pre + 2) (drop 0 (components (segment_name pre frames no parity seg))))"
    by (intro getSubName_n_small) simp_all
  then show ?thesis by (simp add: segment_name_def packet_name_def)
qed

lemma kind_found:
  fixes parity :: bool and no :: u32
  assumes "stream_path pre" "frames_word frames" "uint seg < 2 ^ 30"
  defines "uri \<equiv> toUri (segment_name pre frames no parity seg) False"
  shows "find_int NameComponentFrameSegmentData uri = -1 \<longleftrightarrow> parity"
    and "find_int NameComponentFrameSegmentParity uri = -1 \<longleftrightarrow> \<not> parity"
proof -
  let ?rest = "[componentFromInt no, Component (kind_word parity), segment_component seg]"
  have uri: "uri = toUri (Name (pre @ Component frames # ?rest)) False"
    by (simp add: uri_def segment_name_def)
  have no: "\<not> sublist w (esc (componentFromInt no))" "\<not> sublist w (esc (segment_component seg))"
    if "\<forall>c \<in> set w. lower c" "3 < length w" for w
    using not_in_number [OF that(1)] not_in_segment [OF that assms(3)] that(2) by auto
  note d = no [OF words_ok(8) long_words(2)] and p = no [OF words_ok(9) long_words(3)]
  show "find_int NameComponentFrameSegmentData uri = -1 \<longleftrightarrow> parity"
  proof (cases parity)
    case True
    then have "\<forall>c \<in> set ?rest. \<not> sublist NameComponentFrameSegmentData (esc c)"
      using d words_apart by (simp add: kind_word_def)
    then show ?thesis using stream_words(4) [OF assms(1,2)] True unfolding uri by blast
  next
    case False
    then have "0 \<le> find_int NameComponentFrameSegmentData uri" unfolding uri
      by (intro stream_words(6) [OF assms(1,2), where c = "Component (kind_word parity)"])
        (simp_all add: kind_word_def words_ok)
    then show ?thesis using False by simp
  qed
  show "find_int NameComponentFrameSegmentParity uri = -1 \<longleftrightarrow> \<not> parity"
  proof (cases parity)
    case False
    then have "\<forall>c \<in> set ?rest. \<not> sublist NameComponentFrameSegmentParity (esc c)"
      using p words_apart by (simp add: kind_word_def)
    then show ?thesis using stream_words(5) [OF assms(1,2)] False unfolding uri by blast
  next
    case True
    then have "0 \<le> find_int NameComponentFrameSegmentParity uri" unfolding uri
      by (intro stream_words(6) [OF assms(1,2), where c = "Component (kind_word parity)"])
        (simp_all add: kind_word_def words_ok)
    then show ?thesis using True by simp
  qed
qed

lemma segment_lookup:
  assumes "stream_path pre" and "frames_word frames" and "uint seg < 2 ^ 30"
  shows "trimmedLookupPrefix (segment_name pre frames no parity seg) = (True, packet_name pre frames no)"
proof -
  let ?n = "segment_name pre frames no parity seg"
  have n: "?n = Name (pre @ Component frames # [componentFromInt no, Component (kind_word parity), segment_component seg])"
    by (simp add: segment_name_def)
  note c = lookup_condition [OF assms(1,2) packet_rest_facts(2) [OF assms(2,3), of no parity], folded n]
  have k: "(find_int NameComponentFrameSegmentData (toUri ?n False) =
      find_int NameComponentFrameSegmentParity (toUri ?n False)) = False"
    "find_int NameComponentFrameSegmentData (toUri ?n False) = -1 \<longleftrightarrow> parity"
    using kind_found [OF assms, of no parity] by metis+
  have "trimmedLookupPrefix ?n = (True, getSubName_n ?n 0 (of_int
      (if parity then findComponent ?n NameComponentFrameSegmentParity
       else findComponent ?n NameComponentFrameSegmentData)))"
    unfolding trimmedLookupPrefix_def Let_def if_P [OF c [unfolded Let_def]] k by simp
  also have "(if parity then findComponent ?n NameComponentFrameSegmentParity
       else findComponent ?n NameComponentFrameSegmentData) = findComponent ?n (kind_word parity)"
    by (simp add: kind_word_def)
  also have "\<dots> = int (length pre + 2)" by (rule find_kind)
  also note cut_segment [OF assms(1)]
  finally show ?thesis .
qed

lemma segment_numbers:
  assumes "stream_path pre" "frames_word frames" "uint seg < 2 ^ 30" "uint no < 2 ^ 31"
  shows "getSegmentationNumbers (segment_name pre frames no parity seg) = Some (uint no, uint seg)"
    and "getPacketNumber (segment_name pre frames no parity seg) = Some (uint no)"
    and "getSegmentNumber (segment_name pre frames no parity seg) = Some (uint seg)"
proof -
  let ?n = "segment_name pre frames no parity seg"
  have n: "?n = Name (pre @ Component frames # componentFromInt no # Component (kind_word parity) #
      segment_component seg # [])"
    by (simp add: segment_name_def)
  have fc: "framesComponent ?n = int (length pre)"
    unfolding n
    by (rule framesComponent_stream [OF assms(1,2)]) (use packet_rest_facts [OF assms(2,3)] in blast)+
  have m: "fromNumberWithMarker seg (char_of (0 :: nat)) = Some (segment_component seg)"
    by (simp add: fromNumberWithMarker_eq segment_component_def)
  have "uint seg < 2 ^ 31" using assms(3) by simp
  from segmentation_numbers_at [OF fc stream_path_nonempty [OF assms(1)] n assms(4) m this]
  show "getSegmentationNumbers ?n = Some (uint no, uint seg)"
    "getPacketNumber ?n = Some (uint no)" "getSegmentNumber ?n = Some (uint seg)" by simp_all
qed

lemma segment_parity:
  assumes "stream_path pre" "frames_word frames" "uint seg < 2 ^ 30"
  shows "isParitySegmentPrefix (segment_name pre frames no parity seg) \<longleftrightarrow> parity"
proof -
  let ?n = "segment_name pre frames no parity seg"
  have "isParitySegmentPrefix ?n \<longleftrightarrow> sublist ''/parity/'' (toUri ?n False)"
    unfolding find_sub_sublist [symmetric]
    by (simp add: isParitySegmentPrefix_def hasComponent_def NameComponentFrameSegmentParity_def)
  also have "\<dots> \<longleftrightarrow> parity"
  proof
    assume parity
    then have "toUri ?n False = comps_uri (pre @ [Component frames, componentFromInt no]) @ ''/parity/'' @
        esc (segment_component seg)"
      by (simp add: segment_name_def toUri_comps kind_word_def) (simp add: NameComponentFrameSegmentParity_def)
    then show "sublist ''/parity/'' (toUri ?n False)" by (metis sublist_appendI)
  next
    assume "sublist ''/parity/'' (toUri ?n False)"
    then obtain a b where "toUri ?n False = a @ ''/parity/'' @ b" by (auto simp: sublist_def)
    then have "toUri ?n False = (a @ ''/'') @ NameComponentFrameSegmentParity @ (''/'' @ b)"
      by (simp add: NameComponentFrameSegmentParity_def)
    then have "sublist NameComponentFrameSegmentParity (toUri ?n False)" by (metis sublist_appendI)
    then show parity using kind_found(2) [OF assms] by (simp add: find_int_sublist)
  qed
  finally show ?thesis .
qed

lemma segment_trim:
  assumes "stream_path pre" "frames_word frames" "uint seg < 2 ^ 30" "uint no < 2 ^ 31"
  shows "trimDataTypeComponent (segment_name pre frames no parity seg) =
    Some (int (length pre + 2), packet_name pre frames no)"
proof -
  let ?n = "segment_name pre frames no parity seg"
  have "(if isParitySegmentPrefix ?n then findComponent ?n NameComponentFrameSegmentParity
      else findComponent ?n NameComponentFrameSegmentData) = findComponent ?n (kind_word parity)"
    using segment_parity [OF assms(1-3)] by (simp add: kind_word_def)
  also have "\<dots> = int (length pre + 2)" by (rule find_kind)
  moreover have "uint no \<noteq> -1" using uint_ge_0 [of no] by linarith
  ultimately show ?thesis
    using segment_numbers(2) [OF assms] cut_segment [OF assms(1)]
    by (simp add: trimDataTypeComponent_def Let_def)
qed

lemma append_segment:
  "appendSegment (appendDataKind (packet_name pre frames no) parity) seg =
   Some (segment_name pre frames no parity seg)"
  by (simp add: appendSegment_def fromNumberWithMarker_eq appendDataKind_def appendStringComponent_def
      packet_name_def segment_name_def kind_word_def segment_component_def name_append_def)

lemma packet_facts:
  assumes "stream_path pre" "frames_word frames"
  shows packet_frames: "framesComponent (packet_name pre frames no) = int (length pre)"
    and packet_number: "getPacketNumber (packet_name pre frames no) = frameNumber (componentFromInt no)"
    and packet_classified:
      "isKeyFramePrefix (packet_name pre frames no) \<or> isDeltaFramePrefix (packet_name pre frames no)"
proof -
  have r: "\<forall>c \<in> set [componentFromInt no]. \<not> sublist NameComponentStreamFramesDelta (esc c)"
    using not_in_number [OF words_ok(6), of no] words_ok(2) by (simp add: word_def)
  have "Component frames \<notin> set [componentFromInt no]"
    using assms(2) distinct_components(1,2) [of no, symmetric] by (auto simp: frames_word_def)
  then show fc: "framesComponent (packet_name pre frames no) = int (length pre)"
    using framesComponent_stream [OF assms r] by (simp add: packet_name_def)
  have "name_get (packet_name pre frames no) (int (length pre) + 1) = Some (componentFromInt no)"
    using name_get_append [of pre "[Component frames, componentFromInt no]" 1] by (simp add: packet_name_def)
  with fc show "getPacketNumber (packet_name pre frames no) = frameNumber (componentFromInt no)"
    using stream_path_nonempty [OF assms(1)]
    by (simp add: getPacketNumber_def packet_name_def name_size_def)
  show "isKeyFramePrefix (packet_name pre frames no) \<or> isDeltaFramePrefix (packet_name pre frames no)"
    using classified [OF assms r] by (auto simp: packet_name_def split: if_splits)
qed

text \<open>Only numbers below \<open>2 ^ 31\<close> are read back as something that is not negative.\<close>

lemma frameNumber_nonneg:
  assumes "frameNumber (componentFromInt no) = Some p" "0 \<le> p" shows "uint no < 2 ^ 31"
proof (rule ccontr)
  assume "\<not> uint no < 2 ^ 31"
  then have "\<not> int (unat no) < int (2 ^ 31)" by simp
  then have big: "2 ^ 31 \<le> unat no" by (simp only: of_nat_less_iff not_less)
  obtain N where N: "N = unat no" by simp
  have less: "N < 2 ^ 32" using unsigned_less [where 'a = nat, of no] by (simp add: N)
  define q d where "q = N div 10" and "d = N mod 10"
  have n: "N = q * 10 + d" "d < 10" by (simp_all add: q_def d_def)
  have "int q < 2 ^ 31" using n less by simp
  then have "intFromComponent_loop 0 (dec_string q) = Some (int q)" by (rule intFromComponent_dec_string)
  then have "intFromComponent_loop 0 (dec_string q @ [digit d]) = intFromComponent_loop (int q) [digit d]"
    by (rule intFromComponent_loop_append) (use dec_string_digits in blast)
  moreover have "dec_string N = dec_string q @ [digit d]"
    using big by (subst dec_string.simps) (simp add: q_def d_def N [symmetric])
  ultimately have "intFromComponent_loop (int q) [digit d] = Some p"
    using assms(1) by (simp add: frameNumber_def intFromComponent_def componentFromInt_def N)
  then have "p = wrap32 (int q * 10 + int d)" using n(2) by (auto split: if_splits)
  also have "int q * 10 + int d = int N" using n(1) by simp
  also have "wrap32 (int N) < 0"
  proof -
    have "(int N + 2 ^ 31) mod 2 ^ 32 = (int N - 2 ^ 31 + 2 ^ 32) mod 2 ^ 32" by (simp add: add.commute)
    also have "\<dots> = (int N - 2 ^ 31) mod 2 ^ 32" by (rule mod_add_self2)
    also have "\<dots> = int N - 2 ^ 31" using big less by (simp add: N [symmetric])
    finally show ?thesis using less by (simp add: wrap32_def)
  qed
  finally show False using assms(2) by simp
qed

end
