(* ===== verification/Frame_Buffer_Invariant.thy ===== *)
theory Frame_Buffer_Invariant
  imports Frame_Buffer Media_Names
begin

text \<open>
  The invariant of the frame buffer: every slot that was created is either free or in use under
  exactly one name, the playback queue holds exactly the slots in use, a slot in use is found
  again through its own prefix, and at most one slot, the first of the queue, is locked.
\<close>

section \<open>Names of packets and segments\<close>

text \<open>The keys of the map are names of packets, the prefixes of segments are names of segments.\<close>

definition regular_key :: "name \<Rightarrow> bool" where
  "regular_key k \<longleftrightarrow> (\<exists>pre frames no. stream_path pre \<and> frames_word frames \<and> uint no < 2 ^ 31 \<and>
     k = packet_name pre frames no)"

definition segment_of :: "name \<Rightarrow> name \<Rightarrow> bool" where
  "segment_of n k \<longleftrightarrow> (\<exists>pre frames no par seg. stream_path pre \<and> frames_word frames \<and>
     uint no < 2 ^ 31 \<and> uint seg < 2 ^ 30 \<and> k = packet_name pre frames no \<and>
     n = segment_name pre frames no par seg)"

lemma regular_key_facts:
  assumes "regular_key k"
  shows "getLookupPrefix k = (True, k)" and "isKeyFramePrefix k \<or> isDeltaFramePrefix k"
    and "\<exists>pre no. k = Name (pre @ [componentFromInt no])"
    and "framesComponent k > 0"
proof -
  obtain pre frames no where k: "stream_path pre" "frames_word frames" "k = packet_name pre frames no"
    using assms by (auto simp: regular_key_def)
  show "getLookupPrefix k = (True, k)" "isKeyFramePrefix k \<or> isDeltaFramePrefix k"
    using packet_lookup packet_classified k by (simp_all add: getLookupPrefix_def)
  have "k = Name ((pre @ [Component frames]) @ [componentFromInt no])" by (simp add: k(3) packet_name_def)
  then show "\<exists>pre no. k = Name (pre @ [componentFromInt no])" by blast
  show "framesComponent k > 0"
    using packet_frames [OF k(1,2)] stream_path_nonempty [OF k(1)] by (simp add: k(3))
qed

lemma segment_of_facts:
  assumes "segment_of n k"
  shows "getLookupPrefix n = (True, k)" and "regular_key k"
    and "\<exists>no sn. getSegmentationNumbers n = Some (no, sn) \<and> 0 \<le> no \<and> 0 \<le> sn \<and> sn < 2 ^ 30"
    and "trimDataTypeComponent n = Some (p, pfx) \<Longrightarrow> pfx = k"
  using assms segment_lookup segment_numbers(1) segment_trim
  by (auto simp: segment_of_def regular_key_def getLookupPrefix_def)

lemma append_segment_of:
  assumes "regular_key k" "uint seg < 2 ^ 30" "appendSegment (appendDataKind k par) seg = Some n"
  shows "segment_of n k"
  using assms append_segment unfolding regular_key_def segment_of_def by force

section \<open>Single slots\<close>

text \<open>Header data comes after the data of the prefix, and there is no rightmost segment: the
  interests that reach the buffer name a packet.\<close>

definition slot_ok :: "slot \<Rightarrow> bool" where
  "slot_ok s \<longleftrightarrow> s_rightmostSegment s = None \<and>
     (if cPrefixMeta (s_consistency s) then \<not> cInconsistent (s_consistency s)
      else s_consistency s = Inconsistent)"



text \<open>The segments of a slot belong to its packet.\<close>

definition names_ok :: "slot \<Rightarrow> bool" where
  "names_ok s \<longleftrightarrow> (\<forall>(i, sg) \<in> set (s_activeSegments s). segment_of (sg_prefix sg) (s_slotPrefix s))"

text \<open>A slot that waits for its next packet.\<close>

definition slot_unused :: "slot \<Rightarrow> bool" where
  "slot_unused s \<longleftrightarrow> s_state s = StateFree \<and> s_activeSegments s = []"

text \<open>Operations that leave alone what the buffer relies on.\<close>

definition slot_like :: "slot \<Rightarrow> slot \<Rightarrow> bool" where
  "slot_like s s' \<longleftrightarrow> s_slotPrefix s' = s_slotPrefix s \<and> s_packetNamespace s' = s_packetNamespace s \<and>
     (s_state s' = StateLocked \<longleftrightarrow> s_state s = StateLocked) \<and>
     (s_state s = StateLocked \<longrightarrow> s_stashedState s' = s_stashedState s) \<and> (slot_ok s \<longrightarrow> slot_ok s') \<and>
     (regular_key (s_slotPrefix s) \<longrightarrow> names_ok s \<longrightarrow> names_ok s') \<and> (slot_unused s \<longrightarrow> slot_unused s')"

lemma slot_ok_new: "slot_ok (new_Slot sz fec) \<and> slot_unused (new_Slot sz fec)"
  by (simp add: slot_ok_def slot_unused_def new_Slot_def Inconsistent_def)

lemma slot_ok_reset: "Slot_reset s = Some (r, s') \<Longrightarrow> s_state s \<noteq> StateLocked \<Longrightarrow>
    slot_ok s' \<and> slot_unused s'"
  by (auto simp: slot_ok_def slot_unused_def Slot_reset_def Inconsistent_def bind_Some split: if_splits)

lemma slot_like_refl [simp]: "slot_like s s"
  by (simp add: slot_like_def)

lemma slot_like_trans: "slot_like s s' \<Longrightarrow> slot_like s' s'' \<Longrightarrow> slot_like s s''"
  by (auto simp: slot_like_def)

lemma slot_like_deadline: "slot_like s (setPlaybackDeadline d s)"
  by (simp add: slot_like_def slot_ok_def names_ok_def slot_unused_def setPlaybackDeadline_def)

lemma slot_like_recover: "slot_like s (snd (Slot_recover decode s))"
  by (auto simp: slot_like_def slot_ok_def names_ok_def slot_unused_def Slot_recover_def Let_def split: prod.splits)

lemma set_map_assign_subset: "set (map_assign k v m) \<subseteq> insert (k, v) (set m)"
  by (induction k v m rule: map_assign.induct) auto

lemma names_ok_assign:
  assumes "names_ok s" "segment_of (sg_prefix sg) (s_slotPrefix s)"
    "s_activeSegments s' = map_assign j sg (s_activeSegments s)" "s_slotPrefix s' = s_slotPrefix s"
  shows "names_ok s'"
  using assms set_map_assign_subset [of j sg "s_activeSegments s"] by (fastforce simp: names_ok_def)

lemma names_ok_getSegment:
  "names_ok s \<Longrightarrow> map_of (s_activeSegments s) j = Some sg \<Longrightarrow> segment_of (sg_prefix sg) (s_slotPrefix s)"
  by (auto simp: names_ok_def dest: map_of_SomeD)

lemma markMissing_frame:
  assumes "Slot_markMissing n s = Some (r, s')"
  shows "s' = s \<or> s' = s\<lparr>s_rightmostSegment := map_option markMissed (s_rightmostSegment s)\<rparr> \<or>
    (\<exists>a b j sg. s' = s\<lparr>s_nSegmentsMissing := a, s_nSegmentsPending := b,
        s_activeSegments := map_assign j (markMissed sg) (s_activeSegments s)\<rparr> \<and>
      map_of (s_activeSegments s) j = Some sg)"
proof (cases "s_state s = StateLocked")
  case True
  then show ?thesis using assms by (simp add: Slot_markMissing_def)
next
  case False
  obtain a b where num: "getPacketNumber n = Some a" "getSegmentNumber n = Some b"
    using assms False by (auto simp: Slot_markMissing_def bind_Some)
  show ?thesis
  proof (cases "a < 0 \<and> b < 0 \<and> s_rightmostSegment s \<noteq> None")
    case True
    then show ?thesis using assms False num by (simp add: Slot_markMissing_def Let_def)
  next
    case no_rightmost: False
    show ?thesis
    proof (cases "getSegment b (isParitySegmentPrefix n) s")
      case None
      then have "Slot_markMissing n s = Some (RESULT_ERR, s)"
        unfolding Slot_markMissing_def Let_def num using False no_rightmost by simp
      then show ?thesis using assms by simp
    next
      case (Some seg)
      then have "Slot_markMissing n s =
          (if sg_state seg = StatePending then Some (RESULT_OK, s\<lparr>
             s_nSegmentsMissing := s_nSegmentsMissing s + 1,
             s_nSegmentsPending := s_nSegmentsPending s - 1,
             s_activeSegments := map_assign (segIdx_of b (isParitySegmentPrefix n)) (markMissed seg)
               (s_activeSegments s)\<rparr>) else Some (RESULT_WARN, s))"
        using False no_rightmost
        by (simp only: Slot_markMissing_def num Let_def if_False Option.bind.bind_lunit option.case)
      moreover have "map_of (s_activeSegments s) (segIdx_of b (isParitySegmentPrefix n)) = Some seg"
        using Some by (simp add: getSegment_def)
      ultimately show ?thesis using assms by (cases "sg_state seg = StatePending") auto
    qed
  qed
qed

lemma slot_like_markMissing: "Slot_markMissing n s = Some (r, s') \<Longrightarrow> slot_like s s'"
proof (drule markMissing_frame, elim disjE exE conjE)
  fix a b j sg
  assume s': "s' = s\<lparr>s_nSegmentsMissing := a, s_nSegmentsPending := b,
      s_activeSegments := map_assign j (markMissed sg) (s_activeSegments s)\<rparr>"
    and sg: "map_of (s_activeSegments s) j = Some sg"
  have "names_ok s'" if "names_ok s"
    by (rule names_ok_assign [OF that, where sg = "markMissed sg"])
      (use names_ok_getSegment [OF that sg] s' in \<open>simp_all add: markMissed_def\<close>)
  moreover have "\<not> slot_unused s" using sg by (auto simp: slot_unused_def)
  ultimately show "slot_like s s'" by (simp add: s' slot_like_def slot_ok_def)
qed (auto simp: slot_like_def slot_ok_def names_ok_def slot_unused_def)

lemma refine_loop_subset:
  "refine_loop nTotal nParity passed rest = Some m \<Longrightarrow> set m \<subseteq> set (passed @ rest)"
proof (induction nTotal nParity passed rest rule: refine_loop.induct)
  case (1 nTotal nParity passed rest)
  show ?case
  proof (cases "nTotal + nParity < 0 \<or> int (length passed + length rest) \<le> nTotal + nParity")
    case True
    then show ?thesis using "1.prems" by (subst (asm) refine_loop.simps) simp
  next
    case False
    then obtain i seg rest' where rest: "rest = (i, seg) # rest'"
      using "1.prems" by (subst (asm) refine_loop.simps) (auto split: list.splits)
    show ?thesis
    proof (cases "sg_number seg \<ge> (if sg_isParity seg then nParity else nTotal)")
      case True
      then have "refine_loop nTotal nParity passed rest' = Some m"
        using "1.prems" False rest by (subst (asm) refine_loop.simps) simp
      then show ?thesis using "1.IH"(1) [OF False rest refl True] rest by auto
    next
      case gt: False
      then have "refine_loop nTotal nParity (passed @ [(i, seg)]) rest' = Some m"
        using "1.prems" False rest by (subst (asm) refine_loop.simps) simp
      then show ?thesis using "1.IH"(2) [OF False rest refl gt] rest by auto
    qed
  qed
qed

lemma refineActiveSegments_frame:
  assumes "refineActiveSegments s = Some s'"
  shows "\<exists>m. s' = s\<lparr>s_activeSegments := m\<rparr> \<and> set m \<subseteq> set (s_activeSegments s)"
proof -
  obtain m where "refine_loop (s_nSegmentsTotal s) (s_nSegmentsParity s) [] (s_activeSegments s) = Some m"
    "s' = s\<lparr>s_activeSegments := m\<rparr>"
    using assms by (auto simp: refineActiveSegments_def bind_Some)
  then show ?thesis using refine_loop_subset by fastforce
qed

lemma init_missing_names:
  assumes "init_missing m par (appendDataKind (s_slotPrefix s) par) s = Some s'" and "m \<le> 2 ^ 30"
    and "regular_key (s_slotPrefix s)" and "names_ok s"
  shows "names_ok s'"
  using assms
proof (induction m arbitrary: s)
  case (Suc m)
  show ?case
  proof (cases "map_of (s_activeSegments s) (segIdx_of (int m) par)")
    case None
    obtain p where p: "appendSegment (appendDataKind (s_slotPrefix s) par) (of_nat m) = Some p"
      using Suc.prems(1) None by (auto simp: bind_Some)
    define sg where "sg = (markMissed (new_Segment\<lparr>sg_number := int m, sg_isParity := par\<rparr>))\<lparr>sg_prefix := p\<rparr>"
    define s1 where "s1 = s\<lparr>s_activeSegments := map_assign (segIdx_of (int m) par) sg (s_activeSegments s),
        s_nSegmentsMissing := s_nSegmentsMissing s + 1\<rparr>"
    have "uint (of_nat m :: u64) < 2 ^ 30"
      using Suc.prems(2) by (simp add: unsigned_of_nat take_bit_eq_mod)
    then have seg: "segment_of p (s_slotPrefix s)" by (rule append_segment_of [OF Suc.prems(3) _ p])
    have "names_ok s1"
      by (rule names_ok_assign [OF Suc.prems(4), where sg = sg]) (use seg in \<open>simp_all add: s1_def sg_def\<close>)
    moreover have "init_missing m par (appendDataKind (s_slotPrefix s1) par) s1 = Some s'"
      using Suc.prems(1) None p by (simp add: s1_def sg_def Let_def)
    ultimately show ?thesis using Suc.IH [of s1] Suc.prems(2,3) by (simp add: s1_def)
  qed (use Suc in simp)
qed simp

lemma init_missing_frame:
  "init_missing n par p s = Some s' \<Longrightarrow>
   \<exists>m k. s' = s\<lparr>s_activeSegments := m, s_nSegmentsMissing := k\<rparr>"
proof (induction n par p s arbitrary: s' rule: init_missing.induct)
  case (1 par p s)
  then have "s' = s\<lparr>s_activeSegments := s_activeSegments s, s_nSegmentsMissing := s_nSegmentsMissing s\<rparr>"
    by simp
  then show ?case by blast
next
  case (2 n par p s)
  from "2.prems" "2.IH" show ?case
    by (auto simp: bind_Some Let_def split: option.splits)
qed

text \<open>The fields the buffer looks at, besides the consistency.\<close>

definition slot_frame :: "slot \<Rightarrow> name \<times> slot_namespace \<times> slot_state \<times> segment option" where
  "slot_frame s = (s_slotPrefix s, s_packetNamespace s, s_state s, s_rightmostSegment s)"

text \<open>Packets with at most \<open>2 ^ 30\<close> segments of each kind.\<close>

definition small_meta :: "PrefixMetaInfo \<Rightarrow> bool" where
  "small_meta meta \<longleftrightarrow> totalSegmentsNum meta \<le> 2 ^ 30 \<and> paritySegmentsNum meta \<le> 2 ^ 30"

definition small_data :: "name \<Rightarrow> bool" where
  "small_data n \<longleftrightarrow> (\<forall>r meta. extractMetadata n zero_prefix_meta = Some (r, meta) \<longrightarrow> small_meta meta)"

lemma updateConsistencyWithMeta_frame:
  assumes "updateConsistencyWithMeta no meta s = Some s'"
  shows "slot_frame s' = slot_frame s \<and> s_recentSegment s' = s_recentSegment s \<and>
    (if cPrefixMeta (s_consistency s) then s' = s
     else s_consistency s' = Consistency False True (cHeaderMeta (s_consistency s))) \<and>
    (small_meta meta \<longrightarrow> regular_key (s_slotPrefix s) \<longrightarrow> names_ok s \<longrightarrow> names_ok s')"
proof (cases "cPrefixMeta (s_consistency s)")
  case True
  then show ?thesis using assms by (simp add: updateConsistencyWithMeta_def)
next
  case False
  define s1 where "s1 = s\<lparr>s_consistency := Consistency False True (cHeaderMeta (s_consistency s)),
          s_packetSequenceNumber := no,
          s_packetPlaybackNumber := playbackNo meta,
          s_pairedSequenceNumber := pairedSequenceNo meta,
          s_nSegmentsTotal := totalSegmentsNum meta,
          s_nSegmentsParity := paritySegmentsNum meta,
          s_crcValue := crcValue meta\<rparr>"
  have s1: "slot_frame s1 = slot_frame s" "s_recentSegment s1 = s_recentSegment s"
    "s_consistency s1 = Consistency False True (cHeaderMeta (s_consistency s))"
    by (simp_all add: s1_def slot_frame_def)
  have r: "do {
        s2 \<leftarrow> refineActiveSegments s1;
        s3 \<leftarrow> initMissingSegments s2;
        if s_useFec s3 then initMissingParitySegments s3 else Some s3
      } = Some s'"
    using assms False unfolding updateConsistencyWithMeta_def Let_def s1_def by (simp only: if_False)
  obtain s2 where s2: "refineActiveSegments s1 = Some s2"
    and r2: "do { s3 \<leftarrow> initMissingSegments s2;
        if s_useFec s3 then initMissingParitySegments s3 else Some s3 } = Some s'"
    using r by (auto simp: bind_Some)
  obtain s3 where s3: "initMissingSegments s2 = Some s3"
    and r3: "(if s_useFec s3 then initMissingParitySegments s3 else Some s3) = Some s'"
    using r2 by (auto simp: bind_Some)
  obtain m where m: "s2 = s1\<lparr>s_activeSegments := m\<rparr>" and msub: "set m \<subseteq> set (s_activeSegments s1)"
    using refineActiveSegments_frame [OF s2] by blast
  obtain m' k where m': "s3 = s2\<lparr>s_activeSegments := m', s_nSegmentsMissing := k\<rparr>"
    using init_missing_frame s3 unfolding initMissingSegments_def by blast
  obtain m'' k' where m'': "s' = s3\<lparr>s_activeSegments := m'', s_nSegmentsMissing := k'\<rparr> \<or> s' = s3"
    using init_missing_frame r3 unfolding initMissingParitySegments_def
    by (metis option.inject)
  have fr: "slot_frame s' = slot_frame s \<and> s_recentSegment s' = s_recentSegment s \<and>
      s_consistency s' = Consistency False True (cHeaderMeta (s_consistency s))"
    using m'' m' m s1 by (auto simp: slot_frame_def)
  have "names_ok s'" if small: "small_meta meta" and reg: "regular_key (s_slotPrefix s)" and ok: "names_ok s"
  proof -
    have tot: "nat (s_nSegmentsTotal s2) \<le> 2 ^ 30" "nat (s_nSegmentsParity s3) \<le> 2 ^ 30"
      using small m m' by (simp_all add: small_meta_def s1_def nat_le_iff)
    have p2: "s_slotPrefix s2 = s_slotPrefix s" and p3: "s_slotPrefix s3 = s_slotPrefix s"
      using m m' s1 by (simp_all add: slot_frame_def)
    have "set (s_activeSegments s2) \<subseteq> set (s_activeSegments s)"
      using msub m by (simp add: s1_def)
    then have "names_ok s2" using ok p2 unfolding names_ok_def by fastforce
    then have ok3: "names_ok s3"
      using init_missing_names [OF s3 [unfolded initMissingSegments_def] tot(1)] p2 reg by simp
    show ?thesis
    proof (cases "s_useFec s3")
      case True
      then have "init_missing (nat (s_nSegmentsParity s3)) True (appendDataKind (s_slotPrefix s3) True) s3 = Some s'"
        using r3 by (simp add: initMissingParitySegments_def)
      from init_missing_names [OF this tot(2) _ ok3] show ?thesis using p3 reg by simp
    qed (use r3 ok3 in simp)
  qed
  with fr False show ?thesis by simp
qed

lemma updateConsistencyFromHeader_frame:
  assumes "updateConsistencyFromHeader s = Some s'"
  shows "slot_frame s' = slot_frame s \<and> s_recentSegment s' = s_recentSegment s \<and>
    s_activeSegments s' = s_activeSegments s \<and> (s' = s \<or> s_consistency s' = Consistency False (cPrefixMeta (s_consistency s)) True)"
proof (cases "cHeaderMeta (s_consistency s)")
  case True
  then show ?thesis using assms by (simp add: updateConsistencyFromHeader_def)
next
  case False
  obtain md where "metadataFromRaw (s_allocatedSize s) (s_slotData s) = Some md"
    using assms False by (auto simp: updateConsistencyFromHeader_def bind_Some)
  then have "s' = s\<lparr>s_consistency := Consistency False (cPrefixMeta (s_consistency s)) True,
      s_packetRate := pm_packetRate md, s_producerTimestamp := sint (pm_timestamp md)\<rparr>"
    using assms False by (simp add: updateConsistencyFromHeader_def)
  then show ?thesis by (simp add: slot_frame_def)
qed

lemma prepareStorage_frame:
  "prepareStorage sz n m s = Some s' \<Longrightarrow> \<exists>d f. s' = s\<lparr>s_slotData := d, s_fecSegmentList := f\<rparr>"
proof -
  assume p: "prepareStorage sz n m s = Some s'"
  have "s = s\<lparr>s_slotData := s_slotData s, s_fecSegmentList := s_fecSegmentList s\<rparr>" by simp
  with p show ?thesis unfolding prepareStorage_def Let_def by (metis option.distinct(1) option.inject)
qed

lemma addData_frame:
  assumes "addData payload no tot par ptot s = Some s'"
  shows "slot_frame s' = slot_frame s \<and> s_recentSegment s' = s_recentSegment s \<and>
    s_activeSegments s' = s_activeSegments s \<and> s_consistency s' = s_consistency s"
proof -
  obtain s1 where s1: "prepareStorage (s_segmentSize s) (to_unsigned tot) (to_unsigned ptot) s = Some s1"
    using assms by (auto simp: addData_def bind_Some)
  then obtain d f where f: "s1 = s\<lparr>s_slotData := d, s_fecSegmentList := f\<rparr>"
    using prepareStorage_frame by blast
  obtain d' f' a where "s' = s1\<lparr>s_slotData := d', s_fecSegmentList := f', s_assembledSize := a\<rparr>"
    using assms s1 by (auto simp: addData_def bind_Some Let_def)
  then show ?thesis using f by (simp add: slot_frame_def)
qed

text \<open>What happens to a slot that accepts or refuses a segment: its prefix and namespace stay, it is
  not locked, it knows the data of the prefix if it accepted, and then there is a recent segment.\<close>

lemma acceptSegment_frame:
  assumes "acceptSegment no par meta sd now s = Some s'"
  shows "s_slotPrefix s' = s_slotPrefix s \<and> s_packetNamespace s' = s_packetNamespace s \<and>
    s_rightmostSegment s' = s_rightmostSegment s \<and> s_recentSegment s' \<noteq> None \<and>
    (s_state s' = s_state s \<or> s_state s' = StateReady \<or> s_state s' = StateAssembling) \<and>
    (s_consistency s' = s_consistency s \<or>
     s_consistency s' = Consistency False (cPrefixMeta (s_consistency s)) True) \<and>
    (names_ok s \<longrightarrow> names_ok s')"
proof -
  obtain sm where sm: "SegmentData_getMetadata sd = Some sm"
    using assms by (auto simp: acceptSegment_def bind_Some)
  let ?payload = "getSegmentData sd"
  obtain s1 where s1: "addData ?payload no (totalSegmentsNum meta) par (s_nSegmentsParity s) s = Some s1"
    using assms sm by (auto simp: acceptSegment_def bind_Some Let_def)
  obtain s2 where s2: "(if no = 0 \<and> \<not> par then updateConsistencyFromHeader s1 else Some s1) = Some s2"
    using assms sm s1 by (auto simp: acceptSegment_def bind_Some Let_def)
  obtain seg where seg: "getSegment no par s2 = Some seg"
    using assms sm s1 s2 by (auto simp: acceptSegment_def bind_Some Let_def)
  have f2: "slot_frame s2 = slot_frame s \<and> s_activeSegments s2 = s_activeSegments s \<and> (s_consistency s2 = s_consistency s \<or>
      s_consistency s2 = Consistency False (cPrefixMeta (s_consistency s)) True)"
    using addData_frame [OF s1] updateConsistencyFromHeader_frame [of s1 s2] s2 by (auto split: if_splits)
  define seg' where "seg' = dataArrived sm now
           (seg\<lparr>sg_dataPtr := getSegmentDataPtr (length ?payload) no par s2,
             sg_number := no, sg_payloadSize := of_nat (length ?payload)\<rparr>)\<lparr>sg_isParity := par\<rparr>"
  define s3 where "s3 = s2\<lparr>s_activeSegments :=
             map_assign (segIdx_of no par) seg' (s_activeSegments s2),
           s_nSegmentsPending := s_nSegmentsPending s2 - 1,
           s_nSegmentsReady := s_nSegmentsReady s2 + (if par then 0 else 1),
           s_nSegmentsParityReady := s_nSegmentsParityReady s2 + (if par then 1 else 0),
           s_recentSegment := Some seg',
           s_hasOriginalSegments := (s_hasOriginalSegments s2 \<or> isOriginal seg')\<rparr>"
  have eq: "acceptSegment no par meta sd now s =
     (if s_nSegmentsReady s3 = totalSegmentsNum meta then
       Some (s3\<lparr>s_state := StateReady, s_readyTimeUsec := sg_arrivalTimeUsec seg'\<rparr>)
     else if totalSegmentsNum meta < 0 \<or> int (length (getFetchedSegments s3)) < totalSegmentsNum meta then
       Some (s3\<lparr>s_state := StateAssembling,
         s_firstSegmentTimeUsec := (if s_state s3 = StateNew then sg_arrivalTimeUsec seg'
                                    else s_firstSegmentTimeUsec s3)\<rparr>)
     else Some s3)"
    by (simp only: acceptSegment_def sm s1 s2 seg Let_def Option.bind.bind_lunit flip: seg'_def)
      (simp only: flip: s3_def)
  have "slot_frame s3 = slot_frame s2" "s_consistency s3 = s_consistency s2" "s_recentSegment s3 = Some seg'"
    by (simp_all add: s3_def slot_frame_def)
  moreover have "names_ok s3" if "names_ok s"
  proof -
    have ok: "names_ok s2" using that f2 by (simp add: names_ok_def slot_frame_def)
    have "map_of (s_activeSegments s2) (segIdx_of no par) = Some seg" using seg by (simp add: getSegment_def)
    from names_ok_getSegment [OF ok this] show ?thesis
      by (intro names_ok_assign [OF ok, where sg = seg']) (simp_all add: s3_def seg'_def dataArrived_def)
  qed
  moreover have "names_ok (x\<lparr>s_state := a, s_readyTimeUsec := b\<rparr>) = names_ok x"
    "names_ok (x\<lparr>s_state := a, s_firstSegmentTimeUsec := b\<rparr>) = names_ok x" for x a b
    by (simp_all add: names_ok_def)
  moreover have "s' = s3\<lparr>s_state := StateReady, s_readyTimeUsec := sg_arrivalTimeUsec seg'\<rparr> \<or>
      (\<exists>t. s' = s3\<lparr>s_state := StateAssembling, s_firstSegmentTimeUsec := t\<rparr>) \<or> s' = s3"
    using assms unfolding eq by (metis option.inject)
  ultimately show ?thesis using f2 by (auto simp: slot_frame_def)
qed

lemma appendData_frame:
  assumes "Slot_appendData n content now s = Some (st, s')" and ok: "slot_ok s"
  shows "s_slotPrefix s' = s_slotPrefix s \<and> s_packetNamespace s' = s_packetNamespace s \<and> slot_ok s' \<and>
    (s_state s' = s_state s \<or> s_state s' = StateReady \<or> s_state s' = StateAssembling) \<and>
    (st = s_state s' \<or> st = StateFree \<and> s' = s) \<and>
    (small_data n \<longrightarrow> regular_key (s_slotPrefix s) \<longrightarrow> names_ok s \<longrightarrow> names_ok s')"
proof (cases "s' = s \<and> (st = s_state s \<or> st = StateFree)")
  case True
  then show ?thesis using ok by auto
next
  case False
  have guard: "((s_state s \<noteq> StateAssembling \<and> s_state s \<noteq> StateNew) \<or> s_nSegmentsPending s = 0) = False"
    (is "?g = False")
  proof -
    have "Slot_appendData n content now s = Some (s_state s, s)" if ?g
      unfolding Slot_appendData_def by (rule if_P [OF that])
    then show ?thesis using assms(1) False by auto
  qed
  obtain pn sn where num: "getSegmentationNumbers n = Some (pn, sn)"
    using assms(1) guard by (auto simp: Slot_appendData_def bind_Some)
  let ?par = "isParitySegmentPrefix n"
  have rm: "s_rightmostSegment s = None" using ok by (simp add: slot_ok_def)
  have pk: "(s_rightmostSegment s = None \<and> pn \<noteq> s_packetSequenceNumber s) = False" (is "?g = False")
  proof -
    have "Slot_appendData n content now s = Some (StateFree, s)" if ?g
      by (simp only: Slot_appendData_def guard num Let_def if_False Option.bind.bind_lunit prod.case
          if_P [OF that])
    then show ?thesis using assms(1) False rm by auto
  qed
  note defs = Slot_appendData_def guard num pk Let_def if_False if_True Option.bind.bind_lunit prod.case
  obtain b where b: "hasReceivedSegment sn ?par s = Some b"
    using assms(1) unfolding defs by (auto simp: bind_Some)
  have rec: "hasReceivedSegment sn ?par s = Some False"
  proof (cases b)
    case True
    then have "Slot_appendData n content now s = Some (s_state s, s)" unfolding defs b by simp
    then show ?thesis using assms(1) False by auto
  qed (use b in simp)
  obtain r1 meta where meta1: "extractMetadata n zero_prefix_meta = Some (r1, meta)"
    using assms(1) unfolding defs rec by (auto simp: bind_Some)
  have meta: "extractMetadata n zero_prefix_meta = Some (RESULT_OK, meta)"
  proof (cases "r1 = RESULT_OK")
    case False': False
    then have "Slot_appendData n content now s = Some (s_state s, s)" unfolding defs rec meta1 by simp
    then show ?thesis using assms(1) False by auto
  qed (use meta1 in simp)
  have fixr: "fixRightmost pn sn ?par s = Some s"
    by (simp add: fixRightmost_def rm split: option.split)
  have good: "(\<not> RESULT_GOOD RESULT_OK) = False" by simp
  obtain s2 where s2: "updateConsistencyWithMeta pn meta s = Some s2"
    using assms(1) unfolding defs rec meta good fixr by (auto simp: bind_Some)
  have tot: "(totalSegmentsNum meta \<noteq> s_nSegmentsTotal s2) = False"
    using assms(1) unfolding defs rec meta good fixr s2 by (auto split: if_splits)
  obtain r' sd where sd: "segmentDataFromRaw (case content of None \<Rightarrow> 0 | Some c \<Rightarrow> length c) content
       \<lparr>sd_isValid = False, sd_length = 0, sd_data = []\<rparr> = Some (r', sd)"
    using assms(1) unfolding defs rec meta good fixr s2 tot by (auto simp: bind_Some)
  have eq: "Slot_appendData n content now s = (if RESULT_GOOD r' then do {
        s3 \<leftarrow> acceptSegment sn ?par meta sd now s2; Some (s_state s3, s3) } else Some (s_state s2, s2))"
    unfolding defs rec meta good fixr s2 tot sd ..
  note f2 = updateConsistencyWithMeta_frame [OF s2]
  have small: "small_data n \<longrightarrow> small_meta meta" using meta by (simp add: small_data_def)
  have ok2: "slot_ok s2" using f2 ok by (auto simp: slot_ok_def slot_frame_def split: if_splits)
  have c2: "cPrefixMeta (s_consistency s2)" using f2 by (auto split: if_splits)
  show ?thesis
  proof (cases "RESULT_GOOD r'")
    case True
    then obtain s3 where s3: "acceptSegment sn ?par meta sd now s2 = Some s3" "s' = s3" "st = s_state s3"
      using assms(1) unfolding eq by (auto simp: bind_Some)
    note f3 = acceptSegment_frame [OF s3(1)]
    have "slot_ok s3" using f3 ok2 c2 by (auto simp: slot_ok_def)
    then show ?thesis using f3 f2 s3 small by (auto simp: slot_frame_def)
  next
    case False
    then have "s' = s2" "st = s_state s2" using assms(1) unfolding eq by auto
    then show ?thesis using f2 ok2 small by (auto simp: slot_frame_def)
  qed
qed

lemma slot_like_appendData:
  assumes "Slot_appendData n content now s = Some (st, s')" "slot_ok s"
    "s_state s = StateNew \<or> s_state s = StateAssembling" "small_data n"
  shows "slot_like s s'"
  using appendData_frame [OF assms(1,2)] assms(2-4) by (auto simp: slot_like_def slot_unused_def)

text \<open>Issuing an interest that names a packet: the prefix is set with the first interest.\<close>

lemma prepareFreeSegment_frame:
  assumes "prepareFreeSegment no par s = Some (sg, s')"
  shows "slot_frame s' = slot_frame s \<and> s_consistency s' = s_consistency s \<and>
    s_activeSegments s' = s_activeSegments s"
  using assms
  by (auto simp: prepareFreeSegment_def slot_frame_def Let_def bind_Some split: option.splits if_splits)

lemma prepareFreeSegment_names:
  assumes prep: "prepareFreeSegment no par s = Some (Some sg, s')" and no: "0 \<le> no" "no < 2 ^ 30"
    and reg: "regular_key (s_slotPrefix s)" and names: "names_ok s"
  shows "segment_of (sg_prefix sg) (s_slotPrefix s)"
proof (cases "map_of (s_activeSegments s) (segIdx_of no par)")
  case (Some seg)
  then have "sg = seg" using prep by (auto simp: prepareFreeSegment_def split: if_splits)
  then show ?thesis using names_ok_getSegment [OF names] Some by blast
next
  case None
  then obtain p where p: "appendSegment (appendDataKind (s_slotPrefix s) par) (of_int no) = Some p"
    and sg: "sg_prefix sg = p"
    using prep no(1) by (auto simp: prepareFreeSegment_def Let_def bind_Some)
  have "uint (of_int no :: u64) < 2 ^ 30" using no by (simp add: unsigned_of_int take_bit_eq_mod)
  then show ?thesis using append_segment_of [OF reg _ p] sg by simp
qed

lemma addInterest_frame:
  assumes "Slot_addInterest n rnd now s = Some (r, s')" and "segment_of n k" and "s_slotPrefix s = k"
  shows "s_packetNamespace s' = s_packetNamespace s \<and> s_rightmostSegment s' = s_rightmostSegment s \<and>
    s_consistency s' = s_consistency s \<and> s_slotPrefix s' = k \<and> (names_ok s \<longrightarrow> names_ok s') \<and>
    (s_state s' = s_state s \<or> s_state s = StateFree \<and> s_state s' = StateNew)"
proof (cases "s' = s")
  case False
  have guard: "(s_state s = StateReady \<or> s_state s = StateLocked) = False" (is "?g = False")
  proof -
    have "Slot_addInterest n rnd now s = Some (RESULT_ERR, s)" if ?g
      unfolding Slot_addInterest_def by (rule if_P [OF that])
    then show ?thesis using assms(1) False by auto
  qed
  obtain pn sn where num: "getSegmentationNumbers n = Some (pn, sn)"
    and pn: "0 \<le> pn" and sn: "0 \<le> sn" "sn < 2 ^ 30"
    using segment_of_facts(3) [OF assms(2)] by (elim exE conjE) (rule that)
  have pk: "(s_packetSequenceNumber s \<ge> 0 \<and> s_packetSequenceNumber s \<noteq> pn) = False" (is "?g = False")
  proof -
    have "Slot_addInterest n rnd now s = Some (RESULT_ERR, s)" if ?g
      by (simp only: Slot_addInterest_def guard num if_False Option.bind.bind_lunit prod.case
          if_P [OF that])
    then show ?thesis using assms(1) False by auto
  qed
  have k0: "(pn \<ge> 0) = True" "(pn < 0) = False" using pn by simp_all
  let ?par = "isParitySegmentPrefix n"
  note defs = Slot_addInterest_def guard num pk Let_def if_False if_True Option.bind.bind_lunit prod.case
  define s1 where "s1 = s\<lparr>s_packetSequenceNumber := pn\<rparr>"
  obtain rsv s2 where prep: "prepareFreeSegment sn ?par s1 = Some (rsv, s2)"
    using assms(1) unfolding defs k0 s1_def [symmetric] by (auto simp: bind_Some)
  have f2: "slot_frame s2 = slot_frame s \<and> s_consistency s2 = s_consistency s \<and>
      s_activeSegments s2 = s_activeSegments s"
    using prepareFreeSegment_frame [OF prep] by (simp add: s1_def slot_frame_def)
  have mul: "(pn * sn < - (2 ^ 31) \<or> pn * sn \<ge> 2 ^ 31) = False"
    using assms(1) unfolding defs k0 s1_def [symmetric] prep by (auto split: if_splits)
  show ?thesis
  proof (cases "pn * sn \<ge> 0 \<and> rsv \<noteq> None")
    case False
    have "Slot_addInterest n rnd now s = Some (RESULT_WARN, s2)"
      by (simp only: Slot_addInterest_def guard num pk k0 prep mul False Let_def if_False if_True
          Option.bind.bind_lunit prod.case flip: s1_def)
    then show ?thesis using assms(1,3) f2 by (simp add: slot_frame_def names_ok_def)
  next
    case True
    obtain seg where seg: "interestIssued (blobToNonce (nonceToBlob rnd)) now (the rsv) = Some seg"
      using assms(1) True unfolding defs k0 s1_def [symmetric] prep mul by (auto simp: bind_Some)
    define seg' where "seg' = seg\<lparr>sg_number := sn, sg_isParity := ?par\<rparr>"
    define s3 where "s3 = s2\<lparr>s_activeSegments := map_assign (segIdx_of sn ?par) seg' (s_activeSegments s2)\<rparr>"
    have f3: "slot_frame s3 = slot_frame s \<and> s_consistency s3 = s_consistency s"
      using f2 by (simp add: s3_def slot_frame_def)
    have n3: "names_ok s3" if "names_ok s"
    proof -
      have ok: "names_ok s1" "regular_key (s_slotPrefix s1)"
        using that assms(3) segment_of_facts(2) [OF assms(2)] by (simp_all add: s1_def names_ok_def)
      obtain x where x: "rsv = Some x" using True by auto
      have "segment_of (sg_prefix x) (s_slotPrefix s1)"
        using prepareFreeSegment_names [OF prep [unfolded x] sn ok(2,1)] .
      moreover have "sg_prefix seg' = sg_prefix x"
        using seg x by (auto simp: seg'_def interestIssued_def split: if_splits)
      moreover have "names_ok s2" "s_slotPrefix s2 = s_slotPrefix s1"
        using ok f2 by (simp_all add: names_ok_def slot_frame_def s1_def)
      ultimately have "segment_of (sg_prefix seg') (s_slotPrefix s2)" by simp
      with \<open>names_ok s2\<close> show ?thesis
        by (rule names_ok_assign [where j = "segIdx_of sn ?par"]) (simp_all add: s3_def)
    qed
    have t: "(pn * sn \<ge> 0 \<and> rsv \<noteq> None) = True" using True by simp
    have eq: "Slot_addInterest n rnd now s = do {
        s4 \<leftarrow> (if s_state s3 = StateFree then do {
              (p, pfx) \<leftarrow> trimDataTypeComponent n;
              Some (s3\<lparr>s_slotPrefix := pfx, s_state := StateNew,
                s_requestTimeUsec := sg_requestTimeUsec seg'\<rparr>)
            } else Some s3);
        Some (RESULT_OK, s4\<lparr>s_nSegmentsPending := s_nSegmentsPending s4 + 1\<rparr>)
      }"
      by (simp only: Slot_addInterest_def guard num pk k0 prep mul t seg Let_def if_False if_True
          Option.bind.bind_lunit prod.case flip: s1_def seg'_def s3_def)
    show ?thesis
    proof (cases "s_state s3 = StateFree")
      case True
      then obtain p pfx where tr: "trimDataTypeComponent n = Some (p, pfx)"
        using assms(1) unfolding eq by (auto simp: bind_Some)
      then have "s' = s3\<lparr>s_slotPrefix := pfx, s_state := StateNew,
          s_requestTimeUsec := sg_requestTimeUsec seg', s_nSegmentsPending := s_nSegmentsPending s3 + 1\<rparr>"
        using assms(1) True unfolding eq by simp
      moreover have "pfx = k" using segment_of_facts(4) [OF assms(2) tr] .
      ultimately show ?thesis using f3 n3 assms(3) True by (auto simp: slot_frame_def names_ok_def)
    next
      case False
      then have "s' = s3\<lparr>s_nSegmentsPending := s_nSegmentsPending s3 + 1\<rparr>"
        using assms(1) unfolding eq by simp
      then show ?thesis using f3 n3 assms(3) by (simp add: slot_frame_def names_ok_def)
    qed
  qed
qed (use assms(3) in simp)

section \<open>Names that are no names of packets\<close>

lemma dec_string_not_word: "c \<in> set w \<Longrightarrow> byte_val c > 57 \<Longrightarrow> dec_string n \<noteq> w"
  using dec_string_digits by fastforce

lemma findComponent_Some:
  assumes "findComponent n w = int p" shows "p < name_size n \<and> components n ! p = Component w"
  using findComponent_below_cases [of "name_size n" "components n" "Component w"] assms
  by (auto simp: findComponent_def)

lemma framesComponent_word:
  assumes "framesComponent n = int p" "0 < p"
  shows "p < name_size n \<and> (components n ! p = Component NameComponentStreamFramesDelta \<or>
    components n ! p = Component NameComponentStreamFramesKey)"
  using assms findComponent_Some [of n NameComponentStreamFramesDelta p]
    findComponent_Some [of n NameComponentStreamFramesKey p]
  by (auto simp: framesComponent_def split: if_splits)

text \<open>The name that \<open>fixRightmost\<close> looks for is never the name of a packet.\<close>

lemma trimPacketNumber_not_regular:
  assumes "regular_key k" and "name_size n < 2 ^ 63" shows "snd (trimPacketNumber n) \<noteq> k"
proof (cases "framesComponent n > 0")
  case False
  then have "snd (trimPacketNumber n) = n" by (simp add: trimPacketNumber_def Let_def)
  then show ?thesis using False regular_key_facts(4) [OF assms(1)] by auto
next
  case True
  then obtain p where p: "framesComponent n = int p" "0 < p" by (metis zero_less_imp_eq_int)
  note w = framesComponent_word [OF p]
  have "unat (of_int (int p + 1) :: u64) = p + 1"
    using w assms(2) unat_of_nat_u64 [of "p + 1"] by (simp add: add.commute)
  then have comps: "components (snd (trimPacketNumber n)) = take (p + 1) (components n)"
    using p by (simp add: trimPacketNumber_def getSubName_n_def adjust_start_def Let_def)
  have "p < length (components n)" using w by (simp add: name_size_def)
  then have last: "last (components (snd (trimPacketNumber n))) = components n ! p"
    unfolding comps by (simp add: take_Suc_conv_app_nth)
  show ?thesis
  proof
    assume eq: "snd (trimPacketNumber n) = k"
    obtain pre no where "k = Name (pre @ [componentFromInt no])" using regular_key_facts(3) [OF assms(1)] by blast
    then have "components n ! p = componentFromInt no" using last eq by simp
    moreover have "dec_string (unat no) \<noteq> NameComponentStreamFramesDelta"
      "dec_string (unat no) \<noteq> NameComponentStreamFramesKey"
      by (rule dec_string_not_word [of "CHR ''e''"];
          simp add: NameComponentStreamFramesDelta_def NameComponentStreamFramesKey_def)+
    ultimately show False using w by (auto simp: componentFromInt_def)
  qed
qed

lemma fb_fixRightmost_regular:
  assumes "\<forall>(k, i) \<in> set (fb_activeSlots fb). regular_key k" and "name_size n < 2 ^ 63"
  shows "fb_fixRightmost n fb = fb"
proof -
  have "map_of (fb_activeSlots fb) (snd (trimPacketNumber n)) = None"
  proof (rule ccontr)
    assume "map_of (fb_activeSlots fb) (snd (trimPacketNumber n)) \<noteq> None"
    then obtain i where "(snd (trimPacketNumber n), i) \<in> set (fb_activeSlots fb)"
      by (auto dest: map_of_SomeD)
    then show False using assms(1) trimPacketNumber_not_regular [OF _ assms(2)] by fastforce
  qed
  then show ?thesis by (cases "trimPacketNumber n") (simp add: fb_fixRightmost_def)
qed

section \<open>The invariant\<close>

text \<open>
  \<open>out\<close> is a slot that has been taken from the queue and not yet freed: the one that is being
  released while the callbacks run.
\<close>

definition containers_ok :: "nat option \<Rightarrow> nat \<Rightarrow> nat list \<Rightarrow> (name \<times> nat) list \<Rightarrow> nat list \<Rightarrow> bool" where
  "containers_ok out n free active items \<longleftrightarrow>
     map_ok active \<and> distinct (free @ map snd active) \<and> set (free @ map snd active) = {..<n} \<and>
     mset items + (case out of None \<Rightarrow> {#} | Some i \<Rightarrow> {#i#}) = mset (map snd active)"

definition slots_ok :: "slot_store \<Rightarrow> nat \<Rightarrow> (name \<times> nat) list \<Rightarrow> nat option \<Rightarrow> bool" where
  "slots_ok h n active playing \<longleftrightarrow>
     (\<forall>i < n. slot_ok (h i) \<and> (s_state (h i) = StateLocked \<longleftrightarrow> playing = Some i) \<and>
        (s_state (h i) = StateLocked \<longrightarrow> s_stashedState (h i) \<noteq> StateLocked)) \<and>
     (\<forall>(k, i) \<in> set active. regular_key k \<and> s_packetNamespace (h i) \<noteq> NsUnknown \<and>
        s_slotPrefix (h i) = k \<and> names_ok (h i)) \<and>
     (\<forall>i < n. i \<notin> snd ` set active \<longrightarrow> slot_unused (h i))"

definition head_ok :: "nat option \<Rightarrow> nat option \<Rightarrow> nat list \<Rightarrow> bool" where
  "head_ok out playing items \<longleftrightarrow>
     (case out of Some i \<Rightarrow> playing = Some i
      | None \<Rightarrow> (\<forall>i. playing = Some i \<longrightarrow> (\<exists>js. items = i # js)))"

text \<open>\<open>P\<close> is what the client relies on in its own part of the state.\<close>

definition fb_inv :: "('a \<Rightarrow> bool) \<Rightarrow> nat option \<Rightarrow> 'a frame_buffer_scheme \<Rightarrow> bool" where
  "fb_inv P out fb \<longleftrightarrow> P (frame_buffer.more fb) \<and>
     containers_ok out (fb_nSlots fb) (fb_freeSlots fb) (fb_activeSlots fb)
       (pq_items (fb_playbackQueue fb)) \<and>
     slots_ok (fb_slots fb) (fb_nSlots fb) (fb_activeSlots fb) (fb_playbackSlot fb) \<and>
     head_ok out (fb_playbackSlot fb) (pq_items (fb_playbackQueue fb))"

lemma containers_active:
  assumes "containers_ok out n free active items"
  shows "(k, i) \<in> set active \<Longrightarrow> i < n \<and> i \<notin> set free"
    and "i \<in> set items \<Longrightarrow> \<exists>k. (k, i) \<in> set active"
    and "(k, i) \<in> set active \<Longrightarrow> (k', i) \<in> set active \<Longrightarrow> k = k'"
    and "map_ok active" and "distinct items"
    and "out = Some i \<Longrightarrow> (\<exists>k. (k, i) \<in> set active) \<and> i \<notin> set items"
proof -
  have d: "distinct (map snd active)" "distinct free" "set free \<inter> snd ` set active = {}"
    and u: "set free \<union> snd ` set active = {..<n}" and mo: "map_ok active"
    and ms: "mset items + (case out of None \<Rightarrow> {#} | Some i \<Rightarrow> {#i#}) = mset (map snd active)"
    using assms by (auto simp: containers_ok_def)
  show "map_ok active" by (rule mo)
  show "(k, i) \<in> set active \<Longrightarrow> i < n \<and> i \<notin> set free"
    using d(3) u by force
  have mem: "set_mset (mset items + (case out of None \<Rightarrow> {#} | Some i \<Rightarrow> {#i#})) = snd ` set active"
    unfolding ms by simp
  show "i \<in> set items \<Longrightarrow> \<exists>k. (k, i) \<in> set active"
    using mem by (force simp: image_iff)
  show "(k, i) \<in> set active \<Longrightarrow> (k', i) \<in> set active \<Longrightarrow> k = k'"
    using d(1) by (fastforce simp: distinct_map inj_on_def)
  have "mset ((case out of None \<Rightarrow> [] | Some i \<Rightarrow> [i]) @ items) = mset (map snd active)"
    unfolding ms [symmetric] by (simp split: option.split)
  then have di: "distinct ((case out of None \<Rightarrow> [] | Some i \<Rightarrow> [i]) @ items)"
    using d(1) mset_eq_imp_distinct_iff by blast
  then show "distinct items" by simp
  show "out = Some i \<Longrightarrow> (\<exists>k. (k, i) \<in> set active) \<and> i \<notin> set items"
    using di mem by (force simp: image_iff)
qed

end
