(* ===== verification/Frame_Buffer_Steps.thy ===== *)
theory Frame_Buffer_Steps
  imports Frame_Buffer_Invariant
begin

text \<open>
  Every operation of the frame buffer preserves its invariant, and what follows for every state
  that the buffer can reach from its initialisation: the step relation \<open>fb_step\<close>, its invariant and
  the safety of \<open>acquireSlot\<close> and \<open>releaseAcquiredSlot\<close>. The client's callbacks are seen through the
  locale \<open>buffer_client\<close>.
\<close>

section \<open>The queue\<close>

lemma sort_insert_mset: "sort_insert lt v ps = Some r \<Longrightarrow> mset r = add_mset v (mset ps)"
  by (induction lt v ps arbitrary: r rule: sort_insert.induct) (auto simp: bind_Some split: if_splits)

lemma ofold_sort_insert_mset:
  "ofold (sort_insert lt) xs ps = Some r \<Longrightarrow> mset r = mset xs + mset ps"
  by (induction xs arbitrary: ps) (auto simp: bind_Some sort_insert_mset)

lemma std_sort_mset: "std_sort lt xs = Some ys \<Longrightarrow> mset ys = mset xs"
  by (auto simp: std_sort_def ofold_sort_insert_mset)

lemma deadline_loop_slot_like: "deadline_loop q i js acc h = Some h' \<Longrightarrow> slot_like (h k) (h' k)"
proof (induction js arbitrary: i acc h)
  case Nil
  then show ?case by (auto simp: slot_like_deadline)
next
  case (Cons j js)
  obtain acc' where "deadline_loop q j js acc' (h(i := setPlaybackDeadline acc (h i))) = Some h'"
    using Cons.prems by (auto simp: bind_Some Let_def)
  then have "slot_like ((h(i := setPlaybackDeadline acc (h i))) k) (h' k)" by (rule Cons.IH)
  moreover have "slot_like (h k) ((h(i := setPlaybackDeadline acc (h i))) k)"
    by (simp add: slot_like_deadline)
  ultimately show ?case by (rule slot_like_trans [rotated])
qed

lemma updatePlaybackDeadlines_frame:
  assumes "updatePlaybackDeadlines h q = Some (h', q')"
  shows "mset (pq_items q') = mset (pq_items q)" and "slot_like (h k) (h' k)"
    and "std_sort (\<lambda>i j. PlaybackComparator False (h i) (h j)) (pq_items q) = Some (pq_items q')"
proof -
  obtain items where s: "std_sort (\<lambda>i j. PlaybackComparator False (h i) (h j)) (pq_items q) = Some items"
    and q': "q' = q\<lparr>pq_items := items\<rparr>"
    and h': "(case items of [] \<Rightarrow> Some h | i # is \<Rightarrow> deadline_loop q' i is 0 h) = Some h'"
    using assms by (auto simp: updatePlaybackDeadlines_def pq_sort_def bind_Some)
  show "mset (pq_items q') = mset (pq_items q)" using std_sort_mset [OF s] q' by simp
  show "slot_like (h k) (h' k)"
    using h' by (auto split: list.splits intro: deadline_loop_slot_like)
  show "std_sort (\<lambda>i j. PlaybackComparator False (h i) (h j)) (pq_items q) = Some (pq_items q')"
    using s q' by simp
qed

section \<open>Changing parts of the buffer\<close>

lemma slots_okI:
  assumes "\<And>i. i < n \<Longrightarrow> slot_ok (h i)"
    and "\<And>i. i < n \<Longrightarrow> s_state (h i) = StateLocked \<longleftrightarrow> playing = Some i"
    and "\<And>i. i < n \<Longrightarrow> s_state (h i) = StateLocked \<Longrightarrow> s_stashedState (h i) \<noteq> StateLocked"
    and "\<And>k i. (k, i) \<in> set active \<Longrightarrow> regular_key k \<and> s_packetNamespace (h i) \<noteq> NsUnknown \<and>
      s_slotPrefix (h i) = k \<and> names_ok (h i)"
    and "\<And>i. i < n \<Longrightarrow> i \<notin> snd ` set active \<Longrightarrow> slot_unused (h i)"
  shows "slots_ok h n active playing"
  using assms unfolding slots_ok_def by blast

lemma slots_okD:
  assumes "slots_ok h n active playing"
  shows "i < n \<Longrightarrow> slot_ok (h i)" and "i < n \<Longrightarrow> s_state (h i) = StateLocked \<longleftrightarrow> playing = Some i"
    and "i < n \<Longrightarrow> s_state (h i) = StateLocked \<Longrightarrow> s_stashedState (h i) \<noteq> StateLocked"
    and "(k, i) \<in> set active \<Longrightarrow> regular_key k" and "(k, i) \<in> set active \<Longrightarrow> s_packetNamespace (h i) \<noteq> NsUnknown"
    and "(k, i) \<in> set active \<Longrightarrow> s_slotPrefix (h i) = k" and "(k, i) \<in> set active \<Longrightarrow> names_ok (h i)"
    and "i < n \<Longrightarrow> i \<notin> snd ` set active \<Longrightarrow> slot_unused (h i)"
  using assms unfolding slots_ok_def by blast+

lemma slots_ok_like:
  assumes sl: "slots_ok h n active playing" and like: "\<And>k. slot_like (h k) (h' k)"
  shows "slots_ok h' n active playing"
proof (rule slots_okI)
  fix i assume i: "i < n"
  then show "slot_ok (h' i)" "s_state (h' i) = StateLocked \<longleftrightarrow> playing = Some i"
    "s_state (h' i) = StateLocked \<Longrightarrow> s_stashedState (h' i) \<noteq> StateLocked"
    using slots_okD(1-3) [OF sl i] like [of i] by (auto simp: slot_like_def)
  show "slot_unused (h' i)" if "i \<notin> snd ` set active"
    using slots_okD(8) [OF sl i that] like [of i] by (simp add: slot_like_def)
next
  fix k i assume "(k, i) \<in> set active"
  then show "regular_key k \<and> s_packetNamespace (h' i) \<noteq> NsUnknown \<and>
      s_slotPrefix (h' i) = k \<and> names_ok (h' i)"
    using slots_okD(4-7) [OF sl] like [of i] unfolding slot_like_def by metis
qed

lemma slot_like_upd: "slot_like (h i) s \<Longrightarrow> slot_like (h k) ((h(i := s)) k)"
  by simp

lemma fb_inv_set_slot:
  "fb_inv P out fb \<Longrightarrow> slot_like (fb_slots fb i) s \<Longrightarrow> fb_inv P out (set_slot i s fb)"
  unfolding fb_inv_def set_slot_def
  by (auto intro: slots_ok_like [where h' = "(fb_slots fb)(i := s)"])

text \<open>Parts of the state that the invariant does not speak of.\<close>

lemma fb_inv_frame [simp]:
  "fb_inv P out (fb\<lparr>fb_state := a1\<rparr>) = fb_inv P out fb"
  "fb_inv P out (fb\<lparr>fb_playbackNo := a2\<rparr>) = fb_inv P out fb"
  "fb_inv P out (fb\<lparr>fb_lastKeySeqNo := a3\<rparr>) = fb_inv P out fb"
  "fb_inv P out (fb\<lparr>fb_nKeyFrames := a4\<rparr>) = fb_inv P out fb"
  "fb_inv P out (fb\<lparr>fb_skipFrame := a5\<rparr>) = fb_inv P out fb"
  "fb_inv P out (fb\<lparr>fb_targetSizeMs := a6\<rparr>) = fb_inv P out fb"
  "fb_inv P out (fb\<lparr>fb_estimatedSizeMs := a7\<rparr>) = fb_inv P out fb"
  "fb_inv P out (fb\<lparr>fb_isEstimationNeeded := a8\<rparr>) = fb_inv P out fb"
  "fb_inv P out (fb\<lparr>fb_isWaitingForRightmost := a9\<rparr>) = fb_inv P out fb"
  "fb_inv P out (fb\<lparr>fb_retransmissionsEnabled := b1\<rparr>) = fb_inv P out fb"
  "fb_inv P out (fb\<lparr>fb_frameReleaseCount := b2\<rparr>) = fb_inv P out fb"
  "fb_inv P out (fb\<lparr>fb_forcedRelease := b3\<rparr>) = fb_inv P out fb"
  "fb_inv P out (fb\<lparr>fb_pendingEventsFlushed := b4\<rparr>) = fb_inv P out fb"
  "fb_inv P out (fb\<lparr>fb_pendingEvents := b5\<rparr>) = fb_inv P out fb"
  "fb_inv P out (fb\<lparr>fb_params := b6\<rparr>) = fb_inv P out fb"
  "fb_inv P out (fb\<lparr>fb_rtt := b7\<rparr>) = fb_inv P out fb"
  "fb_inv P out (fb\<lparr>fb_bufferEstimator := b8\<rparr>) = fb_inv P out fb"
  "fb_inv P out (fb\<lparr>fb_meters := b9\<rparr>) = fb_inv P out fb"
  "fb_inv P out (fb\<lparr>fb_stats := c1\<rparr>) = fb_inv P out fb"
  "fb_inv P out (stat f fb) = fb_inv P out fb"
  "fb_inv P out (addBufferEvent ty sl fb) = fb_inv P out fb"
  "fb_inv P out (setTargetSize c2 fb) = fb_inv P out fb"
  by (simp_all add: fb_inv_def stat_def addBufferEvent_def setTargetSize_def)

lemma fb_inv_queue_same:
  "pq_items q = pq_items (fb_playbackQueue fb) \<Longrightarrow>
   fb_inv P out (fb\<lparr>fb_playbackQueue := q\<rparr>) = fb_inv P out fb"
  by (simp add: fb_inv_def)

text \<open>Sorting the queue: the slot that is being played gets to the front.\<close>

lemma playable_items_ok:
  assumes "containers_ok out n free active items" and "slots_ok h n active playing"
  shows "playable_items h items"
  unfolding playable_items_def
proof (intro conjI ballI impI)
  fix i assume i: "i \<in> set items"
  obtain k where k: "(k, i) \<in> set active" using containers_active(2) [OF assms(1) i] by blast
  then have "i < n" using containers_active(1) [OF assms(1)] by blast
  then have "slot_ok (h i)" "s_packetNamespace (h i) \<noteq> NsUnknown"
    using assms(2) k by (fastforce simp: slots_ok_def)+
  then show "queueable (h i)" by (auto simp: queueable_def slot_ok_def)
next
  fix i j assume i: "i \<in> set items" "s_state (h i) = StateLocked"
    and j: "j \<in> set items" "s_state (h j) = StateLocked"
  have "i < n" "j < n"
    using containers_active(1,2) [OF assms(1)] i(1) j(1) by blast+
  then have "playing = Some i" "playing = Some j" using i(2) j(2) assms(2) by (simp_all add: slots_ok_def)
  then show "i = j" by simp
qed

lemma locked_first:
  assumes "sorted (map (\<lambda>i. playback_rank (h i)) xs)" and "i \<in> set xs"
    and "s_state (h i) = StateLocked"
    and "\<And>j. j \<in> set xs \<Longrightarrow> s_state (h j) = StateLocked \<Longrightarrow> j = i"
  shows "\<exists>js. xs = i # js"
proof (cases xs)
  case (Cons x js)
  have "playback_rank (h x) \<le> playback_rank (h i)" using assms(1,2) Cons by auto
  moreover have "playback_rank (h i) = (0, 0)" using assms(3) by (simp add: playback_rank_def)
  ultimately have "s_state (h x) = StateLocked" by (auto simp: playback_rank_def split: if_splits)
  then have "x = i" using assms(4) Cons by simp
  then show ?thesis using Cons by blast
qed (use assms(2) in simp)

lemma fb_inv_sorted:
  assumes upd: "updatePlaybackDeadlines (fb_slots fb) q = Some (h', q')"
    and con: "containers_ok out (fb_nSlots fb) (fb_freeSlots fb) (fb_activeSlots fb) (pq_items q)"
    and sl: "slots_ok (fb_slots fb) (fb_nSlots fb) (fb_activeSlots fb) (fb_playbackSlot fb)"
    and client: "P (frame_buffer.more fb)" and head: "case out of Some i \<Rightarrow> fb_playbackSlot fb = Some i
      | None \<Rightarrow> \<forall>i. fb_playbackSlot fb = Some i \<longrightarrow> i \<in> set (pq_items q)"
  shows "fb_inv P out (fb\<lparr>fb_slots := h', fb_playbackQueue := q'\<rparr>)"
proof -
  note fr = updatePlaybackDeadlines_frame [OF upd]
  note pl = playable_items_ok [OF con sl]
  have "containers_ok out (fb_nSlots fb) (fb_freeSlots fb) (fb_activeSlots fb) (pq_items q')"
    using con fr(1) by (simp add: containers_ok_def)
  moreover have "slots_ok h' (fb_nSlots fb) (fb_activeSlots fb) (fb_playbackSlot fb)"
    by (rule slots_ok_like [OF sl]) (rule fr(2))
  moreover have "head_ok out (fb_playbackSlot fb) (pq_items q')"
  proof (cases out)
    case None
    have "\<exists>js. pq_items q' = i # js" if "fb_playbackSlot fb = Some i" for i
    proof (rule locked_first)
      obtain ys where ys: "std_sort (\<lambda>i j. PlaybackComparator False (fb_slots fb i) (fb_slots fb j))
          (pq_items q) = Some ys" "sorted (map (\<lambda>i. playback_rank (fb_slots fb i)) ys)"
        using pq.std_sort_sorts [OF pl containers_active(5) [OF con]] by blast
      then show "sorted (map (\<lambda>i. playback_rank (fb_slots fb i)) (pq_items q'))"
        using fr(3) by simp
      have same: "set (pq_items q') = set (pq_items q)" using fr(1) by (metis set_mset_mset)
      show i: "i \<in> set (pq_items q')" using head None that same by simp
      then have "i < fb_nSlots fb" using containers_active(1,2) [OF con] same by blast
      then show "s_state (fb_slots fb i) = StateLocked" using sl that by (simp add: slots_ok_def)
      then show "j = i" if "j \<in> set (pq_items q')" "s_state (fb_slots fb j) = StateLocked" for j
        using pl that i unfolding same playable_items_def by blast
    qed
    then show ?thesis using None by (simp add: head_ok_def)
  qed (use head in \<open>simp add: head_ok_def\<close>)
  ultimately show ?thesis using client by (simp add: fb_inv_def)
qed

lemma fb_inv_update_queue:
  assumes "with_queue updatePlaybackDeadlines fb = Some fb'" and "fb_inv P out fb"
  shows "fb_inv P out fb'"
proof -
  obtain h q where u: "updatePlaybackDeadlines (fb_slots fb) (fb_playbackQueue fb) = Some (h, q)"
    and fb': "fb' = fb\<lparr>fb_slots := h, fb_playbackQueue := q\<rparr>"
    using assms(1) by (auto simp: with_queue_def bind_Some)
  have "case out of Some i \<Rightarrow> fb_playbackSlot fb = Some i
      | None \<Rightarrow> \<forall>i. fb_playbackSlot fb = Some i \<longrightarrow> i \<in> set (pq_items (fb_playbackQueue fb))"
    using assms(2) by (auto simp: fb_inv_def head_ok_def split: option.splits)
  then show ?thesis unfolding fb' by (intro fb_inv_sorted [OF u]) (use assms(2) in \<open>simp_all add: fb_inv_def\<close>)
qed

section \<open>Taking and freeing slots\<close>

lemma set_map_assign:
  "map_of m k = None \<Longrightarrow> set (map_assign k v m) = insert (k, v) (set m)"
  by (induction k v m rule: map_assign.induct) (auto split: if_splits)

lemma mset_map_assign:
  "map_of m k = None \<Longrightarrow> mset (map_assign k v m) = add_mset (k, v) (mset m)"
  by (induction k v m rule: map_assign.induct) (auto split: if_splits)

lemma mset_map_erase:
  assumes "map_ok m" and "map_of m k = Some v"
  shows "mset m = add_mset (k, v) (mset (map_erase k m))"
proof -
  have "mset m = mset (filter (\<lambda>e. fst e = k) m) + mset (map_erase k m)"
    by (simp add: map_erase_def)
  moreover have "filter (\<lambda>e. fst e = k) m = [(k, v)]"
    using assms
  proof (induction m)
    case (Cons e m)
    obtain k' v' where e: "e = (k', v')" by force
    show ?case
    proof (cases "k' = k")
      case True
      then have "k \<notin> set (map fst m)" using Cons.prems(1) e by (auto simp: map_ok_Cons)
      then show ?thesis using True e Cons.prems(2) by (auto simp: filter_empty_conv)
    qed (use Cons e in \<open>auto simp: map_ok_Cons\<close>)
  qed simp
  ultimately show ?thesis by simp
qed

lemma containers_reserve:
  assumes "containers_ok out n free active items" and "free \<noteq> []" and "map_of active k = None"
  shows "containers_ok out n (butlast free) (map_assign k (last free) active) (items @ [last free])"
proof -
  obtain fr i where f: "free = fr @ [i]" using assms(2) by (meson rev_exhaust)
  have m: "mset (map snd (map_assign k i active)) = add_mset i (mset (map snd active))"
    using arg_cong [OF mset_map_assign [OF assms(3), of i], of "image_mset snd"] by simp
  then have all: "mset (fr @ map snd (map_assign k i active)) = mset (free @ map snd active)"
    unfolding f by simp
  have "distinct (fr @ map snd (map_assign k i active))"
    using assms(1) mset_eq_imp_distinct_iff [OF all] by (simp only: containers_ok_def)
  moreover have "set (fr @ map snd (map_assign k i active)) = {..<n}"
    using assms(1) mset_eq_setD [OF all] by (simp only: containers_ok_def)
  ultimately show ?thesis
    using assms(1) m unfolding f containers_ok_def by (simp add: map_ok_assign)
qed

lemma containers_erase:
  assumes con: "containers_ok out n free active items" and k: "map_of active k = Some i"
    and ms: "mset items + (case out of None \<Rightarrow> {#} | Some j \<Rightarrow> {#j#}) =
      add_mset i (mset items' + (case out' of None \<Rightarrow> {#} | Some j \<Rightarrow> {#j#}))"
  shows "containers_ok out' n (free @ [i]) (map_erase k active) items'"
proof -
  have mo: "map_ok active" by (rule containers_active(4) [OF con])
  have m: "mset (map snd active) = add_mset i (mset (map snd (map_erase k active)))"
    using arg_cong [OF mset_map_erase [OF mo k], of "image_mset snd"] by simp
  then have all: "mset ((free @ [i]) @ map snd (map_erase k active)) = mset (free @ map snd active)"
    by simp
  have "distinct ((free @ [i]) @ map snd (map_erase k active))"
    using con mset_eq_imp_distinct_iff [OF all] by (simp only: containers_ok_def)
  moreover have "set ((free @ [i]) @ map snd (map_erase k active)) = {..<n}"
    using con mset_eq_setD [OF all] by (simp only: containers_ok_def)
  ultimately show ?thesis
    using con m ms unfolding containers_ok_def by (simp add: map_ok_erase)
qed

lemma set_map_erase: "set (map_erase k m) = {e \<in> set m. fst e \<noteq> k}"
  by (auto simp: map_erase_def)

text \<open>Freeing a slot that is in use and not locked.\<close>

lemma freeSlot_frame:
  assumes "freeSlot pfx fb = Some (st, fb')" and "getLookupPrefix pfx = (True, k)"
    and "map_of (fb_activeSlots fb) k = Some i" and "s_state (fb_slots fb i) \<noteq> StateLocked"
  shows "fb_nSlots fb' = fb_nSlots fb \<and> fb_freeSlots fb' = fb_freeSlots fb @ [i] \<and>
    fb_activeSlots fb' = map_erase k (fb_activeSlots fb) \<and>
    fb_playbackQueue fb' = fb_playbackQueue fb \<and> fb_playbackSlot fb' = fb_playbackSlot fb \<and>
    frame_buffer.more fb' = frame_buffer.more fb \<and>
    (\<exists>s. fb_slots fb' = (fb_slots fb)(i := s) \<and> slot_ok s \<and> slot_unused s)"
proof -
  define fb1 where "fb1 = fb\<lparr>fb_activeSlots := map_erase k (fb_activeSlots fb)\<rparr>"
  define fb2 where "fb2 = (if s_packetNamespace (fb_slot fb1 i) = NsKey then
                let n = fb_nKeyFrames fb1 - 1 in
                if n \<le> 0 then addBufferEvent NeedKey (Some i) (fb1\<lparr>fb_nKeyFrames := 0\<rparr>)
                else fb1\<lparr>fb_nKeyFrames := n\<rparr>
              else fb1)"
  have get: "getSlot pfx True fb = (Some i, fb1)"
    using assms(2,3) by (simp add: getSlot_def fb1_def)
  have unlocked: "s_state (fb_slot fb1 i) \<noteq> StateLocked" using assms(4) by (simp add: fb1_def)
  obtain r s where s: "Slot_reset (fb_slot fb2 i) = Some (r, s)"
    and fb': "fb' = addBufferEvent FreeSlot (Some i)
      (set_slot i s (fb2\<lparr>fb_freeSlots := fb_freeSlots fb2 @ [i]\<rparr>))"
    using assms(1) unlocked unfolding freeSlot_def get
    by (auto simp: bind_Some Let_def simp flip: fb2_def)
  have same: "fb_nSlots fb2 = fb_nSlots fb" "fb_freeSlots fb2 = fb_freeSlots fb"
    "fb_activeSlots fb2 = map_erase k (fb_activeSlots fb)"
    "fb_playbackQueue fb2 = fb_playbackQueue fb" "fb_playbackSlot fb2 = fb_playbackSlot fb"
    "fb_slots fb2 = fb_slots fb" "frame_buffer.more fb2 = frame_buffer.more fb"
    by (simp_all add: fb2_def fb1_def addBufferEvent_def Let_def)
  have "slot_ok s \<and> slot_unused s"
    using slot_ok_reset [OF s] assms(4) same by simp
  then show ?thesis using same unfolding fb' by (auto simp: addBufferEvent_def set_slot_def)
qed

lemma slots_ok_freed:
  assumes sl: "slots_ok h n active playing" and s: "slot_ok s" "slot_unused s"
    and playing: "playing \<noteq> Some i" and one: "\<And>k'. (k', i) \<in> set active \<Longrightarrow> k' = k"
    and key: "\<And>j. (k, j) \<in> set active \<Longrightarrow> j = i"
  shows "slots_ok (h(i := s)) n (map_erase k active) playing"
proof (rule slots_okI)
  fix j assume j: "j < n"
  show "slot_ok ((h(i := s)) j)" "s_state ((h(i := s)) j) = StateLocked \<longleftrightarrow> playing = Some j"
    "s_state ((h(i := s)) j) = StateLocked \<Longrightarrow> s_stashedState ((h(i := s)) j) \<noteq> StateLocked"
    using slots_okD(1-3) [OF sl j] s playing by (auto simp: slot_unused_def split: if_splits)
  assume un: "j \<notin> snd ` set (map_erase k active)"
  show "slot_unused ((h(i := s)) j)"
  proof (cases "j = i")
    case False
    then have "j \<notin> snd ` set active" using un key by (force simp: set_map_erase)
    then show ?thesis using slots_okD(8) [OF sl j] False by simp
  qed (use s(2) in simp)
next
  fix k' j assume "(k', j) \<in> set (map_erase k active)"
  then have "(k', j) \<in> set active" "j \<noteq> i" using one by (auto simp: set_map_erase)
  then show "regular_key k' \<and> s_packetNamespace ((h(i := s)) j) \<noteq> NsUnknown \<and>
      s_slotPrefix ((h(i := s)) j) = k' \<and> names_ok ((h(i := s)) j)"
    using slots_okD(4-7) [OF sl] by simp
qed

text \<open>A slot in use is found under its own prefix, and every name found leads to a slot in use.\<close>

lemma fb_inv_lookup:
  assumes "fb_inv P out fb" and "i \<in> set (pq_items (fb_playbackQueue fb)) \<or> out = Some i"
  shows "\<exists>k. getLookupPrefix (s_slotPrefix (fb_slots fb i)) = (True, k) \<and>
    map_of (fb_activeSlots fb) k = Some i"
proof -
  have con: "containers_ok out (fb_nSlots fb) (fb_freeSlots fb) (fb_activeSlots fb)
      (pq_items (fb_playbackQueue fb))"
    and sl: "slots_ok (fb_slots fb) (fb_nSlots fb) (fb_activeSlots fb) (fb_playbackSlot fb)"
    using assms(1) by (simp_all add: fb_inv_def)
  obtain k where k: "(k, i) \<in> set (fb_activeSlots fb)"
    using containers_active(2,6) [OF con] assms(2) by blast
  then have "map_of (fb_activeSlots fb) k = Some i"
    using containers_active(4) [OF con] by (simp add: map_of_mem)
  moreover have "getLookupPrefix (s_slotPrefix (fb_slots fb i)) = (True, k)"
    using slots_okD(4,6) [OF sl k] regular_key_facts(1) by simp
  ultimately show ?thesis by blast
qed

section \<open>Interests keep the invariant\<close>

lemma getSlot_False: "getSlot n False fb = (res, fb1) \<Longrightarrow> fb1 = fb"
  by (auto simp: getSlot_def Let_def split: prod.splits option.splits if_splits)

lemma getSlot_active:
  assumes "getSlot n False fb = (Some i, fb1)" and "getLookupPrefix n = (True, k)"
  shows "map_of (fb_activeSlots fb) k = Some i"
  using assms by (auto simp: getSlot_def split: option.splits)

lemma slots_ok_interest:
  assumes sl: "slots_ok h n active playing"
    and one: "\<And>k'. (k', i) \<in> set active \<longleftrightarrow> k' = k"
    and add: "Slot_addInterest nm rnd now (h i) = Some (r, s)" and seg: "segment_of nm k"
  shows "slots_ok (h(i := s)) n active playing"
proof -
  have k: "(k, i) \<in> set active" using one by blast
  note fr = addInterest_frame [OF add seg slots_okD(6) [OF sl k]]
  have same: "s = h i" if "s_state (h i) = StateLocked"
    using add that by (simp add: Slot_addInterest_def)
  have locked: "s_state s = StateLocked \<longleftrightarrow> s_state (h i) = StateLocked" using fr by auto
  show ?thesis
  proof (rule slots_okI)
    fix j assume j: "j < n"
    show "slot_ok ((h(i := s)) j)" "s_state ((h(i := s)) j) = StateLocked \<longleftrightarrow> playing = Some j"
      "s_state ((h(i := s)) j) = StateLocked \<Longrightarrow> s_stashedState ((h(i := s)) j) \<noteq> StateLocked"
      using slots_okD(1-3) [OF sl j] fr locked same by (auto simp: slot_ok_def split: if_splits)
    show "slot_unused ((h(i := s)) j)" if "j \<notin> snd ` set active"
      using slots_okD(8) [OF sl j that] k that by force
  next
    fix k' j assume k': "(k', j) \<in> set active"
    then show "regular_key k' \<and> s_packetNamespace ((h(i := s)) j) \<noteq> NsUnknown \<and>
        s_slotPrefix ((h(i := s)) j) = k' \<and> names_ok ((h(i := s)) j)"
      using slots_okD(4-7) [OF sl k'] fr one by auto
  qed
qed

lemma fb_inv_interest:
  assumes inv: "fb_inv P out fb" and k: "map_of (fb_activeSlots fb) k = Some i"
    and add: "Slot_addInterest nm rnd now (fb_slots fb i) = Some (r, s)" and seg: "segment_of nm k"
  shows "fb_inv P out (set_slot i s fb)"
proof -
  have con: "containers_ok out (fb_nSlots fb) (fb_freeSlots fb) (fb_activeSlots fb)
      (pq_items (fb_playbackQueue fb))"
    and sl: "slots_ok (fb_slots fb) (fb_nSlots fb) (fb_activeSlots fb) (fb_playbackSlot fb)"
    using inv by (simp_all add: fb_inv_def)
  have "(k, i) \<in> set (fb_activeSlots fb)" using k by (rule map_of_SomeD)
  then have "(k', i) \<in> set (fb_activeSlots fb) \<longleftrightarrow> k' = k" for k'
    using containers_active(3) [OF con] by blast
  from slots_ok_interest [OF sl this add seg] inv show ?thesis
    by (simp add: fb_inv_def set_slot_def)
qed

text \<open>A new slot for a packet goes into all containers.\<close>

lemma setPrefix_regular:
  assumes "setPrefix k s = Some s'" and "regular_key k"
  shows "s_slotPrefix s' = k \<and> s_packetNamespace s' \<noteq> NsUnknown \<and> s_state s' = s_state s \<and>
    s_stashedState s' = s_stashedState s \<and> s_consistency s' = s_consistency s \<and>
    s_rightmostSegment s' = s_rightmostSegment s \<and> s_activeSegments s' = s_activeSegments s"
  using assms regular_key_facts(2) [OF assms(2)] by (auto simp: setPrefix_def bind_Some split: if_splits)

lemma fb_inv_reserveSlot:
  assumes inv: "fb_inv P out fb" and res: "reserveSlot n fb = Some (slot, fb')"
    and reg: "getLookupPrefix n = (True, k)" "regular_key k"
    and free: "map_of (fb_activeSlots fb) k = None"
  shows "fb_inv P out fb' \<and> (\<forall>i. slot = Some i \<longrightarrow> map_of (fb_activeSlots fb') k = Some i)"
proof (cases "fb_freeSlots fb = []")
  case True
  then show ?thesis using res inv by (simp add: reserveSlot_def)
next
  case False
  define i where "i = last (fb_freeSlots fb)"
  have con: "containers_ok out (fb_nSlots fb) (fb_freeSlots fb) (fb_activeSlots fb)
      (pq_items (fb_playbackQueue fb))"
    and sl: "slots_ok (fb_slots fb) (fb_nSlots fb) (fb_activeSlots fb) (fb_playbackSlot fb)"
    and head: "head_ok out (fb_playbackSlot fb) (pq_items (fb_playbackQueue fb))"
    using inv by (simp_all add: fb_inv_def)
  obtain s where s: "setPrefix k (fb_slots fb i) = Some s"
    using res False reg by (auto simp: reserveSlot_def setSlot_def i_def bind_Some Let_def)
  define fb1 where "fb1 = (set_slot i s (fb\<lparr>fb_activeSlots :=
      map_assign k i (fb_activeSlots fb)\<rparr>))\<lparr>fb_freeSlots := butlast (fb_freeSlots fb)\<rparr>"
  obtain fb2 where q: "with_queue (pushSlot i) fb1 = Some fb2"
    and fb': "slot = Some i" "fb' = fb2 \<or> (\<exists>a b. fb' = fb2\<lparr>fb_lastKeySeqNo := a, fb_nKeyFrames := b\<rparr>)"
    using res False reg s
    by (auto simp: reserveSlot_def setSlot_def bind_Some set_slot_def fb1_def Let_def
        simp flip: i_def split: if_splits)
  obtain h' q' where u: "updatePlaybackDeadlines (fb_slots fb1)
      ((fb_playbackQueue fb1)\<lparr>pq_items := pq_items (fb_playbackQueue fb1) @ [i]\<rparr>) = Some (h', q')"
    and fb2: "fb2 = fb1\<lparr>fb_slots := h', fb_playbackQueue := q'\<rparr>"
    using q by (auto simp: with_queue_def pushSlot_def bind_Some)
  note sp = setPrefix_regular [OF s reg(2)]
  have "i \<in> set (fb_freeSlots fb)" using False by (simp add: i_def)
  then have unused: "(k', i) \<notin> set (fb_activeSlots fb)" for k'
    using containers_active(1) [OF con] by blast
  have i_n: "i < fb_nSlots fb" using con \<open>i \<in> set (fb_freeSlots fb)\<close> by (auto simp: containers_ok_def)
  have con1: "containers_ok out (fb_nSlots fb1) (fb_freeSlots fb1) (fb_activeSlots fb1)
      (pq_items (fb_playbackQueue fb1) @ [i])"
    using containers_reserve [OF con False free] by (simp add: fb1_def set_slot_def i_def)
  have sl1: "slots_ok (fb_slots fb1) (fb_nSlots fb1) (fb_activeSlots fb1) (fb_playbackSlot fb1)"
  proof (rule slots_okI)
    fix j assume j: "j < fb_nSlots fb1"
    then have j': "j < fb_nSlots fb" by (simp add: fb1_def set_slot_def)
    show "slot_ok (fb_slots fb1 j)" "s_state (fb_slots fb1 j) = StateLocked \<longleftrightarrow> fb_playbackSlot fb1 = Some j"
      "s_state (fb_slots fb1 j) = StateLocked \<Longrightarrow> s_stashedState (fb_slots fb1 j) \<noteq> StateLocked"
      using slots_okD(1-3) [OF sl j'] sp by (auto simp: fb1_def set_slot_def slot_ok_def)
    show "slot_unused (fb_slots fb1 j)" if "j \<notin> snd ` set (fb_activeSlots fb1)"
      using slots_okD(8) [OF sl j'] that by (auto simp: fb1_def set_slot_def set_map_assign [OF free])
  next
    fix k' j assume that: "(k', j) \<in> set (fb_activeSlots fb1)"
    show "regular_key k' \<and> s_packetNamespace (fb_slots fb1 j) \<noteq> NsUnknown \<and>
        s_slotPrefix (fb_slots fb1 j) = k' \<and> names_ok (fb_slots fb1 j)"
    proof (cases "j = i")
      case True
      then have "k' = k" using that unused by (auto simp: fb1_def set_slot_def set_map_assign [OF free])
      moreover have "slot_unused (fb_slots fb i)"
        using slots_okD(8) [OF sl i_n] unused by force
      ultimately show ?thesis using sp reg True
        by (auto simp: fb1_def set_slot_def names_ok_def slot_unused_def)
    next
      case False
      then have "(k', j) \<in> set (fb_activeSlots fb)"
        using that by (auto simp: fb1_def set_slot_def set_map_assign [OF free])
      then show ?thesis using slots_okD(4-7) [OF sl] False by (simp add: fb1_def set_slot_def)
    qed
  qed
  have "fb_inv P out fb2" unfolding fb2
    by (rule fb_inv_sorted [OF u _ sl1])
      (use con1 head inv in \<open>auto simp: fb_inv_def head_ok_def fb1_def set_slot_def split: option.splits\<close>)
  moreover have "map_of (fb_activeSlots fb2) k = Some i"
    using containers_active(4) [OF con] by (simp add: fb2 fb1_def set_slot_def map_of_assign)
  ultimately show ?thesis using fb' by auto
qed

lemma fb_inv_find_or_reserve:
  assumes inv: "fb_inv P out fb"
    and res: "(case getSlot n False fb of (Some i, fb1) \<Rightarrow> Some (Some i, fb1)
       | (None, fb1) \<Rightarrow> reserveSlot n fb1) = Some (slot, fb')"
    and reg: "getLookupPrefix n = (True, k)" "regular_key k"
  shows "fb_inv P out fb' \<and> (\<forall>i. slot = Some i \<longrightarrow> map_of (fb_activeSlots fb') k = Some i)"
proof (cases "map_of (fb_activeSlots fb) k")
  case None
  then have "getSlot n False fb = (None, fb)" using reg by (simp add: getSlot_def)
  then show ?thesis using fb_inv_reserveSlot [OF inv _ reg None] res by simp
next
  case (Some i)
  then have "getSlot n False fb = (Some i, fb)" using reg by (simp add: getSlot_def)
  then show ?thesis using res inv Some by simp
qed

lemma fb_inv_interestIssued:
  assumes inv: "fb_inv P out fb" and res: "fb_interestIssued n rnd now fb = Some (st, fb')"
    and reg: "segment_of n k"
  shows "fb_inv P out fb'"
proof -
  note reg' = segment_of_facts(1,2) [OF reg]
  obtain slot fb1 where r: "(case getSlot n False fb of (Some i, fb1) \<Rightarrow> Some (Some i, fb1)
       | (None, fb1) \<Rightarrow> reserveSlot n fb1) = Some (slot, fb1)"
    using res by (auto simp: fb_interestIssued_def bind_Some)
  note inv1 = fb_inv_find_or_reserve [OF inv r reg']
  show ?thesis
  proof (cases slot)
    case None
    then show ?thesis using res inv1 unfolding fb_interestIssued_def r by simp
  next
    case (Some i)
    obtain rr s where add: "Slot_addInterest n rnd now (fb_slot fb1 i) = Some (rr, s)"
      and fb': "fb' = set_slot i s fb1 \<or> fb' = (set_slot i s fb1)\<lparr>fb_isEstimationNeeded := True\<rparr>"
      using res Some unfolding fb_interestIssued_def r by (auto simp: bind_Some Let_def split: if_splits)
    have "fb_inv P out (set_slot i s fb1)"
      using fb_inv_interest [OF _ _ add reg] inv1 Some by blast
    then show ?thesis using fb' by auto
  qed
qed

lemma fb_inv_issue_range:
  assumes "issue_range k i [a..b] rnds now par fb = Some (names, fb')"
    and "fb_inv P out fb" and "map_of (fb_activeSlots fb) k = Some i" and "regular_key k"
    and "0 \<le> a" and "a + int (length rnds) \<le> 2 ^ 30"
  shows "fb_inv P out fb'"
  using assms
proof (induction "nat (b - a + 1)" arbitrary: a rnds fb names)
  case (Suc m)
  have "a \<le> b" using Suc.hyps(2) by linarith
  then have range: "[a..b] = a # [a + 1..b]" by (rule upto_rec1)
  have m: "m = nat (b - (a + 1) + 1)" using Suc.hyps(2) by linarith
  obtain segName where sn: "appendSegment (appendDataKind k par) (of_int a) = Some segName"
    using Suc.prems(1) unfolding range by (auto simp: bind_Some)
  obtain rnd rnds' where rnds: "rnds = rnd # rnds'"
    using Suc.prems(1) unfolding range by (cases rnds) (auto simp: sn)
  obtain r s where add: "Slot_addInterest segName rnd now (fb_slot fb i) = Some (r, s)"
    using Suc.prems(1) unfolding range rnds by (auto simp: sn bind_Some)
  have rest: "(if RESULT_GOOD r then do {
       (names, fb2) \<leftarrow> issue_range k i [a + 1..b] rnds' now par (set_slot i s fb);
       Some (segName # names, fb2)
     } else Some ([], set_slot i s fb)) = Some (names, fb')"
    using Suc.prems(1) unfolding range rnds by (cases "RESULT_GOOD r") (simp_all add: sn add Let_def)
  have len: "length rnds = Suc (length rnds')" by (simp add: rnds)
  then have "uint (of_int a :: u64) < 2 ^ 30"
    using Suc.prems(5,6) by (simp add: unsigned_of_int take_bit_eq_mod)
  then have "segment_of segName k" by (rule append_segment_of [OF Suc.prems(4) _ sn])
  then have inv: "fb_inv P out (set_slot i s fb)"
    by (rule fb_inv_interest [OF Suc.prems(2,3) add])
  have k: "map_of (fb_activeSlots (set_slot i s fb)) k = Some i"
    using Suc.prems(3) by (simp add: set_slot_def)
  show ?case
  proof (cases "RESULT_GOOD r")
    case True
    then obtain names' where n: "issue_range k i [a + 1..b] rnds' now par (set_slot i s fb) = Some (names', fb')"
      using rest by (auto simp: bind_Some)
    show ?thesis
      by (rule Suc.hyps(1) [OF m n inv k Suc.prems(4)]) (use Suc.prems(5,6) len in simp_all)
  qed (use rest inv in auto)
qed simp

lemma fb_inv_interestRangeIssued:
  assumes inv: "fb_inv P out fb"
    and res: "interestRangeIssued k a b par rnds now fb = Some (st, names, fb')"
    and reg: "\<And>no. getPacketNumber k = Some no \<Longrightarrow> 0 \<le> no \<Longrightarrow> regular_key k" and rng: "0 \<le> a" "a + int (length rnds) \<le> 2 ^ 30"
  shows "fb_inv P out fb'"
proof -
  obtain no where no: "getPacketNumber k = Some no"
    using res by (auto simp: interestRangeIssued_def bind_Some)
  show ?thesis
  proof (cases "no < 0 \<or> a > b")
    case False
    then have g: "(no < 0 \<or> a > b) = False" by simp
    have key: "regular_key k" using reg no False by simp
    note reg' = regular_key_facts(1) [OF key] key
    obtain slot fb1 where r: "(case getSlot k False fb of (Some i, fb1) \<Rightarrow> Some (Some i, fb1)
         | (None, fb1) \<Rightarrow> reserveSlot k fb1) = Some (slot, fb1)"
      using res unfolding interestRangeIssued_def no Option.bind.bind_lunit g if_False by (auto simp: bind_Some)
    note inv1 = fb_inv_find_or_reserve [OF inv r reg']
    show ?thesis
    proof (cases slot)
      case None
      then show ?thesis using res inv1 unfolding interestRangeIssued_def no Option.bind.bind_lunit g if_False r by simp
    next
      case (Some i)
      then obtain fb2 where iss: "issue_range k i [a..b] rnds now par fb1 = Some (names, fb2)"
        and fb': "fb' = fb2\<lparr>fb_isEstimationNeeded := True\<rparr>"
        using res unfolding interestRangeIssued_def no Option.bind.bind_lunit g if_False r by (auto simp: bind_Some)
      have "fb_inv P out fb2"
        using fb_inv_issue_range [OF iss _ _ key rng] inv1 Some by blast
      then show ?thesis using fb' by simp
    qed
  qed (use res inv no in \<open>auto simp: interestRangeIssued_def\<close>)
qed

lemma fb_inv_interestTimeout:
  assumes inv: "fb_inv P out fb" and res: "interestTimeout n fb = Some fb'"
  shows "fb_inv P out fb'"
proof -
  obtain slot fb1 where g: "getSlot n False fb = (slot, fb1)" by force
  then have [simp]: "fb1 = fb" using getSlot_False by blast
  show ?thesis
  proof (cases slot)
    case None
    then show ?thesis using res inv g by (simp add: interestTimeout_def)
  next
    case (Some i)
    then obtain r s where m: "Slot_markMissing n (fb_slot fb i) = Some (r, s)"
      and fb': "fb' = (if RESULT_GOOD r then addBufferEvent Timeout (Some i) (set_slot i s fb)
        else set_slot i s fb)"
      using res g by (auto simp: interestTimeout_def bind_Some Let_def)
    have "fb_inv P out (set_slot i s fb)" by (rule fb_inv_set_slot [OF inv slot_like_markMissing [OF m]])
    then show ?thesis by (simp add: fb')
  qed
qed

section \<open>Durations keep the invariant\<close>

lemma duration_loop_items:
  "duration_loop h e i js acc q = Some (d, q') \<Longrightarrow> pq_items q' = pq_items q"
proof (induction js arbitrary: i acc q)
  case (Cons j js)
  from Cons.prems obtain q1 acc' i' where "duration_loop h e i' js acc' q1 = Some (d, q')"
    and "pq_items q1 = pq_items q"
    by (auto simp: bind_Some Let_def split: if_splits)
  then show ?case using Cons.IH by metis
qed simp

lemma getPlaybackDuration_items:
  "getPlaybackDuration h e q = Some (d, q') \<Longrightarrow> pq_items q' = pq_items q"
  by (auto simp: getPlaybackDuration_def duration_loop_items split: list.splits)

lemma fb_inv_getEstimatedBufferSize:
  "getEstimatedBufferSize fb = Some (d, fb') \<Longrightarrow> fb_inv P out fb \<Longrightarrow> fb_inv P out fb'"
  by (auto simp: getEstimatedBufferSize_def estimateBufferSize_def bind_Some split: if_splits
      dest!: getPlaybackDuration_items simp: fb_inv_queue_same)

lemma getPlayableBufferSize_frame:
  "getPlayableBufferSize fb = Some (d, fb') \<Longrightarrow>
   \<exists>q f. fb' = stat f (fb\<lparr>fb_playbackQueue := q\<rparr>) \<and> pq_items q = pq_items (fb_playbackQueue fb)"
  by (auto simp: getPlayableBufferSize_def bind_Some dest!: getPlaybackDuration_items)

lemma fb_inv_getPlayableBufferSize:
  "getPlayableBufferSize fb = Some (d, fb') \<Longrightarrow> fb_inv P out fb \<Longrightarrow> fb_inv P out fb'"
  by (auto dest!: getPlayableBufferSize_frame simp: fb_inv_queue_same)

lemma fb_inv_updateCurrentRate: "fb_inv P out fb \<Longrightarrow> fb_inv P out (updateCurrentRate rate fb)"
  by (simp add: updateCurrentRate_def updatePlaybackRate_def fb_inv_queue_same)

lemma fb_inv_track_rtt: "track_rtt sg fb = Some fb' \<Longrightarrow> fb_inv P out fb \<Longrightarrow> fb_inv P out fb'"
  by (auto simp: track_rtt_def bind_Some Let_def split: if_splits)

section \<open>Freeing keeps the invariant\<close>

text \<open>
  The ghost arguments \<open>items\<close> and \<open>playing\<close> are the queue and the playing slot before the slot \<open>i\<close>
  was taken out; \<open>items'\<close> and \<open>out'\<close> what is left.
\<close>

lemma freeSlot_containers:
  assumes fr: "freeSlot (s_slotPrefix (fb_slots fb i)) fb = Some (st, fb')"
    and con: "containers_ok out (fb_nSlots fb) (fb_freeSlots fb) (fb_activeSlots fb) items"
    and sl: "slots_ok (fb_slots fb) (fb_nSlots fb) (fb_activeSlots fb) playing"
    and i: "i \<in> set items \<or> out = Some i" and playing: "playing \<noteq> Some i"
    and ms: "mset items + (case out of None \<Rightarrow> {#} | Some j \<Rightarrow> {#j#}) =
      add_mset i (mset items' + (case out' of None \<Rightarrow> {#} | Some j \<Rightarrow> {#j#}))"
  shows "containers_ok out' (fb_nSlots fb') (fb_freeSlots fb') (fb_activeSlots fb') items' \<and>
    slots_ok (fb_slots fb') (fb_nSlots fb') (fb_activeSlots fb') playing \<and>
    fb_playbackQueue fb' = fb_playbackQueue fb \<and> fb_playbackSlot fb' = fb_playbackSlot fb \<and>
    frame_buffer.more fb' = frame_buffer.more fb"
proof -
  obtain k where k: "(k, i) \<in> set (fb_activeSlots fb)"
    using containers_active(2,6) [OF con] i by blast
  have pre: "getLookupPrefix (s_slotPrefix (fb_slots fb i)) = (True, k)"
    using slots_okD(4,6) [OF sl k] regular_key_facts(1) by simp
  have m: "map_of (fb_activeSlots fb) k = Some i"
    using k containers_active(4) [OF con] by (simp add: map_of_mem)
  have "i < fb_nSlots fb" using containers_active(1) [OF con k] by simp
  then have unlocked: "s_state (fb_slots fb i) \<noteq> StateLocked"
    using sl playing by (simp add: slots_ok_def)
  note f = freeSlot_frame [OF fr pre m unlocked]
  obtain s where s: "fb_slots fb' = (fb_slots fb)(i := s)" "slot_ok s" "slot_unused s"
    using f by (elim conjE exE) (rule that)
  have "slots_ok ((fb_slots fb)(i := s)) (fb_nSlots fb) (map_erase k (fb_activeSlots fb)) playing"
  proof (rule slots_ok_freed [OF sl s(2,3) playing])
    show "k' = k" if "(k', i) \<in> set (fb_activeSlots fb)" for k'
      by (rule containers_active(3) [OF con that k])
    show "j = i" if "(k, j) \<in> set (fb_activeSlots fb)" for j
      using that m map_of_mem [OF containers_active(4) [OF con]] by simp
  qed
  then show ?thesis using f s containers_erase [OF con m ms] by simp
qed

lemma updatePlaybackDeadlines_slots_ok:
  assumes "updatePlaybackDeadlines h q = Some (h', q')" and "slots_ok h n active playing"
  shows "slots_ok h' n active playing"
  using slots_ok_like [OF assms(2)] updatePlaybackDeadlines_frame(2) [OF assms(1)] by blast

text \<open>The first slot is recycled while nothing is played.\<close>

lemma fb_inv_recycle_first:
  assumes inv: "fb_inv P None fb" and idle: "fb_playbackSlot fb = None"
    and res: "recycle_first fb = Some fb'"
  shows "fb_inv P None fb' \<and> fb_playbackSlot fb' = None"
proof -
  obtain i js where items: "pq_items (fb_playbackQueue fb) = i # js"
    using res by (auto simp: recycle_first_def peekSlot_def bind_Some split: list.splits)
  obtain h' q' st where u: "updatePlaybackDeadlines (fb_slots fb)
      ((fb_playbackQueue fb)\<lparr>pq_items := js\<rparr>) = Some (h', q')"
    and fr: "freeSlot (s_slotPrefix (h' i)) (fb\<lparr>fb_slots := h', fb_playbackQueue := q'\<rparr>) = Some (st, fb')"
    using res items
    by (auto simp: recycle_first_def peekSlot_def with_queue_def popSlot_def bind_Some)
  let ?fb1 = "fb\<lparr>fb_slots := h', fb_playbackQueue := q'\<rparr>"
  have con: "containers_ok None (fb_nSlots ?fb1) (fb_freeSlots ?fb1) (fb_activeSlots ?fb1) (i # js)"
    using inv items by (simp add: fb_inv_def)
  have sl: "slots_ok (fb_slots ?fb1) (fb_nSlots ?fb1) (fb_activeSlots ?fb1) None"
    using updatePlaybackDeadlines_slots_ok [OF u] inv idle by (simp add: fb_inv_def)
  have "mset (pq_items q') = mset js" using updatePlaybackDeadlines_frame(1) [OF u] by simp
  then have ms: "mset (i # js) + (case None of None \<Rightarrow> {#} | Some j \<Rightarrow> {#j#}) =
      add_mset i (mset (pq_items q') + (case None of None \<Rightarrow> {#} | Some j \<Rightarrow> {#j#}))" by simp
  have "freeSlot (s_slotPrefix (fb_slots ?fb1 i)) ?fb1 = Some (st, fb')" using fr by simp
  from freeSlot_containers [OF this con sl _ _ ms] show ?thesis
    using inv idle by (simp add: fb_inv_def head_ok_def)
qed

lemma fb_inv_recycle_loop:
  assumes "recycle_loop d fb = Some fb'"
  shows "fb_inv P None fb \<longrightarrow> fb_playbackSlot fb = None \<longrightarrow>
    fb_inv P None fb' \<and> fb_playbackSlot fb' = None"
proof (rule recycle_loop.raw_induct [OF _ assms], goal_cases)
  case (1 loop d fb fb')
  show ?case
  proof (intro impI)
    assume pre: "fb_inv P None fb" "fb_playbackSlot fb = None"
    show "fb_inv P None fb' \<and> fb_playbackSlot fb' = None"
    proof (cases "d > fb_targetSizeMs fb")
      case True
      obtain fb1 sz q where fb1: "recycle_first fb = Some fb1"
        and q: "getPlaybackDuration (fb_slots fb1) True (fb_playbackQueue fb1) = Some (sz, q)"
        and rest: "loop sz (fb1\<lparr>fb_playbackQueue := q\<rparr>) = Some fb'"
        using "1"(2) True by (auto simp: bind_Some)
      show ?thesis
        using "1"(1) [OF rest] fb_inv_recycle_first [OF pre fb1] getPlaybackDuration_items [OF q]
        by (simp add: fb_inv_queue_same)
    qed (use "1"(2) pre in simp)
  qed
qed

lemma getEstimatedBufferSize_playbackSlot:
  "getEstimatedBufferSize fb = Some (d, fb') \<Longrightarrow> fb_playbackSlot fb' = fb_playbackSlot fb"
  by (auto simp: getEstimatedBufferSize_def estimateBufferSize_def bind_Some stat_def split: if_splits)

lemma fb_inv_recycleOldSlots:
  assumes "fb_inv P None fb" "fb_playbackSlot fb = None" "recycleOldSlots fb = Some fb'"
  shows "fb_inv P None fb' \<and> fb_playbackSlot fb' = None"
proof -
  obtain d fb1 fb2 where 1: "getEstimatedBufferSize fb = Some (d, fb1)"
    and 2: "recycle_loop d fb1 = Some fb2" and 3: "fb' = fb2\<lparr>fb_isEstimationNeeded := True\<rparr>"
    using assms(3) by (auto simp: recycleOldSlots_def bind_Some)
  show ?thesis
    using fb_inv_recycle_loop [OF 2] fb_inv_getEstimatedBufferSize [OF 1 assms(1)]
      getEstimatedBufferSize_playbackSlot [OF 1] assms(2) 3 by simp
qed

lemma fb_inv_recycle_count:
  "recycle_count n fb = Some fb' \<Longrightarrow> fb_inv P None fb \<Longrightarrow> fb_playbackSlot fb = None \<Longrightarrow>
   fb_inv P None fb' \<and> fb_playbackSlot fb' = None"
proof (induction n arbitrary: fb)
  case (Suc n)
  show ?case
  proof (cases "pq_items (fb_playbackQueue fb) = []")
    case False
    then obtain fb1 where "recycle_first fb = Some fb1" "recycle_count n fb1 = Some fb'"
      using Suc.prems(1) by (auto simp: bind_Some)
    then show ?thesis using Suc.IH fb_inv_recycle_first Suc.prems(2,3) by blast
  qed (use Suc.prems in simp)
qed simp

lemma fb_inv_recycleOldSlots_n:
  "fb_inv P None fb \<Longrightarrow> fb_playbackSlot fb = None \<Longrightarrow> recycleOldSlots_n n fb = Some fb' \<Longrightarrow>
   fb_inv P None fb' \<and> fb_playbackSlot fb' = None"
  by (auto simp: recycleOldSlots_n_def bind_Some dest!: fb_inv_recycle_count)

text \<open>The queue is cleaned while the slot that was played is out of it.\<close>

lemma fb_inv_clean_loop:
  assumes "clean_loop dn kn an kept rest fb = Some fb'"
    and "fb_inv P (Some p) fb" and "pq_items (fb_playbackQueue fb) = kept @ rest"
  shows "fb_inv P (Some p) fb'"
  using assms
proof (induction dn kn an kept rest fb arbitrary: fb' rule: clean_loop.induct)
  case (2 dn kn an kept i rest fb)
  show ?case
  proof (cases "outdated dn kn an (fb_slot fb i)")
    case True
    define fb1 where "fb1 = stat ((if s_packetNamespace (fb_slot fb i) = NsKey then stat_inc DroppedKeyNum
        else id) \<circ> stat_inc DroppedNum)
      (fb\<lparr>fb_playbackQueue := (fb_playbackQueue fb)\<lparr>pq_items := kept @ rest\<rparr>\<rparr>)"
    obtain st fb2 where fr: "freeSlot (s_slotPrefix (fb_slots fb1 i)) fb1 = Some (st, fb2)"
      and rest: "clean_loop dn kn an kept rest fb2 = Some fb'"
      using "2.prems"(1) True by (auto simp: bind_Some Let_def simp flip: fb1_def)
    have con: "containers_ok (Some p) (fb_nSlots fb1) (fb_freeSlots fb1) (fb_activeSlots fb1)
        (kept @ i # rest)"
      and sl: "slots_ok (fb_slots fb1) (fb_nSlots fb1) (fb_activeSlots fb1) (Some p)"
      and more: "P (frame_buffer.more fb1)" "fb_playbackSlot fb1 = Some p"
      using "2.prems"(2,3) by (auto simp: fb_inv_def fb1_def stat_def head_ok_def)
    have np: "Some p \<noteq> Some i" using containers_active(6) [OF con] by auto
    have ms: "mset (kept @ i # rest) + (case Some p of None \<Rightarrow> {#} | Some j \<Rightarrow> {#j#}) =
      add_mset i (mset (kept @ rest) + (case Some p of None \<Rightarrow> {#} | Some j \<Rightarrow> {#j#}))" by simp
    note f = freeSlot_containers [OF fr con sl _ np ms]
    have q: "pq_items (fb_playbackQueue fb2) = kept @ rest"
      using f by (simp add: fb1_def stat_def)
    then have "fb_inv P (Some p) fb2" using f more by (simp add: fb_inv_def head_ok_def)
    then show ?thesis using "2.IH"(1) [OF True refl refl _ refl] rest q fr
      by (auto simp: fb1_def)
  qed (use 2 in simp)
qed simp

lemma fb_inv_cleanBuffer:
  "cleanBuffer dn kn an fb = Some fb' \<Longrightarrow> fb_inv P (Some p) fb \<Longrightarrow> fb_inv P (Some p) fb'"
  by (auto simp: cleanBuffer_def bind_Some dest!: fb_inv_clean_loop)

section \<open>Data and playout keep the invariant\<close>

text \<open>
  What the buffer needs of its client: the callbacks, which run in the middle of operations and
  may issue interests through the buffer, keep the invariant. A retransmission is asked for a slot
  of the playback queue.
\<close>

locale buffer_client =
  fixes P :: "'a \<Rightarrow> bool" and cbs :: "'a frame_buffer_scheme callbacks"
  assumes key_needed_inv: "cb_onKeyNeeded cbs = Some f \<Longrightarrow> f seqNo fb = Some fb' \<Longrightarrow>
      fb_inv P out fb \<Longrightarrow> fb_inv P out fb'"
    and rtx_needed_inv: "cb_onRetransmissionNeeded cbs = Some g \<Longrightarrow> g i fb = Some fb' \<Longrightarrow>
      i \<in> set (pq_items (fb_playbackQueue fb)) \<Longrightarrow> fb_inv P out fb \<Longrightarrow> fb_inv P out fb'"
begin

lemma onKeyNeeded_inv: "onKeyNeeded cbs seqNo fb = Some fb' \<Longrightarrow> fb_inv P out fb \<Longrightarrow> fb_inv P out fb'"
  by (auto simp: onKeyNeeded_def dest: key_needed_inv split: option.splits)

lemma retransmission_body_inv:
  assumes res: "retransmission_body decode (cb_onRetransmissionNeeded cbs) i fb = Some fb'"
    and inv: "fb_inv P out fb" and i: "i \<in> set (pq_items (fb_playbackQueue fb))"
  shows "fb_inv P out fb' \<and> pq_items (fb_playbackQueue fb') = pq_items (fb_playbackQueue fb)"
proof -
  define fb1 where "fb1 = set_slot i (snd (Slot_recover decode (fb_slot fb i))) fb"
  have inv1: "fb_inv P out fb1" unfolding fb1_def by (rule fb_inv_set_slot [OF inv slot_like_recover])
  have items: "pq_items (fb_playbackQueue fb1) = pq_items (fb_playbackQueue fb)"
    by (simp add: fb1_def set_slot_def)
  consider "fb' = fb" | "fb' = fb1"
    | g where "cb_onRetransmissionNeeded cbs = Some g" "g i fb1 = Some fb'"
        "pq_items (fb_playbackQueue fb') = pq_items (fb_playbackQueue fb1)"
    using res by (auto simp: retransmission_body_def bind_Some Let_def fb1_def
        split: if_splits prod.splits option.splits)
  then show ?thesis
  proof cases
    case 3
    then show ?thesis using rtx_needed_inv [OF 3(1,2) _ inv1] items i by simp
  qed (use inv inv1 items in simp_all)
qed

lemma retransmission_loop_inv:
  "retransmission_loop decode (cb_onRetransmissionNeeded cbs) now d items k fb = Some fb' \<Longrightarrow>
   fb_inv P out fb \<Longrightarrow> pq_items (fb_playbackQueue fb) = items \<Longrightarrow> fb_inv P out fb'"
proof (induction "length items - k" arbitrary: k fb)
  case (Suc n)
  show ?case
  proof (cases "fb' = fb")
    case False
    obtain fb1 where "retransmission_body decode (cb_onRetransmissionNeeded cbs) (items ! k) fb = Some fb1"
      and rest: "retransmission_loop decode (cb_onRetransmissionNeeded cbs) now d items (k + 1) fb1 = Some fb'"
      using Suc.prems(1) False
      by (subst (asm) retransmission_loop.simps) (auto simp: bind_Some Let_def split: if_splits)
    moreover have "items ! k \<in> set (pq_items (fb_playbackQueue fb))"
      using Suc.hyps(2) Suc.prems(3) by simp
    ultimately have "fb_inv P out fb1 \<and> pq_items (fb_playbackQueue fb1) = items"
      using retransmission_body_inv Suc.prems(2,3) by blast
    then show ?thesis using Suc.hyps(1) [OF _ rest] Suc.hyps(2) by simp
  qed (use Suc.prems in simp)
qed (subst (asm) retransmission_loop.simps, simp)

lemma checkRetransmissions_inv:
  "checkRetransmissions decode (cb_onRetransmissionNeeded cbs) now fb = Some fb' \<Longrightarrow>
   fb_inv P out fb \<Longrightarrow> fb_inv P out fb'"
  by (auto simp: checkRetransmissions_def bind_Some intro: retransmission_loop_inv)

lemma segment_accepted_inv:
  assumes res: "segment_accepted cbs now i os oc ns fb = Some (ty, fb')" and inv: "fb_inv P out fb"
  shows "fb_inv P out fb'"
proof -
  obtain fb1 where fb1: "(if oc \<noteq> s_consistency (fb_slot fb i) then do {
          fb'' \<leftarrow> with_queue updatePlaybackDeadlines
            (if cHeaderMeta (s_consistency (fb_slot fb i))
             then updateCurrentRate (double_of_bits (s_packetRate (fb_slot fb i))) fb else fb);
          Some (fb''\<lparr>fb_isEstimationNeeded := True\<rparr>)
        } else Some fb) = Some fb1"
    using res unfolding segment_accepted_def Let_def by (auto simp: bind_Some)
  have inv1: "fb_inv P out fb1"
    using fb1 inv fb_inv_updateCurrentRate [OF inv]
    by (auto simp: bind_Some split: if_splits dest!: fb_inv_update_queue)
  obtain fb2 where fb2: "(if cPrefixMeta (s_consistency (fb_slot fb1 i)) \<and>
          s_packetNamespace (fb_slot fb1 i) = NsDelta \<and>
          fb_lastKeySeqNo fb1 < getPairedFrameNumber (fb_slot fb1 i)
        then onKeyNeeded cbs (getPairedFrameNumber (fb_slot fb1 i)) fb1 else Some fb1) = Some fb2"
    using res unfolding segment_accepted_def Let_def fb1 by (auto simp: bind_Some)
  have inv2: "fb_inv P out fb2"
    using fb2 inv1 onKeyNeeded_inv by (auto split: if_splits)
  define fb3 where "fb3 = (if os = StateNew then addBufferEvent FirstSegment (Some i) fb2 else fb2)"
  define fb4 where "fb4 = (if ns = StateReady
      then addBufferEvent Ready (Some i) (stat (count_ready (fb_slot fb3 i)) fb3) else fb3)"
  have inv4: "fb_inv P out fb4" using inv2 by (simp add: fb3_def fb4_def)
  obtain fb5 where fb5: "(if s_nRtx (fb_slot fb4 i) = 0 then do {
             sg \<leftarrow> s_recentSegment (fb_slot fb4 i);
             track_rtt sg fb4
           } else Some fb4) = Some fb5"
    and fb': "(if fb_retransmissionsEnabled fb5
           then checkRetransmissions (cb_decode cbs) (cb_onRetransmissionNeeded cbs) now fb5
           else Some fb5) = Some fb'"
    using res unfolding segment_accepted_def Let_def fb1 fb2 Option.bind.bind_lunit
      fb3_def [symmetric] fb4_def [symmetric] by (auto simp: bind_Some)
  have inv5: "fb_inv P out fb5"
    using fb5 inv4 fb_inv_track_rtt by (auto simp: bind_Some split: if_splits)
  then show ?thesis using fb' checkRetransmissions_inv by (auto split: if_splits)
qed

lemma newData_inv:
  assumes res: "newData cbs n content nowUsec now fb = Some (ev, fb')"
    and inv: "fb_inv P out fb" and n: "name_size n < 2 ^ 63" "small_data n"
  shows "fb_inv P out fb'"
proof -
  have con: "containers_ok out (fb_nSlots fb) (fb_freeSlots fb) (fb_activeSlots fb)
      (pq_items (fb_playbackQueue fb))"
    and sl: "slots_ok (fb_slots fb) (fb_nSlots fb) (fb_activeSlots fb) (fb_playbackSlot fb)"
    using inv by (simp_all add: fb_inv_def)
  have "\<forall>(k, i) \<in> set (fb_activeSlots fb). regular_key k" using sl by (auto simp: slots_ok_def)
  then have "fb_fixRightmost n fb = fb" by (rule fb_fixRightmost_regular [OF _ n(1)])
  then have fixr: "(if fb_isWaitingForRightmost fb then fb_fixRightmost n fb else fb) = fb" by simp
  obtain slot fb2 where "getSlot n False fb = (slot, fb2)" by force
  then have g: "getSlot n False fb = (slot, fb)" using getSlot_False by blast
  show ?thesis
  proof (cases slot)
    case None
    then show ?thesis using res inv by (simp add: newData_def fixr g)
  next
    case (Some i)
    show ?thesis
    proof (cases "s_state (fb_slot fb i) = StateNew \<or> s_state (fb_slot fb i) = StateAssembling")
      case False
      then show ?thesis using res inv Some by (simp add: newData_def fixr g Let_def)
    next
      case True
      obtain k where "map_of (fb_activeSlots fb) k = Some i"
        using g Some by (auto simp: getSlot_def Let_def split: prod.splits option.splits if_splits)
      then have "i < fb_nSlots fb" using containers_active(1) [OF con] map_of_SomeD by fastforce
      then have ok: "slot_ok (fb_slot fb i)" using sl by (simp add: slots_ok_def)
      obtain ns s where app: "Slot_appendData n content nowUsec (fb_slot fb i) = Some (ns, s)"
        using res True Some by (auto simp: newData_def fixr g Let_def bind_Some)
      have inv3: "fb_inv P out (set_slot i s fb)"
        by (rule fb_inv_set_slot [OF inv slot_like_appendData [OF app ok]]) (use True n(2) in auto)
      show ?thesis
      proof (cases "fb' = set_slot i s fb")
        case False
        then obtain ty where "segment_accepted cbs now i (s_state (fb_slot fb i))
            (s_consistency (fb_slot fb i)) ns (set_slot i s fb) = Some (ty, fb')"
          using res True Some app by (auto simp: newData_def fixr g Let_def bind_Some split: if_splits)
        then show ?thesis using segment_accepted_inv inv3 by blast
      qed (use inv3 in simp)
    qed
  qed
qed

end

section \<open>Playout keeps the invariant\<close>

lemma slots_ok_upd:
  assumes sl: "slots_ok h n active playing" and s: "slot_ok s"
    and locked: "s_state s = StateLocked \<longleftrightarrow> playing' = Some i"
    and stash: "s_state s = StateLocked \<Longrightarrow> s_stashedState s \<noteq> StateLocked"
    and same: "s_slotPrefix s = s_slotPrefix (h i)" "s_packetNamespace s = s_packetNamespace (h i)"
      "s_activeSegments s = s_activeSegments (h i)"
    and others: "\<And>j. j \<noteq> i \<Longrightarrow> playing' = Some j \<longleftrightarrow> playing = Some j" and used: "i \<in> snd ` set active"
  shows "slots_ok (h(i := s)) n active playing'"
proof (rule slots_okI)
  fix j assume j: "j < n"
  show "slot_ok ((h(i := s)) j)" "s_state ((h(i := s)) j) = StateLocked \<longleftrightarrow> playing' = Some j"
    "s_state ((h(i := s)) j) = StateLocked \<Longrightarrow> s_stashedState ((h(i := s)) j) \<noteq> StateLocked"
    using slots_okD(1-3) [OF sl j] s locked stash others by (auto split: if_splits)
  show "slot_unused ((h(i := s)) j)" if "j \<notin> snd ` set active"
    using slots_okD(8) [OF sl j that] used that by auto
next
  fix k j assume kj: "(k, j) \<in> set active"
  have "names_ok s = names_ok (h i)" using same by (simp add: names_ok_def)
  then show "regular_key k \<and> s_packetNamespace ((h(i := s)) j) \<noteq> NsUnknown \<and>
      s_slotPrefix ((h(i := s)) j) = k \<and> names_ok ((h(i := s)) j)"
    using slots_okD(4-7) [OF sl kj] same by (cases "j = i") simp_all
qed

lemma acquire_play_inv:
  assumes "acquire_play cbSize decode i isKey level fb = Some (pd, level', fb')" and inv: "fb_inv P out fb"
  shows "fb_inv P out fb'"
proof -
  define fb1 where "fb1 = fb\<lparr>fb_playbackNo := getPlaybackNumber (fb_slot fb i)\<rparr>"
  define recovering where "recovering \<longleftrightarrow> level \<ge> 0 \<and> level < 1 \<and> cp_useFec (fb_params fb1)"
  define s where "s = (if recovering then snd (Slot_recover decode (fb_slot fb1 i)) else fb_slot fb1 i)"
  have "slot_like (fb_slots fb1 i) s" by (simp add: s_def slot_like_recover)
  moreover have "fb_inv P out fb1" using inv by (simp add: fb1_def)
  ultimately have inv2: "fb_inv P out (set_slot i s fb1)" by (rule fb_inv_set_slot [rotated])
  obtain f g where "fb' = stat f (addBufferEvent Playout (Some i) g)" "fb_inv P out g"
    using assms(1) inv2 unfolding acquire_play_def Let_def fb1_def [symmetric] recovering_def [symmetric]
      s_def [symmetric]
    by (auto simp: bind_Some)
  then show ?thesis by simp
qed

text \<open>The slot in front of the queue is found again by its prefix: no null pointer is followed.\<close>

lemma acquireSlot_finds:
  assumes "fb_inv P None fb" and "peekSlot (fb_playbackQueue fb) = Some i"
  shows "getSlot (s_slotPrefix (fb_slots fb i)) False fb = (Some i, fb)"
proof -
  have "i \<in> set (pq_items (fb_playbackQueue fb))"
    using assms(2) by (auto simp: peekSlot_def split: list.splits)
  then obtain k where "getLookupPrefix (s_slotPrefix (fb_slots fb i)) = (True, k)"
    "map_of (fb_activeSlots fb) k = Some i"
    using fb_inv_lookup [OF assms(1)] by blast
  then show ?thesis by (simp add: getSlot_def)
qed

lemma fb_inv_lock:
  assumes inv: "fb_inv P None fb" and idle: "fb_playbackSlot fb = None"
    and items: "pq_items (fb_playbackQueue fb) = i # js"
  shows "fb_inv P None (set_slot i (Slot_lock (fb_slot fb i)) (fb\<lparr>fb_skipFrame := b, fb_playbackSlot := Some i\<rparr>))"
proof -
  have con: "containers_ok None (fb_nSlots fb) (fb_freeSlots fb) (fb_activeSlots fb) (i # js)"
    and sl: "slots_ok (fb_slots fb) (fb_nSlots fb) (fb_activeSlots fb) None"
    using inv idle items by (simp_all add: fb_inv_def)
  obtain k where k: "(k, i) \<in> set (fb_activeSlots fb)"
    using containers_active(2) [OF con, of i] by auto
  then have used: "i \<in> snd ` set (fb_activeSlots fb)" by (rule image_eqI [rotated]) simp
  have "i < fb_nSlots fb" using containers_active(1) [OF con k] by blast
  then have unlocked: "slot_ok (fb_slots fb i)" "s_state (fb_slots fb i) \<noteq> StateLocked"
    using slots_okD(1) [OF sl] slots_okD(2) [OF sl] by (blast, metis option.distinct(1))
  have "slots_ok ((fb_slots fb)(i := Slot_lock (fb_slot fb i))) (fb_nSlots fb) (fb_activeSlots fb) (Some i)"
    by (rule slots_ok_upd [OF sl]) (use unlocked used in \<open>simp_all add: Slot_lock_def slot_ok_def\<close>)
  then show ?thesis using inv items by (simp add: fb_inv_def set_slot_def head_ok_def)
qed

lemma acquireSlot_inv:
  assumes res: "acquireSlot cbSize decode fb = Some (aq, fb')"
    and inv: "fb_inv P None fb" and idle: "fb_playbackSlot fb = None"
  shows "fb_inv P None fb'"
proof (cases "pq_items (fb_playbackQueue fb)")
  case Nil
  then have "fb' = fb" using res idle by (auto simp: acquireSlot_def peekSlot_def)
  then show ?thesis using inv by simp
next
  case (Cons i js)
  then have peek: "peekSlot (fb_playbackQueue fb) = Some i" by (simp add: peekSlot_def)
  note found = acquireSlot_finds [OF inv peek]
  define s where "s = fb_slot fb i"
  define isKey where "isKey \<longleftrightarrow> s_packetNamespace s = NsKey"
  define skip where "skip \<longleftrightarrow> (fb_skipFrame fb \<or> (fb_playbackNo fb \<ge> 0 \<and> getPlaybackNumber s \<ge> 0 \<and>
                fb_playbackNo fb + 1 \<noteq> getPlaybackNumber s \<and> getPlaybackNumber s \<le> fb_playbackNo fb))"
  define fb1 where "fb1 = set_slot i (Slot_lock s) (fb\<lparr>fb_skipFrame := skip, fb_playbackSlot := Some i\<rparr>)"
  have inv1: "fb_inv P None fb1" unfolding fb1_def s_def by (rule fb_inv_lock [OF inv idle Cons])
  obtain pd level fb2 where fb2: "(if \<not> skip then acquire_play cbSize decode i isKey (getAssembledLevel s) fb1
             else Some (None, getAssembledLevel s,
               stat ((if isKey then stat_inc DroppedKeyNum else id) \<circ> stat_inc DroppedNum) fb1)) =
      Some (pd, level, fb2)"
    and size: "\<exists>d. getPlayableBufferSize fb2 = Some (d, fb')"
    using res unfolding acquireSlot_def peek option.case found fst_conv Option.bind.bind_lunit Let_def
    unfolding s_def [symmetric] unfolding skip_def [symmetric] isKey_def [symmetric] fb1_def [symmetric]
    by (auto simp: bind_Some)
  have "fb_inv P None fb2" using fb2 inv1 acquire_play_inv by (auto split: if_splits)
  then show ?thesis using size fb_inv_getPlayableBufferSize by blast
qed

lemma fb_inv_pop_playing:
  assumes inv: "fb_inv P None fb" and playing: "fb_playbackSlot fb = Some i"
    and pop: "with_queue popSlot fb = Some fb'"
  shows "fb_inv P (Some i) fb'"
proof -
  obtain js where items: "pq_items (fb_playbackQueue fb) = i # js"
    using inv playing by (auto simp: fb_inv_def head_ok_def)
  obtain h q where u: "updatePlaybackDeadlines (fb_slots fb)
      ((fb_playbackQueue fb)\<lparr>pq_items := js\<rparr>) = Some (h, q)"
    and fb': "fb' = fb\<lparr>fb_slots := h, fb_playbackQueue := q\<rparr>"
    using pop items by (auto simp: with_queue_def popSlot_def bind_Some)
  show ?thesis unfolding fb'
    by (rule fb_inv_sorted [OF u]) (use inv playing items in \<open>simp_all add: fb_inv_def containers_ok_def\<close>)
qed

lemma fb_inv_unlock_and_free:
  assumes inv: "fb_inv P (Some i) fb"
    and fr: "freeSlot (s_slotPrefix (fb_slots fb i)) (set_slot i (Slot_unlock (fb_slot fb i)) fb) = Some (st, fb')"
  shows "fb_inv P None (fb'\<lparr>fb_playbackSlot := None\<rparr>)"
proof -
  let ?fb1 = "set_slot i (Slot_unlock (fb_slot fb i)) fb"
  have con: "containers_ok (Some i) (fb_nSlots fb) (fb_freeSlots fb) (fb_activeSlots fb)
      (pq_items (fb_playbackQueue fb))"
    and sl: "slots_ok (fb_slots fb) (fb_nSlots fb) (fb_activeSlots fb) (Some i)"
    using inv by (auto simp: fb_inv_def head_ok_def)
  obtain k where k: "(k, i) \<in> set (fb_activeSlots fb)" using containers_active(6) [OF con] by blast
  then have used: "i \<in> snd ` set (fb_activeSlots fb)" by (rule image_eqI [rotated]) simp
  have "i < fb_nSlots fb" using containers_active(1) [OF con k] by blast
  then have locked: "slot_ok (fb_slots fb i)" "s_state (fb_slots fb i) = StateLocked"
    "s_stashedState (fb_slots fb i) \<noteq> StateLocked"
    using slots_okD(1-3) [OF sl] by blast+
  have "slots_ok ((fb_slots fb)(i := Slot_unlock (fb_slot fb i))) (fb_nSlots fb) (fb_activeSlots fb) None"
    by (rule slots_ok_upd [OF sl]) (use locked used in \<open>simp_all add: Slot_unlock_def slot_ok_def\<close>)
  then have sl1: "slots_ok (fb_slots ?fb1) (fb_nSlots ?fb1) (fb_activeSlots ?fb1) None"
    by (simp add: set_slot_def)
  have con1: "containers_ok (Some i) (fb_nSlots ?fb1) (fb_freeSlots ?fb1) (fb_activeSlots ?fb1)
      (pq_items (fb_playbackQueue fb))"
    using con by (simp add: set_slot_def)
  have fr1: "freeSlot (s_slotPrefix (fb_slots ?fb1 i)) ?fb1 = Some (st, fb')"
    using fr by (simp add: set_slot_def Slot_unlock_def)
  have "mset (pq_items (fb_playbackQueue fb)) + (case Some i of None \<Rightarrow> {#} | Some j \<Rightarrow> {#j#}) =
      add_mset i (mset (pq_items (fb_playbackQueue fb)) + (case None of None \<Rightarrow> {#} | Some j \<Rightarrow> {#j#}))"
    by simp
  from freeSlot_containers [OF fr1 con1 sl1 _ _ this] show ?thesis
    using inv by (simp add: fb_inv_def head_ok_def set_slot_def)
qed

context buffer_client
begin

lemma releaseAcquiredSlot_inv:
  assumes res: "releaseAcquiredSlot cbs now fb = Some (delay, inferred, fb')"
    and inv: "fb_inv P None fb"
  shows "fb_inv P None fb'"
proof -
  obtain inf where inf: "(if fb_skipFrame fb then Some 0
                else map_option wrap32 (getInferredFrameDuration (fb_playbackQueue fb))) = Some inf"
    using res unfolding releaseAcquiredSlot_def by (auto simp: bind_Some)
  have last: "fb_inv P None fb'"
    if "(if fb_retransmissionsEnabled (fb1\<lparr>fb_skipFrame := False\<rparr>)
           then checkRetransmissions (cb_decode cbs) (cb_onRetransmissionNeeded cbs) now
             (fb1\<lparr>fb_skipFrame := False\<rparr>)
           else Some (fb1\<lparr>fb_skipFrame := False\<rparr>)) = Some fb'" "fb_inv P None fb1" for fb1
    using that checkRetransmissions_inv by (auto split: if_splits)
  show ?thesis
  proof (cases "fb_playbackSlot fb")
    case None
    then show ?thesis using res inv inf
      unfolding releaseAcquiredSlot_def by (auto simp: bind_Some Let_def intro!: last [of fb])
  next
    case (Some i)
    obtain fb1 where fb1: "with_queue popSlot fb = Some fb1"
      using res Some inf unfolding releaseAcquiredSlot_def by (auto simp: bind_Some)
    have inv1: "fb_inv P (Some i) fb1" by (rule fb_inv_pop_playing [OF inv Some fb1])
    obtain fb2 where fb2: "(if cPrefixMeta (s_consistency (fb_slot fb1 i)) \<and>
                    s_packetNamespace (fb_slot fb1 i) = NsKey \<and>
                    fb_lastKeySeqNo fb1 \<le> s_packetSequenceNumber (fb_slot fb1 i)
                 then onKeyNeeded cbs (s_packetSequenceNumber (fb_slot fb1 i) + 1) fb1
                 else Some fb1) = Some fb2"
      using res Some inf fb1 unfolding releaseAcquiredSlot_def by (auto simp: bind_Some)
    have inv2: "fb_inv P (Some i) fb2" using fb2 inv1 onKeyNeeded_inv by (auto split: if_splits)
    obtain dl ii where di: "(if fb_skipFrame fb2 then (inf, False) else release_delay i inf fb2) = (dl, ii)"
      by force
    define fb3 where "fb3 = (if fb_skipFrame fb2 then fb2 else fb2\<lparr>fb_isEstimationNeeded := True\<rparr>)"
    define fb4 where "fb4 = fb3\<lparr>fb_frameReleaseCount := fb_frameReleaseCount fb3 + 1\<rparr>"
    have inv4: "fb_inv P (Some i) fb4" using inv2 by (simp add: fb3_def fb4_def)
    let ?clean = "if fb_frameReleaseCount fb4 mod 60 = 0
                 then cleanBuffer (if s_packetNamespace (fb_slot fb4 i) = NsKey
                     then getPairedFrameNumber (fb_slot fb4 i)
                     else s_packetSequenceNumber (fb_slot fb4 i))
                   (fb_lastKeySeqNo fb4) (getPlaybackNumber (fb_slot fb4 i)) fb4
                 else Some fb4"
    note steps = releaseAcquiredSlot_def inf Some fb1 fb2 di option.case prod.case Let_def
      Option.bind.bind_lunit
    obtain fb5 where fb5: "?clean = Some fb5"
      using res unfolding steps fb3_def [symmetric] fb4_def [symmetric] by (auto simp: bind_Some)
    have inv5: "fb_inv P (Some i) fb5" using fb5 inv4 fb_inv_cleanBuffer by (auto split: if_splits)
    define fb6 where "fb6 = set_slot i (Slot_unlock (fb_slot fb5 i)) fb5"
    obtain st fb7 where fb7: "freeSlot (s_slotPrefix (fb_slot fb6 i)) fb6 = Some (st, fb7)"
      and rest: "(if fb_retransmissionsEnabled (fb7\<lparr>fb_playbackSlot := None, fb_skipFrame := False\<rparr>)
           then checkRetransmissions (cb_decode cbs) (cb_onRetransmissionNeeded cbs) now
             (fb7\<lparr>fb_playbackSlot := None, fb_skipFrame := False\<rparr>)
           else Some (fb7\<lparr>fb_playbackSlot := None, fb_skipFrame := False\<rparr>)) = Some fb'"
      using res unfolding steps fb3_def [symmetric] unfolding fb4_def [symmetric]
      unfolding fb5 Option.bind.bind_lunit fb6_def [symmetric] by (auto simp: bind_Some)
    have "freeSlot (s_slotPrefix (fb_slots fb5 i)) fb6 = Some (st, fb7)"
      using fb7 by (simp add: fb6_def set_slot_def Slot_unlock_def)
    from fb_inv_unlock_and_free [OF inv5 this [unfolded fb6_def]]
    show ?thesis by (intro last [of "fb7\<lparr>fb_playbackSlot := None\<rparr>"]) (use rest in simp_all)
  qed
qed

end

end
