(* ===== verification/Frame_Buffer_Reset.thy ===== *)
theory Frame_Buffer_Reset
  imports Frame_Buffer_Steps
begin

text \<open>
  Construction, initialisation and reset of the frame buffer: both establish the invariant, and
  what a reset does to a slot that is being played.
\<close>

section \<open>Construction\<close>

text \<open>What the constructor fixes; the other fields are set by the reset that \<open>init\<close> starts with.\<close>

definition fb_constructed :: "'a frame_buffer_scheme \<Rightarrow> bool" where
  "fb_constructed fb \<longleftrightarrow> fb_nSlots fb = 0 \<and> fb_freeSlots fb = [] \<and> fb_activeSlots fb = [] \<and>
     pq_items (fb_playbackQueue fb) = [] \<and> fb_pendingEvents fb = [] \<and> fb_playbackSlot fb = None \<and>
     fb_state fb = Invalid \<and> fb_targetSizeMs fb = -1 \<and> fb_estimatedSizeMs fb = -1 \<and>
     fb_isEstimationNeeded fb \<and> \<not> fb_forcedRelease fb"

lemma fb_inv_constructed:
  "fb_constructed fb \<Longrightarrow> P (frame_buffer.more fb) \<Longrightarrow> fb_inv P None fb"
  by (simp add: fb_constructed_def fb_inv_def containers_ok_def slots_ok_def head_ok_def lessThan_0)

section \<open>Initialisation\<close>

lemma fb_inv_new_slot:
  assumes inv: "fb_inv P None fb"
  shows "fb_inv P None (set_slot (fb_nSlots fb) (new_Slot sz fec)
    (fb\<lparr>fb_nSlots := fb_nSlots fb + 1, fb_freeSlots := fb_freeSlots fb @ [fb_nSlots fb]\<rparr>))"
proof -
  let ?n = "fb_nSlots fb" and ?h = "(fb_slots fb)(fb_nSlots fb := new_Slot sz fec)"
  have con: "containers_ok None ?n (fb_freeSlots fb) (fb_activeSlots fb) (pq_items (fb_playbackQueue fb))"
    and sl: "slots_ok (fb_slots fb) ?n (fb_activeSlots fb) (fb_playbackSlot fb)"
    and head: "head_ok None (fb_playbackSlot fb) (pq_items (fb_playbackQueue fb))"
    using inv by (simp_all add: fb_inv_def)
  have act: "(k, i) \<in> set (fb_activeSlots fb) \<Longrightarrow> i < ?n" for k i
    using containers_active(1) [OF con, of k i] by simp
  have con': "containers_ok None (?n + 1) (fb_freeSlots fb @ [?n]) (fb_activeSlots fb)
      (pq_items (fb_playbackQueue fb))"
  proof -
    have u: "set (fb_freeSlots fb) \<union> snd ` set (fb_activeSlots fb) = {..<?n}"
      using con by (simp add: containers_ok_def)
    then have "?n \<notin> set (fb_freeSlots fb)" "?n \<notin> snd ` set (fb_activeSlots fb)" by auto
    moreover have "set ((fb_freeSlots fb @ [?n]) @ map snd (fb_activeSlots fb)) = {..<?n + 1}"
      unfolding set_append set_map lessThan_Suc Suc_eq_plus1 [symmetric] u [symmetric] by auto
    ultimately show ?thesis using con unfolding containers_ok_def by auto
  qed
  have playing: "fb_playbackSlot fb \<noteq> Some ?n"
  proof
    assume "fb_playbackSlot fb = Some ?n"
    then have "?n \<in> set (pq_items (fb_playbackQueue fb))" using head by (auto simp: head_ok_def)
    from containers_active(2) [OF con this] obtain k where "(k, ?n) \<in> set (fb_activeSlots fb)" ..
    then have "?n < ?n" by (rule act)
    then show False by simp
  qed
  have sl': "slots_ok ?h (?n + 1) (fb_activeSlots fb) (fb_playbackSlot fb)"
  proof (rule slots_okI)
    fix i assume i: "i < ?n + 1"
    show "slot_ok (?h i)" "s_state (?h i) = StateLocked \<longleftrightarrow> fb_playbackSlot fb = Some i"
      "s_state (?h i) = StateLocked \<Longrightarrow> s_stashedState (?h i) \<noteq> StateLocked"
      "i \<notin> snd ` set (fb_activeSlots fb) \<Longrightarrow> slot_unused (?h i)"
      using slots_okD(1-3,8) [OF sl] i slot_ok_new [of sz fec] playing
      by (auto simp: slot_unused_def less_Suc_eq split: if_splits)
  next
    fix k i assume ki: "(k, i) \<in> set (fb_activeSlots fb)"
    have "?h i = fb_slots fb i" using act [OF ki] by simp
    then show "regular_key k \<and> s_packetNamespace (?h i) \<noteq> NsUnknown \<and> s_slotPrefix (?h i) = k \<and> names_ok (?h i)"
      using slots_okD(4-7) [OF sl ki] by simp
  qed
  show ?thesis using inv con' sl' by (simp add: fb_inv_def set_slot_def)
qed

lemma fb_inv_initialize: "fb_inv P None fb \<Longrightarrow> fb_inv P None (initialize fb)"
proof -
  define add where "add = (\<lambda>_ :: nat. \<lambda>fb :: 'a frame_buffer_scheme.
        let payloadSegmentSize = unat (cp_segmentSize (fb_params fb) - of_nat SegmentData_getHeaderSize);
            i = fb_nSlots fb in
        addBufferEvent FreeSlot (Some i)
          (set_slot i (new_Slot payloadSegmentSize (cp_useFec (fb_params fb)))
            (fb\<lparr>fb_nSlots := i + 1, fb_freeSlots := fb_freeSlots fb @ [i]\<rparr>)))"
  have step: "fb_inv P None (add x fb)" if "fb_inv P None fb" for x fb
    using fb_inv_new_slot [OF that] by (simp add: add_def Let_def)
  have "fb_inv P None (fold add xs fb)" if "fb_inv P None fb" for xs fb
    using that by (induction xs arbitrary: fb) (simp_all add: step)
  moreover have "initialize fb = fold add [length (fb_freeSlots fb) ..< cp_bufferSlotsNum (fb_params fb)] fb"
    unfolding initialize_def add_def ..
  ultimately show "fb_inv P None fb \<Longrightarrow> fb_inv P None (initialize fb)" by simp
qed

section \<open>Reset\<close>

lemma reset_slots:
  assumes "ofold reset_slot_of is fb = Some fb'" and "distinct is"
  shows "fb_nSlots fb' = fb_nSlots fb \<and> frame_buffer.more fb' = frame_buffer.more fb \<and>
    fb_freeSlots fb' = fb_freeSlots fb @ filter (\<lambda>i. s_state (fb_slots fb i) \<noteq> StateLocked) is \<and>
    (\<forall>i. if i \<in> set is \<and> s_state (fb_slots fb i) \<noteq> StateLocked
         then slot_ok (fb_slots fb' i) \<and> slot_unused (fb_slots fb' i)
         else fb_slots fb' i = fb_slots fb i)"
  using assms
proof (induction "is" arbitrary: fb)
  case (Cons i js)
  obtain fb1 where fb1: "reset_slot_of i fb = Some fb1" and rest: "ofold reset_slot_of js fb1 = Some fb'"
    using Cons.prems(1) by (auto simp: bind_Some)
  have IH: "fb_nSlots fb' = fb_nSlots fb1 \<and> frame_buffer.more fb' = frame_buffer.more fb1 \<and>
    fb_freeSlots fb' = fb_freeSlots fb1 @ filter (\<lambda>i. s_state (fb_slots fb1 i) \<noteq> StateLocked) js \<and>
    (\<forall>i. if i \<in> set js \<and> s_state (fb_slots fb1 i) \<noteq> StateLocked
         then slot_ok (fb_slots fb' i) \<and> slot_unused (fb_slots fb' i)
         else fb_slots fb' i = fb_slots fb1 i)"
    using Cons.IH [OF rest] Cons.prems(2) by simp
  show ?case
  proof (cases "s_state (fb_slots fb i) = StateLocked")
    case True
    then have "fb1 = fb" using fb1 by (simp add: reset_slot_of_def)
    then show ?thesis using IH True by auto
  next
    case False
    then obtain r s where s: "Slot_reset (fb_slots fb i) = Some (r, s)"
      and fb1': "fb1 = addBufferEvent FreeSlot (Some i) (set_slot i s (fb\<lparr>fb_freeSlots := fb_freeSlots fb @ [i]\<rparr>))"
      using fb1 by (auto simp: reset_slot_of_def bind_Some)
    note ok = slot_ok_reset [OF s False]
    have same: "fb_nSlots fb1 = fb_nSlots fb" "frame_buffer.more fb1 = frame_buffer.more fb"
      "fb_freeSlots fb1 = fb_freeSlots fb @ [i]" "fb_slots fb1 = (fb_slots fb)(i := s)"
      by (simp_all add: fb1' addBufferEvent_def set_slot_def)
    have f: "filter (\<lambda>j. s_state (fb_slots fb1 j) \<noteq> StateLocked) js =
        filter (\<lambda>j. s_state (fb_slots fb j) \<noteq> StateLocked) js"
      using Cons.prems(2) by (intro filter_cong) (auto simp: same)
    have at: "\<And>j. if j \<in> set js \<and> s_state (fb_slots fb1 j) \<noteq> StateLocked
        then slot_ok (fb_slots fb' j) \<and> slot_unused (fb_slots fb' j) else fb_slots fb' j = fb_slots fb1 j"
      using IH by blast
    have "if j \<in> set (i # js) \<and> s_state (fb_slots fb j) \<noteq> StateLocked
        then slot_ok (fb_slots fb' j) \<and> slot_unused (fb_slots fb' j) else fb_slots fb' j = fb_slots fb j" for j
    proof (cases "j = i")
      case True
      then show ?thesis using at [of i] Cons.prems(2) ok False same by simp
    qed (use at [of j] same in simp)
    then show ?thesis using IH f same False by simp
  qed
qed simp

lemma resetData_frame:
  "fb_nSlots (resetData fb) = fb_nSlots fb" "frame_buffer.more (resetData fb) = frame_buffer.more fb"
  "fb_freeSlots (resetData fb) = fb_freeSlots fb" "fb_slots (resetData fb) = fb_slots fb"
  "fb_activeSlots (resetData fb) = []" "pq_items (fb_playbackQueue (resetData fb)) = []"
  "fb_playbackSlot (resetData fb) = None"
  by (simp_all add: resetData_def setTargetSize_def stat_def addStateChangedEvent_def addBufferEvent_def
      pq_clear_def Let_def)

lemma fb_reset_frame:
  assumes "fb_reset fb = Some fb'"
  shows "\<exists>fb1. ofold reset_slot_of (map snd (fb_activeSlots fb))
      (fb\<lparr>fb_pendingEvents := [], fb_pendingEventsFlushed := True\<rparr>) = Some fb1 \<and> fb' = resetData fb1"
  using assms by (auto simp: fb_reset_def bind_Some)

text \<open>A reset while nothing is played gives every slot back to the pool.\<close>

lemma fb_inv_reset:
  assumes inv: "fb_inv P None fb" and idle: "fb_playbackSlot fb = None" and res: "fb_reset fb = Some fb'"
  shows "fb_inv P None fb' \<and> fb_playbackSlot fb' = None \<and> fb_nSlots fb' = fb_nSlots fb"
proof -
  let ?is = "map snd (fb_activeSlots fb)"
  obtain fb1 where r: "ofold reset_slot_of ?is (fb\<lparr>fb_pendingEvents := [], fb_pendingEventsFlushed := True\<rparr>) = Some fb1"
    and fb': "fb' = resetData fb1"
    using fb_reset_frame [OF res] by blast
  have con: "containers_ok None (fb_nSlots fb) (fb_freeSlots fb) (fb_activeSlots fb)
      (pq_items (fb_playbackQueue fb))"
    and sl: "slots_ok (fb_slots fb) (fb_nSlots fb) (fb_activeSlots fb) None"
    using inv idle by (simp_all add: fb_inv_def)
  have d: "distinct ?is" using con by (simp add: containers_ok_def)
  note f = reset_slots [OF r d]
  have unlocked: "s_state (fb_slots fb i) \<noteq> StateLocked" if "i < fb_nSlots fb" for i
    using slots_okD(2) [OF sl that] by simp
  have "\<forall>i \<in> set ?is. s_state (fb_slots fb i) \<noteq> StateLocked"
    using unlocked containers_active(1) [OF con] by auto
  then have free: "fb_freeSlots fb1 = fb_freeSlots fb @ ?is" using f by (simp add: filter_id_conv)
  have con': "containers_ok None (fb_nSlots fb) (fb_freeSlots fb @ ?is) [] []"
    using con by (simp add: containers_ok_def)
  have "slots_ok (fb_slots fb1) (fb_nSlots fb) [] None"
  proof (rule slots_okI)
    fix i assume i: "i < fb_nSlots fb"
    have "slot_ok (fb_slots fb1 i) \<and> slot_unused (fb_slots fb1 i)"
    proof (cases "i \<in> set ?is")
      case False
      then show ?thesis using f i slots_okD(1,8) [OF sl i] by simp
    qed (use f unlocked [OF i] in auto)
    then show "slot_ok (fb_slots fb1 i)" "s_state (fb_slots fb1 i) = StateLocked \<longleftrightarrow> None = Some i"
      "s_state (fb_slots fb1 i) = StateLocked \<Longrightarrow> s_stashedState (fb_slots fb1 i) \<noteq> StateLocked"
      "slot_unused (fb_slots fb1 i)"
      by (simp_all add: slot_unused_def)
  qed simp
  then show ?thesis using f free con' inv by (simp add: fb' resetData_frame fb_inv_def head_ok_def)
qed

lemma fb_inv_init:
  assumes "fb_inv P None fb" "fb_playbackSlot fb = None" "fb_init fb = Some (r, fb')"
  shows "fb_inv P None fb'"
proof -
  obtain fb1 where "fb_reset fb = Some fb1" "fb' = initialize fb1"
    using assms(3) by (auto simp: fb_init_def bind_Some)
  then show ?thesis using fb_inv_reset [OF assms(1,2)] fb_inv_initialize by blast
qed

end
