(* ===== verification/Interest_Queue.thy ===== *)
theory Interest_Queue
  imports Rtt_Estimation Ndn_Name "HOL-Library.Multiset"
begin

text \<open>
  The queue of interests (\<open>ndnrtc/cpp/src/interest-queue.cpp\<close> and \<open>interest-queue.h\<close>) and the job
  that empties it (\<open>NdnRtcComponent::scheduleJob\<close> in \<open>ndnrtc-object.cpp\<close>): interests wait in a
  \<open>std::priority_queue\<close> for a timer job that sends one of them each time it runs. The face that
  sends them belongs to the client library: \<open>iq_sent\<close> records what it is given, and the argument
  \<open>throws\<close> says for which interests it throws an exception. Every client of the queue passes the
  handlers of the same packet assembler, so handlers are left out of the entries.
\<close>

section \<open>Interests and priorities\<close>

text \<open>What the library sets of an interest; \<open>None\<close> in an exclude list is the ANY entry.\<close>

record interest =
  in_name :: name
  in_lifetimeMs :: int
  in_mustBeFresh :: bool
  in_childSelector :: "int option"
  in_minSuffixComponents :: "int option"
  in_exclude :: "component option list"

definition new_Interest :: "name \<Rightarrow> int \<Rightarrow> interest" where
  "new_Interest n lifetimeMs = \<lparr>in_name = n, in_lifetimeMs = lifetimeMs, in_mustBeFresh = True,
     in_childSelector = None, in_minSuffixComponents = None, in_exclude = []\<rparr>"

record priority =
  pr_createdMs :: int
  pr_enqueuedMs :: int
  pr_expressedMs :: int
  pr_arrivalDelayMs :: int

definition fromArrivalDelay :: "int \<Rightarrow> int \<Rightarrow> priority" where
  "fromArrivalDelay now arrivalDelay = \<lparr>pr_createdMs = now, pr_enqueuedMs = -1,
     pr_expressedMs = -1, pr_arrivalDelayMs = arrivalDelay\<rparr>"

definition fromAbsolutePriority :: "int \<Rightarrow> int \<Rightarrow> priority" where
  "fromAbsolutePriority now p = fromArrivalDelay now p"

definition setEnqueueTimestamp :: "int \<Rightarrow> priority \<Rightarrow> priority" where
  "setEnqueueTimestamp timestamp p = p\<lparr>pr_enqueuedMs := timestamp\<rparr>"

definition setExpressionTimestamp :: "int \<Rightarrow> priority \<Rightarrow> priority" where
  "setExpressionTimestamp timestamp p = p\<lparr>pr_expressedMs := timestamp\<rparr>"

definition getArrivalDeadlineFromEnqueue :: "priority \<Rightarrow> int" where
  "getArrivalDeadlineFromEnqueue p =
     (if pr_enqueuedMs p < 0 then -1 else pr_enqueuedMs p + pr_arrivalDelayMs p)"

definition getArrivalDeadlineFromExpression :: "priority \<Rightarrow> int" where
  "getArrivalDeadlineFromExpression p =
     (if pr_expressedMs p < 0 then -1 else pr_expressedMs p + pr_arrivalDelayMs p)"

definition getArrivalDelayFromNow :: "int \<Rightarrow> priority \<Rightarrow> int" where
  "getArrivalDelayFromNow now p = now - getArrivalDeadlineFromEnqueue p"

definition getValue_at :: "int \<Rightarrow> priority \<Rightarrow> int" where
  "getValue_at now p = getArrivalDeadlineFromEnqueue p - now"

section \<open>The queue\<close>

record queue_entry =
  qe_interest :: interest
  qe_priority :: priority

record interest_queue =
  iq_freqMeterId :: nat
  iq_entries :: "queue_entry list"
  iq_isWatching :: bool
  iq_isJobScheduled :: bool
  iq_sent :: "interest list"

definition IPriority_Comparator :: "bool \<Rightarrow> int \<Rightarrow> queue_entry \<Rightarrow> queue_entry \<Rightarrow> bool" where
  "IPriority_Comparator inverted now e1 e2 \<longleftrightarrow>
     inverted \<noteq> (getValue_at now (qe_priority e1) < getValue_at now (qe_priority e2))"

text \<open>\<open>std::priority_queue\<close>: the top is an entry that the comparator orders after the others.\<close>

fun pq_top :: "('a \<Rightarrow> 'a \<Rightarrow> bool) \<Rightarrow> 'a \<Rightarrow> 'a list \<Rightarrow> 'a" where
  "pq_top cmp best [] = best"
| "pq_top cmp best (x # xs) = pq_top cmp (if cmp best x then x else best) xs"

definition new_InterestQueue :: "meters \<Rightarrow> interest_queue \<times> meters" where
  "new_InterestQueue mt =
     (let (i, mt1) = setupFrequencyMeter 10 mt in
      (\<lparr>iq_freqMeterId = i, iq_entries = [], iq_isWatching = False, iq_isJobScheduled = False,
        iq_sent = []\<rparr>, mt1))"

definition enqueueInterest :: "int \<Rightarrow> interest \<Rightarrow> priority \<Rightarrow> interest_queue \<Rightarrow> interest_queue" where
  "enqueueInterest now i p q =
     (let entry = \<lparr>qe_interest = i, qe_priority = setEnqueueTimestamp now p\<rparr>;
          q1 = q\<lparr>iq_entries := iq_entries q @ [entry]\<rparr>;
          q2 = (if \<not> iq_isWatching q1 then q1\<lparr>iq_isJobScheduled := True\<rparr> else q1) in
      q2\<lparr>iq_isWatching := True\<rparr>)"

definition InterestQueue_reset :: "interest_queue \<Rightarrow> meters \<Rightarrow> interest_queue \<times> meters" where
  "InterestQueue_reset q mt =
     (let (i, mt1) = setupFrequencyMeter 10 mt in
      (q\<lparr>iq_entries := [], iq_freqMeterId := i\<rparr>, mt1))"

text \<open>\<open>processEntry\<close>: the statistics are updated before the face is called.\<close>

definition processEntry ::
    "(interest \<Rightarrow> bool) \<Rightarrow> int \<Rightarrow> queue_entry \<Rightarrow> interest_queue \<Rightarrow> meters \<Rightarrow> stat_storage \<Rightarrow>
     interest_queue \<times> meters \<times> stat_storage" where
  "processEntry throws now entry q mt st =
     (let mt1 = frequencyMeterTick (iq_freqMeterId q) now mt;
          st1 = updateIndicator InterestRate (currentFrequencyMeterValue (iq_freqMeterId q) mt1) st;
          st2 = updateIndicator QueueSize (d_of_int (int (length (iq_entries q)))) st1 in
      if throws (qe_interest entry) then (q, mt1, st2)
      else (q\<lparr>iq_sent := iq_sent q @ [qe_interest entry]\<rparr>, mt1, stat_inc InterestsSentNum st2))"

definition watchQueue ::
    "(interest \<Rightarrow> bool) \<Rightarrow> int \<Rightarrow> interest_queue \<Rightarrow> meters \<Rightarrow> stat_storage \<Rightarrow>
     bool \<times> interest_queue \<times> meters \<times> stat_storage" where
  "watchQueue throws now q mt st =
     (case iq_entries q of
        [] \<Rightarrow> (False, q\<lparr>iq_isWatching := False\<rparr>, mt, st)
      | e # es \<Rightarrow>
          let top = pq_top (IPriority_Comparator True now) e es;
              rest = remove1 top (e # es);
              q1 = q\<lparr>iq_entries := rest, iq_isWatching := (rest \<noteq> [])\<rparr>;
              (q2, mt2, st2) = processEntry throws now top q1 mt st in
          (iq_isWatching q2, q2, mt2, st2))"

text \<open>The timer of the job expires: the job runs, and is scheduled again if it says so.\<close>

definition run_job ::
    "(interest \<Rightarrow> bool) \<Rightarrow> int \<Rightarrow> interest_queue \<Rightarrow> meters \<Rightarrow> stat_storage \<Rightarrow>
     interest_queue \<times> meters \<times> stat_storage" where
  "run_job throws now q mt st =
     (if iq_isJobScheduled q then
        let (again, q1, mt1, st1) = watchQueue throws now (q\<lparr>iq_isJobScheduled := False\<rparr>) mt st in
        (if again then q1\<lparr>iq_isJobScheduled := True\<rparr> else q1, mt1, st1)
      else (q, mt, st))"

section \<open>The earliest deadline goes first\<close>

definition entry_deadline :: "queue_entry \<Rightarrow> int" where
  "entry_deadline e = getArrivalDeadlineFromEnqueue (qe_priority e)"

lemma comparator_deadline: "IPriority_Comparator True now e1 e2 \<longleftrightarrow> entry_deadline e2 \<le> entry_deadline e1"
  by (auto simp: IPriority_Comparator_def getValue_at_def entry_deadline_def)

lemma pq_top_earliest:
  "pq_top (IPriority_Comparator True now) e es \<in> set (e # es) \<and>
   (\<forall>x \<in> set (e # es). entry_deadline (pq_top (IPriority_Comparator True now) e es) \<le> entry_deadline x)"
proof (induction es arbitrary: e)
  case (Cons x es)
  show ?case
  proof (cases "IPriority_Comparator True now e x")
    case True
    then have "entry_deadline x \<le> entry_deadline e" by (simp add: comparator_deadline)
    then show ?thesis using Cons.IH [of x] True by auto
  next
    case False
    then have "entry_deadline e < entry_deadline x" by (simp add: comparator_deadline)
    then show ?thesis using Cons.IH [of e] False by auto
  qed
qed simp

section \<open>No interest is left behind\<close>

text \<open>While there are entries the queue is watched, and while it is watched a job is scheduled.\<close>

definition iq_inv :: "interest_queue \<Rightarrow> bool" where
  "iq_inv q \<longleftrightarrow> (iq_entries q \<noteq> [] \<longrightarrow> iq_isWatching q) \<and> (iq_isWatching q \<longrightarrow> iq_isJobScheduled q)"

lemma iq_inv_new: "iq_inv (fst (new_InterestQueue mt))"
  by (simp add: new_InterestQueue_def iq_inv_def Let_def split: prod.split)

lemma iq_inv_enqueue: "iq_inv q \<Longrightarrow> iq_inv (enqueueInterest now i p q)"
  by (simp add: enqueueInterest_def iq_inv_def Let_def)

lemma iq_inv_reset: "iq_inv q \<Longrightarrow> iq_inv (fst (InterestQueue_reset q mt))"
  by (simp add: InterestQueue_reset_def iq_inv_def split: prod.split)

lemma processEntry_frame:
  "\<exists>s. fst (processEntry throws now e q mt st) = q\<lparr>iq_sent := s\<rparr> \<and>
    s = iq_sent q @ (if throws (qe_interest e) then [] else [qe_interest e])"
  by (auto simp: processEntry_def Let_def)

text \<open>One run of the job: the entry with the earliest deadline leaves the queue and is given to the
  face, and a job is scheduled again unless the queue is empty.\<close>

lemma run_job_step:
  assumes inv: "iq_inv q" and nonempty: "iq_entries q \<noteq> []"
  shows "\<exists>e q' mt' st'. run_job throws now q mt st = (q', mt', st') \<and> iq_inv q' \<and>
    mset (iq_entries q) = add_mset e (mset (iq_entries q')) \<and>
    (\<forall>x \<in> set (iq_entries q). entry_deadline e \<le> entry_deadline x) \<and>
    iq_sent q' = iq_sent q @ (if throws (qe_interest e) then [] else [qe_interest e])"
proof -
  obtain e es where q: "iq_entries q = e # es" using nonempty by (cases "iq_entries q") auto
  define top where "top = pq_top (IPriority_Comparator True now) e es"
  note t = pq_top_earliest [of now e es, folded top_def]
  define rest where "rest = remove1 top (e # es)"
  define q1 where "q1 = q\<lparr>iq_isJobScheduled := False, iq_entries := rest, iq_isWatching := (rest \<noteq> [])\<rparr>"
  obtain q2 mt2 st2 where p: "processEntry throws now top q1 mt st = (q2, mt2, st2)"
    by (metis prod_cases3)
  have q2: "q2 = q1\<lparr>iq_sent := iq_sent q1 @ (if throws (qe_interest top) then [] else [qe_interest top])\<rparr>"
    using processEntry_frame [of throws now top q1 mt st] p by auto
  define q3 where "q3 = (if rest \<noteq> [] then q2\<lparr>iq_isJobScheduled := True\<rparr> else q2)"
  have q0: "iq_entries (q\<lparr>iq_isJobScheduled := False\<rparr>) = e # es" by (simp add: q)
  have watch: "watchQueue throws now (q\<lparr>iq_isJobScheduled := False\<rparr>) mt st = (iq_isWatching q2, q2, mt2, st2)"
    unfolding watchQueue_def q0 list.case Let_def
    unfolding top_def [symmetric] unfolding rest_def [symmetric] unfolding q1_def [symmetric] p prod.case ..
  have "iq_isWatching q2 \<longleftrightarrow> rest \<noteq> []" by (simp add: q2 q1_def)
  moreover have "iq_isJobScheduled q" using inv nonempty by (simp add: iq_inv_def)
  ultimately have run: "run_job throws now q mt st = (q3, mt2, st2)"
    by (simp add: run_job_def watch q3_def)
  have m: "mset (e # es) = add_mset top (mset rest)"
    using t by (metis insert_DiffM mset_remove1 rest_def set_mset_mset)
  have "iq_inv q3" by (simp add: q3_def q2 q1_def iq_inv_def)
  moreover have "iq_entries q3 = rest"
    "iq_sent q3 = iq_sent q @ (if throws (qe_interest top) then [] else [qe_interest top])"
    by (simp_all add: q3_def q2 q1_def)
  ultimately show ?thesis using run m t q by auto
qed

text \<open>Runs of the job without new interests in between.\<close>

fun run_jobs ::
    "(interest \<Rightarrow> bool) \<Rightarrow> int list \<Rightarrow> interest_queue \<times> meters \<times> stat_storage \<Rightarrow>
     interest_queue \<times> meters \<times> stat_storage" where
  "run_jobs throws [] s = s"
| "run_jobs throws (now # nows) (q, mt, st) = run_jobs throws nows (run_job throws now q mt st)"

text \<open>C17: Whatever is in the queue, as many runs of the timer job as there are entries send every
  entry exactly once, in the order of their arrival deadlines, and leave the queue empty; clock
  values do not matter. The hypothesis holds after every operation of the queue: a new queue has
  it, and enqueueing, resetting and running the job keep it.\<close>

theorem interest_queue_drains:
  assumes "iq_inv q" and "length nows = length (iq_entries q)"
  shows "\<exists>q' mt' st' order. run_jobs (\<lambda>_. False) nows (q, mt, st) = (q', mt', st') \<and>
    mset order = mset (iq_entries q) \<and> sorted (map entry_deadline order) \<and>
    iq_sent q' = iq_sent q @ map qe_interest order \<and> iq_entries q' = [] \<and> iq_inv q'"
  using assms
proof (induction nows arbitrary: q mt st)
  case Nil
  then show ?case by (intro exI [of _ q] exI [of _ mt] exI [of _ st] exI [of _ "[]"]) simp
next
  case (Cons now nows)
  then have "iq_entries q \<noteq> []" by auto
  from run_job_step [OF Cons.prems(1) this, of "\<lambda>_. False" now mt st] obtain e q1 mt1 st1 where
    step: "run_job (\<lambda>_. False) now q mt st = (q1, mt1, st1)" "iq_inv q1"
      "mset (iq_entries q) = add_mset e (mset (iq_entries q1))"
      "\<forall>x \<in> set (iq_entries q). entry_deadline e \<le> entry_deadline x"
      "iq_sent q1 = iq_sent q @ [qe_interest e]"
    by auto
  have "length nows = length (iq_entries q1)"
    using Cons.prems(2) arg_cong [OF step(3), of size] by simp
  from Cons.IH [OF step(2) this, of mt1 st1] obtain q' mt' st' order where
    rest: "run_jobs (\<lambda>_. False) nows (q1, mt1, st1) = (q', mt', st')"
      "mset order = mset (iq_entries q1)" "sorted (map entry_deadline order)"
      "iq_sent q' = iq_sent q1 @ map qe_interest order" "iq_entries q' = []" "iq_inv q'"
    by blast
  have "set order \<subseteq> set (iq_entries q)"
    using rest(2) step(3) by (metis set_mset_add_mset_insert set_mset_mset subset_insertI)
  then have "sorted (map entry_deadline (e # order))" using rest(3) step(4) by auto
  then show ?case using step rest
    by (intro exI [of _ q'] exI [of _ mt'] exI [of _ st'] exI [of _ "e # order"]) simp
qed

definition sample_interests :: interest_queue where
  "sample_interests =
     enqueueInterest 5 (new_Interest (Name [Component ''a'']) 1000) (fromArrivalDelay 5 300)
       (enqueueInterest 7 (new_Interest (Name [Component ''b'']) 1000) (fromArrivalDelay 7 100)
         \<lparr>iq_freqMeterId = 0, iq_entries = [], iq_isWatching = False, iq_isJobScheduled = False, iq_sent = []\<rparr>)"

theorem interest_queue_drains_witness:
  "\<exists>q' mt' st' order. run_jobs (\<lambda>_. False) [20, 30] (sample_interests,
      \<lparr>freqMeters = [], dataMeters = [], meanEstimators = [], filters = [], inclineEstimators = [],
       slidingAverageEstimators = []\<rparr>, ConsumerStatRepo) = (q', mt', st') \<and>
    mset order = mset (iq_entries sample_interests) \<and> sorted (map entry_deadline order) \<and>
    iq_sent q' = map qe_interest order \<and> iq_entries q' = [] \<and> iq_inv q'"
proof -
  have "iq_inv sample_interests" "length [20, 30 :: int] = length (iq_entries sample_interests)"
    "iq_sent sample_interests = []"
    by (simp_all add: sample_interests_def enqueueInterest_def iq_inv_def Let_def)
  then show ?thesis
    using interest_queue_drains [of sample_interests "[20, 30]"
        "\<lparr>freqMeters = [], dataMeters = [], meanEstimators = [], filters = [], inclineEstimators = [],
          slidingAverageEstimators = []\<rparr>" ConsumerStatRepo] by simp
qed

end
