(* ===== verification/Pipeliner.thy ===== *)
theory Pipeliner
  imports Frame_Buffer Interest_Queue Frame_Data
begin

text \<open>
  The pipeliner (\<open>PipelinerBase\<close>, \<open>Pipeliner2\<close> and \<open>PipelinerWindow\<close> in
  \<open>ndnrtc/cpp/src/pipeliner.cpp\<close> and \<open>pipeliner.h\<close>): it asks for frames through the interest queue
  and the frame buffer, with a window of outstanding frames that it adapts to the arrival of data.

  The pipeliner is the client of the frame buffer: its state is the extension of the buffer's
  record, so that the buffer's callbacks reach both. The queue of interests is part of it. What
  the pipeliner asks of its consumer's parameters is in \<open>fb_params\<close>; estimators and statistics are
  shared with the buffer. The clock stands still during a handler: \<open>t\<close> is its value in
  microseconds. Nonces come from the list \<open>p_rnds\<close>, the numbers that the generator will draw in
  the run that is modelled: a run that needs more is not modelled further (\<open>None\<close>). The callback
  \<open>onStateChanged\<close> only informs an observer, \<open>p_stateChanges\<close> lists its calls;
  \<open>onBufferingEnded\<close> is an argument. As in the buffer, \<open>None\<close> is also a failed assertion, a null
  pointer that is followed and an overflow of a signed integer.
\<close>

section \<open>The window\<close>

record pipeliner_window =
  w_dw :: u32
  w_w :: int
  w_lastAddedToPool :: int
  w_framePool :: "int set"

definition window_init :: "u32 \<Rightarrow> pipeliner_window \<Rightarrow> pipeliner_window" where
  "window_init windowSize w = w\<lparr>w_framePool := {}, w_dw := windowSize, w_w := sint windowSize\<rparr>"

definition window_dataArrived :: "int \<Rightarrow> pipeliner_window \<Rightarrow> pipeliner_window option" where
  "window_dataArrived packetNo w =
     (if packetNo \<in> w_framePool w then do {
        n \<leftarrow> i32 (w_w w + 1);
        Some (w\<lparr>w_w := n, w_framePool := w_framePool w - {packetNo}\<rparr>)
      } else Some w)"

definition canAskForData :: "int \<Rightarrow> pipeliner_window \<Rightarrow> bool \<times> pipeliner_window" where
  "canAskForData packetNo w =
     (if w_w w > 0
      then (True, w\<lparr>w_w := w_w w - 1, w_framePool := insert packetNo (w_framePool w),
             w_lastAddedToPool := packetNo\<rparr>)
      else (False, w))"

definition getDefaultWindowSize :: "pipeliner_window \<Rightarrow> u32" where
  "getDefaultWindowSize w = w_dw w"

definition getCurrentWindowSize :: "pipeliner_window \<Rightarrow> int" where
  "getCurrentWindowSize w = w_w w"

text \<open>Comparisons with the unsigned number of outstanding frames are unsigned.\<close>

definition changeWindow :: "nat \<Rightarrow> int \<Rightarrow> pipeliner_window \<Rightarrow> (int \<times> pipeliner_window) option" where
  "changeWindow newSlotsNum delta0 w = do {
     let nOutstandingFrames = (of_nat newSlotsNum :: u32);
     absDelta \<leftarrow> (if delta0 < 0 then i32 \<bar>delta0\<bar> else Some 0);
     let delta = (if delta0 < 0 \<and> nOutstandingFrames \<le> of_int absDelta \<and> nOutstandingFrames > 1
                  then sint (- (nOutstandingFrames - 1)) else delta0);
     if w_dw w + of_int delta > 0 then do {
       n \<leftarrow> i32 (w_w w + delta);
       Some (delta, w\<lparr>w_dw := w_dw w + of_int delta, w_w := n\<rparr>)
     } else Some (0, w)
   }"

section \<open>State\<close>

datatype pipeliner_state =
  StateInactive | StateWaitInitial | StateChasing | StateAdjust | StateBuffering | StateFetching

fun state_number :: "pipeliner_state \<Rightarrow> int" where
  "state_number StateInactive = -1"
| "state_number StateWaitInitial = 0"
| "state_number StateChasing = 1"
| "state_number StateAdjust = 2"
| "state_number StateBuffering = 3"
| "state_number StateFetching = 4"

record frame_segments_info =
  fi_deltaAvgSegNum :: double
  fi_deltaAvgParitySegNum :: double
  fi_keyAvgSegNum :: double
  fi_keyAvgParitySegNum :: double

definition DefaultSegmentsInfo :: frame_segments_info where
  "DefaultSegmentsInfo = \<lparr>fi_deltaAvgSegNum = Finite 8, fi_deltaAvgParitySegNum = Finite 2,
     fi_keyAvgSegNum = Finite 25, fi_keyAvgParitySegNum = Finite 5\<rparr>"

record pipeliner =
  p_state :: pipeliner_state
  p_threadPrefix :: name
  p_deltaFramesPrefix :: name
  p_keyFramesPrefix :: name
  p_stateChanges :: "(pipeliner_state \<times> pipeliner_state) list"
  p_deltaSegnumEstimatorId :: nat
  p_keySegnumEstimatorId :: nat
  p_deltaParitySegnumEstimatorId :: nat
  p_keyParitySegnumEstimatorId :: nat
  p_rtxFreqMeterId :: nat
  p_keyFrameSeqNo :: int
  p_deltaFrameSeqNo :: int
  p_frameSegmentsInfo :: frame_segments_info
  p_useKeyNamespace :: bool
  p_recoveryCheckpointTimestamp :: int
  p_startPhaseTimestamp :: int
  p_stabilityEstimator :: stability_estimator
  p_rttChangeEstimator :: rtt_change_estimator
  p_window :: pipeliner_window
  p_timestamp :: u64
  p_waitForChange :: bool
  p_waitForStability :: bool
  p_failedWindow :: u32
  p_seedFrameNo :: int
  p_rightmostInterest :: interest
  p_exclusionPacket :: int
  p_dataMeterId :: nat
  p_segmentFreqMeterId :: nat
  p_queue :: interest_queue
  p_consumerPrefix :: string
  p_threadName :: string
  p_rnds :: "u32 list"

type_synonym 'c system = "'c pipeliner_scheme frame_buffer_scheme"

abbreviation pl :: "'c system \<Rightarrow> 'c pipeliner_scheme" where
  "pl s \<equiv> frame_buffer.more s"

definition upd :: "('c pipeliner_scheme \<Rightarrow> 'c pipeliner_scheme) \<Rightarrow> 'c system \<Rightarrow> 'c system" where
  "upd f s = frame_buffer.more_update f s"

definition msec :: "int \<Rightarrow> int" where
  "msec t = t div 1000"

definition DefaultWindow :: u32 where
  "DefaultWindow = 8"

definition DefaultMinWindow :: u32 where
  "DefaultMinWindow = 2"

definition switchToState :: "int \<Rightarrow> pipeliner_state \<Rightarrow> 'c system \<Rightarrow> 'c system" where
  "switchToState t newState s =
     (let oldState = p_state (pl s); s1 = upd (\<lambda>p. p\<lparr>p_state := newState\<rparr>) s in
      if oldState \<noteq> newState
      then upd (\<lambda>p. p\<lparr>p_startPhaseTimestamp := msec t,
                  p_stateChanges := p_stateChanges p @ [(oldState, newState)]\<rparr>) s1
      else s1)"

definition getIdleTime :: "int \<Rightarrow> 'c system \<Rightarrow> int" where
  "getIdleTime t s =
     (if p_recoveryCheckpointTimestamp (pl s) \<noteq> 0
      then wrap32 (msec t - p_recoveryCheckpointTimestamp (pl s)) else 0)"

definition setUseKeyNamespace :: "bool \<Rightarrow> 'c system \<Rightarrow> 'c system" where
  "setUseKeyNamespace b s = upd (\<lambda>p. p\<lparr>p_useKeyNamespace := b\<rparr>) s"

text \<open>The prefixes of the thread that is fetched.\<close>

definition thread_prefixes :: "'c system \<Rightarrow> 'c system" where
  "thread_prefixes s =
     (let threadPrefixString = getThreadPrefix (p_consumerPrefix (pl s)) (p_threadName (pl s));
          deltaPrefixString = getThreadFramesPrefix threadPrefixString False;
          keyPrefixString = getThreadFramesPrefix threadPrefixString (p_useKeyNamespace (pl s)) in
      upd (\<lambda>p. p\<lparr>p_threadPrefix := name_set threadPrefixString,
                 p_deltaFramesPrefix := name_set deltaPrefixString,
                 p_keyFramesPrefix := name_set keyPrefixString\<rparr>) s)"

definition PipelinerBase_initialize :: "'c system \<Rightarrow> 'c system" where
  "PipelinerBase_initialize s = thread_prefixes s"

text \<open>The estimators for the numbers of segments, set up anew by every reset.\<close>

definition setup_estimators :: "'c system \<Rightarrow> 'c system" where
  "setup_estimators s =
     (let info = p_frameSegmentsInfo (pl s);
          (d, mt1) = setupMeanEstimator 0 (fi_deltaAvgSegNum info) (fb_meters s);
          (k, mt2) = setupMeanEstimator 0 (fi_keyAvgSegNum info) mt1;
          (dp, mt3) = setupMeanEstimator 0 (fi_deltaAvgParitySegNum info) mt2;
          (kp, mt4) = setupMeanEstimator 0 (fi_keyAvgParitySegNum info) mt3;
          (r, mt5) = setupFrequencyMeter 1 mt4 in
      upd (\<lambda>p. p\<lparr>p_deltaSegnumEstimatorId := d, p_keySegnumEstimatorId := k,
                 p_deltaParitySegnumEstimatorId := dp, p_keyParitySegnumEstimatorId := kp,
                 p_rtxFreqMeterId := r\<rparr>) (s\<lparr>fb_meters := mt5\<rparr>))"

text \<open>
  The constructors: the argument's extension holds what the memory holds, the fields that are not
  initialised keep it. \<open>u1\<close> to \<open>u3\<close> are the counters the estimator of changes leaves uninitialised.
\<close>

definition new_PipelinerBase :: "int \<Rightarrow> frame_segments_info \<Rightarrow> 'c system \<Rightarrow> 'c system" where
  "new_PipelinerBase t info s =
     switchToState t StateInactive
       (setup_estimators (upd (\<lambda>p. p\<lparr>p_state := StateInactive, p_stateChanges := [],
          p_startPhaseTimestamp := msec t, p_frameSegmentsInfo := info, p_useKeyNamespace := True,
          p_recoveryCheckpointTimestamp := 0\<rparr>) s))"

definition new_Pipeliner2 ::
    "nat \<Rightarrow> nat \<Rightarrow> nat \<Rightarrow> int \<Rightarrow> frame_segments_info \<Rightarrow> 'c system \<Rightarrow> 'c system" where
  "new_Pipeliner2 u1 u2 u3 t info s =
     (let s1 = new_PipelinerBase t info s;
          (se, mt1) = new_StabilityEstimator 7 4 (to_double (15 / 100)) (to_double (7 / 10)) (fb_meters s1);
          (rc, mt2) = new_RttChangeEstimator u1 u2 u3 7 3 (to_double (12 / 100)) mt1;
          (dm, mt3) = setupDataRateMeter 5 mt2;
          (fm, mt4) = setupFrequencyMeter 10 mt3 in
      upd (\<lambda>p. p\<lparr>p_stabilityEstimator := se, p_rttChangeEstimator := rc, p_exclusionPacket := 0,
                 p_dataMeterId := dm, p_segmentFreqMeterId := fm,
                 p_rightmostInterest := new_Interest (Name []) (-1)\<rparr>)
        (s1\<lparr>fb_meters := mt4\<rparr>))"

section \<open>Requests\<close>

definition updateSegnumEstimation :: "slot_namespace \<Rightarrow> int \<Rightarrow> bool \<Rightarrow> 'c system \<Rightarrow> 'c system" where
  "updateSegnumEstimation frameNs nSegments isParity s =
     (let (estimatorId, statIndicator) =
        (if isParity then
           (if frameNs = NsKey then (p_keyParitySegnumEstimatorId (pl s), SegmentsKeyParityAvgNum)
            else (p_deltaParitySegnumEstimatorId (pl s), SegmentsDeltaParityAvgNum))
         else
           (if frameNs = NsKey then (p_keySegnumEstimatorId (pl s), SegmentsKeyAvgNum)
            else (p_deltaSegnumEstimatorId (pl s), SegmentsDeltaAvgNum))) in
      stat (updateIndicator statIndicator (d_of_int nSegments))
        (s\<lparr>fb_meters := meanEstimatorNewValue estimatorId (d_of_int nSegments) (fb_meters s)\<rparr>))"

definition enqueue :: "int \<Rightarrow> interest \<Rightarrow> priority \<Rightarrow> 'c system \<Rightarrow> 'c system" where
  "enqueue t i pri s = upd (\<lambda>p. p\<lparr>p_queue := enqueueInterest (msec t) i pri (p_queue p)\<rparr>) s"

text \<open>The interests for segments are copies of the packet's interest with other names.\<close>

definition enqueue_segment :: "int \<Rightarrow> interest \<Rightarrow> int \<Rightarrow> bool \<Rightarrow> nat \<times> name \<Rightarrow> 'c system \<Rightarrow> 'c system" where
  "enqueue_segment t i priority isParity = (\<lambda>(segmentIdx, n) s.
     let pri = priority + int segmentIdx + (if isParity then 1 else 0) * 100 in
     enqueue t (i\<lparr>in_name := n\<rparr>) (fromArrivalDelay (msec t) pri) s)"

definition expressRange ::
    "int \<Rightarrow> interest \<Rightarrow> int \<Rightarrow> int \<Rightarrow> int \<Rightarrow> bool \<Rightarrow> 'c system \<Rightarrow> 'c system option" where
  "expressRange t i startNo endNo priority isParity s = do {
     (st, names, s1) \<leftarrow>
       interestRangeIssued (in_name i) startNo endNo isParity (p_rnds (pl s)) t s;
     let s2 = upd (\<lambda>p. p\<lparr>p_rnds := drop (length names) (p_rnds p)\<rparr>) s1;
     Some (fold (enqueue_segment t i priority isParity) (enumerate 0 names) s2)
   }"

text \<open>An interest is queued even when the buffer has not accepted it.\<close>

definition express :: "int \<Rightarrow> interest \<Rightarrow> int \<Rightarrow> 'c system \<Rightarrow> 'c system option" where
  "express t i priority s = do {
     rnd \<leftarrow> (case p_rnds (pl s) of [] \<Rightarrow> None | r # _ \<Rightarrow> Some r);
     (st, s1) \<leftarrow> fb_interestIssued (in_name i) rnd t s;
     let s2 = upd (\<lambda>p. p\<lparr>p_rnds := tl (p_rnds p)\<rparr>) s1;
     Some (enqueue t i (fromArrivalDelay (msec t) priority) s2)
   }"

definition getDefaultInterest :: "name \<Rightarrow> int \<Rightarrow> 'c system \<Rightarrow> interest" where
  "getDefaultInterest prefix timeoutMs s =
     new_Interest prefix (if timeoutMs = 0 then cp_interestLifetime (fb_params s) else timeoutMs)"

text \<open>What follows the first return statement of the source is never executed.\<close>

definition getInterestLifetime :: "int \<Rightarrow> slot_namespace \<Rightarrow> bool \<Rightarrow> 'c system \<Rightarrow> int" where
  "getInterestLifetime playbackDeadline nspc rtx s = cp_interestLifetime (fb_params s)"

definition getInterestForRightMost :: "int \<Rightarrow> bool \<Rightarrow> int \<Rightarrow> 'c system \<Rightarrow> interest" where
  "getInterestForRightMost timeoutMs isKeyNamespace exclude s =
     (let pfx = (if isKeyNamespace then p_keyFramesPrefix (pl s) else p_deltaFramesPrefix (pl s));
          rightmost = (getDefaultInterest pfx timeoutMs s)
            \<lparr>in_childSelector := Some 1, in_minSuffixComponents := Some 2\<rparr> in
      if exclude \<ge> 0
      then rightmost\<lparr>in_exclude := [None, Some (componentFromInt (of_int exclude))]\<rparr> else rightmost)"

definition prefetchFrame ::
    "int \<Rightarrow> name \<Rightarrow> int \<Rightarrow> int \<Rightarrow> int \<Rightarrow> slot_namespace \<Rightarrow> 'c system \<Rightarrow> 'c system option" where
  "prefetchFrame t basePrefix packetNo prefetchSize parityPrefetchSize nspc s = do {
     let packetPrefix = name_append basePrefix (componentFromInt (of_int packetNo));
     (playbackDeadline, s1) \<leftarrow> getEstimatedBufferSize s;
     let frameInterest = (getDefaultInterest packetPrefix 0 s1)
           \<lparr>in_lifetimeMs := getInterestLifetime playbackDeadline nspc False s1\<rparr>;
     n \<leftarrow> i32 (prefetchSize - 1);
     s2 \<leftarrow> expressRange t frameInterest 0 n playbackDeadline False s1;
     if cp_useFec (fb_params s2) then do {
       n \<leftarrow> i32 (parityPrefetchSize - 1);
       expressRange t frameInterest 0 n playbackDeadline True s2
     } else Some s2
   }"

text \<open>How many segments are expected: the rounded up mean.\<close>

definition expected_segments :: "nat \<Rightarrow> 'c system \<Rightarrow> int option" where
  "expected_segments estimatorId s = d_to_i32 (d_ceil (currentMeanEstimation estimatorId (fb_meters s)))"

definition requestNextKey :: "int \<Rightarrow> 'c system \<Rightarrow> 'c system option" where
  "requestNextKey t s = do {
     let s1 = stat (stat_inc RequestedKeyNum \<circ> stat_inc RequestedNum) s;
     let keyFrameNo = p_keyFrameSeqNo (pl s1);
     next \<leftarrow> i32 (keyFrameNo + 1);
     n \<leftarrow> expected_segments (p_keySegnumEstimatorId (pl s1)) s1;
     np \<leftarrow> expected_segments (p_keyParitySegnumEstimatorId (pl s1)) s1;
     prefetchFrame t (p_keyFramesPrefix (pl s1)) keyFrameNo n np NsKey
       (upd (\<lambda>p. p\<lparr>p_keyFrameSeqNo := next\<rparr>) s1)
   }"

definition requestNextDelta :: "int \<Rightarrow> 'c system \<Rightarrow> 'c system option" where
  "requestNextDelta t s = do {
     let s1 = stat (stat_inc RequestedNum) s;
     let deltaFrameNo = p_deltaFrameSeqNo (pl s1);
     next \<leftarrow> i32 (deltaFrameNo + 1);
     n \<leftarrow> expected_segments (p_deltaSegnumEstimatorId (pl s1)) s1;
     np \<leftarrow> expected_segments (p_deltaParitySegnumEstimatorId (pl s1)) s1;
     prefetchFrame t (p_deltaFramesPrefix (pl s1)) deltaFrameNo n np NsDelta
       (upd (\<lambda>p. p\<lparr>p_deltaFrameSeqNo := next\<rparr>) s1)
   }"

section \<open>Missing segments\<close>

text \<open>The slot is an address: asking for a segment changes it.\<close>

definition count_rtx :: "int \<Rightarrow> nat \<Rightarrow> 'c system \<Rightarrow> 'c system" where
  "count_rtx t i s =
     (let s1 = set_slot i ((fb_slot s i)\<lparr>s_nRtx := s_nRtx (fb_slot s i) + 1\<rparr>) s;
          s2 = s1\<lparr>fb_meters := frequencyMeterTick (p_rtxFreqMeterId (pl s1)) (msec t) (fb_meters s1)\<rparr> in
      stat (stat_inc RtxNum \<circ> updateIndicator RtxFrequency
             (currentFrequencyMeterValue (p_rtxFreqMeterId (pl s2)) (fb_meters s2))) s2)"

definition retransmit :: "int \<Rightarrow> nat \<Rightarrow> segment \<Rightarrow> 'c system \<Rightarrow> 'c system option" where
  "retransmit t i sg s = do {
     let segmentInterest = getDefaultInterest (sg_prefix sg) 0 s;
     (r, sl) \<leftarrow> Slot_markMissing (in_name segmentInterest) (fb_slot s i);
     express t segmentInterest (s_playbackDeadline sl) (set_slot i sl s)
   }"

definition PipelinerBase_onRetransmissionNeeded :: "int \<Rightarrow> nat \<Rightarrow> 'c system \<Rightarrow> 'c system option" where
  "PipelinerBase_onRetransmissionNeeded t i s =
     (if cp_useRtx (fb_params s) then
        let missingSegments = getPendingSegments (fb_slot s i) in
        if missingSegments = [] then Some s
        else map_option (count_rtx t i) (ofold (retransmit t i) missingSegments s)
      else Some s)"

definition PipelinerBase_onKeyNeeded :: "int \<Rightarrow> int \<Rightarrow> 'c system \<Rightarrow> 'c system option" where
  "PipelinerBase_onKeyNeeded t seqNo s =
     (if p_keyFrameSeqNo (pl s) \<le> seqNo
      then requestNextKey t (upd (\<lambda>p. p\<lparr>p_keyFrameSeqNo := seqNo\<rparr>) s)
      else Some s)"

text \<open>What the pipeliner registers with the buffer.\<close>

definition pipeliner_callbacks ::
    "(nat \<Rightarrow> nat \<Rightarrow> nat \<Rightarrow> bytes \<Rightarrow> bytes \<Rightarrow> bytes \<Rightarrow> int \<times> bytes \<times> bytes) \<Rightarrow> int \<Rightarrow>
     'c system callbacks" where
  "pipeliner_callbacks decode t =
     \<lparr>cb_onKeyNeeded = Some (PipelinerBase_onKeyNeeded t),
      cb_onRetransmissionNeeded = Some (PipelinerBase_onRetransmissionNeeded t), cb_decode = decode\<rparr>"

definition request_segment :: "int \<Rightarrow> nat \<Rightarrow> int \<Rightarrow> int \<Rightarrow> bool \<Rightarrow> segment \<Rightarrow> 'c system \<Rightarrow> 'c system option" where
  "request_segment t i lifetime priority wasTimedOut sg s = do {
     segmentInterest \<leftarrow>
       (if \<not> isRightmost (fb_slot s i) then
          if sg_number sg \<ge> 0 then Some (getDefaultInterest (sg_prefix sg) lifetime s) else None
        else Some (getInterestForRightMost lifetime (s_packetNamespace (fb_slot s i) = NsKey) (-1) s));
     s1 \<leftarrow> express t segmentInterest priority s;
     Some (if wasTimedOut then count_rtx t i s1 else s1)
   }"

definition requestMissing :: "int \<Rightarrow> nat \<Rightarrow> int \<Rightarrow> int \<Rightarrow> bool \<Rightarrow> 'c system \<Rightarrow> 'c system option" where
  "requestMissing t i lifetime priority wasTimedOut s =
     ofold (request_segment t i lifetime priority wasTimedOut) (getMissingSegments (fb_slot s i)) s"

section \<open>Start, stop and reset\<close>

definition PipelinerBase_resetData :: "int \<Rightarrow> 'c system \<Rightarrow> 'c system option" where
  "PipelinerBase_resetData t s =
     (let s1 = switchToState t StateInactive
                 (upd (\<lambda>p. p\<lparr>p_recoveryCheckpointTimestamp := 0\<rparr>) (setup_estimators s)) in
      fb_reset (upd (\<lambda>p. p\<lparr>p_keyFrameSeqNo := -1, p_deltaFrameSeqNo := -1\<rparr>) s1))"

definition Pipeliner2_resetData :: "int \<Rightarrow> 'c system \<Rightarrow> 'c system option" where
  "Pipeliner2_resetData t s = do {
     s1 \<leftarrow> PipelinerBase_resetData t s;
     Some (upd (\<lambda>p. p\<lparr>p_timestamp := 0, p_failedWindow := DefaultMinWindow, p_seedFrameNo := -1,
       p_waitForChange := False, p_waitForStability := False,
       p_rttChangeEstimator := RttChangeEstimator_flush (p_rttChangeEstimator p),
       p_stabilityEstimator := StabilityEstimator_flush (p_stabilityEstimator p)\<rparr>) s1)
   }"

definition rightmost_interest :: "name \<Rightarrow> int \<Rightarrow> interest" where
  "rightmost_interest keyFramesPrefix exclusionPacket =
     (new_Interest keyFramesPrefix 1000)
       \<lparr>in_childSelector := Some 1, in_minSuffixComponents := Some 2,
        in_exclude := (if exclusionPacket \<noteq> 0
                       then [None, Some (componentFromInt (of_int exclusionPacket))] else [])\<rparr>"

definition askForRightmostData :: "int \<Rightarrow> 'c system \<Rightarrow> 'c system" where
  "askForRightmostData t s =
     (let i = rightmost_interest (p_keyFramesPrefix (pl s)) (p_exclusionPacket (pl s)) in
      enqueue t i (fromAbsolutePriority (msec t) 0)
        (upd (\<lambda>p. p\<lparr>p_rightmostInterest := i, p_exclusionPacket := 0\<rparr>) s))"

definition Pipeliner2_start :: "int \<Rightarrow> 'c system \<Rightarrow> 'c system" where
  "Pipeliner2_start t s =
     askForRightmostData t (switchToState t StateWaitInitial
       (upd (\<lambda>p. p\<lparr>p_deltaFrameSeqNo := -1, p_failedWindow := DefaultMinWindow\<rparr>) s))"

definition Pipeliner2_stop :: "int \<Rightarrow> 'c system \<Rightarrow> result \<times> 'c system" where
  "Pipeliner2_stop t s = (RESULT_OK, release (switchToState t StateInactive s))"

definition rebuffer :: "int \<Rightarrow> 'c system \<Rightarrow> 'c system option" where
  "rebuffer t s = do {
     let s1 = stat (stat_inc RebufferingsNum) s;
     let s2 = upd (\<lambda>p. p\<lparr>p_exclusionPacket :=
                (if p_useKeyNamespace p then p_keyFrameSeqNo p else p_deltaFrameSeqNo p)\<rparr>) s1;
     s3 \<leftarrow> Pipeliner2_resetData t s2;
     Some (askForRightmostData t (switchToState t StateWaitInitial s3))
   }"

definition PipelinerBase_triggerRebuffering :: "int \<Rightarrow> 'c system \<Rightarrow> 'c system option" where
  "PipelinerBase_triggerRebuffering t s = rebuffer t s"

definition threadSwitched :: "int \<Rightarrow> 'c system \<Rightarrow> 'c system option" where
  "threadSwitched t s = rebuffer t (thread_prefixes s)"

section \<open>Adapting the window\<close>

text \<open>The stages of \<open>askForSubsequentData\<close>; \<open>i\<close> is the slot of the event.\<close>

definition stableArrival :: "'c system \<Rightarrow> bool" where
  "stableArrival s \<longleftrightarrow> st_isStable (p_stabilityEstimator (pl s))"

definition stableRtt :: "'c system \<Rightarrow> bool" where
  "stableRtt s \<longleftrightarrow> st_isStable (p_rttChangeEstimator (pl s))"

definition clock64 :: "int \<Rightarrow> u64" where
  "clock64 t = of_int (msec t)"

definition timeout_passed :: "int \<Rightarrow> 'c system \<Rightarrow> bool" where
  "timeout_passed t s \<longleftrightarrow> clock64 t - p_timestamp (pl s) \<ge> 1000"

definition legitimate :: "event_type \<Rightarrow> nat \<Rightarrow> 'c system \<Rightarrow> bool" where
  "legitimate ty i s \<longleftrightarrow>
     ty = FirstSegment \<or> (ty = Ready \<and> s_nSegmentsTotal (fb_slot s i) = 1)"

definition track_inter_arrival :: "int \<Rightarrow> bool \<Rightarrow> nat \<Rightarrow> 'c system \<Rightarrow> 'c system option" where
  "track_inter_arrival t isDeltaFrame i s = do {
     (se, mt) \<leftarrow> trackInterArrival (clock64 t) (clock64 t) (p_stabilityEstimator (pl s)) (fb_meters s);
     let s1 = upd (\<lambda>p. p\<lparr>p_stabilityEstimator := se\<rparr>) (s\<lparr>fb_meters := mt\<rparr>);
     if isDeltaFrame then do {
       w \<leftarrow> window_dataArrived (s_packetSequenceNumber (fb_slot s1 i)) (p_window (pl s1));
       Some (upd (\<lambda>p. p\<lparr>p_window := w\<rparr>) s1)
     } else Some s1
   }"

definition track_rtt_change :: "bool \<Rightarrow> nat \<Rightarrow> 'c system \<Rightarrow> 'c system option" where
  "track_rtt_change isDeltaFrame i s =
     (let s1 = (if stableArrival s then s
                else upd (\<lambda>p. p\<lparr>p_rttChangeEstimator := RttChangeEstimator_flush (p_rttChangeEstimator p)\<rparr>) s) in
      if isDeltaFrame then do {
        sg \<leftarrow> s_recentSegment (fb_slot s1 i);
        (rc, mt) \<leftarrow> newRttValue (d_div (d_of_int (getRoundTripDelayUsec sg)) (Finite 1000))
                       (p_rttChangeEstimator (pl s1)) (fb_meters s1);
        Some (stat (updateIndicator RttPrime (getMeanValue rc mt))
          (upd (\<lambda>p. p\<lparr>p_rttChangeEstimator := rc\<rparr>) (s1\<lparr>fb_meters := mt\<rparr>)))
      } else Some s1)"

definition first_segment :: "int \<Rightarrow> nat \<Rightarrow> 'c system \<Rightarrow> 'c system option" where
  "first_segment t i s =
     (let sl = fb_slot s i;
          s1 = updateSegnumEstimation (s_packetNamespace sl) (s_nSegmentsTotal sl) False s;
          s2 = updateSegnumEstimation (s_packetNamespace sl) (s_nSegmentsParity sl) True s1 in
      requestMissing t i (getInterestLifetime (s_playbackDeadline sl) (s_packetNamespace sl) False s2)
        (s_playbackDeadline sl) False s2)"

definition key_frame_ready :: "nat \<Rightarrow> 'c system \<Rightarrow> 'c system" where
  "key_frame_ready i s =
     (if p_deltaFrameSeqNo (pl s) < getPairedFrameNumber (fb_slot s i)
      then upd (\<lambda>p. p\<lparr>p_deltaFrameSeqNo := getPairedFrameNumber (fb_slot s i)\<rparr>) s else s)"

text \<open>The decisions of a state: whether to increase, whether to decrease the window.\<close>

definition adjust_phase :: "int \<Rightarrow> 'c system \<Rightarrow> bool \<times> bool \<times> 'c system" where
  "adjust_phase t s =
     (let now = clock64 t in
      if stableRtt s then
        (if p_waitForChange (pl s) then
           (let (change, rc) = hasChange (p_rttChangeEstimator (pl s));
                s1 = upd (\<lambda>p. p\<lparr>p_rttChangeEstimator := rc\<rparr>) s in
            if change then
              (False, False, upd (\<lambda>p. p\<lparr>p_rttChangeEstimator := RttChangeEstimator_flush rc,
                 p_waitForChange := False, p_waitForStability := True, p_timestamp := now\<rparr>) s1)
            else if timeout_passed t s1 then
              (False, True, upd (\<lambda>p. p\<lparr>p_timestamp := now\<rparr>) s1)
            else (False, False, s1))
         else if p_waitForStability (pl s) then
           (False, True, upd (\<lambda>p. p\<lparr>p_waitForChange := True, p_waitForStability := False,
              p_timestamp := now\<rparr>) s)
         else (False, False, s))
      else if \<not> stableArrival s \<and> timeout_passed t s then
        (True, False, upd (\<lambda>p. p\<lparr>p_failedWindow := getDefaultWindowSize (p_window p),
           p_waitForStability := True, p_waitForChange := False, p_timestamp := now\<rparr>) s)
      else (False, False, s))"

definition chasing_phase :: "int \<Rightarrow> bool \<Rightarrow> 'c system \<Rightarrow> bool \<times> bool \<times> 'c system" where
  "chasing_phase t isTimedOut s =
     (if stableArrival s then adjust_phase t (switchToState t StateAdjust s)
      else
        let s1 = (if isTimedOut
                  then upd (\<lambda>p. p\<lparr>p_timestamp := clock64 t, p_waitForChange := False\<rparr>) s else s) in
        (isTimedOut, False, upd (\<lambda>p. p\<lparr>p_waitForStability := True\<rparr>) s1))"

definition fetching_phase :: "int \<Rightarrow> bool \<Rightarrow> 'c system \<Rightarrow> (bool \<times> bool \<times> 'c system) option" where
  "fetching_phase t isTimedOut s =
     (if isTimedOut then do {
        let unstable = \<not> stableArrival s;
        (playable, s1) \<leftarrow> getPlayableBufferSize s;
        (estimated, s2) \<leftarrow> getEstimatedBufferSize s1;
        let lowBuffer = d_less (d_div (d_of_int playable) (d_of_int estimated)) (Finite (1 / 2));
        if unstable \<or> lowBuffer then
          Some (True, False, upd (\<lambda>p. p\<lparr>p_waitForStability := True, p_waitForChange := False,
            p_timestamp := clock64 t,
            p_failedWindow := (if lowBuffer \<and> \<not> unstable then DefaultMinWindow else p_failedWindow p)\<rparr>)
            (switchToState t StateAdjust s2))
        else Some (False, False, s2)
      } else Some (False, False, s))"

definition state_phase :: "int \<Rightarrow> bool \<Rightarrow> 'c system \<Rightarrow> (bool \<times> bool \<times> 'c system) option" where
  "state_phase t isTimedOut s =
     (case p_state (pl s) of
        StateChasing \<Rightarrow> Some (chasing_phase t isTimedOut s)
      | StateAdjust \<Rightarrow> Some (adjust_phase t s)
      | StateFetching \<Rightarrow> fetching_phase t isTimedOut s
      | _ \<Rightarrow> Some (False, False, s))"

text \<open>\<open>float\<close> has 24 bits of precision; halving is exact.\<close>

definition float_of_u32 :: "u32 \<Rightarrow> rat" where
  "float_of_u32 n =
     (if n = 0 then 0
      else let e = max (ilog2 (of_nat (unat n)) - 23) 0 in
        of_int (round_even (of_nat (unat n) / rat_pow2 e)) * rat_pow2 e)"

definition half_window :: "pipeliner_window \<Rightarrow> int option" where
  "half_window w = i32 \<lceil>1 / 2 * float_of_u32 (getDefaultWindowSize w)\<rceil>"

definition resize_window :: "int \<Rightarrow> bool \<Rightarrow> bool \<Rightarrow> 'c system \<Rightarrow> 'c system option" where
  "resize_window t needIncreaseWindow needDecreaseWindow s =
     (if needDecreaseWindow \<or> needIncreaseWindow then do {
        let w = p_window (pl s);
        (delta, s1) \<leftarrow>
          (if needIncreaseWindow then
             (if p_state (pl s) = StateChasing then Some (sint (getDefaultWindowSize w), s)
              else do { d \<leftarrow> half_window w; Some (d, s) })
           else do {
             d \<leftarrow> half_window w;
             if p_failedWindow (pl s) \<ge> of_int (- d) + getDefaultWindowSize w
             then Some (0, upd (\<lambda>p. p\<lparr>p_timestamp := clock64 t\<rparr>) (switchToState t StateFetching s))
             else Some (- d, s)
           });
        (delta', w') \<leftarrow> changeWindow (getNewSlotsNum s1) delta (p_window (pl s1));
        let s2 = upd (\<lambda>p. p\<lparr>p_window := w'\<rparr>) s1;
        Some (if delta' \<noteq> 0
              then stat (updateIndicator DWInd (d_of_int (uint (getDefaultWindowSize w')))) s2 else s2)
      } else Some s)"

text \<open>The loop that fills the window. It needs as many rounds as the window has room.\<close>

fun request_loop :: "nat \<Rightarrow> int \<Rightarrow> 'c system \<Rightarrow> 'c system option" where
  "request_loop fuel t s =
     (let (added, w) = canAskForData (p_deltaFrameSeqNo (pl s)) (p_window (pl s));
          s1 = upd (\<lambda>p. p\<lparr>p_window := w\<rparr>) s in
      if \<not> added then Some s1
      else (case fuel of 0 \<Rightarrow> None
            | Suc n \<Rightarrow> do { s2 \<leftarrow> requestNextDelta t s1; request_loop n t s2 }))"

declare request_loop.simps [simp del]

section \<open>Data and time-outs\<close>

text \<open>
  The environment of the handlers: the decoder of the FEC library, the callback for the end of
  the buffering (\<open>None\<close> when no callback is registered) and what the memory of the local variable
  holds that \<open>extractMetadata\<close> leaves alone when the name is too short.
\<close>

record 'c environment =
  en_decode :: "nat \<Rightarrow> nat \<Rightarrow> nat \<Rightarrow> bytes \<Rightarrow> bytes \<Rightarrow> bytes \<Rightarrow> int \<times> bytes \<times> bytes"
  en_onBufferingEnded :: "('c system \<Rightarrow> 'c system option) option"
  en_uninitialised :: PrefixMetaInfo

text \<open>The part of \<open>askForSubsequentData\<close> after the buffer has taken the segment: the statements up
  to the state machine, the state machine with the window, and what follows it.\<close>

definition data_tracking ::
    "int \<Rightarrow> name \<Rightarrow> event_type \<Rightarrow> nat \<Rightarrow> 'c system \<Rightarrow> 'c system option" where
  "data_tracking t dataName ty i s = do {
     let isDeltaFrame = isDeltaFramePrefix dataName;
     s1 \<leftarrow> (if legitimate ty i s then track_inter_arrival t isDeltaFrame i s else Some s);
     s2 \<leftarrow> track_rtt_change isDeltaFrame i s1;
     s3 \<leftarrow> (if ty = FirstSegment then first_segment t i s2 else Some s2);
     Some (if ty = Ready \<and> \<not> isDeltaFrame then key_frame_ready i s3 else s3)
   }"

definition window_control :: "int \<Rightarrow> bool \<Rightarrow> 'c system \<Rightarrow> 'c system option" where
  "window_control t isTimedOut s = do {
     (needIncreaseWindow, needDecreaseWindow, s1) \<leftarrow> state_phase t isTimedOut s;
     resize_window t needIncreaseWindow needDecreaseWindow s1
   }"

definition ask_for_more :: "'c environment \<Rightarrow> int \<Rightarrow> 'c system \<Rightarrow> 'c system option" where
  "ask_for_more env t s = do {
     s2 \<leftarrow> (if state_number (p_state (pl s)) > state_number StateChasing then do {
              (playable, s1) \<leftarrow> getPlayableBufferSize s;
              if playable \<ge> fb_targetSizeMs s1 then
                (case en_onBufferingEnded env of None \<Rightarrow> Some s1 | Some f \<Rightarrow> f s1)
              else Some s1
            } else Some s);
     s3 \<leftarrow> request_loop (nat (w_w (p_window (pl s2)))) t s2;
     Some (stat (updateIndicator WInd (d_of_int (getCurrentWindowSize (p_window (pl s3))))) s3)
   }"

text \<open>The last log statement follows the pointer to the recent segment.\<close>

definition askForSubsequentData ::
    "'c environment \<Rightarrow> int \<Rightarrow> name \<Rightarrow> bytes option \<Rightarrow> 'c system \<Rightarrow> 'c system option" where
  "askForSubsequentData env t dataName content s = do {
     (e, s1) \<leftarrow> newData (pipeliner_callbacks (en_decode env) t) dataName content t (msec t) s;
     (playable, s2) \<leftarrow> getPlayableBufferSize s1;
     let s3 = (if d_less (d_div (d_of_int (fb_targetSizeMs s2)) (Finite 2)) (d_of_int playable) \<and>
                  cp_useRtx (fb_params s2)
               then setRetransmissionsEnabled True s2 else s2);
     if ev_type e = Error then Some s3
     else do {
       i \<leftarrow> ev_slot e;
       let isTimedOut = timeout_passed t s3;
       s4 \<leftarrow> data_tracking t dataName (ev_type e) i s3;
       s5 \<leftarrow> window_control t isTimedOut s4;
       recent \<leftarrow> (if legitimate (ev_type e) i s3
                 then map_option (\<lambda>_. ()) (s_recentSegment (fb_slot s5 i)) else Some ());
       ask_for_more env t s5
     }
   }"

definition askForInitialData ::
    "'c environment \<Rightarrow> int \<Rightarrow> name \<Rightarrow> bytes option \<Rightarrow> 'c system \<Rightarrow> 'c system option" where
  "askForInitialData env t dataName content s = do {
     frameNo \<leftarrow> getPacketNumber dataName;
     if frameNo \<ge> 0 then do {
       let s1 = setState Valid (upd (\<lambda>p. p\<lparr>p_window := window_init DefaultWindow (p_window p)\<rparr>) s);
       next \<leftarrow> i32 (frameNo + 1);
       if p_useKeyNamespace (pl s1) then do {
         s2 \<leftarrow> requestNextKey t (upd (\<lambda>p. p\<lparr>p_keyFrameSeqNo := next\<rparr>) s1);
         Some (switchToState t StateChasing s2)
       } else do {
         s2 \<leftarrow> requestNextDelta t (upd (\<lambda>p. p\<lparr>p_deltaFrameSeqNo := next\<rparr>) s1);
         askForSubsequentData env t dataName content
           (switchToState t StateChasing (upd (\<lambda>p. p\<lparr>p_timestamp := clock64 t\<rparr>) s2))
       }
     } else do {
       s1 \<leftarrow> fb_reset s;
       Some (askForRightmostData t s1)
     }
   }"

text \<open>The meters and statistics at the start of \<open>onData\<close>.\<close>

definition count_data :: "int \<Rightarrow> u32 \<Rightarrow> 'c system \<Rightarrow> 'c system" where
  "count_data t wireSize s =
     (let mt1 = dataRateMeterMoreData (p_dataMeterId (pl s)) wireSize (msec t) (fb_meters s);
          mt2 = frequencyMeterTick (p_segmentFreqMeterId (pl s)) (msec t) mt1;
          s1 = upd (\<lambda>p. p\<lparr>p_recoveryCheckpointTimestamp := msec t\<rparr>) (s\<lparr>fb_meters := mt2\<rparr>) in
      stat (updateIndicator InBitrateKbps
              (d_div (d_mul (currentDataRateMeterValue (p_dataMeterId (pl s1)) mt2) (Finite 8)) (Finite 1000)) \<circ>
            updateIndicator InRateSegments (currentFrequencyMeterValue (p_segmentFreqMeterId (pl s1)) mt2) \<circ>
            stat_inc SegmentsReceivedNum) s1)"

definition onData ::
    "'c environment \<Rightarrow> int \<Rightarrow> interest \<Rightarrow> name \<Rightarrow> bytes option \<Rightarrow> u32 \<Rightarrow> 'c system \<Rightarrow> 'c system option" where
  "onData env t i dataName content wireSize s0 =
     (let s = count_data t wireSize s0;
          isKeyPrefix = isPrefix dataName (p_keyFramesPrefix (pl s)) in
      case p_state (pl s) of
        StateWaitInitial \<Rightarrow>
          if name_equals (in_name (p_rightmostInterest (pl s))) (in_name i) then do {
            (r, metaInfo) \<leftarrow> extractMetadata dataName (en_uninitialised env);
            askForInitialData env t dataName content
              (upd (\<lambda>p. p\<lparr>p_seedFrameNo := playbackNo metaInfo\<rparr>) s)
          } else Some s
      | StateChasing \<Rightarrow> do {
          (r, metaInfo) \<leftarrow> extractMetadata dataName (en_uninitialised env);
          if playbackNo metaInfo \<ge> p_seedFrameNo (pl s) then
            askForSubsequentData env t dataName content
              (if p_deltaFrameSeqNo (pl s) < 0 \<and> isKeyPrefix
               then upd (\<lambda>p. p\<lparr>p_deltaFrameSeqNo := pairedSequenceNo metaInfo,
                           p_timestamp := clock64 t\<rparr>) s
               else s)
          else Some s
        }
      | StateAdjust \<Rightarrow> askForSubsequentData env t dataName content s
      | StateFetching \<Rightarrow> askForSubsequentData env t dataName content s
      | _ \<Rightarrow> Some s)"

text \<open>A key frame that has timed out is asked for again when it is the next one to be requested.\<close>

definition key_timeout :: "int \<Rightarrow> interest \<Rightarrow> 'c system \<Rightarrow> 'c system option" where
  "key_timeout t i s =
     (if isPrefix (in_name i) (p_keyFramesPrefix (pl s)) then do {
        packetNo \<leftarrow> getPacketNumber (in_name i);
        Some (if packetNo = p_keyFrameSeqNo (pl s)
              then enqueue t i (fromAbsolutePriority (msec t) 0) s else s)
      } else Some s)"

definition onTimeout :: "int \<Rightarrow> interest \<Rightarrow> 'c system \<Rightarrow> 'c system option" where
  "onTimeout t i s0 =
     (let s = stat (stat_inc TimeoutsNum) s0 in
      case p_state (pl s) of
        StateWaitInitial \<Rightarrow>
          Some (if name_equals (in_name (p_rightmostInterest (pl s))) (in_name i)
                then askForRightmostData t s else s)
      | StateAdjust \<Rightarrow> key_timeout t i s
      | StateChasing \<Rightarrow> key_timeout t i s
      | _ \<Rightarrow> Some s)"

end
