(* ===== verification/Pipeliner_Invariant.thy ===== *)
theory Pipeliner_Invariant
  imports Pipeliner Frame_Buffer_Reset
begin

text \<open>
  The invariant of the pipeliner together with the frame buffer: the pipeliner's prefixes name
  streams, so that every interest it issues names a segment of one packet; its window accounts for
  the frames asked for; and it reports state changes that its state machine has. Every request
  keeps it, which gives the contract \<open>buffer_client\<close> for the pipeliner's callbacks.
\<close>

section \<open>What the pipeliner keeps\<close>

definition frames_prefix :: "name \<Rightarrow> bool" where
  "frames_prefix n \<longleftrightarrow> (\<exists>pre frames. stream_path pre \<and> frames_word frames \<and> n = Name (pre @ [Component frames]))"

text \<open>Frames that are asked for are below the next number, and room and frames add up to the
  default size of the window.\<close>

definition window_ok :: "int \<Rightarrow> pipeliner_window \<Rightarrow> bool" where
  "window_ok deltaNo w \<longleftrightarrow> w_framePool w \<subseteq> {0..<deltaNo} \<and> w_dw w \<noteq> 0 \<and>
     of_int (w_w w + int (card (w_framePool w))) = w_dw w"

fun transition :: "pipeliner_state \<Rightarrow> pipeliner_state \<Rightarrow> bool" where
  "transition st StateInactive \<longleftrightarrow> st \<noteq> StateInactive"
| "transition st StateWaitInitial \<longleftrightarrow> st = StateInactive"
| "transition st StateChasing \<longleftrightarrow> st = StateWaitInitial"
| "transition st StateAdjust \<longleftrightarrow> st = StateChasing \<or> st = StateFetching"
| "transition st StateFetching \<longleftrightarrow> st = StateAdjust"
| "transition st StateBuffering \<longleftrightarrow> False"

text \<open>The reported changes are a walk through the state machine.\<close>

fun walk :: "pipeliner_state \<Rightarrow> (pipeliner_state \<times> pipeliner_state) list \<Rightarrow> pipeliner_state \<Rightarrow> bool" where
  "walk st [] st' \<longleftrightarrow> st = st'"
| "walk st ((a, b) # cs) st' \<longleftrightarrow> a = st \<and> transition a b \<and> walk b cs st'"

lemma walk_append: "walk st (cs @ [(a, b)]) st' \<longleftrightarrow> walk st cs a \<and> transition a b \<and> b = st'"
  by (induction cs arbitrary: st) auto

definition running :: "pipeliner_state \<Rightarrow> bool" where
  "running st \<longleftrightarrow> state_number st > state_number StateWaitInitial"

lemma running_simps [simp]:
  "running StateChasing" "running StateAdjust" "running StateFetching"
  "\<not> running StateInactive" "\<not> running StateWaitInitial"
  by (simp_all add: running_def)

definition pl_inv :: "'c pipeliner_scheme \<Rightarrow> bool" where
  "pl_inv p \<longleftrightarrow> frames_prefix (p_deltaFramesPrefix p) \<and> frames_prefix (p_keyFramesPrefix p) \<and>
     length (p_rnds p) < 2 ^ 30 \<and> -1 \<le> p_deltaFrameSeqNo p \<and>
     (running (p_state p) \<longrightarrow> window_ok (p_deltaFrameSeqNo p) (p_window p)) \<and>
     walk StateInactive (p_stateChanges p) (p_state p)"

lemma pl_inv_frame [simp]:
  "pl_inv (p\<lparr>p_threadPrefix := a0\<rparr>) = pl_inv p"
  "pl_inv (p\<lparr>p_keyFrameSeqNo := a1\<rparr>) = pl_inv p"
  "pl_inv (p\<lparr>p_recoveryCheckpointTimestamp := a2\<rparr>) = pl_inv p"
  "pl_inv (p\<lparr>p_startPhaseTimestamp := a3\<rparr>) = pl_inv p"
  "pl_inv (p\<lparr>p_stabilityEstimator := a4\<rparr>) = pl_inv p"
  "pl_inv (p\<lparr>p_rttChangeEstimator := a5\<rparr>) = pl_inv p"
  "pl_inv (p\<lparr>p_timestamp := a6\<rparr>) = pl_inv p"
  "pl_inv (p\<lparr>p_waitForChange := a7\<rparr>) = pl_inv p"
  "pl_inv (p\<lparr>p_waitForStability := a8\<rparr>) = pl_inv p"
  "pl_inv (p\<lparr>p_failedWindow := a9\<rparr>) = pl_inv p"
  "pl_inv (p\<lparr>p_seedFrameNo := b1\<rparr>) = pl_inv p"
  "pl_inv (p\<lparr>p_rightmostInterest := b2\<rparr>) = pl_inv p"
  "pl_inv (p\<lparr>p_exclusionPacket := b3\<rparr>) = pl_inv p"
  "pl_inv (p\<lparr>p_queue := b4\<rparr>) = pl_inv p"
  "pl_inv (p\<lparr>p_deltaSegnumEstimatorId := b5\<rparr>) = pl_inv p"
  "pl_inv (p\<lparr>p_keySegnumEstimatorId := b6\<rparr>) = pl_inv p"
  "pl_inv (p\<lparr>p_deltaParitySegnumEstimatorId := b7\<rparr>) = pl_inv p"
  "pl_inv (p\<lparr>p_keyParitySegnumEstimatorId := b8\<rparr>) = pl_inv p"
  "pl_inv (p\<lparr>p_rtxFreqMeterId := b9\<rparr>) = pl_inv p"
  "pl_inv (p\<lparr>p_consumerPrefix := c1\<rparr>) = pl_inv p"
  "pl_inv (p\<lparr>p_threadName := c2\<rparr>) = pl_inv p"
  by (simp_all add: pl_inv_def)

lemma pl_inv_rnds: "pl_inv p \<Longrightarrow> length rs \<le> length (p_rnds p) \<Longrightarrow> pl_inv (p\<lparr>p_rnds := rs\<rparr>)"
  by (simp add: pl_inv_def)

text \<open>\<open>ok\<close> is the invariant of buffer and pipeliner, \<open>out\<close> as for the buffer.\<close>

abbreviation ok :: "nat option \<Rightarrow> 'c system \<Rightarrow> bool" where
  "ok out s \<equiv> fb_inv pl_inv out s"

lemma upd_simps [simp]:
  "pl (upd f s) = f (pl s)" "fb_slots (upd f s) = fb_slots s" "fb_nSlots (upd f s) = fb_nSlots s"
  "fb_playbackSlot (upd f s) = fb_playbackSlot s" "fb_playbackQueue (upd f s) = fb_playbackQueue s"
  "fb_activeSlots (upd f s) = fb_activeSlots s" "fb_freeSlots (upd f s) = fb_freeSlots s"
  "fb_state (upd f s) = fb_state s" "fb_params (upd f s) = fb_params s" "fb_meters (upd f s) = fb_meters s" "fb_stats (upd f s) = fb_stats s"
  by (simp_all add: upd_def)

lemma ok_pl: "ok out s \<Longrightarrow> pl_inv (pl s)"
  by (simp add: fb_inv_def)

lemma ok_upd: "ok out s \<Longrightarrow> pl_inv (f (pl s)) \<Longrightarrow> ok out (upd f s)"
  by (simp add: fb_inv_def)

lemma ok_upd_iff: "pl_inv (f (pl s)) = pl_inv (pl s) \<Longrightarrow> ok out (upd f s) = ok out s"
  by (simp add: fb_inv_def)

lemma ok_enqueue [simp]: "ok out (enqueue t i pri s) = ok out s"
  by (simp add: enqueue_def ok_upd_iff)

lemma ok_fold_enqueue [simp]: "ok out (fold (enqueue_segment t i pri par) xs s) = ok out s"
  by (induction xs arbitrary: s) (simp_all add: enqueue_segment_def Let_def split: prod.split)

lemma stat_more [simp]: "pl (stat f s) = pl s" "fb_state (stat f s) = fb_state s" "fb_slots (stat f s) = fb_slots s"
  "fb_params (stat f s) = fb_params s" "fb_meters (stat f s) = fb_meters s"
  "fb_playbackQueue (stat f s) = fb_playbackQueue s" "fb_playbackSlot (stat f s) = fb_playbackSlot s"
  by (simp_all add: stat_def)

section \<open>Requests\<close>

lemma frames_prefix_packet:
  assumes "frames_prefix base"
  shows "\<exists>pre frames. stream_path pre \<and> frames_word frames \<and>
    name_append base (componentFromInt no) = packet_name pre frames no"
  using assms by (auto simp: frames_prefix_def name_append_def packet_name_def)

lemma prefetch_key:
  assumes "frames_prefix base" "getPacketNumber (name_append base (componentFromInt no)) = Some p" "0 \<le> p"
  shows "regular_key (name_append base (componentFromInt no))"
proof -
  obtain pre frames where k: "stream_path pre" "frames_word frames"
    "name_append base (componentFromInt no) = packet_name pre frames no"
    using frames_prefix_packet [OF assms(1)] by blast
  then have "uint no < 2 ^ 31"
    using assms(2,3) packet_number [OF k(1,2)] frameNumber_nonneg by simp
  then show ?thesis using k by (auto simp: regular_key_def)
qed

text \<open>Requests take nonces and queue interests: other properties of the pipeliner are kept, too.\<close>

definition requesting :: "('c pipeliner_scheme \<Rightarrow> bool) \<Rightarrow> bool" where
  "requesting P \<longleftrightarrow> (\<forall>p. P p \<longrightarrow> length (p_rnds p) < 2 ^ 30 \<and> (\<forall>q. P (p\<lparr>p_queue := q\<rparr>)) \<and>
     (\<forall>rs. length rs \<le> length (p_rnds p) \<longrightarrow> P (p\<lparr>p_rnds := rs\<rparr>)))"

lemma requesting_pl_inv: "requesting pl_inv"
  by (simp add: requesting_def pl_inv_rnds) (simp add: pl_inv_def)

lemma requestingD:
  assumes "requesting P" "fb_inv P out s"
  shows "length (p_rnds (pl s)) < 2 ^ 30" and "fb_inv P out (upd (\<lambda>p. p\<lparr>p_queue := f p\<rparr>) s)"
    and "length (g (pl s)) \<le> length (p_rnds (pl s)) \<Longrightarrow> fb_inv P out (upd (\<lambda>p. p\<lparr>p_rnds := g p\<rparr>) s)"
  using assms by (simp_all add: fb_inv_def requesting_def)

lemma requesting_fold:
  "requesting P \<Longrightarrow> fb_inv P out s \<Longrightarrow> fb_inv P out (fold (enqueue_segment t i pri par) xs s)"
  by (induction xs arbitrary: s)
    (simp_all add: enqueue_segment_def enqueue_def Let_def requestingD(2) split: prod.split)

lemma expressRange_inv:
  assumes res: "expressRange t i a b pri par s = Some s'" and inv: "fb_inv P out s" and P: "requesting P"
    and reg: "\<And>no. getPacketNumber (in_name i) = Some no \<Longrightarrow> 0 \<le> no \<Longrightarrow> regular_key (in_name i)"
    and a: "a = 0"
  shows "fb_inv P out s'"
proof -
  obtain st names s1 where r: "interestRangeIssued (in_name i) a b par (p_rnds (pl s)) t s = Some (st, names, s1)"
    and s': "s' = fold (enqueue_segment t i pri par) (enumerate 0 names)
      (upd (\<lambda>p. p\<lparr>p_rnds := drop (length names) (p_rnds p)\<rparr>) s1)"
    using res by (auto simp: expressRange_def bind_Some Let_def)
  have "length (p_rnds (pl s)) < 2 ^ 30" by (rule requestingD(1) [OF P inv])
  then have "a + int (length (p_rnds (pl s))) \<le> 2 ^ 30" using a by simp
  then have "fb_inv P out s1" using fb_inv_interestRangeIssued [OF inv r] reg a by simp
  then show ?thesis unfolding s' by (intro requesting_fold [OF P] requestingD(3) [OF P]) simp_all
qed

lemma prefetchFrame_inv:
  assumes res: "prefetchFrame t base no n np ns s = Some s'" and inv: "fb_inv P out s" and base: "frames_prefix base"
    and P: "requesting P"
  shows "fb_inv P out s'"
proof -
  define k where "k = name_append base (componentFromInt (of_int no))"
  note key = prefetch_key [OF base, of "of_int no", folded k_def]
  obtain d s1 where s1: "getEstimatedBufferSize s = Some (d, s1)"
    using res unfolding prefetchFrame_def Let_def by (auto simp: bind_Some)
  have inv1: "fb_inv P out s1" using fb_inv_getEstimatedBufferSize s1 inv by blast
  define i where "i = (getDefaultInterest k 0 s1)\<lparr>in_lifetimeMs := getInterestLifetime d ns False s1\<rparr>"
  have name: "in_name i = k" by (simp add: i_def getDefaultInterest_def new_Interest_def)
  obtain m s2 where s2: "expressRange t i 0 m d False s1 = Some s2"
    and s': "s' = s2 \<or> (\<exists>m. expressRange t i 0 m d True s2 = Some s')"
    using res unfolding prefetchFrame_def Let_def k_def [symmetric] s1
    by (auto simp: bind_Some i_def split: if_splits)
  have inv2: "fb_inv P out s2" by (rule expressRange_inv [OF s2 inv1 P]) (use key name in auto)
  show ?thesis using s'
  proof (elim disjE exE)
    show "fb_inv P out s'" if "expressRange t i 0 m d True s2 = Some s'" for m
      by (rule expressRange_inv [OF that inv2 P]) (use key name in auto)
  qed (use inv2 in simp)
qed

lemma minus_one_overflows: "frameNumber (componentFromInt (-1)) = None"
proof -
  have n: "unat (-1 :: u32) = 4294967295" by (simp add: unsigned_minus_1_eq_mask mask_eq_exp_minus_1)
  have "intFromComponent_loop 0 (dec_string 429496729 @ [digit 5]) = intFromComponent_loop 429496729 [digit 5]"
    by (rule intFromComponent_loop_append)
      (use intFromComponent_dec_string [of 429496729] dec_string_digits in \<open>auto\<close>)
  also have "\<dots> = None" by simp
  finally show ?thesis unfolding frameNumber_def intFromComponent_def componentFromInt_def n
    by (subst dec_string.simps) simp
qed

lemma prefetchFrame_number:
  assumes res: "prefetchFrame t base no n np ns s = Some s'" and base: "frames_prefix base" and no: "-1 \<le> no"
  shows "0 \<le> no"
proof (rule ccontr)
  assume "\<not> 0 \<le> no"
  then have m1: "no = -1" using no by simp
  obtain d s1 where s1: "getEstimatedBufferSize s = Some (d, s1)"
    using res unfolding prefetchFrame_def Let_def by (auto simp: bind_Some)
  define i where "i = (getDefaultInterest (name_append base (componentFromInt (of_int no))) 0 s1)
    \<lparr>in_lifetimeMs := getInterestLifetime d ns False s1\<rparr>"
  have name: "in_name i = name_append base (componentFromInt (of_int no))"
    by (simp add: i_def getDefaultInterest_def new_Interest_def)
  obtain m s2 where "expressRange t i 0 m d False s1 = Some s2"
    using res unfolding prefetchFrame_def Let_def s1 by (auto simp: bind_Some i_def)
  then have "getPacketNumber (in_name i) \<noteq> None"
    by (auto simp: expressRange_def interestRangeIssued_def bind_Some)
  moreover obtain pre frames where p: "stream_path pre" "frames_word frames"
      "in_name i = packet_name pre frames (of_int no)"
    using frames_prefix_packet [OF base] name by metis
  have "getPacketNumber (in_name i) = None" using packet_number [OF p(1,2)] p(3) m1 minus_one_overflows by simp
  ultimately show False by simp
qed

lemma requestNextKey_inv:
  assumes res: "requestNextKey t s = Some s'" and inv: "fb_inv P out s" and P: "requesting P"
    and key: "\<And>p n. P p \<Longrightarrow> P (p\<lparr>p_keyFrameSeqNo := n\<rparr>)" and base: "frames_prefix (p_keyFramesPrefix (pl s))"
  shows "fb_inv P out s'"
proof -
  obtain n np nx where r: "prefetchFrame t (p_keyFramesPrefix (pl s)) (p_keyFrameSeqNo (pl s)) n np NsKey
      (upd (\<lambda>p. p\<lparr>p_keyFrameSeqNo := nx\<rparr>) (stat (stat_inc RequestedKeyNum \<circ> stat_inc RequestedNum) s)) = Some s'"
    using res unfolding requestNextKey_def Let_def stat_more by (auto simp: bind_Some)
  have "fb_inv P out (upd (\<lambda>p. p\<lparr>p_keyFrameSeqNo := nx\<rparr>) (stat (stat_inc RequestedKeyNum \<circ> stat_inc RequestedNum) s))"
    using inv key by (simp add: fb_inv_def upd_def stat_def)
  then show ?thesis by (rule prefetchFrame_inv [OF r _ base P])
qed

text \<open>The number that is requested is taken out of the window before: the state in between need
  not have the invariant.\<close>

lemma requestNextDelta_inv:
  assumes res: "requestNextDelta t s = Some s'" and base: "frames_prefix (p_deltaFramesPrefix (pl s))"
    and no: "-1 \<le> p_deltaFrameSeqNo (pl s)"
    and P: "requesting P" and inv: "0 \<le> p_deltaFrameSeqNo (pl s) \<Longrightarrow>
      fb_inv P out (upd (\<lambda>p. p\<lparr>p_deltaFrameSeqNo := p_deltaFrameSeqNo (pl s) + 1\<rparr>) s)"
  shows "fb_inv P out s'"
proof -
  obtain n np nx where "i32 (p_deltaFrameSeqNo (pl s) + 1) = Some nx"
    and r: "prefetchFrame t (p_deltaFramesPrefix (pl s)) (p_deltaFrameSeqNo (pl s)) n np NsDelta
      (upd (\<lambda>p. p\<lparr>p_deltaFrameSeqNo := nx\<rparr>) (stat (stat_inc RequestedNum) s)) = Some s'"
    using res unfolding requestNextDelta_def Let_def stat_more by (auto simp: bind_Some)
  moreover from this(1) have nx: "nx = p_deltaFrameSeqNo (pl s) + 1"
    by (simp add: i32_def split: if_splits)
  moreover have "upd f (stat g s) = stat g (upd f s)" for f g
    by (cases s) (simp add: upd_def stat_def)
  ultimately have r': "prefetchFrame t (p_deltaFramesPrefix (pl s)) (p_deltaFrameSeqNo (pl s)) n np NsDelta
      (stat (stat_inc RequestedNum) (upd (\<lambda>p. p\<lparr>p_deltaFrameSeqNo := p_deltaFrameSeqNo (pl s) + 1\<rparr>) s)) = Some s'"
    by simp
  show ?thesis
    by (rule prefetchFrame_inv [OF r' _ base P]) (use inv prefetchFrame_number [OF r base no] in simp)
qed

section \<open>The callbacks of the buffer\<close>

lemma ofold_inv:
  assumes "ofold f xs s = Some s'" and "I s" and "\<And>x s s'. x \<in> set xs \<Longrightarrow> f x s = Some s' \<Longrightarrow> I s \<Longrightarrow> I s'"
  shows "I s'"
  using assms
proof (induction xs arbitrary: s)
  case (Cons x xs)
  then obtain s1 where "f x s = Some s1" "ofold f xs s1 = Some s'" by (auto simp: bind_Some)
  moreover from this have "I s1" using Cons.prems(2,3) by (metis list.set_intros(1))
  ultimately show ?case using Cons.IH Cons.prems(3) by (metis list.set_intros(2))
qed simp

lemma count_rtx_inv: "fb_inv P out s \<Longrightarrow> fb_inv P out (count_rtx t i s)"
proof -
  assume inv: "fb_inv P out s"
  have "slot_like (fb_slots s i) ((fb_slot s i)\<lparr>s_nRtx := s_nRtx (fb_slot s i) + 1\<rparr>)"
    by (simp add: slot_like_def slot_ok_def names_ok_def slot_unused_def)
  from fb_inv_set_slot [OF inv this] show "fb_inv P out (count_rtx t i s)" by (simp add: count_rtx_def Let_def)
qed

lemma slot_segments:
  assumes inv: "fb_inv P out s" and i: "i < fb_nSlots s" and sg: "sg \<in> set (getSegments m (fb_slots s i))"
  shows "segment_of (sg_prefix sg) (s_slotPrefix (fb_slots s i))"
proof -
  have sl: "slots_ok (fb_slots s) (fb_nSlots s) (fb_activeSlots s) (fb_playbackSlot s)"
    using inv by (simp add: fb_inv_def)
  have "names_ok (fb_slots s i)"
  proof (cases "i \<in> snd ` set (fb_activeSlots s)")
    case True
    then show ?thesis using slots_okD(7) [OF sl] by auto
  next
    case False
    then show ?thesis using slots_okD(8) [OF sl i] by (simp add: slot_unused_def names_ok_def)
  qed
  moreover have "s_rightmostSegment (fb_slots s i) = None"
    using slots_okD(1) [OF sl i] by (simp add: slot_ok_def)
  ultimately show ?thesis using sg by (auto simp: getSegments_def names_ok_def)
qed

lemma item_slot: "fb_inv P out s \<Longrightarrow> i \<in> set (pq_items (fb_playbackQueue s)) \<Longrightarrow> i < fb_nSlots s"
  using containers_active(1,2) by (fastforce simp: fb_inv_def)

text \<open>Any stronger invariant of the pipeliner that requests keep is kept by the callbacks.\<close>

locale pipeliner_invariant =
  fixes P :: "'c pipeliner_scheme \<Rightarrow> bool"
  assumes requests: "requesting P"
    and keys: "\<And>p n. P p \<Longrightarrow> P (p\<lparr>p_keyFrameSeqNo := n\<rparr>)"
    and basic: "\<And>p. P p \<Longrightarrow> pl_inv p"
begin

lemma prefixes:
  assumes "fb_inv P out s"
  shows "frames_prefix (p_keyFramesPrefix (pl s))" "frames_prefix (p_deltaFramesPrefix (pl s))"
    "-1 \<le> p_deltaFrameSeqNo (pl s)"
  using assms basic by (auto simp: fb_inv_def pl_inv_def)

lemma express_inv:
  assumes res: "express t i pri s = Some s'" and inv: "fb_inv P out s" and seg: "segment_of (in_name i) k"
  shows "fb_inv P out s'"
proof -
  obtain rnd rnds st s1 where "p_rnds (pl s) = rnd # rnds" and r: "fb_interestIssued (in_name i) rnd t s = Some (st, s1)"
    and s': "s' = enqueue t i (fromArrivalDelay (msec t) pri) (upd (\<lambda>p. p\<lparr>p_rnds := tl (p_rnds p)\<rparr>) s1)"
    using res by (auto simp: express_def bind_Some Let_def split: list.splits)
  have "fb_inv P out s1" by (rule fb_inv_interestIssued [OF inv r seg])
  then have "fb_inv P out (upd (\<lambda>p. p\<lparr>p_rnds := tl (p_rnds p)\<rparr>) s1)" by (rule requestingD(3) [OF requests]) simp
  then show ?thesis unfolding s' enqueue_def by (rule requestingD(2) [OF requests])
qed

lemma key_inv: "requestNextKey t s = Some s' \<Longrightarrow> fb_inv P out s \<Longrightarrow> fb_inv P out s'"
  using requestNextKey_inv [OF _ _ requests keys] prefixes(1) by blast

lemma retransmit_inv:
  assumes res: "retransmit t i sg s = Some s'" and inv: "fb_inv P out s" and seg: "segment_of (sg_prefix sg) k"
  shows "fb_inv P out s'"
proof -
  define int where "int = getDefaultInterest (sg_prefix sg) 0 s"
  have name: "in_name int = sg_prefix sg" by (simp add: int_def getDefaultInterest_def new_Interest_def)
  obtain r sl where m: "Slot_markMissing (sg_prefix sg) (fb_slot s i) = Some (r, sl)"
    and e: "express t int (s_playbackDeadline sl) (set_slot i sl s) = Some s'"
    using res name unfolding retransmit_def Let_def int_def [symmetric] by (auto simp: bind_Some)
  show ?thesis
    by (rule express_inv [OF e fb_inv_set_slot [OF inv slot_like_markMissing [OF m]]]) (use seg name in simp)
qed

lemma onRetransmissionNeeded_inv:
  assumes res: "PipelinerBase_onRetransmissionNeeded t i s = Some s'" and inv: "fb_inv P out s"
    and i: "i < fb_nSlots s"
  shows "fb_inv P out s'"
proof (cases "s' = s")
  case False
  then obtain s1 where r: "ofold (retransmit t i) (getPendingSegments (fb_slot s i)) s = Some s1"
    and s': "s' = count_rtx t i s1"
    using res by (auto simp: PipelinerBase_onRetransmissionNeeded_def Let_def split: if_splits)
  have "fb_inv P out s1"
    by (rule ofold_inv [where I = "fb_inv P out", OF r inv])
      (use slot_segments [OF inv i] retransmit_inv in \<open>unfold getPendingSegments_def, blast\<close>)
  then show ?thesis by (simp add: s' count_rtx_inv)
qed (use inv in simp)

lemma onKeyNeeded_keeps:
  assumes res: "PipelinerBase_onKeyNeeded t no s = Some s'" and inv: "fb_inv P out s"
  shows "fb_inv P out s'"
proof (cases "p_keyFrameSeqNo (pl s) \<le> no")
  case True
  then have "requestNextKey t (upd (\<lambda>p. p\<lparr>p_keyFrameSeqNo := no\<rparr>) s) = Some s'"
    using res by (simp add: PipelinerBase_onKeyNeeded_def)
  then show ?thesis by (rule key_inv) (use inv keys in \<open>simp add: fb_inv_def\<close>)
qed (use res inv in \<open>simp add: PipelinerBase_onKeyNeeded_def\<close>)

lemma rightmost_inv: "slot_ok sl \<Longrightarrow> \<not> isRightmost sl"
  by (simp add: isRightmost_def slot_ok_def)

lemma request_segment_inv:
  assumes res: "request_segment t i lt pri False sg s = Some s'" and inv: "fb_inv P out s"
    and i: "i < fb_nSlots s" and seg: "segment_of (sg_prefix sg) k"
  shows "fb_inv P out s'"
proof -
  have "slot_ok (fb_slots s i)" using inv i slots_okD(1) by (auto simp: fb_inv_def)
  then have "express t (getDefaultInterest (sg_prefix sg) lt s) pri s = Some s'"
    using res by (auto simp: request_segment_def bind_Some rightmost_inv split: if_splits)
  then show ?thesis
    by (rule express_inv [OF _ inv]) (use seg in \<open>simp add: getDefaultInterest_def new_Interest_def\<close>)
qed

end

text \<open>So the pipeliner is a client that the buffer can rely on.\<close>

sublocale pipeliner_invariant \<subseteq> client: buffer_client P "pipeliner_callbacks decode t"
  by unfold_locales
    (auto simp: pipeliner_callbacks_def intro: onKeyNeeded_keeps onRetransmissionNeeded_inv item_slot)

text \<open>The two instances: the invariant, and the invariant while frames are asked for; \<open>Q\<close> is what the
  pipeliner's own client knows of its part of the state.\<close>

definition pl_running :: "('c \<Rightarrow> bool) \<Rightarrow> 'c pipeliner_scheme \<Rightarrow> bool" where
  "pl_running Q p \<longleftrightarrow> pl_inv p \<and> running (p_state p) \<and> Q (pipeliner.more p)"

interpretation pipeliner: pipeliner_invariant "pl_inv :: 'c pipeliner_scheme \<Rightarrow> bool"
  by unfold_locales (simp_all add: requesting_pl_inv)

interpretation working: pipeliner_invariant "pl_running Q :: 'c pipeliner_scheme \<Rightarrow> bool"
  by unfold_locales (use requesting_pl_inv in \<open>auto simp: pl_running_def requesting_def\<close>)

end
