(* ===== verification/Pipeliner_Steps.thy ===== *)
theory Pipeliner_Steps
  imports Pipeliner_Invariant
begin

text \<open>
  Every handler of the pipeliner keeps the invariant of pipeliner and buffer.
\<close>

section \<open>The pool of slots and the slot being played stay\<close>

lemma reserveSlot_pool: "reserveSlot n s = Some (r, s') \<Longrightarrow> fb_nSlots s' = fb_nSlots s \<and> fb_playbackSlot s' = fb_playbackSlot s \<and> fb_state s' = fb_state s \<and> pl s' = pl s"
  by (auto simp: reserveSlot_def setSlot_def with_queue_def set_slot_def bind_Some Let_def
      split: prod.splits if_splits)

lemma getSlot_pool: "getSlot n b s = (r, s') \<Longrightarrow> fb_nSlots s' = fb_nSlots s \<and> fb_playbackSlot s' = fb_playbackSlot s \<and> fb_state s' = fb_state s \<and> pl s' = pl s"
  by (auto simp: getSlot_def Let_def split: prod.splits option.splits if_splits)

lemma interestIssued_pool:
  assumes "fb_interestIssued n rnd t s = Some (st, s')" shows "fb_nSlots s' = fb_nSlots s \<and> fb_playbackSlot s' = fb_playbackSlot s \<and> fb_state s' = fb_state s \<and> pl s' = pl s"
proof -
  obtain slot s1 where r: "(case getSlot n False s of (Some i, s1) \<Rightarrow> Some (Some i, s1)
       | (None, s1) \<Rightarrow> reserveSlot n s1) = Some (slot, s1)"
    using assms by (auto simp: fb_interestIssued_def bind_Some)
  have "fb_nSlots s1 = fb_nSlots s \<and> fb_playbackSlot s1 = fb_playbackSlot s \<and> fb_state s1 = fb_state s \<and> pl s1 = pl s"
    using r reserveSlot_pool getSlot_pool by (fastforce split: prod.splits option.splits)
  moreover have "fb_nSlots s' = fb_nSlots s1 \<and> fb_playbackSlot s' = fb_playbackSlot s1 \<and> fb_state s' = fb_state s1 \<and> pl s' = pl s1"
    using assms r by (auto simp: fb_interestIssued_def bind_Some set_slot_def Let_def split: option.splits if_splits)
  ultimately show ?thesis by simp
qed

lemma issue_range_pool: "issue_range k i ns rnds t par s = Some (names, s') \<Longrightarrow> fb_nSlots s' = fb_nSlots s \<and> fb_playbackSlot s' = fb_playbackSlot s \<and> fb_state s' = fb_state s \<and> pl s' = pl s"
proof (induction ns arbitrary: rnds s names)
  case (Cons x xs)
  obtain sl where "s' = set_slot i sl s \<or>
      (\<exists>names. issue_range k i xs (tl rnds) t par (set_slot i sl s) = Some (names, s'))"
    using Cons.prems by (auto simp: bind_Some Let_def split: if_splits)
  then show ?case using Cons.IH by (auto simp: set_slot_def)
qed simp

lemma interestRangeIssued_pool:
  assumes "interestRangeIssued k a b par rnds t s = Some (st, names, s')" shows "fb_nSlots s' = fb_nSlots s \<and> fb_playbackSlot s' = fb_playbackSlot s \<and> fb_state s' = fb_state s \<and> pl s' = pl s"
proof -
  obtain no where no: "getPacketNumber k = Some no"
    using assms by (auto simp: interestRangeIssued_def bind_Some)
  show ?thesis
  proof (cases "no < 0 \<or> a > b")
    case False
    then have g: "(no < 0 \<or> a > b) = False" by simp
    obtain slot s1 where r: "(case getSlot k False s of (Some i, s1) \<Rightarrow> Some (Some i, s1)
       | (None, s1) \<Rightarrow> reserveSlot k s1) = Some (slot, s1)"
      using assms no g by (auto simp: interestRangeIssued_def bind_Some)
    have "fb_nSlots s1 = fb_nSlots s \<and> fb_playbackSlot s1 = fb_playbackSlot s \<and> fb_state s1 = fb_state s \<and> pl s1 = pl s"
      using r reserveSlot_pool getSlot_pool by (fastforce split: prod.splits option.splits)
    moreover have "fb_nSlots s' = fb_nSlots s1 \<and> fb_playbackSlot s' = fb_playbackSlot s1 \<and> fb_state s' = fb_state s1 \<and> pl s' = pl s1"
      using assms no issue_range_pool
      unfolding interestRangeIssued_def no Option.bind.bind_lunit g if_False r
      by (fastforce simp: bind_Some split: option.splits)
    ultimately show ?thesis by simp
  qed (use assms no in \<open>auto simp: interestRangeIssued_def\<close>)
qed

lemma set_slot_pool [simp]: "fb_nSlots (set_slot i sl s) = fb_nSlots s \<and> fb_playbackSlot (set_slot i sl s) = fb_playbackSlot s \<and> fb_state (set_slot i sl s) = fb_state s"
  by (simp add: set_slot_def)

lemma stat_pool [simp]: "fb_nSlots (stat f s) = fb_nSlots s \<and> fb_playbackSlot (stat f s) = fb_playbackSlot s \<and> fb_state (stat f s) = fb_state s"
  by (simp add: stat_def)

lemma event_pool [simp]: "fb_nSlots (addBufferEvent ty e s) = fb_nSlots s \<and> fb_playbackSlot (addBufferEvent ty e s) = fb_playbackSlot s \<and> fb_state (addBufferEvent ty e s) = fb_state s"
  by (simp add: addBufferEvent_def)

lemma target_pool [simp]: "fb_nSlots (setTargetSize n s) = fb_nSlots s \<and> fb_playbackSlot (setTargetSize n s) = fb_playbackSlot s \<and> fb_state (setTargetSize n s) = fb_state s"
  by (simp add: setTargetSize_def)

lemma rate_pool [simp]: "fb_nSlots (updateCurrentRate d s) = fb_nSlots s \<and> fb_playbackSlot (updateCurrentRate d s) = fb_playbackSlot s \<and> fb_state (updateCurrentRate d s) = fb_state s"
  by (simp add: updateCurrentRate_def)

lemma sizes_pool:
  "getEstimatedBufferSize s = Some (d, s') \<Longrightarrow> fb_nSlots s' = fb_nSlots s \<and> fb_playbackSlot s' = fb_playbackSlot s \<and> fb_state s' = fb_state s \<and> pl s' = pl s"
  "getPlayableBufferSize s = Some (d, s') \<Longrightarrow> fb_nSlots s' = fb_nSlots s \<and> fb_playbackSlot s' = fb_playbackSlot s \<and> fb_state s' = fb_state s \<and> pl s' = pl s"
  by (auto simp: getEstimatedBufferSize_def estimateBufferSize_def getPlayableBufferSize_def bind_Some
      split: if_splits)

lemma enqueue_pool [simp]: "fb_nSlots (enqueue t i pri s) = fb_nSlots s \<and> fb_playbackSlot (enqueue t i pri s) = fb_playbackSlot s \<and> fb_state (enqueue t i pri s) = fb_state s"
  by (simp add: enqueue_def)

lemma fold_enqueue_pool [simp]: "fb_nSlots (fold (enqueue_segment t i pri par) xs s) = fb_nSlots s \<and> fb_playbackSlot (fold (enqueue_segment t i pri par) xs s) = fb_playbackSlot s \<and> fb_state (fold (enqueue_segment t i pri par) xs s) = fb_state s"
  by (induction xs arbitrary: s) (simp_all add: enqueue_segment_def Let_def split: prod.split)

lemma count_rtx_pool [simp]: "fb_nSlots (count_rtx t i s) = fb_nSlots s \<and> fb_playbackSlot (count_rtx t i s) = fb_playbackSlot s \<and> fb_state (count_rtx t i s) = fb_state s"
  by (simp add: count_rtx_def Let_def)

lemma express_pool: "express t i pri s = Some s' \<Longrightarrow> fb_nSlots s' = fb_nSlots s \<and> fb_playbackSlot s' = fb_playbackSlot s \<and> fb_state s' = fb_state s"
  by (auto simp: express_def bind_Some Let_def dest: interestIssued_pool split: list.splits)

lemma fold_enqueue_window [simp]: "p_window (pl (fold (enqueue_segment t i pri par) xs s)) = p_window (pl s)"
  by (induction xs arbitrary: s) (simp_all add: enqueue_segment_def enqueue_def Let_def split: prod.split)

lemma expressRange_pool: "expressRange t i a b pri par s = Some s' \<Longrightarrow> fb_nSlots s' = fb_nSlots s \<and> fb_playbackSlot s' = fb_playbackSlot s \<and> fb_state s' = fb_state s \<and> p_window (pl s') = p_window (pl s)"
  by (auto simp: expressRange_def bind_Some Let_def dest: interestRangeIssued_pool)

lemma prefetchFrame_pool: "prefetchFrame t base no n np ns s = Some s' \<Longrightarrow> fb_nSlots s' = fb_nSlots s \<and> fb_playbackSlot s' = fb_playbackSlot s \<and> fb_state s' = fb_state s \<and> p_window (pl s') = p_window (pl s)"
  by (auto simp: prefetchFrame_def bind_Some Let_def dest!: expressRange_pool sizes_pool split: if_splits)

lemma requestNextKey_pool: "requestNextKey t s = Some s' \<Longrightarrow> fb_nSlots s' = fb_nSlots s \<and> fb_playbackSlot s' = fb_playbackSlot s \<and> fb_state s' = fb_state s"
  by (auto simp: requestNextKey_def bind_Some Let_def dest!: prefetchFrame_pool)

lemma requestNextDelta_pool: "requestNextDelta t s = Some s' \<Longrightarrow> fb_nSlots s' = fb_nSlots s \<and> fb_playbackSlot s' = fb_playbackSlot s \<and> fb_state s' = fb_state s \<and> p_window (pl s') = p_window (pl s)"
  by (auto simp: requestNextDelta_def bind_Some Let_def dest!: prefetchFrame_pool)

lemma callbacks_pool:
  "PipelinerBase_onKeyNeeded t no s = Some s' \<Longrightarrow> fb_nSlots s' = fb_nSlots s \<and> fb_playbackSlot s' = fb_playbackSlot s \<and> fb_state s' = fb_state s"
  "PipelinerBase_onRetransmissionNeeded t i s = Some s' \<Longrightarrow> fb_nSlots s' = fb_nSlots s \<and> fb_playbackSlot s' = fb_playbackSlot s \<and> fb_state s' = fb_state s"
proof -
  show "PipelinerBase_onKeyNeeded t no s = Some s' \<Longrightarrow> fb_nSlots s' = fb_nSlots s \<and> fb_playbackSlot s' = fb_playbackSlot s \<and> fb_state s' = fb_state s"
    by (auto simp: PipelinerBase_onKeyNeeded_def dest!: requestNextKey_pool split: if_splits)
  have "ofold (retransmit t i) xs s = Some s1 \<Longrightarrow> fb_nSlots s1 = fb_nSlots s \<and> fb_playbackSlot s1 = fb_playbackSlot s \<and> fb_state s1 = fb_state s" for xs s1
    by (rule ofold_inv [where I = "\<lambda>s'. fb_nSlots s' = fb_nSlots s \<and> fb_playbackSlot s' = fb_playbackSlot s \<and> fb_state s' = fb_state s"])
      (auto simp: retransmit_def bind_Some Let_def dest!: express_pool)
  then show "PipelinerBase_onRetransmissionNeeded t i s = Some s' \<Longrightarrow> fb_nSlots s' = fb_nSlots s \<and> fb_playbackSlot s' = fb_playbackSlot s \<and> fb_state s' = fb_state s"
    by (auto simp: PipelinerBase_onRetransmissionNeeded_def Let_def split: if_splits)
qed

lemma retransmission_loop_pool:
  "retransmission_loop decode (Some (PipelinerBase_onRetransmissionNeeded t)) now d items k s = Some s' \<Longrightarrow>
   fb_nSlots s' = fb_nSlots s \<and> fb_playbackSlot s' = fb_playbackSlot s \<and> fb_state s' = fb_state s"
proof (induction "length items - k" arbitrary: k s)
  case (Suc n)
  show ?case
  proof (cases "s' = s")
    case False
    obtain s1 where b: "retransmission_body decode (Some (PipelinerBase_onRetransmissionNeeded t)) (items ! k) s = Some s1"
      and rest: "retransmission_loop decode (Some (PipelinerBase_onRetransmissionNeeded t)) now d items (k + 1) s1 = Some s'"
      using Suc.prems(1) False
      by (subst (asm) retransmission_loop.simps) (auto simp: bind_Some Let_def split: if_splits)
    have "fb_nSlots s1 = fb_nSlots s \<and> fb_playbackSlot s1 = fb_playbackSlot s \<and> fb_state s1 = fb_state s"
      using b by (auto simp: retransmission_body_def bind_Some Let_def dest!: callbacks_pool(2)
          split: if_splits prod.splits)
    then show ?thesis using Suc.hyps(1) [OF _ rest] Suc.hyps(2) by simp
  qed simp
qed (subst (asm) retransmission_loop.simps, simp)

lemma segment_accepted_pool:
  assumes res: "segment_accepted (pipeliner_callbacks decode t) now i os oc ns s = Some (ty, s')"
  shows "fb_nSlots s' = fb_nSlots s \<and> fb_playbackSlot s' = fb_playbackSlot s \<and> fb_state s' = fb_state s"
proof -
  let ?cbs = "pipeliner_callbacks decode t"
  obtain s1 where s1: "(if oc \<noteq> s_consistency (fb_slot s i) then do {
          s2 \<leftarrow> with_queue updatePlaybackDeadlines
            (if cHeaderMeta (s_consistency (fb_slot s i))
             then updateCurrentRate (double_of_bits (s_packetRate (fb_slot s i))) s else s);
          Some (s2\<lparr>fb_isEstimationNeeded := True\<rparr>)
        } else Some s) = Some s1"
    using res unfolding segment_accepted_def Let_def by (auto simp: bind_Some)
  obtain s2 where s2: "(if cPrefixMeta (s_consistency (fb_slot s1 i)) \<and>
               s_packetNamespace (fb_slot s1 i) = NsDelta \<and>
               fb_lastKeySeqNo s1 < getPairedFrameNumber (fb_slot s1 i)
            then onKeyNeeded ?cbs (getPairedFrameNumber (fb_slot s1 i)) s1 else Some s1) = Some s2"
    using res unfolding segment_accepted_def Let_def s1 Option.bind.bind_lunit by (auto simp: bind_Some)
  have "fb_nSlots s1 = fb_nSlots s \<and> fb_playbackSlot s1 = fb_playbackSlot s \<and> fb_state s1 = fb_state s"
    using s1 by (auto simp: with_queue_def bind_Some split: if_splits)
  moreover have "fb_nSlots s2 = fb_nSlots s1 \<and> fb_playbackSlot s2 = fb_playbackSlot s1 \<and> fb_state s2 = fb_state s1"
    using s2 callbacks_pool(1)
    by (auto simp: onKeyNeeded_def pipeliner_callbacks_def split: if_splits)
  moreover have "fb_nSlots s' = fb_nSlots s2 \<and> fb_playbackSlot s' = fb_playbackSlot s2 \<and> fb_state s' = fb_state s2"
    using res retransmission_loop_pool
    unfolding segment_accepted_def Let_def s1 Option.bind.bind_lunit s2
    by (fastforce simp: bind_Some pipeliner_callbacks_def checkRetransmissions_def track_rtt_def Let_def
        split: if_splits)
  ultimately show ?thesis by simp
qed

lemma newData_pool:
  assumes res: "newData (pipeliner_callbacks decode t) n content us now s = Some (e, s')" and inv: "ok out s"
    and n: "name_size n < 2 ^ 63"
  shows "fb_nSlots s' = fb_nSlots s" "fb_playbackSlot s' = fb_playbackSlot s" "fb_state s' = fb_state s"
    "ev_slot e = Some i \<Longrightarrow> i < fb_nSlots s"
proof -
  let ?cbs = "pipeliner_callbacks decode t"
  have con: "containers_ok out (fb_nSlots s) (fb_freeSlots s) (fb_activeSlots s)
      (pq_items (fb_playbackQueue s))"
    and "slots_ok (fb_slots s) (fb_nSlots s) (fb_activeSlots s) (fb_playbackSlot s)"
    using inv by (simp_all add: fb_inv_def)
  then have reg: "\<forall>(k, i) \<in> set (fb_activeSlots s). regular_key k" by (auto simp: slots_ok_def)
  define s1 where "s1 = (if fb_isWaitingForRightmost s then fb_fixRightmost n s else s)"
  have s1: "s1 = s" using fb_fixRightmost_regular [OF reg n] by (simp add: s1_def)
  obtain r where g: "getSlot n False s = (r, s)" using getSlot_False by (metis surj_pair)
  have "fb_nSlots s' = fb_nSlots s \<and> fb_playbackSlot s' = fb_playbackSlot s \<and> fb_state s' = fb_state s \<and> (\<forall>i. ev_slot e = Some i \<longrightarrow> i < fb_nSlots s)"
  proof (cases r)
    case None
    then show ?thesis using res by (auto simp: newData_def Let_def s1_def [symmetric] s1 g)
  next
    case (Some k)
    obtain key where "map_of (fb_activeSlots s) key = Some k"
      using g Some by (auto simp: getSlot_def Let_def split: prod.splits option.splits if_splits)
    then have k: "k < fb_nSlots s" using containers_active(1) [OF con] map_of_SomeD by fastforce
    have "fb_nSlots s' = fb_nSlots s \<and> fb_playbackSlot s' = fb_playbackSlot s \<and> fb_state s' = fb_state s"
      using res segment_accepted_pool
      unfolding newData_def Let_def s1_def [symmetric] s1 g Some option.case prod.case
      by (fastforce simp: bind_Some split: if_splits)
    moreover have "ev_slot e = None \<or> ev_slot e = Some k"
      using res unfolding newData_def Let_def s1_def [symmetric] s1 g Some option.case prod.case
      by (auto simp: bind_Some split: if_splits)
    ultimately show ?thesis using k by auto
  qed
  then show "fb_nSlots s' = fb_nSlots s" "fb_playbackSlot s' = fb_playbackSlot s" "fb_state s' = fb_state s"
    "ev_slot e = Some i \<Longrightarrow> i < fb_nSlots s" by simp_all
qed

section \<open>States between handlers\<close>

text \<open>Between two handlers no slot is being played and none is out of the queue; the buffer is valid
  while frames are asked for.\<close>

definition settled :: "('c \<Rightarrow> bool) \<Rightarrow> 'c system \<Rightarrow> bool" where
  "settled Q s \<longleftrightarrow> ok None s \<and> Q (pipeliner.more (pl s)) \<and> fb_playbackSlot s = None \<and> (running (p_state (pl s)) \<longrightarrow> fb_state s = Valid)"

lemma ok_switch:
  assumes inv: "ok out s" and tr: "transition (p_state (pl s)) st \<or> st = p_state (pl s)"
    and win: "running st \<Longrightarrow> running (p_state (pl s)) \<or> window_ok (p_deltaFrameSeqNo (pl s)) (p_window (pl s))"
  shows "ok out (switchToState t st s)"
proof -
  define p where "p = (if p_state (pl s) \<noteq> st then (pl s)\<lparr>p_state := st, p_startPhaseTimestamp := msec t,
      p_stateChanges := p_stateChanges (pl s) @ [(p_state (pl s), st)]\<rparr> else pl s)"
  have "pl_inv p" using ok_pl [OF inv] tr win by (auto simp: p_def pl_inv_def walk_append)
  moreover have "switchToState t st s = upd (\<lambda>_. p) s"
    by (cases s) (simp add: switchToState_def upd_def p_def Let_def)
  ultimately show ?thesis using ok_upd [OF inv, of "\<lambda>_. p"] by simp
qed

lemma switch_pool [simp]:
  "fb_nSlots (switchToState t st s) = fb_nSlots s" "fb_state (switchToState t st s) = fb_state s" "fb_playbackSlot (switchToState t st s) = fb_playbackSlot s"
  "p_state (pl (switchToState t st s)) = st" "pipeliner.more (pl (switchToState t st s)) = pipeliner.more (pl s)"
  "p_window (pl (switchToState t st s)) = p_window (pl s)"
  "p_deltaFrameSeqNo (pl (switchToState t st s)) = p_deltaFrameSeqNo (pl s)"
  by (simp_all add: switchToState_def Let_def)

lemma ok_rightmost [simp]: "ok out (askForRightmostData t s) = ok out s"
  by (simp add: askForRightmostData_def Let_def ok_upd_iff)

lemma rightmost_simps [simp]:
  "fb_state (askForRightmostData t s) = fb_state s"
  "pipeliner.more (pl (askForRightmostData t s)) = pipeliner.more (pl s)"
  "fb_playbackSlot (askForRightmostData t s) = fb_playbackSlot s"
  "p_state (pl (askForRightmostData t s)) = p_state (pl s)"
  by (simp_all add: askForRightmostData_def enqueue_def Let_def)

lemma ok_setup_estimators [simp]: "ok out (setup_estimators s) = ok out s"
  by (simp add: setup_estimators_def Let_def ok_upd_iff split: prod.split)

lemma setup_estimators_simps [simp]:
  "fb_state (setup_estimators s) = fb_state s" "pipeliner.more (pl (setup_estimators s)) = pipeliner.more (pl s)"
  "fb_playbackSlot (setup_estimators s) = fb_playbackSlot s"
  "p_state (pl (setup_estimators s)) = p_state (pl s)"
  by (simp_all add: setup_estimators_def Let_def split: prod.split)

lemma fb_reset_more:
  assumes res: "fb_reset s = Some s'" and inv: "ok None s" shows "pl s' = pl s"
proof -
  have d: "distinct (map snd (fb_activeSlots s))" using inv by (simp add: fb_inv_def containers_ok_def)
  obtain s1 where r: "ofold reset_slot_of (map snd (fb_activeSlots s))
      (s\<lparr>fb_pendingEvents := [], fb_pendingEventsFlushed := True\<rparr>) = Some s1" and s': "s' = resetData s1"
    using fb_reset_frame [OF res] by blast
  have "pl s1 = pl s" using reset_slots [OF r d] by simp
  then show ?thesis by (simp add: s' resetData_frame(2))
qed

lemma resetData_settled:
  assumes res: "Pipeliner2_resetData t s = Some s'" and s: "settled Q s"
  shows "settled Q s' \<and> p_state (pl s') = StateInactive \<and> pipeliner.more (pl s') = pipeliner.more (pl s)"
proof -
  define s1 where "s1 = switchToState t StateInactive
      (upd (\<lambda>p. p\<lparr>p_recoveryCheckpointTimestamp := 0\<rparr>) (setup_estimators s))"
  define s2 where "s2 = upd (\<lambda>p. p\<lparr>p_keyFrameSeqNo := -1, p_deltaFrameSeqNo := -1\<rparr>) s1"
  obtain s3 f where s3: "fb_reset s2 = Some s3" and s': "s' = upd f s3"
    and f: "\<And>p. pl_inv (f p) = pl_inv p" "\<And>p. p_state (f p) = p_state p"
      "\<And>p. pipeliner.more (f p) = pipeliner.more p"
    using res unfolding Pipeliner2_resetData_def PipelinerBase_resetData_def Let_def s1_def [symmetric]
      s2_def [symmetric] by (auto simp: bind_Some)
  have ok1: "ok None s1" unfolding s1_def
    by (rule ok_switch) (use s in \<open>auto simp: settled_def ok_upd_iff\<close>)
  then have ok2: "ok None s2"
    unfolding s2_def by (rule ok_upd) (use ok_pl [OF ok1] in \<open>simp add: pl_inv_def s1_def\<close>)
  have idle: "fb_playbackSlot s2 = None" using s by (simp add: s2_def s1_def settled_def)
  have st: "p_state (pl s3) = StateInactive" "pipeliner.more (pl s3) = pipeliner.more (pl s)"
    using fb_reset_more [OF s3 ok2] by (simp_all add: s2_def s1_def)
  moreover have "settled Q s3" using fb_inv_reset [OF ok2 idle s3] st s by (simp add: settled_def)
  ultimately show ?thesis by (simp add: s' settled_def ok_upd_iff f)
qed

lemma rebuffer_settled:
  assumes res: "rebuffer t s = Some s'" and s: "settled Q s"
  shows "settled Q s' \<and> p_state (pl s') = StateWaitInitial \<and> pipeliner.more (pl s') = pipeliner.more (pl s)"
proof -
  obtain s2 s3 where s2: "s2 = upd (\<lambda>p. p\<lparr>p_exclusionPacket := if p_useKeyNamespace p then p_keyFrameSeqNo p
        else p_deltaFrameSeqNo p\<rparr>) (stat (stat_inc RebufferingsNum) s)"
    and s3: "Pipeliner2_resetData t s2 = Some s3"
    and s': "s' = askForRightmostData t (switchToState t StateWaitInitial s3)"
    using res by (auto simp: rebuffer_def bind_Some Let_def)
  have "settled Q s2" using s by (simp add: s2 settled_def ok_upd_iff)
  from resetData_settled [OF s3 this] have s3': "settled Q s3" "p_state (pl s3) = StateInactive"
    "pipeliner.more (pl s3) = pipeliner.more (pl s)" by (simp_all add: s2)
  have "ok None (switchToState t StateWaitInitial s3)"
    by (rule ok_switch) (use s3' in \<open>auto simp: settled_def\<close>)
  then show ?thesis using s3' by (simp add: s' settled_def)
qed

text \<open>The names of consumer and thread that give prefixes of streams.\<close>

definition good_thread :: "bool \<Rightarrow> string \<Rightarrow> string \<Rightarrow> bool" where
  "good_thread useKey consumerPrefix threadName \<longleftrightarrow>
     (\<forall>k \<in> {False, useKey}.
        frames_prefix (name_set (getThreadFramesPrefix (getThreadPrefix consumerPrefix threadName) k)))"

lemma thread_prefixes_settled:
  assumes s: "settled Q s" and good: "good_thread (p_useKeyNamespace (pl s)) (p_consumerPrefix (pl s)) (p_threadName (pl s))"
  shows "settled Q (thread_prefixes s) \<and> pipeliner.more (pl (thread_prefixes s)) = pipeliner.more (pl s)"
proof -
  have inv: "ok None s" using s by (simp add: settled_def)
  then have "ok None (thread_prefixes s)" unfolding thread_prefixes_def Let_def
    by (rule ok_upd) (use good ok_pl [OF inv] in \<open>simp add: pl_inv_def good_thread_def\<close>)
  then show ?thesis using s by (simp add: settled_def thread_prefixes_def Let_def)
qed

lemma start_settled:
  assumes s: "settled Q s" and st: "p_state (pl s) = StateInactive"
  shows "settled Q (Pipeliner2_start t s) \<and> p_state (pl (Pipeliner2_start t s)) = StateWaitInitial \<and>
    pipeliner.more (pl (Pipeliner2_start t s)) = pipeliner.more (pl s)"
proof -
  let ?s1 = "upd (\<lambda>p. p\<lparr>p_deltaFrameSeqNo := -1, p_failedWindow := DefaultMinWindow\<rparr>) s"
  have inv: "ok None s" using s by (simp add: settled_def)
  have "ok None ?s1" by (rule ok_upd [OF inv]) (use ok_pl [OF inv] st in \<open>simp add: pl_inv_def\<close>)
  then have "ok None (switchToState t StateWaitInitial ?s1)"
    by (rule ok_switch) (use st in simp_all)
  then show ?thesis using s by (simp add: Pipeliner2_start_def settled_def)
qed

lemma stop_settled:
  "settled Q s \<Longrightarrow> settled Q (snd (Pipeliner2_stop t s)) \<and> p_state (pl (snd (Pipeliner2_stop t s))) = StateInactive \<and>
    pipeliner.more (pl (snd (Pipeliner2_stop t s))) = pipeliner.more (pl s)"
  using ok_switch [of None s StateInactive t] by (auto simp: Pipeliner2_stop_def settled_def release_def)

end
