(* ===== verification/Pipeliner_Handlers.thy ===== *)
theory Pipeliner_Handlers
  imports Pipeliner_Steps
begin

text \<open>
  The handlers of data and time-outs keep the invariant of pipeliner and buffer: stage after stage
  of \<open>askForSubsequentData\<close>, then the handlers themselves. The window accounts for the frames that
  were asked for, so the loop that fills it ends.
\<close>

section \<open>While frames are asked for\<close>

lemma settled_enqueue [simp]: "settled Q (enqueue t i pri s) = settled Q s" "settled Q (stat f s) = settled Q s"
  by (simp_all add: settled_def enqueue_def ok_upd_iff)

definition at_work :: "('c \<Rightarrow> bool) \<Rightarrow> nat \<Rightarrow> 'c system \<Rightarrow> bool" where
  "at_work Q N s \<longleftrightarrow> settled Q s \<and> running (p_state (pl s)) \<and> fb_nSlots s = N"

lemma at_work_iff: "at_work Q N s \<longleftrightarrow> fb_inv (pl_running Q) None s \<and> fb_playbackSlot s = None \<and> fb_state s = Valid \<and> fb_nSlots s = N"
  by (auto simp: at_work_def settled_def fb_inv_def pl_running_def)

lemma at_workD:
  assumes "at_work Q N s"
  shows "settled Q s" "ok None s" "fb_inv (pl_running Q) None s" "fb_playbackSlot s = None" "fb_nSlots s = N"
    "running (p_state (pl s))" "pl_inv (pl s)" "window_ok (p_deltaFrameSeqNo (pl s)) (p_window (pl s))"
    "-1 \<le> p_deltaFrameSeqNo (pl s)" "frames_prefix (p_deltaFramesPrefix (pl s))" "fb_state s = Valid"
  using assms ok_pl [of None s] by (auto simp: at_work_def settled_def fb_inv_def pl_running_def pl_inv_def)

lemma at_workI:
  "fb_inv (pl_running Q) None s \<Longrightarrow> fb_playbackSlot s = None \<Longrightarrow> fb_state s = Valid \<Longrightarrow> fb_nSlots s = N \<Longrightarrow> at_work Q N s"
  by (simp add: at_work_iff)

lemma at_work_upd:
  assumes "at_work Q N s" "pl_inv (f (pl s))" "running (p_state (f (pl s)))"
    "pipeliner.more (f (pl s)) = pipeliner.more (pl s)"
  shows "at_work Q N (upd f s)"
  using assms by (auto simp: at_work_iff fb_inv_def pl_running_def)

lemma at_work_same:
  assumes "at_work Q N s" "\<And>p. pl_inv (f p) = pl_inv p" "\<And>p. p_state (f p) = p_state p"
    "\<And>p. pipeliner.more (f p) = pipeliner.more p"
  shows "at_work Q N (upd f s)"
  using at_work_upd [OF assms(1), of f] at_workD [OF assms(1)] assms(2-4) by simp

lemma at_work_frame [simp]:
  "at_work Q N (s\<lparr>fb_meters := mt\<rparr>) = at_work Q N s" "at_work Q N (stat f s) = at_work Q N s"
  "at_work Q N (setRetransmissionsEnabled b s) = at_work Q N s"
  by (simp_all add: at_work_iff setRetransmissionsEnabled_def)

lemma at_work_switch:
  assumes s: "at_work Q N s" and tr: "transition (p_state (pl s)) st \<or> st = p_state (pl s)" and r: "running st"
  shows "at_work Q N (switchToState t st s)"
  using ok_switch [OF at_workD(2) [OF s] tr] s r by (simp add: at_work_def settled_def)

section \<open>The stages\<close>

lemma window_dataArrived_ok:
  assumes "window_dataArrived no w = Some w'" "window_ok d w" shows "window_ok d w'"
proof (cases "no \<in> w_framePool w")
  case True
  have fin: "finite (w_framePool w)" using assms(2) finite_subset by (auto simp: window_ok_def)
  have "card (w_framePool w) = Suc (card (w_framePool w - {no}))"
    by (rule card.remove [OF fin True])
  then show ?thesis using assms True by (auto simp: window_dataArrived_def window_ok_def bind_Some i32_def split: if_splits)
qed (use assms in \<open>simp add: window_dataArrived_def\<close>)

lemma at_work_window:
  assumes "at_work Q N s" "window_ok (p_deltaFrameSeqNo (pl s)) w"
  shows "at_work Q N (upd (\<lambda>p. p\<lparr>p_window := w\<rparr>) s)"
  using at_work_upd [OF assms(1), of "\<lambda>p. p\<lparr>p_window := w\<rparr>"] at_workD [OF assms(1)] assms(2)
  by (simp add: pl_inv_def)

lemma track_inter_arrival_work:
  assumes res: "track_inter_arrival t d i s = Some s'" and s: "at_work Q N s"
  shows "at_work Q N s'"
proof -
  obtain se mt where "s' = upd (\<lambda>p. p\<lparr>p_stabilityEstimator := se\<rparr>) (s\<lparr>fb_meters := mt\<rparr>) \<or>
      (\<exists>no w. window_dataArrived no (p_window (pl s)) = Some w \<and>
         s' = upd (\<lambda>p. p\<lparr>p_window := w\<rparr>) (upd (\<lambda>p. p\<lparr>p_stabilityEstimator := se\<rparr>) (s\<lparr>fb_meters := mt\<rparr>)))"
    using res by (auto simp: track_inter_arrival_def bind_Some Let_def split: if_splits)
  moreover define s1 where "s1 = upd (\<lambda>p. p\<lparr>p_stabilityEstimator := se\<rparr>) (s\<lparr>fb_meters := mt\<rparr>)"
  moreover have s1: "at_work Q N s1" unfolding s1_def by (rule at_work_same) (use s in simp_all)
  moreover have "p_window (pl s1) = p_window (pl s)" by (simp add: s1_def)
  ultimately show ?thesis using at_work_window [OF s1] window_dataArrived_ok at_workD(8) [OF s1] by metis
qed

lemma track_rtt_change_work:
  assumes res: "track_rtt_change d i s = Some s'" and s: "at_work Q N s"
  shows "at_work Q N s'"
  using res s by (auto simp: track_rtt_change_def bind_Some Let_def split: if_splits intro!: at_work_same)

lemma updateSegnumEstimation_work [simp]: "at_work Q N (updateSegnumEstimation ns n par s) = at_work Q N s"
  by (simp add: updateSegnumEstimation_def Let_def split: prod.split)

lemma key_frame_ready_work: "at_work Q N s \<Longrightarrow> at_work Q N (key_frame_ready i s)"
proof -
  assume s: "at_work Q N s"
  let ?n = "getPairedFrameNumber (fb_slot s i)"
  show "at_work Q N (key_frame_ready i s)"
  proof (cases "p_deltaFrameSeqNo (pl s) < ?n")
    case True
    have "window_ok ?n (p_window (pl s))" using at_workD(8) [OF s] True by (auto simp: window_ok_def)
    then have "at_work Q N (upd (\<lambda>p. p\<lparr>p_deltaFrameSeqNo := ?n\<rparr>) s)"
      by (intro at_work_upd [OF s]) (use at_workD [OF s] True in \<open>simp_all add: pl_inv_def\<close>)
    then show ?thesis using True by (simp add: key_frame_ready_def)
  qed (use s in \<open>simp add: key_frame_ready_def\<close>)
qed

lemma request_segment_pool:
  "request_segment t i lt pri False sg s = Some s' \<Longrightarrow> fb_nSlots s' = fb_nSlots s \<and> fb_playbackSlot s' = fb_playbackSlot s \<and> fb_state s' = fb_state s"
  by (auto simp: request_segment_def bind_Some dest!: express_pool split: if_splits)

lemma requestMissing_work:
  assumes res: "requestMissing t i lt pri False s = Some s'" and s: "at_work Q N s" and i: "i < N"
  shows "at_work Q N s'"
  unfolding at_work_iff
proof (rule ofold_inv [where I = "\<lambda>s. fb_inv (pl_running Q) None s \<and> fb_playbackSlot s = None \<and> fb_state s = Valid \<and> fb_nSlots s = N",
      OF res [unfolded requestMissing_def]])
  show "fb_inv (pl_running Q) None s \<and> fb_playbackSlot s = None \<and> fb_state s = Valid \<and> fb_nSlots s = N" using s by (simp add: at_work_iff)
  show "fb_inv (pl_running Q) None s'' \<and> fb_playbackSlot s'' = None \<and> fb_state s'' = Valid \<and> fb_nSlots s'' = N"
    if "sg \<in> set (getMissingSegments (fb_slot s i))" "request_segment t i lt pri False sg s1 = Some s''"
      "fb_inv (pl_running Q) None s1 \<and> fb_playbackSlot s1 = None \<and> fb_state s1 = Valid \<and> fb_nSlots s1 = N" for sg s1 s''
    using that i working.request_segment_inv slot_segments [OF at_workD(3) [OF s]] at_workD(5) [OF s]
      request_segment_pool getMissingSegments_def by metis
qed

lemma first_segment_work:
  assumes res: "first_segment t i s = Some s'" and s: "at_work Q N s" and i: "i < N"
  shows "at_work Q N s'"
  by (rule requestMissing_work [OF res [unfolded first_segment_def Let_def] _ i]) (use s in simp)

lemma data_tracking_work:
  assumes res: "data_tracking t n ty i s = Some s'" and s: "at_work Q N s" and i: "i < N"
  shows "at_work Q N s'"
proof -
  obtain s1 s2 s3 where s1: "(if legitimate ty i s then track_inter_arrival t (isDeltaFramePrefix n) i s else Some s) = Some s1"
    and s2: "track_rtt_change (isDeltaFramePrefix n) i s1 = Some s2"
    and s3: "(if ty = FirstSegment then first_segment t i s2 else Some s2) = Some s3"
    and s': "s' = (if ty = Ready \<and> \<not> isDeltaFramePrefix n then key_frame_ready i s3 else s3)"
    using res unfolding data_tracking_def Let_def bind_Some by blast
  have "at_work Q N s1" using s1 s track_inter_arrival_work by (metis option.inject)
  then have "at_work Q N s2" by (rule track_rtt_change_work [OF s2])
  then have "at_work Q N s3" using s3 first_segment_work [OF _ _ i] by (metis option.inject)
  then show ?thesis by (simp add: s' key_frame_ready_work)
qed

section \<open>The window\<close>

lemma bind_pairE:
  assumes "Option.bind m (\<lambda>(a, b). f a b) = Some r"
  obtains a b where "m = Some (a, b)" "f a b = Some r"
  using assms by (auto simp: bind_Some)

text \<open>The phases: the window shrinks only in the state that adjusts it.\<close>

lemma adjust_phase_work:
  assumes "adjust_phase t s = (inc, dec, s')" "at_work Q N s"
  shows "at_work Q N s' \<and> p_state (pl s') = p_state (pl s)"
  using assms by (auto simp: adjust_phase_def Let_def intro!: at_work_same split: if_splits prod.splits)

lemma chasing_phase_work:
  assumes res: "chasing_phase t timedOut s = (inc, dec, s')" and s: "at_work Q N s" and st: "p_state (pl s) = StateChasing"
  shows "at_work Q N s' \<and> (dec \<longrightarrow> p_state (pl s') = StateAdjust)"
proof (cases "stableArrival s")
  case True
  have "at_work Q N (switchToState t StateAdjust s)" by (rule at_work_switch [OF s]) (use st in simp_all)
  then show ?thesis using adjust_phase_work [of t "switchToState t StateAdjust s"] res True
    by (simp add: chasing_phase_def)
next
  case False
  then show ?thesis using res s by (auto simp: chasing_phase_def Let_def intro!: at_work_same split: if_splits)
qed

lemma playable_work:
  "getPlayableBufferSize s = Some (d, s') \<Longrightarrow> at_work Q N s \<Longrightarrow> at_work Q N s' \<and> pl s' = pl s"
  using fb_inv_getPlayableBufferSize [of s d s'] sizes_pool(2) [of s d s'] by (auto simp: at_work_iff)

lemma estimated_work:
  "getEstimatedBufferSize s = Some (d, s') \<Longrightarrow> at_work Q N s \<Longrightarrow> at_work Q N s' \<and> pl s' = pl s"
  using fb_inv_getEstimatedBufferSize [of s d s'] sizes_pool(1) [of s d s'] by (auto simp: at_work_iff)

lemma fetching_phase_work:
  assumes res: "fetching_phase t timedOut s = Some (inc, dec, s')" and s: "at_work Q N s" and st: "p_state (pl s) = StateFetching"
  shows "at_work Q N s' \<and> \<not> dec"
proof (cases "timedOut")
  case True
  let ?low = "\<lambda>d1 d2. d_less (d_div (d_of_int d1) (d_of_int d2)) (Finite (1 / 2))"
  obtain d1 s1 d2 s2 where s1: "getPlayableBufferSize s = Some (d1, s1)" and s2: "getEstimatedBufferSize s1 = Some (d2, s2)"
    and rest: "(if \<not> stableArrival s \<or> ?low d1 d2 then
          Some (True, False, upd (\<lambda>p. p\<lparr>p_waitForStability := True, p_waitForChange := False, p_timestamp := clock64 t,
            p_failedWindow := (if ?low d1 d2 \<and> \<not> \<not> stableArrival s then DefaultMinWindow else p_failedWindow p)\<rparr>)
            (switchToState t StateAdjust s2))
        else Some (False, False, s2)) = Some (inc, dec, s')"
    using res [unfolded fetching_phase_def Let_def if_P [OF True]] by (elim bind_pairE) (rule that)
  have s2': "at_work Q N s2" "p_state (pl s2) = StateFetching"
    using playable_work [OF s1 s] estimated_work [OF s2] st by auto
  have "at_work Q N (switchToState t StateAdjust s2)" by (rule at_work_switch [OF s2'(1)]) (use s2' in simp_all)
  then show ?thesis using rest s2' by (auto intro!: at_work_same split: if_splits)
qed (use res s in \<open>simp add: fetching_phase_def\<close>)

lemma state_phase_work:
  assumes res: "state_phase t timedOut s = Some (inc, dec, s')" and s: "at_work Q N s"
  shows "at_work Q N s' \<and> (dec \<longrightarrow> p_state (pl s') = StateAdjust)"
  using assms chasing_phase_work [of t timedOut s inc dec s'] fetching_phase_work [of t timedOut s inc dec s']
    adjust_phase_work [of t s inc dec s']
  by (auto simp: state_phase_def split: pipeliner_state.splits)

lemma changeWindow_ok:
  assumes "changeWindow n delta w = Some (delta', w')" "window_ok d w" shows "window_ok d w'"
  using assms by (auto simp: changeWindow_def window_ok_def bind_Some i32_def Let_def algebra_simps split: if_splits)

lemma resize_window_work:
  assumes res: "resize_window t inc dec s = Some s'" and s: "at_work Q N s"
    and dec: "dec \<longrightarrow> p_state (pl s) = StateAdjust"
  shows "at_work Q N s'"
proof (cases "dec \<or> inc")
  case True
  let ?w = "p_window (pl s)"
  let ?choice = "if inc then
       (if p_state (pl s) = StateChasing then Some (sint (getDefaultWindowSize ?w), s)
        else do { d \<leftarrow> half_window ?w; Some (d, s) })
     else do {
       d \<leftarrow> half_window ?w;
       if p_failedWindow (pl s) \<ge> of_int (- d) + getDefaultWindowSize ?w
       then Some (0, upd (\<lambda>p. p\<lparr>p_timestamp := clock64 t\<rparr>) (switchToState t StateFetching s))
       else Some (- d, s)
     }"
  obtain delta s1 delta' w' where c: "?choice = Some (delta, s1)"
    and w: "changeWindow (getNewSlotsNum s1) delta (p_window (pl s1)) = Some (delta', w')"
    and s': "s' = (if delta' \<noteq> 0
        then stat (updateIndicator DWInd (d_of_int (uint (getDefaultWindowSize w')))) (upd (\<lambda>p. p\<lparr>p_window := w'\<rparr>) s1)
        else upd (\<lambda>p. p\<lparr>p_window := w'\<rparr>) s1)"
    using res [unfolded resize_window_def Let_def if_P [OF True]] by (elim bind_pairE) (rule that, assumption, assumption, simp)
  have s1: "s1 = s \<or> dec \<and> s1 = upd (\<lambda>p. p\<lparr>p_timestamp := clock64 t\<rparr>) (switchToState t StateFetching s)"
    using c True by (auto simp: bind_Some split: if_splits)
  have "dec \<Longrightarrow> at_work Q N (switchToState t StateFetching s)"
    by (rule at_work_switch [OF s]) (use dec in simp_all)
  then have s1': "at_work Q N s1" using s1 s by (auto intro: at_work_same)
  then show ?thesis using s' at_work_window [OF s1'] changeWindow_ok [OF w] at_workD(8) [OF s1'] by auto
qed (use res s in \<open>simp add: resize_window_def\<close>)

section \<open>Asking for more\<close>

text \<open>One round of the loop that fills the window.\<close>

definition request_round :: "int \<Rightarrow> 'c system \<Rightarrow> 'c system option" where
  "request_round t s = requestNextDelta t
     (upd (\<lambda>p. p\<lparr>p_window := snd (canAskForData (p_deltaFrameSeqNo (pl s)) (p_window (pl s)))\<rparr>) s)"

lemma request_loop_stop:
  "w_w (p_window (pl s)) \<le> 0 \<Longrightarrow> request_loop k t s = Some s"
proof -
  assume "w_w (p_window (pl s)) \<le> 0"
  moreover have "upd (\<lambda>p. p\<lparr>p_window := p_window (pl s)\<rparr>) s = s" by (cases s) (simp add: upd_def)
  ultimately show "request_loop k t s = Some s"
    by (simp add: request_loop.simps [of k] canAskForData_def)
qed

lemma request_loop_round:
  "0 < w_w (p_window (pl s)) \<Longrightarrow>
   request_loop (Suc k) t s = Option.bind (request_round t s) (request_loop k t)"
  by (simp add: request_loop.simps [of "Suc k"] canAskForData_def request_round_def)

lemma request_round_room:
  assumes "request_round t s = Some s'" "0 < w_w (p_window (pl s))"
  shows "w_w (p_window (pl s')) = w_w (p_window (pl s)) - 1"
  using requestNextDelta_pool [OF assms(1) [unfolded request_round_def]] assms(2) by (simp add: canAskForData_def)

fun rounds :: "nat \<Rightarrow> int \<Rightarrow> 'c system \<Rightarrow> 'c system option" where
  "rounds 0 t s = Some s"
| "rounds (Suc n) t s = do { s1 \<leftarrow> request_round t s; rounds n t s1 }"

lemma request_loop_is_rounds:
  "nat (w_w (p_window (pl s))) \<le> k \<Longrightarrow> request_loop k t s = rounds (nat (w_w (p_window (pl s)))) t s"
proof (induction "nat (w_w (p_window (pl s)))" arbitrary: k s)
  case (Suc n)
  then obtain k' where k: "k = Suc k'" "n \<le> k'" by (metis Suc_le_D Suc_le_mono)
  have pos: "0 < w_w (p_window (pl s))" using Suc.hyps(2) by simp
  have "request_loop k' t s1 = rounds n t s1" if "request_round t s = Some s1" for s1
  proof -
    have n: "n = nat (w_w (p_window (pl s1)))" using request_round_room [OF that pos] Suc.hyps(2) by simp
    show ?thesis using Suc.hyps(1) [OF n] k(2) n by simp
  qed
  then show ?case unfolding k(1) request_loop_round [OF pos] Suc.hyps(2) [symmetric]
    by (simp cong: Option.bind_cong)
qed (simp add: request_loop_stop)

lemma request_round_work:
  assumes res: "request_round t s = Some s'" and s: "at_work Q N s" and pos: "0 < w_w (p_window (pl s))"
  shows "at_work Q N s'"
proof -
  let ?d = "p_deltaFrameSeqNo (pl s)"
  define s1 where "s1 = upd (\<lambda>p. p\<lparr>p_window := snd (canAskForData ?d (p_window (pl s)))\<rparr>) s"
  have r: "requestNextDelta t s1 = Some s'" using res by (simp add: request_round_def s1_def)
  have win: "window_ok (?d + 1) (snd (canAskForData ?d (p_window (pl s))))" if "0 \<le> ?d"
  proof -
    let ?pool = "w_framePool (p_window (pl s))"
    have sub: "?pool \<subseteq> {0..<?d}" using at_workD(8) [OF s] by (simp add: window_ok_def)
    then have "finite ?pool" "?d \<notin> ?pool" using finite_subset by auto
    then show ?thesis using at_workD(8) [OF s] pos that sub by (auto simp: window_ok_def canAskForData_def)
  qed
  have "fb_inv (pl_running Q) None s'"
    by (rule requestNextDelta_inv [OF r _ _ working.requests])
      (use at_workD [OF s] win s in \<open>auto simp: s1_def at_work_iff fb_inv_def pl_running_def pl_inv_def\<close>)
  then show ?thesis using requestNextDelta_pool [OF r] s by (simp add: at_work_iff s1_def)
qed

lemma rounds_work:
  "rounds n t s = Some s' \<Longrightarrow> at_work Q N s \<Longrightarrow> int n \<le> w_w (p_window (pl s)) \<Longrightarrow> at_work Q N s'"
proof (induction n arbitrary: s)
  case (Suc n)
  then obtain s1 where s1: "request_round t s = Some s1" "rounds n t s1 = Some s'" by (auto simp: bind_Some)
  have pos: "0 < w_w (p_window (pl s))" using Suc.prems(3) by simp
  show ?case
    by (rule Suc.IH [OF s1(2) request_round_work [OF s1(1) Suc.prems(2) pos]])
      (use request_round_room [OF s1(1) pos] Suc.prems(3) in simp)
qed simp

text \<open>What the pipeliner needs of the callback that its client registers for the end of the buffering.\<close>

locale pipeliner_environment =
  fixes env :: "'c environment" and Q :: "'c \<Rightarrow> bool"
  assumes buffering_ended: "en_onBufferingEnded env = Some f \<Longrightarrow> f s = Some s' \<Longrightarrow> at_work Q (fb_nSlots s) s \<Longrightarrow>
    at_work Q (fb_nSlots s') s'"
begin

lemma ask_for_more_work:
  assumes res: "ask_for_more env t s = Some s'" and s: "at_work Q N s"
  shows "at_work Q (fb_nSlots s') s'"
proof -
  obtain s2 s3 where s2: "(if state_number (p_state (pl s)) > state_number StateChasing then do {
              (playable, s1) \<leftarrow> getPlayableBufferSize s;
              if playable \<ge> fb_targetSizeMs s1 then
                (case en_onBufferingEnded env of None \<Rightarrow> Some s1 | Some f \<Rightarrow> f s1)
              else Some s1
            } else Some s) = Some s2"
    and s3: "request_loop (nat (w_w (p_window (pl s2)))) t s2 = Some s3"
    and s': "s' = stat (updateIndicator WInd (d_of_int (getCurrentWindowSize (p_window (pl s3))))) s3"
    using res unfolding ask_for_more_def bind_Some by auto
  have s2': "at_work Q (fb_nSlots s2) s2"
    using s2 s playable_work [of s _ _ Q N] at_workD(5) [of Q N] buffering_ended
    by (fastforce simp: bind_Some split: if_splits option.splits)
  have "rounds (nat (w_w (p_window (pl s2)))) t s2 = Some s3"
    using s3 request_loop_is_rounds [OF order_refl] by metis
  then have "at_work Q (fb_nSlots s2) s3"
  proof (cases "0 \<le> w_w (p_window (pl s2))")
    case True
    then show ?thesis using rounds_work [OF \<open>rounds _ t s2 = Some s3\<close> s2'] by simp
  qed (use s2' in simp)
  then show ?thesis by (auto simp: s' at_work_def)
qed

lemma askForSubsequentData_work:
  assumes res: "askForSubsequentData env t n content s = Some s'" and s: "at_work Q N s"
    and n: "name_size n < 2 ^ 63" "small_data n"
  shows "at_work Q (fb_nSlots s') s'"
proof -
  obtain e s1 playable s2 where s1: "newData (pipeliner_callbacks (en_decode env) t) n content t (msec t) s = Some (e, s1)"
    and s2: "getPlayableBufferSize s1 = Some (playable, s2)"
    and rest: "(let s3 = (if d_less (d_div (d_of_int (fb_targetSizeMs s2)) (Finite 2)) (d_of_int playable) \<and>
                  cp_useRtx (fb_params s2)
               then setRetransmissionsEnabled True s2 else s2) in
     if ev_type e = Error then Some s3
     else do {
       i \<leftarrow> ev_slot e;
       let isTimedOut = timeout_passed t s3;
       s4 \<leftarrow> data_tracking t n (ev_type e) i s3;
       s5 \<leftarrow> window_control t isTimedOut s4;
       recent \<leftarrow> (if legitimate (ev_type e) i s3
                 then map_option (\<lambda>_. ()) (s_recentSegment (fb_slot s5 i)) else Some ());
       ask_for_more env t s5
     }) = Some s'"
    using res unfolding askForSubsequentData_def by (elim bind_pairE)
  have "fb_inv (pl_running Q) None s1" by (rule working.client.newData_inv [OF s1 at_workD(3) [OF s] n])
  note pool = newData_pool [OF s1 at_workD(2) [OF s] n(1)]
  have "at_work Q N s1" by (rule at_workI) (use \<open>fb_inv (pl_running Q) None s1\<close> pool at_workD [OF s] in simp_all)
  then have "at_work Q N s2" using playable_work [OF s2] by simp
  define s3 where "s3 = (if d_less (d_div (d_of_int (fb_targetSizeMs s2)) (Finite 2)) (d_of_int playable) \<and>
                  cp_useRtx (fb_params s2)
               then setRetransmissionsEnabled True s2 else s2)"
  have s3: "at_work Q N s3" using \<open>at_work Q N s2\<close> by (simp add: s3_def)
  show ?thesis
  proof (cases "ev_type e = Error")
    case False
    obtain i s4 s5 where i: "ev_slot e = Some i" and s4: "data_tracking t n (ev_type e) i s3 = Some s4"
      and s5: "window_control t (timeout_passed t s3) s4 = Some s5" and s': "ask_for_more env t s5 = Some s'"
      using rest False unfolding Let_def s3_def [symmetric] by (auto simp: bind_Some)
    have "at_work Q N s4"
      by (rule data_tracking_work [OF s4 s3]) (use pool(4) [OF i] at_workD(5) [OF s] in simp)
    obtain inc dec s4' where "state_phase t (timeout_passed t s3) s4 = Some (inc, dec, s4')" and r: "resize_window t inc dec s4' = Some s5"
      using s5 by (auto simp: window_control_def bind_Some)
    from state_phase_work [OF this(1) \<open>at_work Q N s4\<close>] have "at_work Q N s5"
      using resize_window_work [OF r] by blast
    then show ?thesis by (rule ask_for_more_work [OF s'])
  qed (use rest s3 in \<open>auto simp: Let_def s3_def [symmetric] at_work_def\<close>)
qed

end

text \<open>Names of data that the bounds of the machine admit: they fit into memory and carry numbers of
  paired frames that are not below the one for an unknown frame.\<close>

definition good_data :: "'c environment \<Rightarrow> name \<Rightarrow> bool" where
  "good_data env n \<longleftrightarrow> name_size n < 2 ^ 63 \<and> small_data n \<and>
     (\<forall>r meta. extractMetadata n (en_uninitialised env) = Some (r, meta) \<longrightarrow> -1 \<le> pairedSequenceNo meta)"

text \<open>Waiting for the first frame with the window set up: the request for the next frame.\<close>

definition pl_waiting :: "('c \<Rightarrow> bool) \<Rightarrow> 'c pipeliner_scheme \<Rightarrow> bool" where
  "pl_waiting Q p \<longleftrightarrow> pl_inv p \<and> Q (pipeliner.more p) \<and> p_state p = StateWaitInitial \<and> window_ok (p_deltaFrameSeqNo p) (p_window p)"

interpretation waiting: pipeliner_invariant "pl_waiting Q :: 'c pipeliner_scheme \<Rightarrow> bool"
  by unfold_locales (use requesting_pl_inv in \<open>auto simp: pl_waiting_def requesting_def\<close>)

lemma window_init_ok: "window_ok d (window_init DefaultWindow w)"
  by (simp add: window_ok_def window_init_def DefaultWindow_def)

lemma chase_from_waiting:
  assumes "fb_inv (pl_waiting Q) None s" "fb_playbackSlot s = None" "fb_nSlots s = N" "fb_state s = Valid"
  shows "at_work Q N (switchToState t StateChasing s)"
proof -
  have "ok None s" "p_state (pl s) = StateWaitInitial" "window_ok (p_deltaFrameSeqNo (pl s)) (p_window (pl s))"
    and Q: "Q (pipeliner.more (pl s))"
    using assms(1) by (simp_all add: fb_inv_def pl_waiting_def)
  then have "ok None (switchToState t StateChasing s)" by (intro ok_switch) simp_all
  then show ?thesis using assms(2-4) Q by (simp add: at_work_def settled_def)
qed

definition prepared :: "('c \<Rightarrow> bool) \<Rightarrow> 'c system \<Rightarrow> bool" where
  "prepared Q s \<longleftrightarrow> fb_inv (pl_waiting Q) None s \<and> fb_playbackSlot s = None \<and> fb_state s = Valid"

lemma prepare_initial:
  assumes s: "settled Q s" and st: "p_state (pl s) = StateWaitInitial"
  shows "prepared Q (setState Valid (upd (\<lambda>p. p\<lparr>p_window := window_init DefaultWindow (p_window p)\<rparr>) s))"
proof -
  have ok: "ok None s" "Q (pipeliner.more (pl s))" "fb_playbackSlot s = None" using s by (simp_all add: settled_def)
  then have "fb_inv (pl_waiting Q) None (upd (\<lambda>p. p\<lparr>p_window := window_init DefaultWindow (p_window p)\<rparr>) s)"
    using st window_init_ok by (auto simp: fb_inv_def pl_waiting_def pl_inv_def)
  then show ?thesis using ok(3) by (simp add: prepared_def setState_def addBufferEvent_def fb_inv_def)
qed

lemma prepared_pl:
  assumes "prepared Q s"
  shows "pl_inv (pl s)" "p_state (pl s) = StateWaitInitial" "Q (pipeliner.more (pl s))"
    "window_ok (p_deltaFrameSeqNo (pl s)) (p_window (pl s))"
  using assms by (simp_all add: prepared_def fb_inv_def pl_waiting_def)

lemma prepared_change:
  assumes "prepared Q s" "pl_waiting Q (f (pl s))" shows "fb_inv (pl_waiting Q) None (upd f s)"
  using assms by (auto simp: prepared_def fb_inv_def)

lemma chase_key:
  assumes res: "requestNextKey t (upd (\<lambda>p. p\<lparr>p_keyFrameSeqNo := nx\<rparr>) s) = Some s'" and s: "prepared Q s"
  shows "at_work Q (fb_nSlots s) (switchToState t StateChasing s')"
proof -
  have "fb_inv (pl_waiting Q) None (upd (\<lambda>p. p\<lparr>p_keyFrameSeqNo := nx\<rparr>) s)"
    by (rule prepared_change [OF s]) (use prepared_pl [OF s] in \<open>simp add: pl_waiting_def\<close>)
  then have "fb_inv (pl_waiting Q) None s'" by (rule waiting.key_inv [OF res])
  then show ?thesis by (rule chase_from_waiting)
    (use requestNextKey_pool [OF res] s in \<open>simp_all add: prepared_def\<close>)
qed

text \<open>The window is empty when the first delta frame is asked for.\<close>

lemma chase_delta:
  assumes res: "requestNextDelta t (upd (\<lambda>p. p\<lparr>p_deltaFrameSeqNo := nx\<rparr>) s) = Some s'" and s: "prepared Q s"
    and nx: "0 \<le> nx" and win: "w_framePool (p_window (pl s)) = {}"
  shows "at_work Q (fb_nSlots s) (switchToState t StateChasing (upd (\<lambda>p. p\<lparr>p_timestamp := clock64 t\<rparr>) s'))"
proof -
  have "pl_waiting Q ((pl s)\<lparr>p_deltaFrameSeqNo := nx + 1\<rparr>)"
    using prepared_pl [OF s] nx win by (simp add: pl_waiting_def pl_inv_def window_ok_def)
  then have "fb_inv (pl_waiting Q) None (upd (\<lambda>p. p\<lparr>p_deltaFrameSeqNo := nx + 1\<rparr>) s)"
    by (rule prepared_change [OF s])
  then have "fb_inv (pl_waiting Q) None s'"
    by (intro requestNextDelta_inv [OF res _ _ waiting.requests])
      (use prepared_pl [OF s] nx in \<open>simp_all add: pl_inv_def fb_inv_def\<close>)
  then have "fb_inv (pl_waiting Q) None (upd (\<lambda>p. p\<lparr>p_timestamp := clock64 t\<rparr>) s')"
    by (simp add: fb_inv_def pl_waiting_def)
  then show ?thesis by (rule chase_from_waiting)
    (use requestNextDelta_pool [OF res] s in \<open>simp_all add: prepared_def\<close>)
qed

text \<open>After a handler frames are asked for, or nothing has changed for the pipeliner's client.\<close>

definition works_or_same :: "('c \<Rightarrow> bool) \<Rightarrow> 'c system \<Rightarrow> 'c system \<Rightarrow> bool" where
  "works_or_same Q s s' \<longleftrightarrow> settled Q s' \<and> (running (p_state (pl s')) \<or>
     p_state (pl s') = p_state (pl s) \<and> pipeliner.more (pl s') = pipeliner.more (pl s))"

lemma work_works: "at_work Q N s' \<Longrightarrow> works_or_same Q s s'"
  by (simp add: works_or_same_def at_work_def)

context pipeliner_environment
begin

lemma askForInitialData_settled:
  assumes res: "askForInitialData env t n content s = Some s'" and s: "settled Q s"
    and st: "p_state (pl s) = StateWaitInitial" and n: "good_data env n"
  shows "works_or_same Q s s'"
proof -
  obtain frameNo where no: "getPacketNumber n = Some frameNo" using res by (auto simp: askForInitialData_def bind_Some)
  define s1 where "s1 = setState Valid (upd (\<lambda>p. p\<lparr>p_window := window_init DefaultWindow (p_window p)\<rparr>) s)"
  have s1: "prepared Q s1" unfolding s1_def by (rule prepare_initial [OF s st])
  show ?thesis
  proof (cases "frameNo \<ge> 0")
    case False
    then obtain s2 where s2: "fb_reset s = Some s2" and s': "s' = askForRightmostData t s2"
      using res no by (auto simp: askForInitialData_def bind_Some)
    have ok: "ok None s" "fb_playbackSlot s = None" using s by (simp_all add: settled_def)
    show ?thesis using fb_inv_reset [OF ok s2] fb_reset_more [OF s2 ok(1)] s st
      by (simp add: s' settled_def works_or_same_def)
  next
    case True
    obtain nx where nx: "nx = frameNo + 1" and s': "(if p_useKeyNamespace (pl s1) then do {
         s2 \<leftarrow> requestNextKey t (upd (\<lambda>p. p\<lparr>p_keyFrameSeqNo := nx\<rparr>) s1);
         Some (switchToState t StateChasing s2)
       } else do {
         s2 \<leftarrow> requestNextDelta t (upd (\<lambda>p. p\<lparr>p_deltaFrameSeqNo := nx\<rparr>) s1);
         askForSubsequentData env t n content
           (switchToState t StateChasing (upd (\<lambda>p. p\<lparr>p_timestamp := clock64 t\<rparr>) s2))
       }) = Some s'"
      using res True no unfolding askForInitialData_def Let_def s1_def
      by (auto simp: bind_Some i32_def split: if_splits)
    show ?thesis
    proof (cases "p_useKeyNamespace (pl s1)")
      case True
      then show ?thesis using s' work_works [OF chase_key [OF _ s1]] by (auto simp: bind_Some)
    next
      case False
      then obtain s2 where s2: "requestNextDelta t (upd (\<lambda>p. p\<lparr>p_deltaFrameSeqNo := nx\<rparr>) s1) = Some s2"
        and s': "askForSubsequentData env t n content
           (switchToState t StateChasing (upd (\<lambda>p. p\<lparr>p_timestamp := clock64 t\<rparr>) s2)) = Some s'"
        using s' by (auto simp: bind_Some)
      have "w_framePool (p_window (pl s1)) = {}"
        by (simp add: s1_def setState_def addBufferEvent_def window_init_def)
      with chase_delta [OF s2 s1] nx \<open>frameNo \<ge> 0\<close>
      have "at_work Q (fb_nSlots s1) (switchToState t StateChasing (upd (\<lambda>p. p\<lparr>p_timestamp := clock64 t\<rparr>) s2))" by simp
      from askForSubsequentData_work [OF s' this] show ?thesis using n by (intro work_works) (simp_all add: good_data_def)
    qed
  qed
qed

lemma onData_settled:
  assumes res: "onData env t i n content wireSize s = Some s'" and s: "settled Q s" and n: "good_data env n"
  shows "works_or_same Q s s'"
proof -
  define s1 where "s1 = count_data t wireSize s"
  have same: "works_or_same Q s s2 = works_or_same Q s1 s2" for s2
    by (simp add: works_or_same_def s1_def count_data_def Let_def)
  have s1: "settled Q s1" using s by (simp add: s1_def count_data_def Let_def settled_def ok_upd_iff)
  have size: "name_size n < 2 ^ 63" "small_data n" using n by (simp_all add: good_data_def)
  have stay: "works_or_same Q s1 s1" using s1 by (simp add: works_or_same_def)
  have sub: "works_or_same Q s1 s'" if "askForSubsequentData env t n content s2 = Some s'" "settled Q s2" "running (p_state (pl s2))" for s2
    by (rule work_works [OF askForSubsequentData_work [OF that(1) _ size]]) (use that(2,3) in \<open>simp add: at_work_def\<close>)
  note r = res [unfolded onData_def Let_def s1_def [symmetric]]
  show ?thesis
  proof (cases "p_state (pl s1)")
    case StateWaitInitial
    show ?thesis
    proof (cases "name_equals (in_name (p_rightmostInterest (pl s1))) (in_name i)")
      case True
      then obtain m where m: "askForInitialData env t n content (upd (\<lambda>p. p\<lparr>p_seedFrameNo := m\<rparr>) s1) = Some s'"
        using r StateWaitInitial by (auto simp: bind_Some)
      have "works_or_same Q (upd (\<lambda>p. p\<lparr>p_seedFrameNo := m\<rparr>) s1) s'"
        by (rule askForInitialData_settled [OF m _ _ n])
          (use s1 StateWaitInitial in \<open>simp_all add: settled_def ok_upd_iff\<close>)
      then have "works_or_same Q s1 s'" by (simp add: works_or_same_def)
      then show ?thesis by (simp add: same)
    qed (use r stay same StateWaitInitial in simp)
  next
    case StateChasing
    obtain ok meta where meta: "extractMetadata n (en_uninitialised env) = Some (ok, meta)"
      using r StateChasing by (auto simp: bind_Some)
    define s2 where "s2 = (if p_deltaFrameSeqNo (pl s1) < 0 \<and> isPrefix n (p_keyFramesPrefix (pl s1))
      then upd (\<lambda>p. p\<lparr>p_deltaFrameSeqNo := pairedSequenceNo meta, p_timestamp := clock64 t\<rparr>) s1 else s1)"
    have work: "at_work Q (fb_nSlots s1) s1" using s1 StateChasing by (simp add: at_work_def)
    have "at_work Q (fb_nSlots s1) s2"
    proof (cases "p_deltaFrameSeqNo (pl s1) < 0")
      case True
      have "-1 \<le> pairedSequenceNo meta" using n meta by (simp add: good_data_def)
      moreover have "window_ok (pairedSequenceNo meta) (p_window (pl s1))"
        using at_workD(8) [OF work] True by (auto simp: window_ok_def)
      ultimately have "at_work Q (fb_nSlots s1)
          (upd (\<lambda>p. p\<lparr>p_deltaFrameSeqNo := pairedSequenceNo meta, p_timestamp := clock64 t\<rparr>) s1)"
        by (intro at_work_upd [OF work]) (use at_workD(7) [OF work] StateChasing in \<open>simp_all add: pl_inv_def\<close>)
      then show ?thesis using work by (simp add: s2_def)
    qed (use work in \<open>simp add: s2_def\<close>)
    moreover have "s' = s1 \<or> askForSubsequentData env t n content s2 = Some s'"
      using r StateChasing meta by (auto simp: s2_def split: if_splits)
    ultimately show ?thesis using sub stay by (auto simp: at_work_def same)
  qed (use r s1 sub stay same in auto)
qed

end

text \<open>A time-out only queues an interest again.\<close>

lemma onTimeout_settled:
  assumes "onTimeout t i s = Some s'" "settled Q s"
  shows "settled Q s' \<and> p_state (pl s') = p_state (pl s) \<and> pipeliner.more (pl s') = pipeliner.more (pl s)"
  using assms by (auto simp: onTimeout_def key_timeout_def Let_def bind_Some settled_def enqueue_def ok_upd_iff
      split: pipeliner_state.splits if_splits)

end
