(* ===== verification/Jitter_Timing.thy ===== *)
theory Jitter_Timing
  imports Prelude Ieee_Double
begin

text \<open>
  The timing of the playout (\<open>JitterTiming\<close> in \<open>ndnrtc/cpp/src/jitter-timing.cpp\<close>): the time that
  the iterations took beyond the frames' playout times is kept and taken off later playout times,
  so that the playout does not drift away from the producer's schedule. Times are in microseconds,
  playout times in milliseconds; \<open>None\<close> is the failed assertion of \<open>startFramePlayout\<close> or an
  overflow of a signed integer. The timer is the time at which the scheduled job is due.
\<close>

section \<open>The operations\<close>

record jitter_timing =
  jt_framePlayoutTimeMs :: int
  jt_processingTimeUsec :: int
  jt_playoutTimestampUsec :: int
  jt_timer :: "int option"

definition JitterTiming_resetData :: "jitter_timing \<Rightarrow> jitter_timing" where
  "JitterTiming_resetData j =
     j\<lparr>jt_framePlayoutTimeMs := 0, jt_processingTimeUsec := 0, jt_playoutTimestampUsec := 0\<rparr>"

definition new_JitterTiming :: jitter_timing where
  "new_JitterTiming = \<lparr>jt_framePlayoutTimeMs = 0, jt_processingTimeUsec = 0,
     jt_playoutTimestampUsec = 0, jt_timer = None\<rparr>"

definition JitterTiming_flush :: "jitter_timing \<Rightarrow> jitter_timing" where
  "JitterTiming_flush j = JitterTiming_resetData j"

definition JitterTiming_stop :: "jitter_timing \<Rightarrow> jitter_timing" where
  "JitterTiming_stop j = j\<lparr>jt_timer := None\<rparr>"

text \<open>The sum with the 64-bit difference is converted back to \<open>int\<close>.\<close>

definition startFramePlayout :: "int \<Rightarrow> jitter_timing \<Rightarrow> jitter_timing option" where
  "startFramePlayout processingStart j =
     (if jt_playoutTimestampUsec j = 0 then Some (j\<lparr>jt_playoutTimestampUsec := processingStart\<rparr>)
      else do {
        prevIterationProcTimeUsec \<leftarrow> i64 (processingStart - jt_playoutTimestampUsec j);
        framePlayoutUsec \<leftarrow> i32 (jt_framePlayoutTimeMs j * 1000);
        if prevIterationProcTimeUsec \<ge> framePlayoutUsec then
          Some (j\<lparr>jt_processingTimeUsec :=
                    wrap32 (jt_processingTimeUsec j + (prevIterationProcTimeUsec - framePlayoutUsec)),
                  jt_playoutTimestampUsec := processingStart\<rparr>)
        else None
      })"

text \<open>Processing time is worked off in whole milliseconds, at most as much as the playout time.\<close>

definition absorb :: "int \<Rightarrow> int \<Rightarrow> int \<times> int" where
  "absorb playoutTimeUsec processingTimeUsec =
     (if processingTimeUsec \<ge> 1000 then
        let processingUsec = processingTimeUsec div 1000 * 1000 in
        (if processingUsec > playoutTimeUsec then (0, processingTimeUsec - playoutTimeUsec)
         else (playoutTimeUsec - processingUsec, processingTimeUsec - processingUsec))
      else (playoutTimeUsec, processingTimeUsec))"

definition updatePlayoutTime :: "int \<Rightarrow> jitter_timing \<Rightarrow> jitter_timing option" where
  "updatePlayoutTime framePlayoutTime j = do {
     requested \<leftarrow> i32 (framePlayoutTime * 1000);
     let playoutTimeUsec = (if requested < 0 then 0 else requested);
     let (playoutTimeUsec', processingTimeUsec) = absorb playoutTimeUsec (jt_processingTimeUsec j);
     Some (j\<lparr>jt_processingTimeUsec := processingTimeUsec,
             jt_framePlayoutTimeMs := playoutTimeUsec' div 1000\<rparr>)
   }"

text \<open>The job is scheduled for a number of microseconds that is an \<open>unsigned int\<close>.\<close>

definition JitterTiming_run :: "int \<Rightarrow> jitter_timing \<Rightarrow> jitter_timing option" where
  "JitterTiming_run t j =
     (if jt_framePlayoutTimeMs j \<ge> 0 then do {
        usec \<leftarrow> i32 (jt_framePlayoutTimeMs j * 1000);
        Some (j\<lparr>jt_timer := Some (t + usec)\<rparr>)
      } else None)"

section \<open>No drift\<close>

text \<open>The time asked for is what is waited plus the processing time that is worked off.\<close>

lemma absorb_conserves:
  assumes "absorb (1000 * m) p = (u', p')" "0 \<le> m" "0 \<le> p"
  shows "u' - p' = 1000 * m - p \<and> 0 \<le> u' \<and> 1000 * (u' div 1000) = u' \<and> 0 \<le> p' \<and> p' \<le> p \<and> (p' < 1000 \<or> u' = 0)"
proof -
  define q where "q = p div 1000"
  have q: "1000 * q \<le> p" "p < 1000 * q + 1000" "0 \<le> q" using assms(3) by (simp_all add: q_def)
  consider "p < 1000" "u' = 1000 * m" "p' = p"
    | "m < q" "u' = 0" "p' = p - 1000 * m"
    | "q \<le> m" "u' = 1000 * (m - q)" "p' = p - 1000 * q"
    using assms(1) by (auto simp: absorb_def q_def [symmetric] Let_def split: if_splits)
  then show ?thesis by cases (use q assms(2,3) in auto)
qed

lemma updatePlayoutTime_conserves:
  assumes res: "updatePlayoutTime f j = Some j'" and p: "0 \<le> jt_processingTimeUsec j"
  shows "1000 * jt_framePlayoutTimeMs j' - jt_processingTimeUsec j' = max 0 (1000 * f) - jt_processingTimeUsec j \<and>
    0 \<le> jt_framePlayoutTimeMs j' \<and> 0 \<le> jt_processingTimeUsec j' \<and>
    jt_processingTimeUsec j' \<le> jt_processingTimeUsec j \<and>
    (jt_processingTimeUsec j' < 1000 \<or> jt_framePlayoutTimeMs j' = 0) \<and>
    jt_playoutTimestampUsec j' = jt_playoutTimestampUsec j"
proof -
  obtain r where r: "i32 (f * 1000) = Some r"
    using res unfolding updatePlayoutTime_def by (cases "i32 (f * 1000)") simp_all
  have req: "(if r < 0 then 0 else r) = 1000 * max 0 f" using r by (auto simp: i32_def split: if_splits)
  obtain u' p' where a: "absorb (1000 * max 0 f) (jt_processingTimeUsec j) = (u', p')" by force
  have j': "j' = j\<lparr>jt_processingTimeUsec := p', jt_framePlayoutTimeMs := u' div 1000\<rparr>"
    using res unfolding updatePlayoutTime_def r Option.bind.bind_lunit Let_def req a by simp
  have "max 0 (1000 * f) = 1000 * max 0 f" by (simp add: max_def)
  then show ?thesis using absorb_conserves [OF a _ p] unfolding j' by (auto simp: pos_imp_zdiv_nonneg_iff)
qed

text \<open>Iterations of the playout: the clock at the start, and the playout time of the frame.\<close>

fun iterations :: "(int \<times> int) list \<Rightarrow> jitter_timing \<Rightarrow> jitter_timing option" where
  "iterations [] j = Some j"
| "iterations ((now, f) # xs) j = do {
     j1 \<leftarrow> startFramePlayout now j;
     j2 \<leftarrow> updatePlayoutTime f j1;
     iterations xs j2
   }"

definition on_time :: "int \<Rightarrow> int \<Rightarrow> jitter_timing \<Rightarrow> bool" where
  "on_time t0 due j \<longleftrightarrow>
     jt_playoutTimestampUsec j + 1000 * jt_framePlayoutTimeMs j = t0 + due + jt_processingTimeUsec j \<and>
     0 \<le> jt_processingTimeUsec j \<and> 0 \<le> due \<and> 0 \<le> jt_framePlayoutTimeMs j \<and>
     jt_playoutTimestampUsec j \<noteq> 0 \<and>
     (jt_processingTimeUsec j < 1000 \<or> jt_framePlayoutTimeMs j = 0)"

lemma on_time_first:
  assumes "startFramePlayout now (JitterTiming_flush j) = Some j1" "updatePlayoutTime f j1 = Some j2" "now \<noteq> 0"
  shows "on_time now (max 0 (1000 * f)) j2"
proof -
  have "j1 = (JitterTiming_flush j)\<lparr>jt_playoutTimestampUsec := now\<rparr>"
    using assms(1) by (simp add: startFramePlayout_def JitterTiming_flush_def JitterTiming_resetData_def)
  then show ?thesis using updatePlayoutTime_conserves [OF assms(2)] assms(3)
    by (simp add: on_time_def JitterTiming_flush_def JitterTiming_resetData_def)
qed

lemma on_time_next:
  assumes j: "on_time t0 due j" and s: "startFramePlayout now j = Some j1" and u: "updatePlayoutTime f j1 = Some j2"
    and now: "now < t0 + 2 ^ 31" "now \<noteq> 0"
  shows "on_time t0 (due + max 0 (1000 * f)) j2"
proof -
  let ?p = "jt_processingTimeUsec j + (now - jt_playoutTimestampUsec j - jt_framePlayoutTimeMs j * 1000)"
  have j1: "j1 = j\<lparr>jt_processingTimeUsec := wrap32 ?p, jt_playoutTimestampUsec := now\<rparr>"
    and late: "jt_framePlayoutTimeMs j * 1000 \<le> now - jt_playoutTimestampUsec j"
    using s j by (auto simp: startFramePlayout_def bind_Some i32_def i64_def on_time_def split: if_splits)
  have "?p = now - t0 - due" "0 \<le> ?p" using j late by (auto simp: on_time_def)
  moreover from this have "wrap32 ?p = ?p" using now j by (intro wrap32_id) (auto simp: on_time_def)
  ultimately show ?thesis using updatePlayoutTime_conserves [OF u] j now(2)
    by (auto simp: on_time_def j1)
qed

lemma on_time_iterations:
  "iterations xs j = Some j' \<Longrightarrow> on_time t0 due j \<Longrightarrow>
   \<forall>(now, f) \<in> set xs. now < t0 + 2 ^ 31 \<and> now \<noteq> 0 \<Longrightarrow>
   on_time t0 (due + sum_list (map (\<lambda>(now, f). max 0 (1000 * f)) xs)) j'"
proof (induction xs arbitrary: j due)
  case (Cons x xs)
  obtain now f where x: "x = (now, f)" by force
  obtain j1 j2 where "startFramePlayout now j = Some j1" "updatePlayoutTime f j1 = Some j2" "iterations xs j2 = Some j'"
    using Cons.prems(1) x by (auto simp: bind_Some)
  from Cons.IH [OF this(3) on_time_next [OF Cons.prems(2) this(1,2)]] show ?case
    using Cons.prems(3) x by (simp add: add.assoc)
qed simp

text \<open>C33: The playout does not drift. After any number of iterations since the playout was started,
  the time at which the next frame is due is the time of the start plus the playout times asked for
  so far plus the processing time that could not be worked off yet; that rest is less than a
  millisecond unless the next frame is due at once.\<close>

theorem playout_does_not_drift:
  assumes run: "iterations ((t0, f) # xs) (JitterTiming_flush j) = Some j'" and pos: "t0 \<noteq> 0"
    and clock: "\<forall>(now, f) \<in> set xs. now < t0 + 2 ^ 31 \<and> now \<noteq> 0"
  shows "jt_playoutTimestampUsec j' + 1000 * jt_framePlayoutTimeMs j' =
      t0 + sum_list (map (\<lambda>(now, f). max 0 (1000 * f)) ((t0, f) # xs)) + jt_processingTimeUsec j' \<and>
    0 \<le> jt_processingTimeUsec j' \<and> (jt_processingTimeUsec j' < 1000 \<or> jt_framePlayoutTimeMs j' = 0)"
proof -
  obtain j1 j2 where "startFramePlayout t0 (JitterTiming_flush j) = Some j1" "updatePlayoutTime f j1 = Some j2"
    and rest: "iterations xs j2 = Some j'"
    using run by (auto simp: bind_Some)
  then have "on_time t0 (max 0 (1000 * f)) j2" using on_time_first pos by blast
  from on_time_iterations [OF rest this clock] show ?thesis by (simp add: on_time_def)
qed

lemma playout_does_not_drift_witness:
  "\<exists>j'. iterations [(5000000, 40), (5043700, 33), (5081100, 1), (5082000, 33)] new_JitterTiming = Some j' \<and>
     jt_playoutTimestampUsec j' + 1000 * jt_framePlayoutTimeMs j' = 5000000 + 107000 + jt_processingTimeUsec j'"
proof -
  have flush: "JitterTiming_flush new_JitterTiming = new_JitterTiming"
    by (simp add: JitterTiming_flush_def JitterTiming_resetData_def new_JitterTiming_def)
  have j': "iterations [(5000000, 40), (5043700, 33), (5081100, 1), (5082000, 33)] new_JitterTiming =
      Some \<lparr>jt_framePlayoutTimeMs = 25, jt_processingTimeUsec = 0, jt_playoutTimestampUsec = 5082000, jt_timer = None\<rparr>"
    by (simp add: startFramePlayout_def updatePlayoutTime_def absorb_def new_JitterTiming_def i32_def i64_def
        wrap32_def)
  then have "iterations [(5000000, 40), (5043700, 33), (5081100, 1), (5082000, 33)] (JitterTiming_flush new_JitterTiming) =
      Some \<lparr>jt_framePlayoutTimeMs = 25, jt_processingTimeUsec = 0, jt_playoutTimestampUsec = 5082000, jt_timer = None\<rparr>"
    by (simp only: flush)
  from playout_does_not_drift [OF this] show ?thesis unfolding j' by simp
qed

end
