(* ===== verification/Av_Sync.thy ===== *)
theory Av_Sync
  imports Prelude Ieee_Double
begin

text \<open>
  The synchronisation of audio with video (\<open>AudioVideoSynchronizer\<close> in
  \<open>ndnrtc/cpp/src/av-sync.cpp\<close>): from the times at which the packets of the two streams were played
  here and were published there it computes how far the slave stream leads or lags. Consumers are
  pointers, which are numbers here; the locks are left out. Times are in milliseconds.
\<close>

section \<open>The operations\<close>

record sync_struct =
  sy_consumer :: nat
  sy_initialized :: bool
  sy_lastPacketTsLocal :: int
  sy_lastPacketTsRemote :: int

record av_sync =
  as_initialized :: bool
  as_master :: sync_struct
  as_slave :: sync_struct

definition TolerableLeadingDriftMs :: int where
  "TolerableLeadingDriftMs = 15"

definition TolerableLaggingDriftMs :: int where
  "TolerableLaggingDriftMs = 45"

definition MaxAllowableAvSyncAdjustment :: int where
  "MaxAllowableAvSyncAdjustment = 50"

text \<open>The constructor leaves the pointer alone when there is no consumer, and \<open>initialized_\<close> always:
  \<open>c\<close>, \<open>m\<close> and \<open>b\<close> are what the memory holds.\<close>

definition new_SyncStruct :: "nat option \<Rightarrow> nat \<Rightarrow> sync_struct" where
  "new_SyncStruct consumer c =
     \<lparr>sy_consumer = (case consumer of None \<Rightarrow> c | Some p \<Rightarrow> p), sy_initialized = False,
      sy_lastPacketTsLocal = -1, sy_lastPacketTsRemote = -1\<rparr>"

definition new_AudioVideoSynchronizer :: "bool \<Rightarrow> nat \<Rightarrow> nat \<Rightarrow> nat option \<Rightarrow> nat option \<Rightarrow> av_sync" where
  "new_AudioVideoSynchronizer b m c masterConsumer slaveConsumer =
     \<lparr>as_initialized = b, as_master = new_SyncStruct masterConsumer m,
      as_slave = new_SyncStruct slaveConsumer c\<rparr>"

definition SyncStruct_reset :: "sync_struct \<Rightarrow> sync_struct" where
  "SyncStruct_reset y = y\<lparr>sy_initialized := False, sy_lastPacketTsLocal := -1, sy_lastPacketTsRemote := -1\<rparr>"

definition av_reset :: "av_sync \<Rightarrow> av_sync" where
  "av_reset a = \<lparr>as_initialized = False, as_master = SyncStruct_reset (as_master a),
     as_slave = SyncStruct_reset (as_slave a)\<rparr>"

text \<open>The two structures are passed by reference: \<open>slave\<close> tells which is the one that is synchronised.\<close>

definition sync_data :: "bool \<Rightarrow> av_sync \<Rightarrow> sync_struct" where
  "sync_data slave a = (if slave then as_slave a else as_master a)"

definition set_sync_data :: "bool \<Rightarrow> sync_struct \<Rightarrow> av_sync \<Rightarrow> av_sync" where
  "set_sync_data slave y a = (if slave then a\<lparr>as_slave := y\<rparr> else a\<lparr>as_master := y\<rparr>)"

definition av_initialize :: "bool \<Rightarrow> int \<Rightarrow> int \<Rightarrow> nat \<Rightarrow> av_sync \<Rightarrow> av_sync" where
  "av_initialize slave firstPacketTsRemote localTimestamp consumer a =
     (let a1 = set_sync_data slave ((sync_data slave a)\<lparr>sy_initialized := True\<rparr>) a;
          a2 = a1\<lparr>as_initialized := sy_initialized (as_slave a1) \<and> sy_initialized (as_master a1)\<rparr> in
      set_sync_data slave ((sync_data slave a2)\<lparr>sy_consumer := consumer,
        sy_lastPacketTsLocal := localTimestamp, sy_lastPacketTsRemote := firstPacketTsRemote\<rparr>) a2)"

text \<open>The packet is remembered first. \<open>pairedD\<close> and \<open>drift\<close> are of type \<open>int\<close>, the times have
  64 bits.\<close>

definition note_packet :: "bool \<Rightarrow> int \<Rightarrow> int \<Rightarrow> nat \<Rightarrow> av_sync \<Rightarrow> av_sync" where
  "note_packet slave packetTsRemote packetTsLocal consumer a =
     (let a1 = (if sy_lastPacketTsLocal (sync_data slave a) < 0
                then av_initialize slave packetTsRemote packetTsLocal consumer a else a) in
      set_sync_data slave ((sync_data slave a1)\<lparr>sy_lastPacketTsLocal := packetTsLocal,
        sy_lastPacketTsRemote := packetTsRemote\<rparr>) a1)"

definition syncPacket :: "bool \<Rightarrow> int \<Rightarrow> int \<Rightarrow> nat \<Rightarrow> av_sync \<Rightarrow> (int \<times> av_sync) option" where
  "syncPacket slave packetTsRemote packetTsLocal consumer a =
     (let a2 = note_packet slave packetTsRemote packetTsLocal consumer a in
      if consumer = sy_consumer (as_slave a2) \<and> as_initialized a2 then do {
        let paired = sync_data (\<not> slave) a2;
        d \<leftarrow> i64 (sy_lastPacketTsRemote paired - sy_lastPacketTsLocal paired);
        hitTimeRemotePaired \<leftarrow> i64 (packetTsLocal + wrap32 d);
        d' \<leftarrow> i64 (packetTsRemote - hitTimeRemotePaired);
        let drift = wrap32 d';
        Some (if (drift > 0 \<and> drift < TolerableLeadingDriftMs) \<or>
                 (drift < 0 \<and> drift > - TolerableLaggingDriftMs) then 0 else drift, a2)
      } else Some (0, a2))"

definition synchronizePacket :: "int \<Rightarrow> int \<Rightarrow> nat \<Rightarrow> av_sync \<Rightarrow> (int \<times> av_sync) option" where
  "synchronizePacket remoteTimestamp packetTsLocal consumer a =
     (if consumer = sy_consumer (as_slave a) then syncPacket True remoteTimestamp packetTsLocal consumer a
      else if consumer = sy_consumer (as_master a) then syncPacket False remoteTimestamp packetTsLocal consumer a
      else Some (0, a))"

text \<open>A stream that buffers again makes the other one do so: the consumer that is triggered.\<close>

definition av_onRebuffer :: "nat \<Rightarrow> av_sync \<Rightarrow> nat" where
  "av_onRebuffer consumer a =
     (if sy_consumer (as_slave a) = consumer then sy_consumer (as_master a) else sy_consumer (as_slave a))"

section \<open>The drift\<close>

text \<open>Packets of both streams, in the order they are played: whether of the slave, the time they
  were published and the time they are played.\<close>

fun play_packets :: "(bool \<times> int \<times> int) list \<Rightarrow> av_sync \<Rightarrow> (int list \<times> av_sync) option" where
  "play_packets [] a = Some ([], a)"
| "play_packets ((slave, remote, now) # ps) a = do {
     (d, a1) \<leftarrow> synchronizePacket remote now (sy_consumer (sync_data slave a)) a;
     (ds, a2) \<leftarrow> play_packets ps a1;
     Some (d # ds, a2)
   }"

text \<open>The last packet of a stream, as the synchroniser should remember it.\<close>

definition last_packet :: "bool \<Rightarrow> (bool \<times> int \<times> int) list \<Rightarrow> (int \<times> int) option" where
  "last_packet slave ps =
     (let qs = filter (\<lambda>p. fst p = slave) ps in if qs = [] then None else Some (snd (List.last qs)))"

definition remembers :: "bool \<Rightarrow> (bool \<times> int \<times> int) list \<Rightarrow> av_sync \<Rightarrow> bool" where
  "remembers slave ps a \<longleftrightarrow>
     (case last_packet slave ps of
        None \<Rightarrow> \<not> sy_initialized (sync_data slave a) \<and> sy_lastPacketTsLocal (sync_data slave a) = -1
      | Some (remote, now) \<Rightarrow> sy_initialized (sync_data slave a) \<and> sy_lastPacketTsLocal (sync_data slave a) = now \<and>
          sy_lastPacketTsRemote (sync_data slave a) = remote)"

text \<open>The difference of the offsets between publishing and playing.\<close>

definition drift_of :: "(bool \<times> int \<times> int) list \<Rightarrow> int \<Rightarrow> int \<Rightarrow> int" where
  "drift_of ps remote now =
     (case last_packet False ps of
        None \<Rightarrow> 0
      | Some (r, n) \<Rightarrow> (let d = (remote - now) - (r - n) in if -45 < d \<and> d < 15 then 0 else d))"

lemma last_packet_append [simp]:
  "last_packet slave (ps @ [(s, p)]) = (if s = slave then Some p else last_packet slave ps)"
  by (auto simp: last_packet_def Let_def)

definition sane_clocks :: "(bool \<times> int \<times> int) list \<Rightarrow> bool" where
  "sane_clocks ps \<longleftrightarrow> (\<forall>(s, remote, now) \<in> set ps. 0 \<le> now \<and> now < 2 ^ 61 \<and> \<bar>remote - now\<bar> < 2 ^ 30)"

lemma last_packet_sane:
  assumes "sane_clocks ps" "last_packet slave ps = Some (r, n)"
  shows "0 \<le> n" "n < 2 ^ 61" "\<bar>r - n\<bar> < 2 ^ 30"
proof -
  define qs where "qs = filter (\<lambda>p. fst p = slave) ps"
  have "qs \<noteq> []" "snd (List.last qs) = (r, n)"
    using assms(2) by (auto simp: last_packet_def qs_def Let_def split: if_splits)
  then have "(fst (List.last qs), r, n) \<in> set ps"
    using last_in_set [of qs] by (metis filter_is_subset prod.collapse qs_def subsetD)
  then show "0 \<le> n" "n < 2 ^ 61" "\<bar>r - n\<bar> < 2 ^ 30" using assms(1) by (auto simp: sane_clocks_def)
qed

lemma i64_small: "\<bar>x\<bar> < 2 ^ 63 \<Longrightarrow> i64 x = Some x"
  by (auto simp: i64_def)

lemma note_packet_simps:
  "sync_data (\<not> slave) (note_packet slave remote now c a) = sync_data (\<not> slave) a"
  "sy_lastPacketTsLocal (sync_data slave (note_packet slave remote now c a)) = now"
  "sy_lastPacketTsRemote (sync_data slave (note_packet slave remote now c a)) = remote"
  "sy_initialized (sync_data slave (note_packet slave remote now c a)) =
     (sy_lastPacketTsLocal (sync_data slave a) < 0 \<or> sy_initialized (sync_data slave a))"
  "sy_consumer (sync_data slave (note_packet slave remote now c a)) =
     (if sy_lastPacketTsLocal (sync_data slave a) < 0 then c else sy_consumer (sync_data slave a))"
  "as_initialized (note_packet slave remote now c a) =
     (if sy_lastPacketTsLocal (sync_data slave a) < 0 then sy_initialized (sync_data (\<not> slave) a) else as_initialized a)"
  by (cases slave; simp add: note_packet_def av_initialize_def set_sync_data_def sync_data_def Let_def)+

definition consumers :: "nat \<Rightarrow> nat \<Rightarrow> av_sync \<Rightarrow> bool" where
  "consumers m c a \<longleftrightarrow> sy_consumer (sync_data False a) = m \<and> sy_consumer (sync_data True a) = c"

definition in_sync :: "(bool \<times> int \<times> int) list \<Rightarrow> av_sync \<Rightarrow> bool" where
  "in_sync ps a \<longleftrightarrow> remembers True ps a \<and> remembers False ps a \<and>
     (ps \<noteq> [] \<longrightarrow> as_initialized a = (sy_initialized (sync_data True a) \<and> sy_initialized (sync_data False a)))"

lemma in_sync_started:
  assumes "in_sync ps a" "sane_clocks ps"
  shows "sy_lastPacketTsLocal (sync_data slave a) < 0 \<longleftrightarrow> last_packet slave ps = None"
    "sy_initialized (sync_data slave a) \<longleftrightarrow> last_packet slave ps \<noteq> None"
proof -
  have r: "remembers slave ps a" using assms(1) by (cases slave) (simp_all add: in_sync_def)
  show "sy_lastPacketTsLocal (sync_data slave a) < 0 \<longleftrightarrow> last_packet slave ps = None"
    "sy_initialized (sync_data slave a) \<longleftrightarrow> last_packet slave ps \<noteq> None"
    using r last_packet_sane(1) [OF assms(2)]
    by (force simp: remembers_def split: option.splits prod.splits)+
qed

lemma note_packet_sync:
  assumes sync: "in_sync ps a" and old: "sane_clocks ps" and now: "0 \<le> now"
  shows "in_sync (ps @ [(slave, remote, now)]) (note_packet slave remote now c a)"
proof -
  note st = in_sync_started [OF sync old]
  have mine: "remembers slave (ps @ [(slave, remote, now)]) (note_packet slave remote now c a)"
    using st [of slave] by (cases "last_packet slave ps") (simp_all add: remembers_def note_packet_simps)
  have "remembers (\<not> slave) ps a" using sync by (cases slave) (simp_all add: in_sync_def)
  then have yours: "remembers (\<not> slave) (ps @ [(slave, remote, now)]) (note_packet slave remote now c a)"
    by (cases "last_packet (\<not> slave) ps") (auto simp: remembers_def note_packet_simps)
  have "as_initialized (note_packet slave remote now c a) =
      (sy_initialized (sync_data slave (note_packet slave remote now c a)) \<and>
       sy_initialized (sync_data (\<not> slave) (note_packet slave remote now c a)))"
  proof (cases "last_packet slave ps = None")
    case False
    then have "ps \<noteq> []" by (auto simp: last_packet_def)
    then have "as_initialized a = (sy_initialized (sync_data slave a) \<and> sy_initialized (sync_data (\<not> slave) a))"
      using sync by (cases slave) (auto simp: in_sync_def)
    then show ?thesis using False st(1) [of slave] by (auto simp: note_packet_simps)
  qed (use st(1) [of slave] in \<open>simp add: note_packet_simps\<close>)
  with mine yours show ?thesis by (cases slave) (auto simp: in_sync_def)
qed

lemma synchronizePacket_step:
  assumes sync: "in_sync ps a" "consumers m c a" and ne: "m \<noteq> c" and sane: "sane_clocks (ps @ [(slave, remote, now)])"
  shows "\<exists>a'. synchronizePacket remote now (sy_consumer (sync_data slave a)) a =
      Some (if slave then drift_of ps remote now else 0, a') \<and>
      in_sync (ps @ [(slave, remote, now)]) a' \<and> consumers m c a'"
proof -
  have now: "0 \<le> now" "now < 2 ^ 61" "\<bar>remote - now\<bar> < 2 ^ 30" using sane by (auto simp: sane_clocks_def)
  have old: "sane_clocks ps" using sane by (auto simp: sane_clocks_def)
  define a2 where "a2 = note_packet slave remote now (sy_consumer (sync_data slave a)) a"
  have sync2: "in_sync (ps @ [(slave, remote, now)]) a2" unfolding a2_def by (rule note_packet_sync [OF sync(1) old now(1)])
  have cons2: "consumers m c a2"
    using sync(2) note_packet_simps(1,5) [of slave remote now "sy_consumer (sync_data slave a)" a]
    by (cases slave) (auto simp: consumers_def a2_def)
  have call: "synchronizePacket remote now (sy_consumer (sync_data slave a)) a =
      syncPacket slave remote now (sy_consumer (sync_data slave a)) a"
    using sync(2) ne by (cases slave) (auto simp: synchronizePacket_def sync_data_def consumers_def)
  note body = syncPacket_def [of slave remote now "sy_consumer (sync_data slave a)" a, unfolded Let_def,
      folded a2_def]
  have mine: "sy_consumer (sync_data slave a) = sy_consumer (as_slave a2) \<longleftrightarrow> slave"
    using sync(2) cons2 ne by (cases slave) (auto simp: consumers_def sync_data_def)
  show ?thesis
  proof (cases "slave \<and> last_packet False ps \<noteq> None")
    case False
    then have "\<not> (slave \<and> as_initialized a2)"
      using sync2 in_sync_started(2) [OF sync(1) old, of False] note_packet_simps(1) [of slave remote now _ a]
      by (cases slave) (auto simp: in_sync_def a2_def)
    then show ?thesis using sync2 cons2 False unfolding call body mine by (auto simp: drift_of_def split: option.split)
  next
    case True
    then obtain r n where rn: "last_packet False ps = Some (r, n)" by auto
    note last = last_packet_sane [OF old rn]
    have paired: "sy_lastPacketTsRemote (sync_data False a2) = r" "sy_lastPacketTsLocal (sync_data False a2) = n"
      and init: "as_initialized a2"
      using sync2 True rn by (auto simp: in_sync_def remembers_def)
    have d: "i64 (r - n) = Some (r - n)" "wrap32 (r - n) = r - n"
      using last by (auto intro!: i64_small wrap32_id)
    have h: "i64 (now + (r - n)) = Some (now + (r - n))" using last now by (intro i64_small) auto
    define e where "e = remote - (now + (r - n))"
    have e: "i64 e = Some e" "wrap32 e = e" using last now by (auto intro!: i64_small wrap32_id simp: e_def)
    have "drift_of ps remote now = (if -45 < e \<and> e < 15 then 0 else e)"
      by (simp add: drift_of_def rn e_def Let_def algebra_simps)
    then show ?thesis using sync2 cons2 True init unfolding call body mine
      by (auto simp: paired d h e_def [symmetric] e TolerableLeadingDriftMs_def TolerableLaggingDriftMs_def)
  qed
qed

text \<open>What the packets should get after the ones of \<open>hist\<close> were played.\<close>

fun drifts :: "(bool \<times> int \<times> int) list \<Rightarrow> (bool \<times> int \<times> int) list \<Rightarrow> int list" where
  "drifts hist [] = []"
| "drifts hist ((slave, remote, now) # ps) =
     (if slave then drift_of hist remote now else 0) # drifts (hist @ [(slave, remote, now)]) ps"

lemma play_packets_drifts:
  "in_sync hist a \<Longrightarrow> consumers m c a \<Longrightarrow> m \<noteq> c \<Longrightarrow> sane_clocks (hist @ ps) \<Longrightarrow>
   \<exists>a'. play_packets ps a = Some (drifts hist ps, a')"
proof (induction ps arbitrary: hist a)
  case (Cons q qs)
  obtain slave remote now where q: "q = (slave, remote, now)" by (cases q)
  have "sane_clocks (hist @ [(slave, remote, now)])" using Cons.prems(4) q by (auto simp: sane_clocks_def)
  then obtain a1 where a1: "synchronizePacket remote now (sy_consumer (sync_data slave a)) a =
      Some (if slave then drift_of hist remote now else 0, a1)" "in_sync (hist @ [q]) a1" "consumers m c a1"
    using synchronizePacket_step [OF Cons.prems(1,2,3)] q by blast
  then show ?case using Cons.IH [OF a1(2,3)] Cons.prems(3,4) q by auto
qed simp

text \<open>C34: The synchroniser measures the drift. Whatever packets the two streams have played, in any
  order, each packet of the slave stream gets the difference between its own offset of publishing
  and playing and the one of the master's last packet, and 0 inside the tolerance of 45 ms behind
  to 15 ms ahead or before the master has started; the master is never adjusted. No difference
  overflows when the clocks of the two hosts are less than 12 days apart.\<close>

theorem av_sync_measures_drift:
  assumes "m \<noteq> c" "sane_clocks ps"
  shows "\<exists>a. play_packets ps (new_AudioVideoSynchronizer b x y (Some m) (Some c)) = Some (drifts [] ps, a)"
  by (rule play_packets_drifts [OF _ _ assms(1)])
    (use assms(2) in \<open>simp_all add: in_sync_def consumers_def remembers_def last_packet_def
      new_AudioVideoSynchronizer_def new_SyncStruct_def sync_data_def\<close>)

lemma av_sync_measures_drift_witness:
  "\<exists>a. play_packets [(True, 1000, 5000), (False, 1010, 5003), (True, 1060, 5013), (True, 1100, 5033)]
     (new_AudioVideoSynchronizer False 0 0 (Some 1) (Some 2)) = Some ([0, 0, 40, 60], a)"
  using av_sync_measures_drift [of 1 2 "[(True, 1000, 5000), (False, 1010, 5003), (True, 1060, 5013), (True, 1100, 5033)]" False 0 0]
  by (simp del: play_packets.simps add: sane_clocks_def drift_of_def last_packet_def Let_def)

end
