(* ===== verification/Packet_Playout.thy ===== *)
theory Packet_Playout
  imports Pipeliner Jitter_Timing Av_Sync
begin

text \<open>
  The playout of packets (\<open>Playout\<close>, \<open>VideoPlayout\<close> and \<open>AudioPlayout\<close> in
  \<open>ndnrtc/cpp/src/playout.cpp\<close>, \<open>video-playout.cpp\<close> and \<open>audio-playout.cpp\<close>): a timer job takes
  a packet from the frame buffer, hands it to the decoder or the audio renderer, gives its slot
  back and schedules itself for the time the next packet is due.

  The playout is the client of pipeliner and buffer and extends their record. The virtual functions
  are chosen by \<open>po_kind\<close>. What is delivered and which playback events are reported is listed in
  \<open>po_delivered\<close> and \<open>po_events\<close>. The mutex of the playout is a flag: to lock it when it is locked
  blocks for ever, which is \<open>None\<close>, as is a failed assertion. The empty callback
  \<open>onFrameSkipped_\<close> and the recording of frames, which is compiled out, are left out.
\<close>

section \<open>State\<close>

datatype playout_kind = VideoPlayout | AudioPlayout

datatype playback_event =
  PlaybackEventDeltaSkipIncomplete | PlaybackEventDeltaSkipInvalidGop | PlaybackEventDeltaSkipNoKey
| PlaybackEventKeySkipIncomplete

datatype delivery = EncodedFrameDelivered "EncodedImage option" | DeliverRtcpFrame bytes | DeliverRtpFrame bytes

record playout =
  po_isRunning :: bool
  po_isInferredPlayback :: bool
  po_lastPacketTs :: int
  po_inferredDelay :: u32
  po_playbackAdjustment :: int
  po_bufferCheckTs :: int
  po_jitterTiming :: jitter_timing
  po_locked :: bool
  po_data :: "packet_data option"
  po_frameConsumer :: bool
  po_kind :: playout_kind
  po_validGop :: bool
  po_currentKeyNo :: int
  po_skipIncomplete :: bool
  po_consumer :: nat
  po_avSync :: "av_sync option"
  po_delivered :: "delivery list"
  po_events :: "(playback_event \<times> u32) list"

type_synonym 'c player = "'c playout_scheme system"

abbreviation po :: "'c player \<Rightarrow> 'c playout_scheme" where
  "po s \<equiv> pipeliner.more (pl s)"

definition po_upd :: "('c playout_scheme \<Rightarrow> 'c playout_scheme) \<Rightarrow> 'c player \<Rightarrow> 'c player" where
  "po_upd f s = upd (pipeliner.more_update f) s"

text \<open>
  What the playout takes from outside: the size function of WebRTC, the decoder of the FEC library,
  the clock of the host in seconds, and what the memory of the local variables holds that
  \<open>acquireSlot\<close> leaves alone when the buffer is empty; \<open>pe_unixMemory\<close> is the field of the
  metadata that \<open>PacketData::getMetadata\<close> does not set.
\<close>

record play_env =
  pe_cbSize :: "u32 \<Rightarrow> u32 \<Rightarrow> int"
  pe_decode :: "nat \<Rightarrow> nat \<Rightarrow> nat \<Rightarrow> bytes \<Rightarrow> bytes \<Rightarrow> bytes \<Rightarrow> int \<times> bytes \<times> bytes"
  pe_unixTimestamp :: double
  pe_memory :: acquired
  pe_unixMemory :: u64

definition BufferCheckInterval :: int where
  "BufferCheckInterval = 2000"

definition new_Playout :: "'c player \<Rightarrow> 'c player" where
  "new_Playout s = po_upd (\<lambda>p. p\<lparr>po_jitterTiming := JitterTiming_flush new_JitterTiming,
     po_isRunning := False, po_data := None, po_locked := False\<rparr>) s"

definition Playout_init :: "bool \<Rightarrow> 'c player \<Rightarrow> result \<times> 'c player" where
  "Playout_init frameConsumer s = (RESULT_OK, po_upd (\<lambda>p. p\<lparr>po_frameConsumer := frameConsumer\<rparr>) s)"

definition setPlaybackAdjustment :: "int \<Rightarrow> 'c player \<Rightarrow> 'c player" where
  "setPlaybackAdjustment n s = po_upd (\<lambda>p. p\<lparr>po_playbackAdjustment := n\<rparr>) s"

section \<open>Adjustments of the delay\<close>

text \<open>The metadata of a packet, read from its header.\<close>

definition packet_isValid :: "packet_data \<Rightarrow> bool" where
  "packet_isValid d = (case d of VideoPacket fd \<Rightarrow> fd_isValid fd | AudioBundle ad \<Rightarrow> ad_isValid ad)"

definition getMetadata :: "u64 \<Rightarrow> packet_data \<Rightarrow> PacketMetadata option" where
  "getMetadata unixMemory d =
     (if packet_isValid d then
        (case d of VideoPacket fd \<Rightarrow> PacketMetadata_read (fd_data fd) 27
         | AudioBundle ad \<Rightarrow> PacketMetadata_read (ad_data ad) 3)
      else Some (BadMetadata\<lparr>pm_unixTimestamp := unixMemory\<rparr>))"

text \<open>The difference of an \<open>int\<close> and an \<open>unsigned int\<close> is unsigned, and so is the sum.\<close>

definition updatePlaybackAdjustment :: "int \<Rightarrow> 'c player \<Rightarrow> 'c player option" where
  "updatePlaybackAdjustment timestamp s =
     (if po_lastPacketTs (po s) > 0 \<and> po_isInferredPlayback (po s) then do {
        d \<leftarrow> i64 (timestamp - po_lastPacketTs (po s));
        let realPlayback = wrap32 d;
        Some (po_upd (\<lambda>p. p\<lparr>po_playbackAdjustment :=
                 wrap32 (po_playbackAdjustment p + (realPlayback - uint (po_inferredDelay p))),
               po_inferredDelay := 0\<rparr>) s)
      } else Some s)"

definition playbackDelayAdjustment :: "int \<Rightarrow> 'c player \<Rightarrow> (int \<times> 'c player) option" where
  "playbackDelayAdjustment playbackDelay s = do {
     let s1 = po_upd (\<lambda>p. p\<lparr>po_inferredDelay :=
                (if po_isInferredPlayback p then po_inferredDelay p + of_int playbackDelay else 0)\<rparr>) s;
     let adjustment = po_playbackAdjustment (po s1);
     absAdjustment \<leftarrow> (if adjustment < 0 then i32 \<bar>adjustment\<bar> else Some 0);
     if adjustment < 0 \<and> absAdjustment > playbackDelay then do {
       rest \<leftarrow> i32 (adjustment + playbackDelay);
       d \<leftarrow> i32 (- playbackDelay);
       Some (d, po_upd (\<lambda>p. p\<lparr>po_playbackAdjustment := rest\<rparr>) s1)
     } else Some (adjustment, po_upd (\<lambda>p. p\<lparr>po_playbackAdjustment := 0\<rparr>) s1)
   }"

definition avSyncAdjustment :: "int \<Rightarrow> int \<Rightarrow> 'c player \<Rightarrow> (int \<times> 'c player) option" where
  "avSyncAdjustment nowTimestamp playbackDelay s =
     (case po_avSync (po s) of
        None \<Rightarrow> Some (0, s)
      | Some a \<Rightarrow> do {
          (drift, a1) \<leftarrow> synchronizePacket (po_lastPacketTs (po s)) nowTimestamp (po_consumer (po s)) a;
          let s1 = po_upd (\<lambda>p. p\<lparr>po_avSync := Some a1\<rparr>) s;
          absDrift \<leftarrow> i32 \<bar>drift\<bar>;
          (d, s2) \<leftarrow>
            (if absDrift > playbackDelay \<and> drift < 0 then do {
               rest \<leftarrow> i32 (drift + playbackDelay);
               d \<leftarrow> i32 (- playbackDelay);
               Some (d, po_upd (\<lambda>p. p\<lparr>po_playbackAdjustment := rest\<rparr>) s1)
             } else Some (drift, s1));
          Some (if d > 0 \<and> d > MaxAllowableAvSyncAdjustment then MaxAllowableAvSyncAdjustment else d, s2)
        })"

text \<open>The buffer is kept at its target size.\<close>

definition checkBuffer :: "int \<Rightarrow> 'c player \<Rightarrow> 'c player option" where
  "checkBuffer t s =
     (if msec t - po_bufferCheckTs (po s) > BufferCheckInterval then do {
        let s1 = po_upd (\<lambda>p. p\<lparr>po_bufferCheckTs := msec t\<rparr>) s;
        targetBufferSize \<leftarrow> getTargetSize (fb_bufferEstimator s1) (fb_meters s1);
        (playable, s2) \<leftarrow> getPlayableBufferSize s1;
        let adjustment = wrap32 (targetBufferSize - playable);
        absAdjustment \<leftarrow> i32 \<bar>adjustment\<bar>;
        if absAdjustment > 100 \<and> adjustment < 0 then do {
          total_adjustment \<leftarrow> i32 (po_playbackAdjustment (po s2) + adjustment);
          Some (po_upd (\<lambda>p. p\<lparr>po_playbackAdjustment := total_adjustment\<rparr>) s2)
        } else Some s2
      } else Some s)"

section \<open>Packets\<close>

text \<open>The statistics and the event for a video frame that is not played: of an incomplete frame, of
  one without its key frame, of one after an incomplete frame.\<close>

definition playbackEventOccurred :: "playback_event \<Rightarrow> int \<Rightarrow> 'c player \<Rightarrow> 'c player" where
  "playbackEventOccurred e frameSeqNo s = po_upd (\<lambda>p. p\<lparr>po_events := po_events p @ [(e, of_int frameSeqNo)]\<rparr>) s"

definition check_key :: "acquired \<Rightarrow> 'c player \<Rightarrow> bool \<times> 'c player" where
  "check_key a s =
     (if aq_assembledLevel a \<ge> 1
      then (True, po_upd (\<lambda>p. p\<lparr>po_currentKeyNo := aq_sequencePacketNo a, po_validGop := True\<rparr>) s)
      else (False, playbackEventOccurred PlaybackEventKeySkipIncomplete (aq_sequencePacketNo a)
        (stat (stat_inc SkippedIncompleteKeyNum \<circ> stat_inc SkippedIncompleteNum)
          (po_upd (\<lambda>p. p\<lparr>po_validGop := False\<rparr>) s))))"

definition delta_event :: "acquired \<Rightarrow> 'c player \<Rightarrow> 'c player" where
  "delta_event a s =
     (if aq_assembledLevel a < 1 then
        playbackEventOccurred PlaybackEventDeltaSkipIncomplete (aq_sequencePacketNo a)
          (stat (stat_inc SkippedIncompleteNum) s)
      else if aq_pairedPacketNo a \<noteq> po_currentKeyNo (po s) then
        playbackEventOccurred PlaybackEventDeltaSkipNoKey (aq_sequencePacketNo a)
          (stat (stat_inc SkippedNoKeyNum) s)
      else if \<not> po_validGop (po s) then
        playbackEventOccurred PlaybackEventDeltaSkipInvalidGop (aq_sequencePacketNo a)
          (stat (stat_inc SkippedBadGopNum) s)
      else s)"

definition check_delta :: "acquired \<Rightarrow> 'c player \<Rightarrow> bool \<times> 'c player" where
  "check_delta a s =
     (let s2 = po_upd (\<lambda>p. p\<lparr>po_validGop := po_validGop p \<and> aq_assembledLevel a \<ge> 1\<rparr>) (delta_event a s) in
      (po_validGop (po s2) \<and> aq_pairedPacketNo a = po_currentKeyNo (po s2), s2))"

definition deliver_frames :: "delivery list \<Rightarrow> 'c player \<Rightarrow> 'c player" where
  "deliver_frames ds s = po_upd (\<lambda>p. p\<lparr>po_delivered := po_delivered p @ ds\<rparr>) s"

text \<open>The packet is taken for a video frame without a check.\<close>

definition video_playbackPacket :: "acquired \<Rightarrow> 'c player \<Rightarrow> (bool \<times> 'c player) option" where
  "video_playbackPacket a s =
     (if \<not> po_frameConsumer (po s) then Some (False, s)
      else do {
        let (push, s1) =
          (if po_skipIncomplete (po s) then (if aq_isKey a then check_key a s else check_delta a s)
           else (True, s));
        case aq_packetData a of
          Some d \<Rightarrow>
            if push then do {
              fd \<leftarrow> (case d of VideoPacket fd \<Rightarrow> Some fd | AudioBundle ad \<Rightarrow> None);
              let s2 = stat (stat_inc PlayedNum) s1;
              let s3 = (if aq_isKey a then stat (stat_inc PlayedKeyNum) s2 else s2);
              Some (True, deliver_frames [EncodedFrameDelivered (snd (Frame_getFrame fd))] s3)
            } else Some (False, s1)
        | None \<Rightarrow> Some (False, s1)
      })"

text \<open>The bytes of the packets are inside the bundle.\<close>

definition audio_sample :: "NdnAudioData \<Rightarrow> AudioPacketRef \<Rightarrow> delivery option" where
  "audio_sample ad r = do {
     bs \<leftarrow> mem_read (ad_data ad) (ar_offset r) (ar_length r);
     Some (if ar_isRTCP r then DeliverRtcpFrame bs else DeliverRtpFrame bs)
   }"

fun audio_samples :: "NdnAudioData \<Rightarrow> AudioPacketRef list \<Rightarrow> delivery list option" where
  "audio_samples ad [] = Some []"
| "audio_samples ad (r # rs) = do { d \<leftarrow> audio_sample ad r; ds \<leftarrow> audio_samples ad rs; Some (d # ds) }"

definition audio_playbackPacket :: "acquired \<Rightarrow> 'c player \<Rightarrow> (bool \<times> 'c player) option" where
  "audio_playbackPacket a s =
     (case aq_packetData a of
        None \<Rightarrow> Some (False, stat (stat_inc SkippedIncompleteNum) s)
      | Some d \<Rightarrow>
          if po_frameConsumer (po s) then do {
            ad \<leftarrow> (case d of AudioBundle ad \<Rightarrow> Some ad | VideoPacket fd \<Rightarrow> None);
            ds \<leftarrow> audio_samples ad (ad_packets ad);
            Some (True, stat (stat_inc PlayedNum) (deliver_frames ds s))
          } else Some (False, s))"

definition playbackPacket :: "acquired \<Rightarrow> 'c player \<Rightarrow> (bool \<times> 'c player) option" where
  "playbackPacket a s =
     (case po_kind (po s) of VideoPlayout \<Rightarrow> video_playbackPacket a s | AudioPlayout \<Rightarrow> audio_playbackPacket a s)"

section \<open>The timer job\<close>

definition acquire_packet :: "play_env \<Rightarrow> 'c player \<Rightarrow> (acquired \<times> 'c player) option" where
  "acquire_packet env s = do {
     (aq, s1) \<leftarrow> acquireSlot (pe_cbSize env) (pe_decode env) s;
     let a = (case aq of None \<Rightarrow> (pe_memory env)\<lparr>aq_packetData := None, aq_assembledLevel := 0\<rparr> | Some a \<Rightarrow> a);
     Some (a, po_upd (\<lambda>p. p\<lparr>po_data := aq_packetData a\<rparr>) s1)
   }"

definition played_stats :: "acquired \<Rightarrow> 'c player \<Rightarrow> 'c player" where
  "played_stats a s =
     (let number = (\<lambda>ind n. updateIndicator ind (d_of_int n)) in
      stat (number LastPlayedKeyNo (if aq_isKey a then aq_sequencePacketNo a else aq_pairedPacketNo a) \<circ>
            number LastPlayedDeltaNo (if aq_isKey a then aq_pairedPacketNo a else aq_sequencePacketNo a) \<circ>
            number LastPlayedNo (aq_packetNo a)) s)"

definition track_packet :: "play_env \<Rightarrow> 'c player \<Rightarrow> 'c player option" where
  "track_packet env s =
     (case po_data (po s) of
        None \<Rightarrow> Some s
      | Some d \<Rightarrow> do {
          meta \<leftarrow> getMetadata (pe_unixMemory env) d;
          let timestamp = sint (pm_timestamp meta);
          s1 \<leftarrow> updatePlaybackAdjustment timestamp s;
          let s2 = stat (updateIndicator LatencyEstimated
                     (d_sub (pe_unixTimestamp env) (double_of_bits (pm_unixTimestamp meta)))) s1;
          Some (if timestamp \<noteq> -1 then po_upd (\<lambda>p. p\<lparr>po_lastPacketTs := timestamp\<rparr>) s2 else s2)
        })"

text \<open>The delay until the next packet. The sum is computed for the log, too.\<close>

definition frame_delay :: "int \<Rightarrow> bool \<Rightarrow> int \<Rightarrow> 'c player \<Rightarrow> (int \<times> 'c player) option" where
  "frame_delay t packetValid playbackDelay s = do {
     (adjustment, s1) \<leftarrow> playbackDelayAdjustment playbackDelay s;
     (avSync, s2) \<leftarrow> (if packetValid then do {
                        d \<leftarrow> i32 (playbackDelay + adjustment);
                        avSyncAdjustment (msec t) d s1
                      } else Some (0, s1));
     let playbackDelay' = (if playbackDelay < 0 then 0 else playbackDelay);
     adjusted \<leftarrow> i32 (playbackDelay' + adjustment);
     synced \<leftarrow> i32 (adjusted + avSync);
     let delay = (if po_isInferredPlayback (po s2) then adjusted else synced);
     if delay \<ge> 0 then Some (delay, s2) else None
   }"

text \<open>The timer is set after the mutex was unlocked.\<close>

definition schedule_next :: "int \<Rightarrow> int \<Rightarrow> 'c player \<Rightarrow> 'c player option" where
  "schedule_next t delay s =
     (let s1 = po_upd (\<lambda>p. p\<lparr>po_locked := False\<rparr>) s in
      if po_isRunning (po s1) then do {
        j1 \<leftarrow> updatePlayoutTime delay (po_jitterTiming (po s1));
        j2 \<leftarrow> JitterTiming_run t j1;
        Some (po_upd (\<lambda>p. p\<lparr>po_jitterTiming := j2\<rparr>) s1)
      } else Some s1)"

definition play_one :: "play_env \<Rightarrow> int \<Rightarrow> 'c player \<Rightarrow> 'c player option" where
  "play_one env t s = do {
     s1 \<leftarrow> checkBuffer t s;
     j \<leftarrow> startFramePlayout t (po_jitterTiming (po s1));
     let s2 = po_upd (\<lambda>p. p\<lparr>po_jitterTiming := j, po_data := None\<rparr>) s1;
     (a, s3) \<leftarrow> acquire_packet env s2;
     (packetValid, s4) \<leftarrow> playbackPacket a s3;
     s5 \<leftarrow> track_packet env (if packetValid then played_stats a s4 else s4);
     (playbackDelay, inferred, s6) \<leftarrow>
       releaseAcquiredSlot (pipeliner_callbacks (pe_decode env) t) (msec t) s5;
     let s7 = po_upd (\<lambda>p. p\<lparr>po_isInferredPlayback := inferred\<rparr>) s6;
     (delay, s8) \<leftarrow> frame_delay t packetValid playbackDelay s7;
     schedule_next t delay s8
   }"

text \<open>The mutex stays locked when the buffer is not valid.\<close>

definition processPlayout :: "play_env \<Rightarrow> int \<Rightarrow> 'c player \<Rightarrow> 'c player option" where
  "processPlayout env t s =
     (if po_locked (po s) then None
      else
        let s1 = po_upd (\<lambda>p. p\<lparr>po_locked := True\<rparr>) s in
        if po_isRunning (po s1) then
          (if fb_state s1 = Valid then play_one env t s1 else Some s1)
        else Some s)"

section \<open>Start and stop\<close>

text \<open>The playout is started on the thread of the io service, so the first packet is processed at
  once, inside \<open>Playout::start\<close>.\<close>

definition Playout_start :: "play_env \<Rightarrow> int \<Rightarrow> int \<Rightarrow> 'c player \<Rightarrow> 'c player option" where
  "Playout_start env t initialAdjustment s =
     (if po_locked (po s) then None
      else processPlayout env t (po_upd (\<lambda>p. p\<lparr>po_jitterTiming := JitterTiming_flush (po_jitterTiming p),
             po_isRunning := True, po_isInferredPlayback := False, po_lastPacketTs := 0,
             po_inferredDelay := 0, po_playbackAdjustment := initialAdjustment,
             po_bufferCheckTs := msec t\<rparr>) s))"

definition VideoPlayout_start :: "play_env \<Rightarrow> int \<Rightarrow> int \<Rightarrow> 'c player \<Rightarrow> 'c player option" where
  "VideoPlayout_start env t playbackAdjustment s = do {
     s1 \<leftarrow> Playout_start env t playbackAdjustment s;
     Some (po_upd (\<lambda>p. p\<lparr>po_validGop := False, po_currentKeyNo := 0\<rparr>) s1)
   }"

definition start_playout :: "play_env \<Rightarrow> int \<Rightarrow> int \<Rightarrow> 'c player \<Rightarrow> 'c player option" where
  "start_playout env t adjustment s =
     (case po_kind (po s) of VideoPlayout \<Rightarrow> VideoPlayout_start env t adjustment s
      | AudioPlayout \<Rightarrow> Playout_start env t adjustment s)"

definition Playout_stop :: "'c player \<Rightarrow> (result \<times> 'c player) option" where
  "Playout_stop s =
     (if po_locked (po s) then None
      else Some
        (if po_isRunning (po s)
         then (RESULT_OK, po_upd (\<lambda>p. p\<lparr>po_isRunning := False,
                po_jitterTiming := JitterTiming_stop (po_jitterTiming p), po_data := None\<rparr>) s)
         else (RESULT_WARN, s)))"

text \<open>The timer expires: the job runs once.\<close>

definition playout_timer :: "play_env \<Rightarrow> int \<Rightarrow> 'c player \<Rightarrow> 'c player option" where
  "playout_timer env t s =
     processPlayout env t (po_upd (\<lambda>p. p\<lparr>po_jitterTiming := (po_jitterTiming p)\<lparr>jt_timer := None\<rparr>\<rparr>) s)"

section \<open>Facts about the parts\<close>

lemma po_upd_simps [simp]:
  "po (po_upd f s) = f (po s)" "fb_state (po_upd f s) = fb_state s"
  "p_window (pl (po_upd f s)) = p_window (pl s)" "p_state (pl (po_upd f s)) = p_state (pl s)"
  "p_deltaFrameSeqNo (pl (po_upd f s)) = p_deltaFrameSeqNo (pl s)"
  "fb_nSlots (po_upd f s) = fb_nSlots s" "fb_playbackSlot (po_upd f s) = fb_playbackSlot s"
  "fb_playbackQueue (po_upd f s) = fb_playbackQueue s"
  "po (stat g s) = po s" "fb_state (stat g s) = fb_state s"
  by (simp_all add: po_upd_def upd_def stat_def)

section \<open>The delay of a packet\<close>

lemma i32_small: "\<bar>x\<bar> < 2 ^ 31 \<Longrightarrow> i32 x = Some x"
  by (auto simp: i32_def)

lemma po_upd_po: "po (po_upd f s) = f (po s)"
  by simp

lemma playbackDelayAdjustment_spec:
  assumes d: "\<bar>d\<bar> < 2 ^ 29" and pa: "\<bar>po_playbackAdjustment (po s)\<bar> < 2 ^ 29"
  shows "\<exists>adjustment s1. playbackDelayAdjustment d s = Some (adjustment, s1) \<and>
    adjustment + po_playbackAdjustment (po s1) = po_playbackAdjustment (po s) \<and>
    0 \<le> max 0 d + adjustment \<and> \<bar>adjustment\<bar> < 2 ^ 29 \<and>
    po_avSync (po s1) = po_avSync (po s) \<and> po_lastPacketTs (po s1) = po_lastPacketTs (po s) \<and>
    po_consumer (po s1) = po_consumer (po s) \<and> po_isInferredPlayback (po s1) = po_isInferredPlayback (po s)"
proof -
  define s0 where "s0 = po_upd (\<lambda>p. p\<lparr>po_inferredDelay :=
      (if po_isInferredPlayback p then po_inferredDelay p + of_int d else 0)\<rparr>) s"
  let ?pa = "po_playbackAdjustment (po s)"
  have s0: "po_playbackAdjustment (po s0) = ?pa" "po_avSync (po s0) = po_avSync (po s)"
    "po_lastPacketTs (po s0) = po_lastPacketTs (po s)" "po_consumer (po s0) = po_consumer (po s)"
    "po_isInferredPlayback (po s0) = po_isInferredPlayback (po s)"
    by (simp_all add: s0_def)
  have i: "i32 \<bar>?pa\<bar> = Some \<bar>?pa\<bar>" "i32 (?pa + d) = Some (?pa + d)" "i32 (- d) = Some (- d)"
    using d pa by (auto intro!: i32_small)
  note body = playbackDelayAdjustment_def [of d s, unfolded Let_def, folded s0_def, unfolded s0 i]
  show ?thesis
  proof (cases "?pa < 0 \<and> \<bar>?pa\<bar> > d")
    case True
    then have "playbackDelayAdjustment d s = Some (- d, po_upd (\<lambda>p. p\<lparr>po_playbackAdjustment := ?pa + d\<rparr>) s0)"
      unfolding body by auto
    then show ?thesis using d True by (auto simp: s0)
  next
    case False
    then have "playbackDelayAdjustment d s = Some (?pa, po_upd (\<lambda>p. p\<lparr>po_playbackAdjustment := 0\<rparr>) s0)"
      unfolding body by auto
    then show ?thesis using pa False by (auto simp: s0)
  qed
qed

lemma avSyncAdjustment_spec:
  assumes sync: "\<forall>a. po_avSync (po s) = Some a \<longrightarrow> (\<exists>drift a'. synchronizePacket (po_lastPacketTs (po s)) (msec t)
      (po_consumer (po s)) a = Some (drift, a') \<and> \<bar>drift\<bar> < 2 ^ 29)"
    and d: "\<bar>d\<bar> < 2 ^ 30"
  shows "\<exists>av s1. avSyncAdjustment (msec t) d s = Some (av, s1) \<and> \<bar>av\<bar> < 2 ^ 30 \<and> 0 \<le> max 0 d + av \<and>
    (po_avSync (po s) = None \<longrightarrow> av = 0 \<and> s1 = s)"
proof (cases "po_avSync (po s)")
  case (Some a)
  then obtain drift a' where r: "synchronizePacket (po_lastPacketTs (po s)) (msec t) (po_consumer (po s)) a = Some (drift, a')"
    and drift: "\<bar>drift\<bar> < 2 ^ 29" using sync by blast
  have i: "i32 \<bar>drift\<bar> = Some \<bar>drift\<bar>" "i32 (drift + d) = Some (drift + d)" "i32 (- d) = Some (- d)"
    using drift d by (auto intro!: i32_small)
  show ?thesis
  proof (cases "\<bar>drift\<bar> > d \<and> drift < 0")
    case True
    then show ?thesis using d unfolding avSyncAdjustment_def Some option.case r Option.bind.bind_lunit prod.case Let_def i
      by (auto simp: MaxAllowableAvSyncAdjustment_def)
  next
    case False
    then show ?thesis using drift unfolding avSyncAdjustment_def Some option.case r Option.bind.bind_lunit prod.case Let_def i
      by (auto simp: MaxAllowableAvSyncAdjustment_def)
  qed
qed (simp add: avSyncAdjustment_def d)

text \<open>C32: The delay of a packet. The final assertion of the playout holds, whatever the packet's own
  delay, the pending adjustment and the drift against the other stream are. Without a synchroniser
  no adjustment is lost: what is not taken off this delay is kept for the next one.\<close>

theorem playout_delay_never_negative:
  assumes d: "\<bar>d\<bar> < 2 ^ 29" and pa: "\<bar>po_playbackAdjustment (po s)\<bar> < 2 ^ 29"
    and sync: "\<forall>a. po_avSync (po s) = Some a \<longrightarrow> (\<exists>drift a'. synchronizePacket (po_lastPacketTs (po s)) (msec t)
      (po_consumer (po s)) a = Some (drift, a') \<and> \<bar>drift\<bar> < 2 ^ 29)"
  shows "\<exists>delay s'. frame_delay t valid d s = Some (delay, s') \<and> 0 \<le> delay \<and>
    (po_avSync (po s) = None \<longrightarrow>
       delay + po_playbackAdjustment (po s') = max 0 d + po_playbackAdjustment (po s))"
proof -
  obtain adj s1 where adj: "playbackDelayAdjustment d s = Some (adj, s1)"
    and sum: "adj + po_playbackAdjustment (po s1) = po_playbackAdjustment (po s)"
    and ge: "0 \<le> max 0 d + adj" and bd: "\<bar>adj\<bar> < 2 ^ 29"
    and same: "po_avSync (po s1) = po_avSync (po s)" "po_lastPacketTs (po s1) = po_lastPacketTs (po s)"
      "po_consumer (po s1) = po_consumer (po s)" "po_isInferredPlayback (po s1) = po_isInferredPlayback (po s)"
    using playbackDelayAdjustment_spec [OF d pa] by blast
  have "\<exists>av s2. (if valid then do { x \<leftarrow> i32 (d + adj); avSyncAdjustment (msec t) x s1 } else Some (0, s1)) =
      Some (av, s2) \<and> \<bar>av\<bar> < 2 ^ 30 \<and> 0 \<le> max 0 (d + adj) + av \<and> (po_avSync (po s1) = None \<longrightarrow> av = 0 \<and> s2 = s1)"
  proof (cases valid)
    case True
    have "i32 (d + adj) = Some (d + adj)" using d bd by (intro i32_small) simp
    then show ?thesis using avSyncAdjustment_spec [of s1 t "d + adj"] sync same d bd True by simp
  qed simp
  then obtain av s2 where av: "(if valid then do { x \<leftarrow> i32 (d + adj); avSyncAdjustment (msec t) x s1 } else Some (0, s1)) =
      Some (av, s2)" and av': "\<bar>av\<bar> < 2 ^ 30" "0 \<le> max 0 (d + adj) + av" "po_avSync (po s1) = None \<longrightarrow> av = 0 \<and> s2 = s1"
    by (elim exE conjE) (rule that)
  define d' where "d' = max 0 d"
  have d': "(if d < 0 then 0 else d) = d'" by (simp add: d'_def)
  have i: "i32 (d' + adj) = Some (d' + adj)" "i32 (d' + adj + av) = Some (d' + adj + av)"
    using d bd av' by (auto intro!: i32_small simp: d'_def)
  have "0 \<le> d' + adj" "0 \<le> d' + adj + av" using ge av' by (auto simp: d'_def)
  then show ?thesis using sum same av'(3)
    unfolding frame_delay_def adj Option.bind.bind_lunit prod.case av Let_def d' i d'_def [symmetric]
    by auto
qed

section \<open>Groups of pictures\<close>

text \<open>Frames that are handed to the playout one after the other, and whether each is delivered.\<close>

fun show_packets :: "acquired list \<Rightarrow> 'c player \<Rightarrow> (bool list \<times> 'c player) option" where
  "show_packets [] s = Some ([], s)"
| "show_packets (a # as) s = do {
     (b, s1) \<leftarrow> video_playbackPacket a s;
     (bs, s2) \<leftarrow> show_packets as s1;
     Some (b # bs, s2)
   }"

text \<open>What a decoder needs: the key frame of the group and every frame since must be complete. The
  last key frame of a history and the frames after it, latest first:\<close>

definition last_key :: "acquired list \<Rightarrow> acquired option" where
  "last_key h = (case dropWhile (\<lambda>a. \<not> aq_isKey a) (rev h) of [] \<Rightarrow> None | k # _ \<Rightarrow> Some k)"

definition since_key :: "acquired list \<Rightarrow> acquired list" where
  "since_key h = takeWhile (\<lambda>a. \<not> aq_isKey a) (rev h)"

definition intact :: "acquired list \<Rightarrow> bool" where
  "intact h \<longleftrightarrow> (case last_key h of None \<Rightarrow> False
     | Some k \<Rightarrow> aq_assembledLevel k \<ge> 1 \<and> (\<forall>a \<in> set (since_key h). aq_assembledLevel a \<ge> 1))"

definition decodable :: "acquired list \<Rightarrow> acquired \<Rightarrow> bool" where
  "decodable h a \<longleftrightarrow> aq_assembledLevel a \<ge> 1 \<and>
     (aq_isKey a \<or> (intact h \<and> map_option aq_sequencePacketNo (last_key h) = Some (aq_pairedPacketNo a)))"

fun decodables :: "acquired list \<Rightarrow> acquired list \<Rightarrow> bool list" where
  "decodables h [] = []"
| "decodables h (a # as) = (aq_packetData a \<noteq> None \<and> decodable h a) # decodables (h @ [a]) as"

lemma history_append:
  "last_key (h @ [a]) = (if aq_isKey a then Some a else last_key h)"
  "since_key (h @ [a]) = (if aq_isKey a then [] else a # since_key h)"
  "intact (h @ [a]) \<longleftrightarrow> aq_assembledLevel a \<ge> 1 \<and> (aq_isKey a \<or> intact h)"
  by (auto simp: last_key_def since_key_def intact_def split: option.splits)

definition video_ready :: "'c player \<Rightarrow> bool" where
  "video_ready s \<longleftrightarrow> po_frameConsumer (po s) \<and> po_skipIncomplete (po s)"

definition gop_state :: "acquired list \<Rightarrow> 'c player \<Rightarrow> bool" where
  "gop_state h s \<longleftrightarrow> video_ready s \<and> po_validGop (po s) = intact h \<and>
     (intact h \<longrightarrow> map_option aq_sequencePacketNo (last_key h) = Some (po_currentKeyNo (po s)))"

definition video_packet :: "acquired \<Rightarrow> bool" where
  "video_packet a \<longleftrightarrow> (case aq_packetData a of Some (AudioBundle ad) \<Rightarrow> False | _ \<Rightarrow> True)"

lemma deliver_frames_po [simp]: "po (deliver_frames ds s) = (po s)\<lparr>po_delivered := po_delivered (po s) @ ds\<rparr>"
  by (simp add: deliver_frames_def)

lemma event_po [simp]: "po (playbackEventOccurred e n s) = (po s)\<lparr>po_events := po_events (po s) @ [(e, of_int n)]\<rparr>"
  by (simp add: playbackEventOccurred_def)

lemma check_key_gop:
  "check_key a s = (b, s1) \<Longrightarrow> gop_state h s \<Longrightarrow> aq_isKey a \<Longrightarrow> b = decodable h a \<and> gop_state (h @ [a]) s1"
  by (auto simp: check_key_def gop_state_def video_ready_def decodable_def history_append split: if_splits)

lemma check_delta_gop:
  assumes res: "check_delta a s = (b, s1)" and s: "gop_state h s" and a: "\<not> aq_isKey a"
  shows "b = decodable h a \<and> gop_state (h @ [a]) s1"
proof -
  have m: "po_validGop (po (delta_event a s)) = po_validGop (po s)"
    "po_currentKeyNo (po (delta_event a s)) = po_currentKeyNo (po s)"
    "video_ready (delta_event a s) = video_ready s"
    by (simp_all add: delta_event_def video_ready_def)
  have "po_validGop (po s1) = (po_validGop (po s) \<and> aq_assembledLevel a \<ge> 1)"
    "po_currentKeyNo (po s1) = po_currentKeyNo (po s)" "video_ready s1 = video_ready s"
    "b = (po_validGop (po s1) \<and> aq_pairedPacketNo a = po_currentKeyNo (po s1))"
    using res m by (auto simp: check_delta_def video_ready_def Let_def)
  then show ?thesis using s a by (auto simp: gop_state_def decodable_def history_append)
qed

lemma video_playbackPacket_gop:
  assumes s: "gop_state h s" and a: "video_packet a"
  shows "\<exists>s'. video_playbackPacket a s = Some (aq_packetData a \<noteq> None \<and> decodable h a, s') \<and> gop_state (h @ [a]) s'"
proof -
  obtain b s1 where b: "(if aq_isKey a then check_key a s else check_delta a s) = (b, s1)" by force
  have r: "b = decodable h a" "gop_state (h @ [a]) s1"
    using b s check_key_gop [of a s b s1 h] check_delta_gop [of a s b s1 h] by (auto split: if_splits)
  have ready: "po_frameConsumer (po s)" "po_skipIncomplete (po s)" using s by (simp_all add: gop_state_def video_ready_def)
  show ?thesis
  proof (cases "aq_packetData a")
    case None
    then show ?thesis using r ready b by (simp add: video_playbackPacket_def)
  next
    case (Some d)
    then obtain fd where d: "d = VideoPacket fd" using a by (cases d) (simp_all add: video_packet_def)
    show ?thesis using r ready b Some d
      by (auto simp: video_playbackPacket_def gop_state_def video_ready_def Let_def)
  qed
qed

lemma show_packets_gop:
  "gop_state h s \<Longrightarrow> \<forall>a \<in> set as. video_packet a \<Longrightarrow> \<exists>s'. show_packets as s = Some (decodables h as, s')"
proof (induction as arbitrary: h s)
  case (Cons a as)
  obtain s1 where "video_playbackPacket a s = Some (aq_packetData a \<noteq> None \<and> decodable h a, s1)"
    "gop_state (h @ [a]) s1"
    using video_playbackPacket_gop [OF Cons.prems(1)] Cons.prems(2) by auto
  then show ?case using Cons.IH [of "h @ [a]" s1] Cons.prems(2) by auto
qed simp


end
