(* ===== verification/Playout_Invariant.thy ===== *)
theory Playout_Invariant
  imports Packet_Playout Pipeliner_Handlers
begin

text \<open>
  Playing a packet keeps the invariant of buffer and pipeliner and gives the slot back, whatever the
  state of the pipeliner is; so the playout may run at the end of the buffering, inside the
  pipeliner's handler of data. And the playout's mutex, its start and its stop.
\<close>

section \<open>Sequences of operations\<close>

lemma bind_SomeE:
  assumes "Option.bind m f = Some r" obtains a where "m = Some a" "f a = Some r"
  using assms by (auto simp: bind_Some)

lemma bind_tripleE:
  assumes "Option.bind m (\<lambda>(a, b, c). f a b c) = Some r" obtains a b c where "m = Some (a, b, c)" "f a b c = Some r"
  using assms by (auto simp: bind_Some)

section \<open>The buffer's operations\<close>

lemma set_slot_simps [simp]: "fb_state (set_slot i x s) = fb_state s" "frame_buffer.more (set_slot i x s) = frame_buffer.more s"
  by (simp_all add: set_slot_def)

lemma event_simps [simp]: "fb_state (addBufferEvent ty e s) = fb_state s" "frame_buffer.more (addBufferEvent ty e s) = frame_buffer.more s"
  by (simp_all add: addBufferEvent_def)

lemma getSlot_state: "getSlot n b s = (r, s') \<Longrightarrow> fb_state s' = fb_state s \<and> frame_buffer.more s' = frame_buffer.more s"
  by (auto simp: getSlot_def Let_def split: prod.splits option.splits if_splits)

lemma freeSlot_state:
  "freeSlot n s = Some (st, s') \<Longrightarrow> fb_state s' = fb_state s \<and> frame_buffer.more s' = frame_buffer.more s"
  by (auto simp: freeSlot_def bind_Some Let_def dest!: getSlot_state split: prod.splits option.splits if_splits)

lemma clean_loop_state:
  "clean_loop dn kn an kept is s = Some s' \<Longrightarrow> fb_state s' = fb_state s \<and> frame_buffer.more s' = frame_buffer.more s"
proof (induction "is" arbitrary: kept s)
  case (Cons i js)
  then show ?case by (fastforce simp: bind_Some Let_def stat_def dest!: freeSlot_state split: if_splits)
qed simp

lemma with_queue_state: "with_queue f s = Some s' \<Longrightarrow> fb_state s' = fb_state s \<and> frame_buffer.more s' = frame_buffer.more s"
  by (auto simp: with_queue_def bind_Some)

lemma cleanBuffer_state:
  "cleanBuffer dn kn an s = Some s' \<Longrightarrow> fb_state s' = fb_state s \<and> frame_buffer.more s' = frame_buffer.more s"
  by (auto simp: cleanBuffer_def bind_Some dest!: clean_loop_state with_queue_state)

lemma acquire_play_state:
  "acquire_play cb decode i k l s = Some (d, l', s') \<Longrightarrow> fb_state s' = fb_state s \<and> frame_buffer.more s' = frame_buffer.more s"
  by (auto simp: acquire_play_def bind_Some Let_def stat_def)

lemma acquireSlot_state:
  assumes res: "acquireSlot cb decode s = Some (aq, s')"
  shows "fb_state s' = fb_state s \<and> pl s' = pl s"
proof (cases "peekSlot (fb_playbackQueue s)")
  case (Some raw)
  note r = res [unfolded acquireSlot_def Some option.case Let_def]
  obtain i where i: "fst (getSlot (s_slotPrefix (fb_slot s raw)) False s) = Some i" using r by (auto simp: bind_Some)
  define sl where "sl = fb_slot s i"
  define isKey where "isKey \<longleftrightarrow> s_packetNamespace sl = NsKey"
  define skip where "skip \<longleftrightarrow> (fb_skipFrame s \<or> (fb_playbackNo s \<ge> 0 \<and> getPlaybackNumber sl \<ge> 0 \<and>
                fb_playbackNo s + 1 \<noteq> getPlaybackNumber sl \<and> getPlaybackNumber sl \<le> fb_playbackNo s))"
  define s1 where "s1 = set_slot i (Slot_lock sl) (s\<lparr>fb_skipFrame := skip, fb_playbackSlot := Some i\<rparr>)"
  obtain pd level s2 where s2: "(if \<not> skip then acquire_play cb decode i isKey (getAssembledLevel sl) s1
             else Some (None, getAssembledLevel sl,
               stat ((if isKey then stat_inc DroppedKeyNum else id) \<circ> stat_inc DroppedNum) s1)) = Some (pd, level, s2)"
    and size: "\<exists>d. getPlayableBufferSize s2 = Some (d, s')"
    using r unfolding i Option.bind.bind_lunit unfolding sl_def [symmetric] unfolding skip_def [symmetric] isKey_def [symmetric] s1_def [symmetric]
    by (auto simp: bind_Some)
  have "fb_state s2 = fb_state s1 \<and> pl s2 = pl s1"
    using s2 acquire_play_state [of cb decode i isKey "getAssembledLevel sl" s1 pd level s2] by (auto simp: stat_def split: if_splits)
  moreover have "fb_state s1 = fb_state s \<and> pl s1 = pl s" by (simp add: s1_def)
  ultimately show ?thesis using size sizes_pool(2) by metis
qed (use res in \<open>auto simp: acquireSlot_def\<close>)

text \<open>After the slot was given back nothing is being played.\<close>

lemma releaseAcquiredSlot_state:
  fixes s :: "'c system"
  assumes res: "releaseAcquiredSlot (pipeliner_callbacks decode t) now s = Some (delay, inferred, s')"
  shows "fb_state s' = fb_state s \<and> fb_playbackSlot s' = None"
proof -
  let ?cbs = "pipeliner_callbacks decode t :: 'c system callbacks"
  obtain inf where inf: "(if fb_skipFrame s then Some 0
                else map_option wrap32 (getInferredFrameDuration (fb_playbackQueue s))) = Some inf"
    using res unfolding releaseAcquiredSlot_def by (auto simp: bind_Some)
  have last: "fb_state s' = fb_state s1 \<and> fb_playbackSlot s' = fb_playbackSlot s1"
    if "(if fb_retransmissionsEnabled (s1\<lparr>fb_skipFrame := False\<rparr>)
           then checkRetransmissions (cb_decode ?cbs) (cb_onRetransmissionNeeded ?cbs) now (s1\<lparr>fb_skipFrame := False\<rparr>)
           else Some (s1\<lparr>fb_skipFrame := False\<rparr>)) = Some s'" for s1
    using that retransmission_loop_pool
    by (fastforce simp: checkRetransmissions_def pipeliner_callbacks_def bind_Some split: if_splits)
  show ?thesis
  proof (cases "fb_playbackSlot s")
    case None
    then show ?thesis using res inf last [of s] unfolding releaseAcquiredSlot_def by (auto simp: bind_Some Let_def)
  next
    case (Some i)
    obtain s1 where s1: "with_queue popSlot s = Some s1"
      using res Some inf unfolding releaseAcquiredSlot_def by (auto simp: bind_Some)
    obtain s2 where s2: "(if cPrefixMeta (s_consistency (fb_slot s1 i)) \<and>
                    s_packetNamespace (fb_slot s1 i) = NsKey \<and>
                    fb_lastKeySeqNo s1 \<le> s_packetSequenceNumber (fb_slot s1 i)
                 then onKeyNeeded ?cbs (s_packetSequenceNumber (fb_slot s1 i) + 1) s1
                 else Some s1) = Some s2"
      using res Some inf s1 unfolding releaseAcquiredSlot_def by (auto simp: bind_Some)
    obtain dl ii where di: "(if fb_skipFrame s2 then (inf, False) else release_delay i inf s2) = (dl, ii)"
      by force
    define s3 where "s3 = (if fb_skipFrame s2 then s2 else s2\<lparr>fb_isEstimationNeeded := True\<rparr>)"
    define s4 where "s4 = s3\<lparr>fb_frameReleaseCount := fb_frameReleaseCount s3 + 1\<rparr>"
    note steps = releaseAcquiredSlot_def inf Some s1 s2 di option.case prod.case Let_def Option.bind.bind_lunit
    obtain s5 where s5: "(if fb_frameReleaseCount s4 mod 60 = 0
                 then cleanBuffer (if s_packetNamespace (fb_slot s4 i) = NsKey
                     then getPairedFrameNumber (fb_slot s4 i)
                     else s_packetSequenceNumber (fb_slot s4 i))
                   (fb_lastKeySeqNo s4) (getPlaybackNumber (fb_slot s4 i)) s4
                 else Some s4) = Some s5"
      using res unfolding steps s3_def [symmetric] s4_def [symmetric] by (auto simp: bind_Some)
    define s6 where "s6 = set_slot i (Slot_unlock (fb_slot s5 i)) s5"
    obtain st s7 where s7: "freeSlot (s_slotPrefix (fb_slot s6 i)) s6 = Some (st, s7)"
      and rest: "(if fb_retransmissionsEnabled (s7\<lparr>fb_playbackSlot := None, fb_skipFrame := False\<rparr>)
           then checkRetransmissions (cb_decode ?cbs) (cb_onRetransmissionNeeded ?cbs) now
             (s7\<lparr>fb_playbackSlot := None, fb_skipFrame := False\<rparr>)
           else Some (s7\<lparr>fb_playbackSlot := None, fb_skipFrame := False\<rparr>)) = Some s'"
      using res unfolding steps s3_def [symmetric] unfolding s4_def [symmetric]
      unfolding s5 Option.bind.bind_lunit s6_def [symmetric] by (auto simp: bind_Some)
    have "fb_state s2 = fb_state s1"
      using s2 callbacks_pool(1) by (auto simp: onKeyNeeded_def pipeliner_callbacks_def split: if_splits)
    moreover have "fb_state s4 = fb_state s2" by (simp add: s4_def s3_def)
    moreover have "fb_state s5 = fb_state s4" using s5 cleanBuffer_state by (metis option.inject)
    moreover have "fb_state s7 = fb_state s5" using freeSlot_state [OF s7] by (simp add: s6_def)
    moreover have "fb_state s' = fb_state s7 \<and> fb_playbackSlot s' = None"
      using last [of "s7\<lparr>fb_playbackSlot := None\<rparr>"] rest by simp
    ultimately show ?thesis using with_queue_state [OF s1] by simp
  qed
qed

section \<open>One packet\<close>

text \<open>What playing a packet leaves alone: the invariant, the states of pipeliner and buffer, and the
  fields of the playout that tell how it works.\<close>

definition static :: "'c playout_scheme \<Rightarrow> bool \<times> playout_kind \<times> bool \<times> bool \<times> bool" where
  "static p = (po_isRunning p, po_kind p, po_frameConsumer p, po_skipIncomplete p, po_locked p)"

definition keeps :: "'c player \<Rightarrow> 'c player \<Rightarrow> bool" where
  "keeps s s' \<longleftrightarrow> (ok None s \<longrightarrow> ok None s') \<and> p_state (pl s') = p_state (pl s) \<and>
     fb_state s' = fb_state s \<and> static (po s') = static (po s)"

lemma keeps_refl [simp]: "keeps s s"
  by (simp add: keeps_def)

lemma keeps_trans: "keeps s s1 \<Longrightarrow> keeps s1 s2 \<Longrightarrow> keeps s s2"
  by (simp add: keeps_def)

lemma pl_inv_more [simp]: "pl_inv (pipeliner.more_update f p) = pl_inv p"
  by (simp add: pl_inv_def)

lemma ok_po_upd [simp]: "ok out (po_upd f s) = ok out s"
  by (simp add: po_upd_def ok_upd_iff)

lemma keeps_po_upd: "static (f (po s)) = static (po s) \<Longrightarrow> keeps s (po_upd f s)"
  by (simp add: keeps_def)

lemma keeps_stat [simp]: "keeps s (stat f s)"
  by (simp add: keeps_def)

lemma keeps_more: "ok None s' \<Longrightarrow> fb_state s' = fb_state s \<Longrightarrow> pl s' = pl s \<Longrightarrow> keeps s s'"
  by (simp add: keeps_def)

lemma keeps_playable: "getPlayableBufferSize s = Some (d, s') \<Longrightarrow> keeps s s'"
  using sizes_pool(2) fb_inv_getPlayableBufferSize by (fastforce simp: keeps_def)

lemma checkBuffer_keeps:
  assumes res: "checkBuffer t s = Some s'"
  shows "keeps s s' \<and> fb_playbackSlot s' = fb_playbackSlot s"
proof (cases "s' = s")
  case False
  obtain d s2 where s2: "getPlayableBufferSize (po_upd (\<lambda>p. p\<lparr>po_bufferCheckTs := msec t\<rparr>) s) = Some (d, s2)"
    and s': "s' = s2 \<or> (\<exists>n. s' = po_upd (\<lambda>p. p\<lparr>po_playbackAdjustment := n\<rparr>) s2)"
    using res False by (auto simp: checkBuffer_def bind_Some Let_def split: if_splits)
  have "keeps s (po_upd (\<lambda>p. p\<lparr>po_bufferCheckTs := msec t\<rparr>) s)" by (rule keeps_po_upd) (simp add: static_def)
  then have "keeps s s2" using keeps_playable [OF s2] by (rule keeps_trans)
  moreover have "keeps s2 (po_upd (\<lambda>p. p\<lparr>po_playbackAdjustment := n\<rparr>) s2)" for n
    by (rule keeps_po_upd) (simp add: static_def)
  ultimately show ?thesis using s' sizes_pool(2) [OF s2] keeps_trans by auto
qed simp

lemma acquire_packet_keeps:
  assumes res: "acquire_packet env s = Some (a, s')" and s: "ok None s" "fb_playbackSlot s = None"
  shows "keeps s s'"
proof -
  obtain aq s1 where s1: "acquireSlot (pe_cbSize env) (pe_decode env) s = Some (aq, s1)"
    and s': "s' = po_upd (\<lambda>p. p\<lparr>po_data := aq_packetData a\<rparr>) s1"
    using res by (auto simp: acquire_packet_def bind_Some Let_def)
  have "keeps s s1" using acquireSlot_inv [OF s1 s] acquireSlot_state [OF s1] by (intro keeps_more) simp_all
  moreover have "keeps s1 s'" unfolding s' by (rule keeps_po_upd) (simp add: static_def)
  ultimately show ?thesis by (rule keeps_trans)
qed

lemma keeps_event [simp]: "keeps s (playbackEventOccurred e n s')= keeps s s'"
  by (simp add: playbackEventOccurred_def keeps_def static_def)

lemma keeps_simps [simp]: "keeps s (stat f s') = keeps s s'" "keeps s (deliver_frames ds s') = keeps s s'"
  by (simp_all add: keeps_def static_def deliver_frames_def)

lemma keeps_played [simp]: "keeps (played_stats a s) s' = keeps s s'"
  by (simp add: keeps_def played_stats_def)

lemma check_key_keeps: "check_key a s = (b, s') \<Longrightarrow> keeps s s'"
  by (auto simp: check_key_def static_def intro!: keeps_po_upd split: if_splits)

lemma check_delta_keeps: "check_delta a s = (b, s') \<Longrightarrow> keeps s s'"
proof -
  assume "check_delta a s = (b, s')"
  then have s': "s' = po_upd (\<lambda>p. p\<lparr>po_validGop := po_validGop p \<and> aq_assembledLevel a \<ge> 1\<rparr>) (delta_event a s)"
    by (simp add: check_delta_def Let_def)
  have "keeps s (delta_event a s)" by (simp add: delta_event_def)
  moreover have "keeps (delta_event a s) s'" unfolding s' by (rule keeps_po_upd) (simp add: static_def)
  ultimately show "keeps s s'" by (rule keeps_trans)
qed

lemma playbackPacket_keeps: "playbackPacket a s = Some (b, s') \<Longrightarrow> keeps s s'"
  using check_key_keeps check_delta_keeps
  by (fastforce simp: playbackPacket_def video_playbackPacket_def audio_playbackPacket_def bind_Some Let_def
      split: playout_kind.splits if_splits prod.splits option.splits packet_data.splits)

lemma track_packet_keeps: "track_packet env s = Some s' \<Longrightarrow> keeps s s'"
  by (auto simp: track_packet_def updatePlaybackAdjustment_def bind_Some Let_def keeps_def static_def
      split: option.splits if_splits)

lemma playbackDelayAdjustment_keeps: "playbackDelayAdjustment d s = Some (x, s') \<Longrightarrow> keeps s s' \<and> fb_playbackSlot s' = fb_playbackSlot s"
  by (auto simp: playbackDelayAdjustment_def bind_Some Let_def keeps_def static_def split: if_splits)

lemma avSyncAdjustment_keeps: "avSyncAdjustment n d s = Some (x, s') \<Longrightarrow> keeps s s' \<and> fb_playbackSlot s' = fb_playbackSlot s"
  by (auto simp: avSyncAdjustment_def bind_Some Let_def keeps_def static_def split: if_splits option.splits)

lemma frame_delay_keeps:
  assumes "frame_delay t b d s = Some (delay, s')"
  shows "keeps s s' \<and> fb_playbackSlot s' = fb_playbackSlot s"
proof -
  obtain adj s1 where s1: "playbackDelayAdjustment d s = Some (adj, s1)"
    and s': "s' = s1 \<or> (\<exists>x y. avSyncAdjustment (msec t) x s1 = Some (y, s'))"
    using assms by (auto simp: frame_delay_def bind_Some Let_def split: if_splits)
  have k1: "keeps s s1" "fb_playbackSlot s1 = fb_playbackSlot s" using playbackDelayAdjustment_keeps [OF s1] by simp_all
  show ?thesis using s'
  proof (elim disjE exE)
    fix x y assume "avSyncAdjustment (msec t) x s1 = Some (y, s')"
    from avSyncAdjustment_keeps [OF this] show ?thesis using k1 keeps_trans by auto
  qed (use k1 in simp)
qed

text \<open>The pipeliner's callbacks leave the playout alone.\<close>

definition pl_at :: "pipeliner_state \<Rightarrow> 'c \<Rightarrow> 'c pipeliner_scheme \<Rightarrow> bool" where
  "pl_at st q p \<longleftrightarrow> pl_inv p \<and> p_state p = st \<and> pipeliner.more p = q"

lemma requesting_pl_at: "requesting (pl_at st q)"
  unfolding requesting_def
proof (intro allI impI conjI)
  fix p rs iq
  assume p: "pl_at st q p"
  then show "length (p_rnds p) < 2 ^ 30" by (simp add: pl_at_def pl_inv_def)
  show "pl_at st q (p\<lparr>p_queue := iq\<rparr>)" using p by (simp add: pl_at_def)
  show "pl_at st q (p\<lparr>p_rnds := rs\<rparr>)" if "length rs \<le> length (p_rnds p)"
    using p pl_inv_rnds [of p rs] that by (simp add: pl_at_def)
qed

interpretation held: pipeliner_invariant "pl_at st q"
  by unfold_locales (simp_all only: requesting_pl_at, simp_all add: pl_at_def)

lemma pl_at_iff: "fb_inv (pl_at st q) out s \<longleftrightarrow> ok out s \<and> p_state (pl s) = st \<and> po s = q"
  by (auto simp: fb_inv_def pl_at_def)

lemma schedule_next_facts:
  assumes "schedule_next t delay s = Some s'"
  shows "ok out s' = ok out s" "fb_state s' = fb_state s" "p_state (pl s') = p_state (pl s)"
    "fb_playbackSlot s' = fb_playbackSlot s"
    "static (po s') = static ((po s)\<lparr>po_locked := False\<rparr>)"
  using assms by (auto simp: schedule_next_def bind_Some Let_def static_def split: if_splits)

lemma play_one_keeps:
  assumes res: "play_one env t s = Some s'" and s: "ok None s" "fb_playbackSlot s = None"
  shows "ok None s' \<and> fb_playbackSlot s' = None \<and> fb_state s' = fb_state s \<and> p_state (pl s') = p_state (pl s) \<and>
    static (po s') = static ((po s)\<lparr>po_locked := False\<rparr>)"
proof -
  obtain s1 j a s3 valid s4 s5 d inferred s6 delay s8 where s1: "checkBuffer t s = Some s1"
    and j: "startFramePlayout t (po_jitterTiming (po s1)) = Some j"
    and s3: "acquire_packet env (po_upd (\<lambda>p. p\<lparr>po_jitterTiming := j, po_data := None\<rparr>) s1) = Some (a, s3)"
    and s4: "playbackPacket a s3 = Some (valid, s4)"
    and s5: "track_packet env (if valid then played_stats a s4 else s4) = Some s5"
    and s6: "releaseAcquiredSlot (pipeliner_callbacks (pe_decode env) t) (msec t) s5 = Some (d, inferred, s6)"
    and s8: "frame_delay t valid d (po_upd (\<lambda>p. p\<lparr>po_isInferredPlayback := inferred\<rparr>) s6) = Some (delay, s8)"
    and s': "schedule_next t delay s8 = Some s'"
    using res unfolding play_one_def Let_def by (elim bind_tripleE bind_pairE bind_SomeE) (rule that)
  define s2 where "s2 = po_upd (\<lambda>p. p\<lparr>po_jitterTiming := j, po_data := None\<rparr>) s1"
  define s7 where "s7 = po_upd (\<lambda>p. p\<lparr>po_isInferredPlayback := inferred\<rparr>) s6"
  have k1: "keeps s s1" "fb_playbackSlot s1 = None" using checkBuffer_keeps [OF s1] s(2) by simp_all
  have "keeps s1 s2" unfolding s2_def by (rule keeps_po_upd) (simp add: static_def)
  then have k2: "keeps s s2" by (rule keeps_trans [OF k1(1)])
  have "ok None s2" "fb_playbackSlot s2 = None" using k2 s(1) k1(2) by (simp_all add: keeps_def s2_def)
  then have "keeps s2 s3" by (intro acquire_packet_keeps [OF s3 [folded s2_def]])
  moreover have "keeps s3 s5"
    using playbackPacket_keeps [OF s4] track_packet_keeps [OF s5] keeps_trans
    by (auto split: if_splits)
  ultimately have k5: "keeps s s5" using k2 keeps_trans by blast
  then have ok5: "ok None s5" using s(1) by (simp add: keeps_def)
  note st6 = releaseAcquiredSlot_state [OF s6]
  have "fb_inv (pl_at (p_state (pl s5)) (po s5)) None s6"
    by (rule held.client.releaseAcquiredSlot_inv [OF s6]) (use ok5 in \<open>simp add: pl_at_iff\<close>)
  then have k6: "keeps s5 s6" and ok6: "ok None s6" using st6 by (simp_all add: pl_at_iff keeps_def)
  have "keeps s6 s7" unfolding s7_def by (rule keeps_po_upd) (simp add: static_def)
  then have k8: "keeps s s8"
    using k5 k6 frame_delay_keeps [OF s8 [folded s7_def]] keeps_trans by blast
  show ?thesis
    using k8 schedule_next_facts [OF s'] frame_delay_keeps [OF s8] st6 s(1)
    by (simp add: keeps_def static_def)
qed

section \<open>The job, the start and the stop\<close>

lemma processPlayout_keeps:
  assumes res: "processPlayout env t s = Some s'" and s: "ok None s" "fb_playbackSlot s = None"
  shows "ok None s' \<and> fb_playbackSlot s' = None \<and> fb_state s' = fb_state s \<and> p_state (pl s') = p_state (pl s) \<and>
    static (po s') = static ((po s)\<lparr>po_locked := po_isRunning (po s) \<and> fb_state s \<noteq> Valid\<rparr>)"
proof -
  define s1 where "s1 = po_upd (\<lambda>p. p\<lparr>po_locked := True\<rparr>) s"
  have s1: "ok None s1" "fb_playbackSlot s1 = None" "fb_state s1 = fb_state s" "p_state (pl s1) = p_state (pl s)"
    "po s1 = (po s)\<lparr>po_locked := True\<rparr>"
    using s by (simp_all add: s1_def)
  have free: "\<not> po_locked (po s)" using res by (simp add: processPlayout_def split: if_splits)
  have r: "(if po_isRunning (po s) then if fb_state s = Valid then play_one env t s1 else Some s1 else Some s) = Some s'"
    using res free by (simp add: processPlayout_def s1_def Let_def split: if_splits)
  show ?thesis
  proof (cases "po_isRunning (po s)")
    case running: True
    show ?thesis
    proof (cases "fb_state s = Valid")
      case True
      then have "play_one env t s1 = Some s'" using r running by simp
      from play_one_keeps [OF this s1(1,2)] show ?thesis using s1 True running by (simp add: static_def)
    next
      case False
      then show ?thesis using r running s1 by (auto simp: static_def)
    qed
  next
    case False
    then show ?thesis using r s free by (auto simp: static_def)
  qed
qed

lemma Playout_start_keeps:
  assumes res: "Playout_start env t adj s = Some s'" and s: "ok None s" "fb_playbackSlot s = None"
  shows "ok None s' \<and> fb_playbackSlot s' = None \<and> fb_state s' = fb_state s \<and> p_state (pl s') = p_state (pl s) \<and>
    static (po s') = static ((po s)\<lparr>po_isRunning := True, po_locked := fb_state s \<noteq> Valid\<rparr>)"
proof -
  define s1 where "s1 = po_upd (\<lambda>p. p\<lparr>po_jitterTiming := JitterTiming_flush (po_jitterTiming p),
             po_isRunning := True, po_isInferredPlayback := False, po_lastPacketTs := 0,
             po_inferredDelay := 0, po_playbackAdjustment := adj, po_bufferCheckTs := msec t\<rparr>) s"
  have "processPlayout env t s1 = Some s'" using res by (simp add: Playout_start_def s1_def split: if_splits)
  from processPlayout_keeps [OF this] show ?thesis using s by (simp add: s1_def static_def)
qed

lemma start_playout_keeps:
  assumes res: "start_playout env t adj s = Some s'" and s: "ok None s" "fb_playbackSlot s = None"
  shows "ok None s' \<and> fb_playbackSlot s' = None \<and> fb_state s' = fb_state s \<and> p_state (pl s') = p_state (pl s) \<and>
    static (po s') = static ((po s)\<lparr>po_isRunning := True, po_locked := fb_state s \<noteq> Valid\<rparr>)"
proof -
  obtain s1 where "Playout_start env t adj s = Some s1" and
    "s' = s1 \<or> s' = po_upd (\<lambda>p. p\<lparr>po_validGop := False, po_currentKeyNo := 0\<rparr>) s1"
    using res by (auto simp: start_playout_def VideoPlayout_start_def bind_Some split: playout_kind.splits)
  then show ?thesis using Playout_start_keeps [OF _ s] by (auto simp: static_def)
qed

lemma Playout_stop_keeps:
  assumes "Playout_stop s = Some (r, s')"
  shows "ok out s' = ok out s" "fb_playbackSlot s' = fb_playbackSlot s" "fb_state s' = fb_state s"
    "p_state (pl s') = p_state (pl s)" "\<not> po_isRunning (po s')" "\<not> po_locked (po s')"
  using assms by (auto simp: Playout_stop_def split: if_splits)

text \<open>C0: A buffer that was reset under a running playout blocks it for good. When the timer of the
  playout expires while the buffer is not valid, the job returns with the mutex locked: the next run
  of the job, a stop and a start of the playout all wait for the mutex for ever.\<close>

theorem invalid_buffer_blocks_playout:
  assumes "po_isRunning (po s)" "\<not> po_locked (po s)" "fb_state s \<noteq> Valid"
  shows "\<exists>s'. playout_timer env t s = Some s' \<and> po_locked (po s') \<and> jt_timer (po_jitterTiming (po s')) = None \<and>
    Playout_stop s' = None \<and> processPlayout env t' s' = None \<and> start_playout env t' adj s' = None"
  using assms
  by (auto simp: playout_timer_def processPlayout_def Playout_stop_def start_playout_def VideoPlayout_start_def
      Playout_start_def Let_def split: playout_kind.splits)


text \<open>C36: A key frame that is dropped opens its group all the same. The buffer hands out a frame that
  comes too late without data but with its level of assembly: the playout delivers the delta frames
  of the group although their key frame never reached the decoder.\<close>

theorem dropped_key_opens_group:
  assumes s: "po_frameConsumer (po s)" "po_skipIncomplete (po s)" "\<not> po_validGop (po s)"
    and key: "aq_isKey k" "aq_assembledLevel k \<ge> 1" "aq_packetData k = None"
    and delta: "\<not> aq_isKey d" "aq_assembledLevel d \<ge> 1" "aq_packetData d = Some (VideoPacket fd)"
      "aq_pairedPacketNo d = aq_sequencePacketNo k"
  shows "\<exists>s'. show_packets [k, d] s = Some ([False, True], s')"
  using show_packets_gop [of "[]" s "[k, d]"] assms
  by (auto simp: gop_state_def video_ready_def video_packet_def intact_def last_key_def since_key_def decodable_def)

end
