(* ===== verification/Channel.thy ===== *)
theory Channel
  imports Packet_Playout
begin

text \<open>
  The consumer of a stream (\<open>Consumer\<close>, \<open>VideoConsumer\<close> and \<open>AudioConsumer\<close> in
  \<open>ndnrtc/cpp/src/consumer.cpp\<close>, \<open>video-consumer.cpp\<close> and \<open>audio-consumer.cpp\<close>): it owns the
  interest queue, the buffer, the pipeliner and the playout, connects them and starts, stops and
  resets them together. Its record extends the playout's, so that an operation of the consumer sees
  all of them. The renderer is a flag; the observer is told what \<open>co_observations\<close> lists. The
  decoder, the renderer and the face belong to WebRTC and NDN-CPP.
\<close>

section \<open>State\<close>

datatype consumer_status =
  ConsumerStatusStopped | ConsumerStatusNoData | ConsumerStatusAdjusting | ConsumerStatusBuffering
| ConsumerStatusFetching

datatype consumer_state = ConsumerInactive | ConsumerChasing | ConsumerFetching

datatype observation = StatusChanged consumer_status | RebufferingOccurred | ThreadSwitched string

record thread_params =
  tp_threadName :: string
  tp_segmentsInfo :: frame_segments_info

record consumer =
  co_isConsuming :: bool
  co_mediaThreads :: "thread_params list"
  co_currentThreadIdx :: nat
  co_isRendering :: bool
  co_dataMeterId :: nat
  co_segmentFreqMeterId :: nat
  co_hasObserver :: bool
  co_observations :: "observation list"

type_synonym 'c channel = "'c consumer_scheme player"

abbreviation co :: "'c channel \<Rightarrow> 'c consumer_scheme" where
  "co s \<equiv> playout.more (po s)"

definition co_upd :: "('c consumer_scheme \<Rightarrow> 'c consumer_scheme) \<Rightarrow> 'c channel \<Rightarrow> 'c channel" where
  "co_upd f s = po_upd (playout.more_update f) s"

definition observe :: "observation \<Rightarrow> 'c channel \<Rightarrow> 'c channel" where
  "observe x s = (if co_hasObserver (co s)
     then co_upd (\<lambda>c. c\<lparr>co_observations := co_observations c @ [x]\<rparr>) s else s)"

section \<open>Threads and states\<close>

text \<open>The last thread with the name, or -1.\<close>

definition getThreadIdx :: "string \<Rightarrow> 'c channel \<Rightarrow> int" where
  "getThreadIdx threadName s =
     fold (\<lambda>i idx. if tp_threadName (co_mediaThreads (co s) ! i) = threadName then int i else idx)
       [0..<length (co_mediaThreads (co s))] (-1)"

definition getCurrentThread :: "'c channel \<Rightarrow> thread_params option" where
  "getCurrentThread s =
     (if co_currentThreadIdx (co s) < length (co_mediaThreads (co s))
      then Some (co_mediaThreads (co s) ! co_currentThreadIdx (co s)) else None)"

fun Consumer_getState :: "pipeliner_state \<Rightarrow> consumer_state" where
  "Consumer_getState StateBuffering = ConsumerChasing"
| "Consumer_getState StateChasing = ConsumerChasing"
| "Consumer_getState StateAdjust = ConsumerFetching"
| "Consumer_getState StateFetching = ConsumerFetching"
| "Consumer_getState _ = ConsumerInactive"

text \<open>What the observer is told when the state of the pipeliner changes.\<close>

fun status_of :: "pipeliner_state \<Rightarrow> consumer_status" where
  "status_of StateWaitInitial = ConsumerStatusNoData"
| "status_of StateChasing = ConsumerStatusNoData"
| "status_of StateAdjust = ConsumerStatusAdjusting"
| "status_of StateBuffering = ConsumerStatusBuffering"
| "status_of StateFetching = ConsumerStatusFetching"
| "status_of StateInactive = ConsumerStatusStopped"

definition Consumer_onStateChanged :: "pipeliner_state \<Rightarrow> pipeliner_state \<Rightarrow> 'c channel \<Rightarrow> 'c channel" where
  "Consumer_onStateChanged oldState newState s = observe (StatusChanged (status_of newState)) s"

section \<open>Initialisation\<close>

text \<open>The constructor of the frame buffer; what it leaves alone is set by \<open>init\<close> or is there before.\<close>

definition new_FrameBuffer :: "'a frame_buffer_scheme \<Rightarrow> 'a frame_buffer_scheme option" where
  "new_FrameBuffer fb = do {
     q \<leftarrow> new_PlaybackQueue (Finite 30);
     let (f, mt) = setupFilter (to_double (5 / 100)) (fb_meters fb);
     Some (fb\<lparr>fb_state := Invalid, fb_targetSizeMs := -1, fb_estimatedSizeMs := -1,
       fb_isEstimationNeeded := True, fb_forcedRelease := False, fb_meters := mt,
       fb_skipFrame := False, fb_playbackSlot := None, fb_pendingEventsFlushed := False,
       fb_nSlots := 0, fb_freeSlots := [], fb_activeSlots := [], fb_playbackQueue := q,
       fb_pendingEvents := []\<rparr>)
   }"

text \<open>The constructor of the consumer and \<open>Consumer::init\<close>: \<open>u1\<close> to \<open>u3\<close> as for the pipeliner.\<close>

definition new_Consumer :: "'c channel \<Rightarrow> 'c channel" where
  "new_Consumer s =
     (let (re, mt1) = new_RttEstimation RttStartEstimate (fb_meters s);
          (d, mt2) = setupDataRateMeter 5 mt1;
          (f, mt3) = setupFrequencyMeter 10 mt2 in
      co_upd (\<lambda>c. c\<lparr>co_isConsuming := False, co_dataMeterId := d, co_segmentFreqMeterId := f,
          co_currentThreadIdx := 0, co_hasObserver := False\<rparr>)
        (s\<lparr>fb_meters := mt3, fb_stats := ConsumerStatRepo, fb_rtt := re,
           fb_bufferEstimator := setRttEstimation re (new_BufferEstimator re (cp_jitterSizeMs (fb_params s)))\<rparr>))"

definition Consumer_init ::
    "nat \<Rightarrow> nat \<Rightarrow> nat \<Rightarrow> int \<Rightarrow> string \<Rightarrow> string \<Rightarrow> 'c channel \<Rightarrow> (result \<times> 'c channel) option" where
  "Consumer_init u1 u2 u3 t streamPrefix threadName s = do {
     let (q, mt) = new_InterestQueue (fb_meters s);
     let s1 = upd (\<lambda>p. p\<lparr>p_consumerPrefix := streamPrefix, p_queue := q\<rparr>) (s\<lparr>fb_meters := mt\<rparr>);
     s2 \<leftarrow> new_FrameBuffer s1;
     (res, s3) \<leftarrow> fb_init s2;
     let idx = getThreadIdx threadName s3;
     let s4 = co_upd (\<lambda>c. c\<lparr>co_currentThreadIdx := (if idx < 0 then 0 else nat idx)\<rparr>) s3;
     thread \<leftarrow> getCurrentThread s4;
     let s5 = new_Pipeliner2 u1 u2 u3 t (tp_segmentsInfo thread)
                (upd (\<lambda>p. p\<lparr>p_threadName := tp_threadName thread\<rparr>) s4);
     Some (res, observe (StatusChanged ConsumerStatusStopped) s5)
   }"

definition VideoConsumer_init ::
    "nat \<Rightarrow> nat \<Rightarrow> nat \<Rightarrow> int \<Rightarrow> string \<Rightarrow> string \<Rightarrow> 'c channel \<Rightarrow> (result \<times> 'c channel) option" where
  "VideoConsumer_init u1 u2 u3 t streamPrefix threadName s = do {
     (res, s1) \<leftarrow> Consumer_init u1 u2 u3 t streamPrefix threadName s;
     if RESULT_GOOD res then
       let s2 = PipelinerBase_initialize (setUseKeyNamespace True s1);
           s3 = new_Playout (po_upd (\<lambda>p. p\<lparr>po_kind := VideoPlayout\<rparr>) s2) in
       Some (RESULT_OK, snd (Playout_init True s3))
     else Some (RESULT_ERR, s1)
   }"

definition AudioConsumer_init ::
    "nat \<Rightarrow> nat \<Rightarrow> nat \<Rightarrow> int \<Rightarrow> string \<Rightarrow> string \<Rightarrow> 'c channel \<Rightarrow> (result \<times> 'c channel) option" where
  "AudioConsumer_init u1 u2 u3 t streamPrefix threadName s = do {
     (res, s1) \<leftarrow> Consumer_init u1 u2 u3 t streamPrefix threadName s;
     if RESULT_GOOD res then
       let s2 = PipelinerBase_initialize (setUseKeyNamespace False s1);
           s3 = new_Playout (po_upd (\<lambda>p. p\<lparr>po_kind := AudioPlayout\<rparr>) s2) in
       Some (RESULT_OK, snd (Playout_init True s3))
     else Some (RESULT_ERR, s1)
   }"

section \<open>Start, stop and reset\<close>

definition Consumer_start :: "int \<Rightarrow> 'c channel \<Rightarrow> 'c channel" where
  "Consumer_start t s =
     observe (StatusChanged ConsumerStatusNoData)
       (Pipeliner2_start t (co_upd (\<lambda>c. c\<lparr>co_isConsuming := True\<rparr>) s))"

definition stopRendering :: "'c channel \<Rightarrow> 'c channel" where
  "stopRendering s = co_upd (\<lambda>c. c\<lparr>co_isRendering := False\<rparr>) s"

definition Consumer_stop :: "int \<Rightarrow> 'c channel \<Rightarrow> 'c channel option" where
  "Consumer_stop t s = do {
     let (r, s1) = Pipeliner2_stop t (co_upd (\<lambda>c. c\<lparr>co_isConsuming := False\<rparr>) s);
     (r', s2) \<leftarrow> Playout_stop s1;
     Some (stopRendering s2)
   }"

definition Consumer_triggerRebuffering :: "int \<Rightarrow> 'c channel \<Rightarrow> 'c channel option" where
  "Consumer_triggerRebuffering t s = do {
     let (q, mt) = InterestQueue_reset (p_queue (pl s)) (fb_meters s);
     let s1 = upd (\<lambda>p. p\<lparr>p_queue := q\<rparr>) (s\<lparr>fb_meters := mt\<rparr>);
     (r, s2) \<leftarrow> Playout_stop s1;
     s3 \<leftarrow> PipelinerBase_triggerRebuffering t (stopRendering s2);
     Some (observe RebufferingOccurred (s3\<lparr>fb_meters := RttEstimation_reset (fb_rtt s3) (fb_meters s3)\<rparr>))
   }"

text \<open>The pipeliner is switched before the playout is stopped: \<open>switch_pipeliner\<close> is the part up to
  there. Releasing a meter does nothing.\<close>

definition switch_pipeliner :: "int \<Rightarrow> nat \<Rightarrow> 'c channel \<Rightarrow> 'c channel option" where
  "switch_pipeliner t idx s = do {
     let (d, mt1) = setupDataRateMeter 5 (fb_meters s);
     let (f, mt2) = setupFrequencyMeter 10 mt1;
     let s1 = co_upd (\<lambda>c. c\<lparr>co_currentThreadIdx := idx, co_dataMeterId := d, co_segmentFreqMeterId := f\<rparr>)
                (s\<lparr>fb_meters := mt2\<rparr>);
     thread \<leftarrow> getCurrentThread s1;
     threadSwitched t (upd (\<lambda>p. p\<lparr>p_threadName := tp_threadName thread\<rparr>) s1)
   }"

definition switchThread :: "int \<Rightarrow> string \<Rightarrow> 'c channel \<Rightarrow> 'c channel option" where
  "switchThread t threadName s =
     (let idx = getThreadIdx threadName s in
      if idx \<ge> 0 then do {
        s1 \<leftarrow> switch_pipeliner t (nat idx) s;
        (r, s2) \<leftarrow> Playout_stop s1;
        Some (observe (ThreadSwitched threadName) s2)
      } else Some s)"

text \<open>The pipeliner reports the end of the buffering: an excess over the target size is played faster.\<close>

definition Consumer_onBufferingEnded :: "play_env \<Rightarrow> int \<Rightarrow> 'c channel \<Rightarrow> 'c channel option" where
  "Consumer_onBufferingEnded env t s =
     (let s1 = (if \<not> co_isRendering (co s) then co_upd (\<lambda>c. c\<lparr>co_isRendering := True\<rparr>) s else s) in
      if \<not> po_isRunning (po s1) then do {
        targetBufferSize \<leftarrow> getTargetSize (fb_bufferEstimator s1) (fb_meters s1);
        (playable, s2) \<leftarrow> getPlayableBufferSize s1;
        let adjustment = wrap32 (targetBufferSize - playable);
        let s3 = (if cp_useRtx (fb_params s2) then setRetransmissionsEnabled True s2 else s2);
        start_playout env t (if adjustment < 0 then adjustment else 0) s3
      } else Some s1)"

definition Consumer_onInitialDataArrived :: "'c channel \<Rightarrow> 'c channel" where
  "Consumer_onInitialDataArrived s = observe (StatusChanged ConsumerStatusAdjusting) s"

text \<open>What the consumer gives to its pipeliner.\<close>

definition channel_env :: "PrefixMetaInfo \<Rightarrow> play_env \<Rightarrow> int \<Rightarrow> 'c consumer_scheme playout_scheme environment" where
  "channel_env memory env t =
     \<lparr>en_decode = pe_decode env, en_onBufferingEnded = Some (Consumer_onBufferingEnded env t),
      en_uninitialised = memory\<rparr>"

end
