(* ===== verification/Channel_System.thy ===== *)
theory Channel_System
  imports Channel Playout_Invariant
begin

text \<open>
  The consumer as a system: its steps are the calls of the application, data and time-outs from the
  network, and the timers of the playout and of the interest queue. The invariant of buffer,
  pipeliner and playout holds in every reachable state.
\<close>

section \<open>The invariant\<close>

definition unlocked :: "'c playout_scheme \<Rightarrow> bool" where
  "unlocked q \<longleftrightarrow> \<not> po_locked q"

definition channel_inv :: "'c channel \<Rightarrow> bool" where
  "channel_inv s \<longleftrightarrow> settled unlocked s \<and> (po_isRunning (po s) \<longrightarrow> running (p_state (pl s)))"

lemma co_upd_simps [simp]:
  "ok out (co_upd f s) = ok out s" "p_state (pl (co_upd f s)) = p_state (pl s)"
  "fb_state (co_upd f s) = fb_state s" "fb_playbackSlot (co_upd f s) = fb_playbackSlot s"
  "fb_nSlots (co_upd f s) = fb_nSlots s"
  "po_locked (po (co_upd f s)) = po_locked (po s)" "po_isRunning (po (co_upd f s)) = po_isRunning (po s)"
  by (simp_all add: co_upd_def)

lemma observe_simps [simp]:
  "ok out (observe x s) = ok out s" "p_state (pl (observe x s)) = p_state (pl s)"
  "fb_state (observe x s) = fb_state s" "fb_playbackSlot (observe x s) = fb_playbackSlot s"
  "po_locked (po (observe x s)) = po_locked (po s)" "po_isRunning (po (observe x s)) = po_isRunning (po s)"
  by (simp_all add: observe_def)

lemma settled_iff:
  "settled unlocked s \<longleftrightarrow> ok None s \<and> \<not> po_locked (po s) \<and> fb_playbackSlot s = None \<and>
     (running (p_state (pl s)) \<longrightarrow> fb_state s = Valid)"
  by (auto simp: settled_def unlocked_def)

lemma Consumer_onBufferingEnded_work:
  assumes res: "Consumer_onBufferingEnded env t s = Some s'" and s: "at_work unlocked (fb_nSlots s) s"
  shows "at_work unlocked (fb_nSlots s') s'"
proof -
  define s1 where "s1 = (if \<not> co_isRendering (co s) then co_upd (\<lambda>c. c\<lparr>co_isRendering := True\<rparr>) s else s)"
  have s1: "ok None s1" "\<not> po_locked (po s1)" "fb_playbackSlot s1 = None" "fb_state s1 = Valid" "running (p_state (pl s1))"
    using s by (auto simp: s1_def at_work_def settled_iff)
  show ?thesis
  proof (cases "po_isRunning (po s1)")
    case True
    then show ?thesis using res s1 by (auto simp: Consumer_onBufferingEnded_def s1_def [symmetric] at_work_def settled_iff Let_def)
  next
    case False
    obtain d s2 adj where s2: "getPlayableBufferSize s1 = Some (d, s2)"
      and s': "start_playout env t adj (if cp_useRtx (fb_params s2) then setRetransmissionsEnabled True s2 else s2) = Some s'"
      using res False unfolding Consumer_onBufferingEnded_def s1_def [symmetric] by (auto simp: bind_Some Let_def)
    define s3 where "s3 = (if cp_useRtx (fb_params s2) then setRetransmissionsEnabled True s2 else s2)"
    have "ok None s2" "fb_playbackSlot s2 = None" "fb_state s2 = Valid" "pl s2 = pl s1"
      using fb_inv_getPlayableBufferSize s2 s1 sizes_pool(2) [OF s2] by auto
    then have s3: "ok None s3" "fb_playbackSlot s3 = None" "fb_state s3 = Valid" "pl s3 = pl s1"
      by (simp_all add: s3_def setRetransmissionsEnabled_def)
    from start_playout_keeps [OF s' [folded s3_def] this(1,2)] s3 s1
    show ?thesis by (simp add: at_work_def settled_iff static_def)
  qed
qed

text \<open>So the consumer is a client the pipeliner can rely on.\<close>

interpretation channel: pipeliner_environment "channel_env memory env t" unlocked
  by unfold_locales (auto simp: channel_env_def intro: Consumer_onBufferingEnded_work)

section \<open>The steps\<close>

definition send_interests :: "(interest \<Rightarrow> bool) \<Rightarrow> int \<Rightarrow> 'c channel \<Rightarrow> 'c channel" where
  "send_interests throws t s =
     (case run_job throws (msec t) (p_queue (pl s)) (fb_meters s) (fb_stats s) of
        (q, mt, st) \<Rightarrow> upd (\<lambda>p. p\<lparr>p_queue := q\<rparr>) (s\<lparr>fb_meters := mt, fb_stats := st\<rparr>))"

text \<open>What may happen to a consumer. Time is a parameter of every step. A consumer is started once it
  has stopped; the names of data and threads are within the bounds of the machine.\<close>

inductive channel_step :: "play_env \<Rightarrow> PrefixMetaInfo \<Rightarrow> 'c channel \<Rightarrow> 'c channel \<Rightarrow> bool"
  for env memory where
  start: "p_state (pl s) = StateInactive \<Longrightarrow> channel_step env memory s (Consumer_start t s)"
| stop: "Consumer_stop t s = Some s' \<Longrightarrow> channel_step env memory s s'"
| rebuffering: "Consumer_triggerRebuffering t s = Some s' \<Longrightarrow> channel_step env memory s s'"
| switch: "switchThread t threadName s = Some s' \<Longrightarrow>
    good_thread (p_useKeyNamespace (pl s)) (p_consumerPrefix (pl s)) threadName \<Longrightarrow> channel_step env memory s s'"
| data: "onData (channel_env memory env t) t i n content wireSize s = Some s' \<Longrightarrow>
    good_data (channel_env memory env t :: 'c consumer_scheme playout_scheme environment) n \<Longrightarrow>
    channel_step env memory s s'"
| timeout: "onTimeout t i s = Some s' \<Longrightarrow> channel_step env memory s s'"
| playout: "jt_timer (po_jitterTiming (po s)) = Some due \<Longrightarrow> due \<le> t \<Longrightarrow> playout_timer env t s = Some s' \<Longrightarrow>
    channel_step env memory s s'"
| interests: "channel_step env memory s (send_interests throws t s)"
| other_stream: "channel_step env memory s (po_upd (\<lambda>p. p\<lparr>po_avSync := a\<rparr>) s)"

inductive reachable :: "play_env \<Rightarrow> PrefixMetaInfo \<Rightarrow> 'c channel \<Rightarrow> 'c channel \<Rightarrow> bool"
  for env memory s0 where
  initial: "reachable env memory s0 s0"
| further: "reachable env memory s0 s \<Longrightarrow> channel_step env memory s s' \<Longrightarrow> reachable env memory s0 s'"

section \<open>Every step keeps the invariant\<close>

lemma stopRendering_simps [simp]:
  "ok out (stopRendering s) = ok out s" "p_state (pl (stopRendering s)) = p_state (pl s)"
  "fb_state (stopRendering s) = fb_state s" "fb_playbackSlot (stopRendering s) = fb_playbackSlot s"
  "po_locked (po (stopRendering s)) = po_locked (po s)" "po_isRunning (po (stopRendering s)) = po_isRunning (po s)"
  by (simp_all add: stopRendering_def)

lemma Consumer_start_inv:
  assumes "channel_inv s" "p_state (pl s) = StateInactive" shows "channel_inv (Consumer_start t s)"
proof -
  let ?s1 = "co_upd (\<lambda>c. c\<lparr>co_isConsuming := True\<rparr>) s"
  have "settled unlocked ?s1" "p_state (pl ?s1) = StateInactive" using assms by (auto simp: channel_inv_def settled_iff)
  from start_settled [OF this] show ?thesis
    using assms by (auto simp: Consumer_start_def channel_inv_def settled_iff)
qed

lemma Consumer_stop_inv:
  assumes s: "channel_inv s" and res: "Consumer_stop t s = Some s'" shows "channel_inv s'"
proof -
  let ?s1 = "co_upd (\<lambda>c. c\<lparr>co_isConsuming := False\<rparr>) s"
  obtain r s2 where s2: "Playout_stop (snd (Pipeliner2_stop t ?s1)) = Some (r, s2)" and s': "s' = stopRendering s2"
    using res by (auto simp: Consumer_stop_def bind_Some Let_def split: prod.splits)
  have "settled unlocked ?s1" using s by (auto simp: channel_inv_def settled_iff)
  from stop_settled [OF this, of t] Playout_stop_keeps [OF s2] show ?thesis
    by (simp add: s' channel_inv_def settled_iff)
qed

lemma rebuffer_unlocked:
  assumes "rebuffer t s = Some s'" "ok None s" "fb_playbackSlot s = None" "running (p_state (pl s)) \<longrightarrow> fb_state s = Valid"
  shows "ok None s'" "fb_playbackSlot s' = None" "p_state (pl s') = StateWaitInitial" "po s' = po s"
  using rebuffer_settled [of t s s' "\<lambda>_. True"] assms by (simp_all add: settled_def)

lemma Consumer_triggerRebuffering_inv:
  assumes s: "channel_inv s" and res: "Consumer_triggerRebuffering t s = Some s'" shows "channel_inv s'"
proof -
  obtain q mt where q: "InterestQueue_reset (p_queue (pl s)) (fb_meters s) = (q, mt)" by force
  obtain r s2 s3 where s2: "Playout_stop (upd (\<lambda>p. p\<lparr>p_queue := q\<rparr>) (s\<lparr>fb_meters := mt\<rparr>)) = Some (r, s2)"
    and s3: "rebuffer t (stopRendering s2) = Some s3"
    and s': "s' = observe RebufferingOccurred (s3\<lparr>fb_meters := RttEstimation_reset (fb_rtt s3) (fb_meters s3)\<rparr>)"
    using res q by (auto simp: Consumer_triggerRebuffering_def PipelinerBase_triggerRebuffering_def bind_Some Let_def)
  have "ok None (stopRendering s2)" "fb_playbackSlot (stopRendering s2) = None"
    "running (p_state (pl (stopRendering s2))) \<longrightarrow> fb_state (stopRendering s2) = Valid"
    using s Playout_stop_keeps [OF s2] by (simp_all add: channel_inv_def settled_iff ok_upd_iff)
  from rebuffer_unlocked [OF s3 this] Playout_stop_keeps(5,6) [OF s2] show ?thesis
    by (simp add: s' channel_inv_def settled_iff)
qed

text \<open>The thread that is switched to has the name that was asked for.\<close>

lemma getThreadIdx_name:
  assumes "0 \<le> getThreadIdx threadName s"
  shows "nat (getThreadIdx threadName s) < length (co_mediaThreads (co s))"
    "tp_threadName (co_mediaThreads (co s) ! nat (getThreadIdx threadName s)) = threadName"
proof -
  let ?f = "\<lambda>i idx. if tp_threadName (co_mediaThreads (co s) ! i) = threadName then int i else idx"
  have ex: "fold ?f [0..<n] (-1) = -1 \<or> (\<exists>i < n. fold ?f [0..<n] (-1) = int i \<and> tp_threadName (co_mediaThreads (co s) ! i) = threadName)" for n
    by (induction n) (auto intro: less_SucI)
  from this [of "length (co_mediaThreads (co s))"] assms
  obtain i where "i < length (co_mediaThreads (co s))" "getThreadIdx threadName s = int i"
    "tp_threadName (co_mediaThreads (co s) ! i) = threadName"
    unfolding getThreadIdx_def by fastforce
  then show "nat (getThreadIdx threadName s) < length (co_mediaThreads (co s))"
    "tp_threadName (co_mediaThreads (co s) ! nat (getThreadIdx threadName s)) = threadName" by simp_all
qed

lemma switchThread_inv:
  assumes s: "channel_inv s" and res: "switchThread t threadName s = Some s'"
    and good: "good_thread (p_useKeyNamespace (pl s)) (p_consumerPrefix (pl s)) threadName"
  shows "channel_inv s'"
proof (cases "0 \<le> getThreadIdx threadName s")
  case True
  define i where "i = nat (getThreadIdx threadName s)"
  obtain d mt1 f mt2 where m: "setupDataRateMeter 5 (fb_meters s) = (d, mt1)" "setupFrequencyMeter 10 mt1 = (f, mt2)"
    by force
  define s1 where "s1 = co_upd (\<lambda>c. c\<lparr>co_currentThreadIdx := i, co_dataMeterId := d, co_segmentFreqMeterId := f\<rparr>)
                (s\<lparr>fb_meters := mt2\<rparr>)"
  obtain thread r s2 s3 where th: "getCurrentThread s1 = Some thread"
    and s2: "rebuffer t (thread_prefixes (upd (\<lambda>p. p\<lparr>p_threadName := tp_threadName thread\<rparr>) s1)) = Some s2"
    and s3: "Playout_stop s2 = Some (r, s3)" and s': "s' = observe (ThreadSwitched threadName) s3"
    using res True m
    by (auto simp: switchThread_def switch_pipeliner_def threadSwitched_def bind_Some Let_def s1_def i_def)
  have name: "tp_threadName thread = threadName"
    using th getThreadIdx_name [OF True] by (auto simp: getCurrentThread_def s1_def i_def co_upd_def split: if_splits)
  define s4 where "s4 = upd (\<lambda>p. p\<lparr>p_threadName := tp_threadName thread\<rparr>) s1"
  have "settled unlocked s4" using s by (simp add: s4_def s1_def channel_inv_def settled_iff ok_upd_iff)
  moreover have "good_thread (p_useKeyNamespace (pl s4)) (p_consumerPrefix (pl s4)) (p_threadName (pl s4))"
    using good by (simp add: s4_def s1_def name co_upd_def po_upd_def)
  ultimately have "settled unlocked (thread_prefixes s4)" using thread_prefixes_settled by blast
  then have "ok None s2" "fb_playbackSlot s2 = None" "p_state (pl s2) = StateWaitInitial"
    using rebuffer_unlocked [OF s2] by (simp_all add: settled_iff s4_def [symmetric])
  then show ?thesis using Playout_stop_keeps [OF s3] by (simp add: s' channel_inv_def settled_iff)
qed (use s res in \<open>simp add: switchThread_def\<close>)

lemma playout_timer_inv:
  assumes s: "channel_inv s" and res: "playout_timer env t s = Some s'" shows "channel_inv s'"
  using processPlayout_keeps [OF res [unfolded playout_timer_def]] s
  by (auto simp: channel_inv_def settled_iff static_def)

lemma send_interests_inv: "channel_inv (send_interests throws t s) = channel_inv s"
  by (simp add: send_interests_def channel_inv_def settled_iff ok_upd_iff split: prod.split)

theorem channel_step_inv:
  assumes step: "channel_step env memory s s'" and s: "channel_inv s" shows "channel_inv s'"
  using step
proof cases
  case (start t)
  then show ?thesis using Consumer_start_inv [OF s] by simp
next
  case (data t i n content wireSize)
  have "works_or_same unlocked s s'"
    by (rule channel.onData_settled [OF data(1) _ data(2)]) (use s in \<open>simp add: channel_inv_def\<close>)
  then show ?thesis using s by (auto simp: works_or_same_def channel_inv_def)
next
  case (timeout t i)
  from onTimeout_settled [OF this, of unlocked] s show ?thesis by (auto simp: channel_inv_def)
next
  case (other_stream a)
  then show ?thesis using s by (simp add: channel_inv_def settled_iff)
next
  case interests
  then show ?thesis using s send_interests_inv by metis
qed (use s Consumer_stop_inv Consumer_triggerRebuffering_inv switchThread_inv playout_timer_inv in auto)

theorem reachable_inv: "reachable env memory s0 s \<Longrightarrow> channel_inv s0 \<Longrightarrow> channel_inv s"
  by (induction rule: reachable.induct) (auto intro: channel_step_inv)

section \<open>The first state\<close>

lemma new_FrameBuffer_inv:
  assumes res: "new_FrameBuffer s = Some s'" and P: "P (frame_buffer.more s)"
  shows "fb_inv P None s'" "fb_playbackSlot s' = None"
proof -
  obtain f mt where f: "setupFilter (to_double (5 / 100)) (fb_meters s) = (f, mt)" by force
  obtain q where q: "new_PlaybackQueue (Finite 30) = Some q"
    and s': "s' = s\<lparr>fb_state := Invalid, fb_targetSizeMs := -1, fb_estimatedSizeMs := -1,
       fb_isEstimationNeeded := True, fb_forcedRelease := False, fb_meters := mt,
       fb_skipFrame := False, fb_playbackSlot := None, fb_pendingEventsFlushed := False,
       fb_nSlots := 0, fb_freeSlots := [], fb_activeSlots := [], fb_playbackQueue := q,
       fb_pendingEvents := []\<rparr>"
    using res f by (auto simp: new_FrameBuffer_def bind_Some)
  have "pq_items q = []" using q by (auto simp: new_PlaybackQueue_def bind_Some)
  then show "fb_inv P None s'" "fb_playbackSlot s' = None"
    using P by (simp_all add: s' fb_inv_def containers_ok_def slots_ok_def head_ok_def map_ok_def)
qed

lemma new_Pipeliner2_simps:
  "fb_inv (\<lambda>_. True) None (new_Pipeliner2 u1 u2 u3 t info s) = fb_inv (\<lambda>_. True) None s"
  "fb_playbackSlot (new_Pipeliner2 u1 u2 u3 t info s) = fb_playbackSlot s"
  "p_state (pl (new_Pipeliner2 u1 u2 u3 t info s)) = StateInactive"
  "p_stateChanges (pl (new_Pipeliner2 u1 u2 u3 t info s)) = []"
  "p_rnds (pl (new_Pipeliner2 u1 u2 u3 t info s)) = p_rnds (pl s)"
  "p_consumerPrefix (pl (new_Pipeliner2 u1 u2 u3 t info s)) = p_consumerPrefix (pl s)"
  "p_threadName (pl (new_Pipeliner2 u1 u2 u3 t info s)) = p_threadName (pl s)"
  by (simp_all add: new_Pipeliner2_def new_PipelinerBase_def switchToState_def setup_estimators_def upd_def fb_inv_def
      Let_def split: prod.split)

lemma fb_inv_any:
  "fb_inv (\<lambda>_. True) out (upd f s) = fb_inv (\<lambda>_. True) out s"
  "fb_inv (\<lambda>_. True) out (po_upd g s') = fb_inv (\<lambda>_. True) out s'"
  by (simp_all add: fb_inv_def po_upd_def)

lemma initialize_playing: "fb_playbackSlot (initialize s) = fb_playbackSlot s"
  unfolding initialize_def
  by (rule fold_invariant [where P = "\<lambda>s'. fb_playbackSlot s' = fb_playbackSlot s" and Q = "\<lambda>_. True"])
    (simp_all add: Let_def)

lemma Consumer_init_state:
  assumes res: "Consumer_init u1 u2 u3 t streamPrefix threadName s = Some (r, s')"
  shows "fb_inv (\<lambda>_. True) None s'" "fb_playbackSlot s' = None" "p_state (pl s') = StateInactive"
    "p_stateChanges (pl s') = []" "p_rnds (pl s') = p_rnds (pl s)" "p_consumerPrefix (pl s') = streamPrefix"
    "\<exists>thread \<in> set (co_mediaThreads (co s)). p_threadName (pl s') = tp_threadName thread"
proof -
  obtain q mt where q: "new_InterestQueue (fb_meters s) = (q, mt)" by force
  define s1 where "s1 = upd (\<lambda>p. p\<lparr>p_consumerPrefix := streamPrefix, p_queue := q\<rparr>) (s\<lparr>fb_meters := mt\<rparr>)"
  obtain s2 s3 thread where s2: "new_FrameBuffer s1 = Some s2" and s3: "fb_init s2 = Some (r, s3)"
    and th: "getCurrentThread (co_upd (\<lambda>c. c\<lparr>co_currentThreadIdx :=
        (if getThreadIdx threadName s3 < 0 then 0 else nat (getThreadIdx threadName s3))\<rparr>) s3) = Some thread"
    and s': "s' = observe (StatusChanged ConsumerStatusStopped) (new_Pipeliner2 u1 u2 u3 t (tp_segmentsInfo thread)
        (upd (\<lambda>p. p\<lparr>p_threadName := tp_threadName thread\<rparr>) (co_upd (\<lambda>c. c\<lparr>co_currentThreadIdx :=
          (if getThreadIdx threadName s3 < 0 then 0 else nat (getThreadIdx threadName s3))\<rparr>) s3)))"
    using res q by (auto simp: Consumer_init_def bind_Some Let_def s1_def)
  have "fb_inv (\<lambda>x. x = pl s1) None s2" "fb_playbackSlot s2 = None"
    using new_FrameBuffer_inv [OF s2, of "\<lambda>x. x = pl s1"] by simp_all
  from fb_inv_init [OF this s3] have s3': "fb_inv (\<lambda>_. True) None s3" "pl s3 = pl s1"
    by (simp_all add: fb_inv_def)
  have idle: "fb_playbackSlot s3 = None"
    using s3 fb_inv_reset [OF \<open>fb_inv (\<lambda>x. x = pl s1) None s2\<close> \<open>fb_playbackSlot s2 = None\<close>]
      by (auto simp: fb_init_def bind_Some initialize_playing)
  have "co s3 = co s" using s3' by (simp add: s1_def)
  then show "\<exists>thread \<in> set (co_mediaThreads (co s)). p_threadName (pl s') = tp_threadName thread"
    using th by (auto simp: s' observe_def co_upd_def po_upd_def new_Pipeliner2_simps getCurrentThread_def split: if_splits)
  show "fb_inv (\<lambda>_. True) None s'" "fb_playbackSlot s' = None"
    using s3'(1) idle by (simp_all add: s' observe_def co_upd_def new_Pipeliner2_simps fb_inv_any)
  show "p_state (pl s') = StateInactive" "p_stateChanges (pl s') = []" "p_rnds (pl s') = p_rnds (pl s)"
    "p_consumerPrefix (pl s') = streamPrefix"
    using s3'(2) by (simp_all add: s' observe_def co_upd_def po_upd_def new_Pipeliner2_simps s1_def)
qed

text \<open>Names of threads: the prefixes of their frames are prefixes of streams.\<close>

definition good_threads :: "bool \<Rightarrow> string \<Rightarrow> 'c channel \<Rightarrow> bool" where
  "good_threads useKey streamPrefix s \<longleftrightarrow> length (p_rnds (pl s)) < 2 ^ 30 \<and>
     (\<forall>thread \<in> set (co_mediaThreads (co s)). good_thread useKey streamPrefix (tp_threadName thread))"

lemma consumer_ready:
  assumes res: "Consumer_init u1 u2 u3 t streamPrefix threadName s = Some (r, s1)"
    and good: "good_threads useKey streamPrefix s"
    and s': "s' = snd (Playout_init True (new_Playout (po_upd f (PipelinerBase_initialize (setUseKeyNamespace useKey s1)))))"
  shows "channel_inv (Consumer_start t' s')" "p_state (pl (Consumer_start t' s')) = StateWaitInitial"
proof -
  note i = Consumer_init_state [OF res]
  define s2 where "s2 = upd (\<lambda>p. p\<lparr>p_deltaFrameSeqNo := -1\<rparr>) s'"
  have "pl_inv (pl s2)"
    using i good by (auto simp: s2_def s' new_Playout_def Playout_init_def PipelinerBase_initialize_def thread_prefixes_def
        setUseKeyNamespace_def po_upd_def pl_inv_def good_threads_def good_thread_def Let_def)
  moreover have "fb_inv (\<lambda>_. True) None s2"
    using i(1) by (simp add: s2_def s' new_Playout_def Playout_init_def PipelinerBase_initialize_def thread_prefixes_def
        setUseKeyNamespace_def po_upd_def upd_def fb_inv_def Let_def)
  ultimately have "ok None s2" by (simp add: fb_inv_def)
  moreover have "fb_playbackSlot s2 = None" "p_state (pl s2) = StateInactive" "\<not> po_locked (po s2)" "\<not> po_isRunning (po s2)"
    using i by (simp_all add: s2_def s' new_Playout_def Playout_init_def PipelinerBase_initialize_def thread_prefixes_def
        setUseKeyNamespace_def Let_def)
  ultimately have s2: "channel_inv s2" by (simp add: channel_inv_def settled_iff)
  have "upd (\<lambda>p. p\<lparr>p_deltaFrameSeqNo := -1, p_failedWindow := DefaultMinWindow\<rparr>) (co_upd f s') =
      upd (\<lambda>p. p\<lparr>p_deltaFrameSeqNo := -1, p_failedWindow := DefaultMinWindow\<rparr>) (co_upd f s2)" for f
    by (cases s') (simp add: s2_def co_upd_def po_upd_def upd_def)
  then have "Pipeliner2_start t' (co_upd f s') = Pipeliner2_start t' (co_upd f s2)" for f
    by (simp add: Pipeliner2_start_def)
  then have eq: "Consumer_start t' s' = Consumer_start t' s2" by (simp add: Consumer_start_def)
  show "channel_inv (Consumer_start t' s')" unfolding eq
    by (rule Consumer_start_inv [OF s2 \<open>p_state (pl s2) = StateInactive\<close>])
  show "p_state (pl (Consumer_start t' s')) = StateWaitInitial" unfolding eq
    by (simp add: Consumer_start_def Pipeliner2_start_def)
qed

end
