(* ===== verification/Channel_Properties.thy ===== *)
theory Channel_Properties
  imports Channel_System
begin

text \<open>
  What holds of every consumer from its start on, whatever the application, the network, the timers
  and the other stream of the participant do; and a concrete consumer that runs.
\<close>

section \<open>A consumer\<close>

text \<open>The memory a consumer is constructed in.\<close>

definition sample_memory :: "unit channel" where
  "sample_memory =
     \<lparr>fb_slots = (\<lambda>_. new_Slot 1000 False), fb_nSlots = 0, fb_state = Invalid, fb_playbackNo = 0,
      fb_lastKeySeqNo = 0, fb_nKeyFrames = 0, fb_skipFrame = False, fb_playbackSlot = None,
      fb_targetSizeMs = 0, fb_estimatedSizeMs = 0, fb_isEstimationNeeded = False,
      fb_isWaitingForRightmost = False, fb_retransmissionsEnabled = False, fb_frameReleaseCount = 0,
      fb_freeSlots = [], fb_activeSlots = [],
      fb_playbackQueue = \<lparr>pq_items = [], pq_playbackRate = Finite 30, pq_lastFrameDuration = 33\<rparr>,
      fb_forcedRelease = False, fb_pendingEventsFlushed = False, fb_pendingEvents = [],
      fb_params = \<lparr>cp_jitterSizeMs = 150, cp_bufferSlotsNum = 2, cp_segmentSize = 1000,
        cp_useFec = False, cp_useRtx = True, cp_interestLifetime = 2000\<rparr>,
      fb_rtt = \<lparr>re_estimatorId = 0\<rparr>,
      fb_bufferEstimator = \<lparr>be_rttEstimation = \<lparr>re_estimatorId = 0\<rparr>, be_minBufferSizeMs = 150\<rparr>,
      fb_meters = \<lparr>freqMeters = [], dataMeters = [], meanEstimators = [], filters = [],
        inclineEstimators = [], slidingAverageEstimators = []\<rparr>,
      fb_stats = ConsumerStatRepo, \<dots> =
     \<lparr>p_state = StateInactive, p_threadPrefix = Name [], p_deltaFramesPrefix = Name [],
      p_keyFramesPrefix = Name [], p_stateChanges = [], p_deltaSegnumEstimatorId = 0,
      p_keySegnumEstimatorId = 0, p_deltaParitySegnumEstimatorId = 0, p_keyParitySegnumEstimatorId = 0,
      p_rtxFreqMeterId = 0, p_keyFrameSeqNo = 0, p_deltaFrameSeqNo = 0,
      p_frameSegmentsInfo = DefaultSegmentsInfo, p_useKeyNamespace = False,
      p_recoveryCheckpointTimestamp = 0, p_startPhaseTimestamp = 0,
      p_stabilityEstimator = \<lparr>st_sampleSize = 0, st_minOccurrences = 0, st_threshold = Finite 0,
        st_meanEstimatorId = 0, st_nStableOccurrences = 0, st_nUnstableOccurrences = 0,
        st_isStable = False, se_rateSimilarityLevel = Finite 0, se_lastTimestamp = 0, se_lastDelta = 0\<rparr>,
      p_rttChangeEstimator = \<lparr>st_sampleSize = 0, st_minOccurrences = 0, st_threshold = Finite 0,
        st_meanEstimatorId = 0, st_nStableOccurrences = 0, st_nUnstableOccurrences = 0,
        st_isStable = False, rc_nChanges = 0, rc_nMinorConsecutiveChanges = 0, rc_lastCheckedChangeNumber = 0\<rparr>,
      p_window = \<lparr>w_dw = 0, w_w = 0, w_lastAddedToPool = 0, w_framePool = {}\<rparr>, p_timestamp = 0,
      p_waitForChange = False, p_waitForStability = False, p_failedWindow = 0, p_seedFrameNo = 0,
      p_rightmostInterest = new_Interest (Name []) (-1), p_exclusionPacket = 0, p_dataMeterId = 0,
      p_segmentFreqMeterId = 0,
      p_queue = \<lparr>iq_freqMeterId = 0, iq_entries = [], iq_isWatching = False, iq_isJobScheduled = False, iq_sent = []\<rparr>,
      p_consumerPrefix = '''', p_threadName = '''', p_rnds = [1, 2, 3], \<dots> =
     \<lparr>po_isRunning = False, po_isInferredPlayback = False, po_lastPacketTs = 0, po_inferredDelay = 0,
      po_playbackAdjustment = 0, po_bufferCheckTs = 0, po_jitterTiming = new_JitterTiming,
      po_locked = False, po_data = None, po_frameConsumer = False, po_kind = VideoPlayout,
      po_validGop = False, po_currentKeyNo = 0, po_skipIncomplete = True, po_consumer = 0,
      po_avSync = None, po_delivered = [], po_events = [], \<dots> =
     \<lparr>co_isConsuming = False,
      co_mediaThreads = [\<lparr>tp_threadName = ''hi'', tp_segmentsInfo = DefaultSegmentsInfo\<rparr>],
      co_currentThreadIdx = 0, co_isRendering = False, co_dataMeterId = 0, co_segmentFreqMeterId = 0,
      co_hasObserver = True, co_observations = []\<rparr>\<rparr>\<rparr>\<rparr>"

definition sample_env :: play_env where
  "sample_env = \<lparr>pe_cbSize = (\<lambda>w h. uint (w * h)), pe_decode = (\<lambda>k p l d q h. (0, d, q)),
     pe_unixTimestamp = Finite 1445500000,
     pe_memory = \<lparr>aq_packetData = None, aq_packetNo = 0, aq_sequencePacketNo = 0,
       aq_pairedPacketNo = 0, aq_isKey = False, aq_assembledLevel = 0\<rparr>, pe_unixMemory = 0\<rparr>"

definition sample_prefix :: string where
  "sample_prefix = ''/ndn/alice/streams/camera''"

lemma sample_path: "stream_path (map Component [''ndn'', ''alice'', ''streams'', ''camera'', ''hi''])"
proof -
  let ?pre = "map Component [''ndn'', ''alice'', ''streams'', ''camera'', ''hi'']"
  have "list_ex (\<lambda>c. sublist NameComponentUserStreams (esc c)) ?pre" by code_simp
  moreover have "list_all (\<lambda>c. \<not> sublist NameComponentStreamFramesDelta (esc c) \<and>
        \<not> sublist NameComponentStreamFramesKey (esc c) \<and>
        \<not> sublist NameComponentFrameSegmentData (esc c) \<and>
        \<not> sublist NameComponentFrameSegmentParity (esc c)) ?pre" by code_simp
  ultimately show ?thesis unfolding stream_path_def list_ex_iff list_all_iff by simp
qed

lemma sample_frames:
  "name_set (getThreadFramesPrefix (getThreadPrefix sample_prefix ''hi'') k) =
     Name (map Component [''ndn'', ''alice'', ''streams'', ''camera'', ''hi''] @
       [Component (if k then NameComponentStreamFramesKey else NameComponentStreamFramesDelta)])"
proof -
  have "name_set (getThreadFramesPrefix (getThreadPrefix sample_prefix ''hi'') True) =
     Name (map Component [''ndn'', ''alice'', ''streams'', ''camera'', ''hi''] @ [Component NameComponentStreamFramesKey])"
    by code_simp
  moreover have "name_set (getThreadFramesPrefix (getThreadPrefix sample_prefix ''hi'') False) =
     Name (map Component [''ndn'', ''alice'', ''streams'', ''camera'', ''hi''] @ [Component NameComponentStreamFramesDelta])"
    by code_simp
  ultimately show ?thesis by (cases k) simp_all
qed

lemma sample_threads: "good_threads k sample_prefix sample_memory"
  using sample_path sample_frames
  by (auto simp: good_threads_def sample_memory_def good_thread_def frames_prefix_def frames_word_def)

text \<open>The constructors and the initialisation only need the duration of a frame at the first rate.\<close>

lemma new_FrameBuffer_Some: "\<exists>s'. new_FrameBuffer s = Some s'"
proof -
  have "frame_duration (Finite 30) = Some 34" by code_simp
  then have "\<exists>q. new_PlaybackQueue (Finite 30) = Some q" by (simp add: new_PlaybackQueue_def)
  moreover obtain f mt where "setupFilter (to_double (5 / 100)) (fb_meters s) = (f, mt)" by force
  ultimately show ?thesis by (auto simp: new_FrameBuffer_def)
qed

lemma fb_init_Some: "fb_activeSlots s = [] \<Longrightarrow> \<exists>s'. fb_init s = Some (RESULT_OK, s')"
  by (simp add: fb_init_def fb_reset_def)

lemma VideoConsumer_init_Some:
  assumes "co_mediaThreads (co s) = [thread]" "tp_threadName thread = threadName"
  shows "\<exists>s'. VideoConsumer_init u1 u2 u3 t streamPrefix threadName s = Some (RESULT_OK, s')"
proof -
  obtain q mt where q: "new_InterestQueue (fb_meters s) = (q, mt)" by force
  define s1 where "s1 = upd (\<lambda>p. p\<lparr>p_consumerPrefix := streamPrefix, p_queue := q\<rparr>) (s\<lparr>fb_meters := mt\<rparr>)"
  obtain s2 where s2: "new_FrameBuffer s1 = Some s2" using new_FrameBuffer_Some by blast
  obtain f mt' where "setupFilter (to_double (5 / 100)) (fb_meters s1) = (f, mt')" by force
  then have "fb_activeSlots s2 = []" using s2 by (auto simp: new_FrameBuffer_def bind_Some)
  then obtain s3 where s3: "fb_init s2 = Some (RESULT_OK, s3)" using fb_init_Some by blast
  have i: "fb_inv (\<lambda>x. x = pl s1) None s2" "fb_playbackSlot s2 = None"
    using new_FrameBuffer_inv [OF s2, of "\<lambda>x. x = pl s1"] by simp_all
  have "pl s3 = pl s1" using fb_inv_init [OF i s3] by (simp add: fb_inv_def)
  then have threads: "co_mediaThreads (co s3) = [thread]" using assms by (simp add: s1_def)
  then have "getThreadIdx threadName s3 = 0" using assms(2) by (simp add: getThreadIdx_def)
  then show ?thesis using s3 threads
    by (simp add: VideoConsumer_init_def Consumer_init_def q s1_def [symmetric] s2 getCurrentThread_def co_upd_def
        RESULT_GOOD_def Playout_init_def Let_def)
qed

lemma sample_init: "\<exists>s1. VideoConsumer_init 0 0 0 0 sample_prefix ''hi'' sample_memory = Some (RESULT_OK, s1)"
  by (rule VideoConsumer_init_Some [where thread = "\<lparr>tp_threadName = ''hi'', tp_segmentsInfo = DefaultSegmentsInfo\<rparr>"])
    (simp_all add: sample_memory_def)

section \<open>Every state of a consumer\<close>

text \<open>A video consumer or an audio consumer that was initialised and started.\<close>

inductive launched :: "'c channel \<Rightarrow> bool" where
  video: "VideoConsumer_init u1 u2 u3 t streamPrefix threadName s = Some (RESULT_OK, s1) \<Longrightarrow>
    good_threads True streamPrefix s \<Longrightarrow> launched (Consumer_start t' s1)"
| audio: "AudioConsumer_init u1 u2 u3 t streamPrefix threadName s = Some (RESULT_OK, s1) \<Longrightarrow>
    good_threads False streamPrefix s \<Longrightarrow> launched (Consumer_start t' s1)"

lemma launched_inv: "launched s \<Longrightarrow> channel_inv s"
proof (induction rule: launched.induct)
  case (video u1 u2 u3 t streamPrefix threadName s s1 t')
  then obtain r s2 where "Consumer_init u1 u2 u3 t streamPrefix threadName s = Some (r, s2)"
    "s1 = snd (Playout_init True (new_Playout (po_upd (\<lambda>p. p\<lparr>po_kind := VideoPlayout\<rparr>)
      (PipelinerBase_initialize (setUseKeyNamespace True s2)))))"
    by (auto simp: VideoConsumer_init_def bind_Some Let_def split: if_splits)
  from consumer_ready(1) [OF this(1) video(2) this(2)] show ?case .
next
  case (audio u1 u2 u3 t streamPrefix threadName s s1 t')
  then obtain r s2 where "Consumer_init u1 u2 u3 t streamPrefix threadName s = Some (r, s2)"
    "s1 = snd (Playout_init True (new_Playout (po_upd (\<lambda>p. p\<lparr>po_kind := AudioPlayout\<rparr>)
      (PipelinerBase_initialize (setUseKeyNamespace False s2)))))"
    by (auto simp: AudioConsumer_init_def bind_Some Let_def split: if_splits)
  from consumer_ready(1) [OF this(1) audio(2) this(2)] show ?case .
qed

lemma live_inv: "launched s0 \<Longrightarrow> reachable env memory s0 s \<Longrightarrow> channel_inv s"
  using reachable_inv launched_inv by blast

lemma live_ok:
  assumes "launched s0" "reachable env memory s0 s"
  shows "ok None s" "pl_inv (pl s)" "fb_playbackSlot s = None" "\<not> po_locked (po s)"
    "running (p_state (pl s)) \<Longrightarrow> fb_state s = Valid" "po_isRunning (po s) \<Longrightarrow> running (p_state (pl s))"
  using live_inv [OF assms] ok_pl [of None s] by (auto simp: channel_inv_def settled_iff)

lemma sample_launched: "\<exists>s1. VideoConsumer_init 0 0 0 0 sample_prefix ''hi'' sample_memory = Some (RESULT_OK, s1) \<and>
    launched (Consumer_start 0 s1)"
  using sample_init launched.video [OF _ sample_threads] by blast

section \<open>Properties\<close>

text \<open>C23: In every state of a running consumer every slot of the buffer's pool is accounted for: it is
  free or it holds one packet, never both and never twice; the playback queue holds exactly the slots
  that hold packets; none is locked for the playout between two steps.\<close>

theorem consumer_slots_accounted:
  assumes "launched s0" "reachable env memory s0 s"
  shows "distinct (fb_freeSlots s @ map snd (fb_activeSlots s)) \<and>
    set (fb_freeSlots s) \<union> set (map snd (fb_activeSlots s)) = {..<fb_nSlots s} \<and>
    mset (pq_items (fb_playbackQueue s)) = mset (map snd (fb_activeSlots s)) \<and>
    fb_playbackSlot s = None \<and> (\<forall>i \<in> {..<fb_nSlots s}. s_state (fb_slot s i) \<noteq> StateLocked)"
  using live_ok(1,3) [OF assms] by (auto simp: fb_inv_def containers_ok_def slots_ok_def)

theorem consumer_slots_accounted_witness:
  "\<exists>s1. VideoConsumer_init 0 0 0 0 sample_prefix ''hi'' sample_memory = Some (RESULT_OK, s1) \<and>
     (let s = Consumer_start 0 s1 in
        distinct (fb_freeSlots s @ map snd (fb_activeSlots s)) \<and>
        set (fb_freeSlots s) \<union> set (map snd (fb_activeSlots s)) = {..<fb_nSlots s})"
proof -
  obtain s1 :: "unit channel" where s1: "VideoConsumer_init 0 0 0 0 sample_prefix ''hi'' sample_memory = Some (RESULT_OK, s1)"
    "launched (Consumer_start 0 s1)" using sample_launched by blast
  show ?thesis using consumer_slots_accounted [OF s1(2) reachable.initial] s1(1) by (auto simp: Let_def)
qed

text \<open>C24: The slots of a running consumer are well formed: every packet is stored under the prefix of
  its own names and is known to be a key or a delta frame, its segments are consistent with its
  state, and the slots that hold no packet are unused.\<close>

theorem consumer_slots_well_formed:
  assumes "launched s0" "reachable env memory s0 s"
  shows "(\<forall>(k, i) \<in> set (fb_activeSlots s). regular_key k \<and> s_slotPrefix (fb_slot s i) = k \<and>
      s_packetNamespace (fb_slot s i) \<noteq> NsUnknown \<and> names_ok (fb_slot s i)) \<and>
    (\<forall>i \<in> {..<fb_nSlots s}. slot_ok (fb_slot s i)) \<and> (\<forall>i \<in> set (fb_freeSlots s). slot_unused (fb_slot s i))"
proof -
  have con: "containers_ok None (fb_nSlots s) (fb_freeSlots s) (fb_activeSlots s) (pq_items (fb_playbackQueue s))"
    and sl: "slots_ok (fb_slots s) (fb_nSlots s) (fb_activeSlots s) (fb_playbackSlot s)"
    using live_ok(1) [OF assms] by (simp_all add: fb_inv_def)
  have "i < fb_nSlots s \<and> i \<notin> snd ` set (fb_activeSlots s)" if "i \<in> set (fb_freeSlots s)" for i
    using con that by (auto simp: containers_ok_def)
  then show ?thesis using sl by (auto simp: slots_ok_def)
qed

theorem consumer_slots_well_formed_witness:
  "\<exists>s1. VideoConsumer_init 0 0 0 0 sample_prefix ''hi'' sample_memory = Some (RESULT_OK, s1) \<and>
     (\<forall>i \<in> {..<fb_nSlots (Consumer_start 0 s1)}. slot_ok (fb_slot (Consumer_start 0 s1) i))"
proof -
  obtain s1 :: "unit channel" where s1: "VideoConsumer_init 0 0 0 0 sample_prefix ''hi'' sample_memory = Some (RESULT_OK, s1)"
    "launched (Consumer_start 0 s1)" using sample_launched by blast
  show ?thesis using consumer_slots_well_formed [OF s1(2) reachable.initial] s1(1) by auto
qed

text \<open>C25: Between two steps of a running consumer the mutex of the playout is free, so that the playout
  can be stopped; and while it plays, frames are being fetched into a valid buffer.\<close>

theorem consumer_playout_stops:
  assumes "launched s0" "reachable env memory s0 s"
  shows "(\<exists>r s'. Playout_stop s = Some (r, s') \<and> \<not> po_isRunning (po s') \<and> \<not> po_locked (po s')) \<and>
    (if po_isRunning (po s) then fb_state s = Valid \<and> running (p_state (pl s)) else True)"
  using live_ok(4-6) [OF assms] by (auto simp: Playout_stop_def)

theorem consumer_playout_stops_witness:
  "\<exists>s1. VideoConsumer_init 0 0 0 0 sample_prefix ''hi'' sample_memory = Some (RESULT_OK, s1) \<and>
     (\<exists>r s'. Playout_stop (Consumer_start 0 s1) = Some (r, s') \<and> \<not> po_isRunning (po s'))"
proof -
  obtain s1 :: "unit channel" where s1: "VideoConsumer_init 0 0 0 0 sample_prefix ''hi'' sample_memory = Some (RESULT_OK, s1)"
    "launched (Consumer_start 0 s1)" using sample_launched by blast
  show ?thesis using consumer_playout_stops [OF s1(2) reachable.initial] s1(1) by auto
qed

text \<open>C26: The pipeliner of a running consumer refines its state machine: the changes of state it has
  reported are one path from the inactive state to its present one, along the transitions for the
  first frame, the chase, the adjustment and the fetching. It never enters the state for buffering.\<close>

theorem consumer_refines_state_machine:
  assumes "launched s0" "reachable env memory s0 s"
  shows "walk StateInactive (p_stateChanges (pl s)) (p_state (pl s)) \<and> p_state (pl s) \<noteq> StateBuffering \<and>
    StateBuffering \<notin> snd ` set (p_stateChanges (pl s))"
proof -
  have w: "walk StateInactive (p_stateChanges (pl s)) (p_state (pl s))"
    using live_ok(2) [OF assms] by (simp add: pl_inv_def)
  have "walk st cs st' \<Longrightarrow> st \<noteq> StateBuffering \<Longrightarrow> st' \<noteq> StateBuffering \<and> StateBuffering \<notin> snd ` set cs" for st cs st'
  proof (induction st cs st' rule: walk.induct)
    case (2 st a b cs st')
    then have "b \<noteq> StateBuffering" by auto
    then show ?case using 2 by auto
  qed simp
  from this [OF w] w show ?thesis by simp
qed

theorem consumer_refines_state_machine_witness:
  "\<exists>s1. VideoConsumer_init 0 0 0 0 sample_prefix ''hi'' sample_memory = Some (RESULT_OK, s1) \<and>
     walk StateInactive (p_stateChanges (pl (Consumer_start 0 s1))) (p_state (pl (Consumer_start 0 s1)))"
proof -
  obtain s1 :: "unit channel" where s1: "VideoConsumer_init 0 0 0 0 sample_prefix ''hi'' sample_memory = Some (RESULT_OK, s1)"
    "launched (Consumer_start 0 s1)" using sample_launched by blast
  show ?thesis using consumer_refines_state_machine [OF s1(2) reachable.initial] s1(1) by auto
qed

section \<open>A consumer that plays\<close>

definition sample_playing :: "unit channel" where
  "sample_playing =
     po_upd (\<lambda>p. p\<lparr>po_isRunning := True\<rparr>)
      (upd (\<lambda>p. p\<lparr>p_state := StateChasing,
         p_stateChanges := [(StateInactive, StateWaitInitial), (StateWaitInitial, StateChasing)],
         p_consumerPrefix := sample_prefix, p_threadName := ''hi'', p_deltaFrameSeqNo := 7,
         p_window := \<lparr>w_dw = 8, w_w = 5, w_lastAddedToPool = 6, w_framePool = {4, 5, 6}\<rparr>\<rparr>)
        (thread_prefixes (upd (\<lambda>p. p\<lparr>p_consumerPrefix := sample_prefix, p_threadName := ''hi''\<rparr>)
          (sample_memory\<lparr>fb_state := Valid\<rparr>))))"

lemma sample_good: "good_thread k sample_prefix ''hi''"
  using sample_threads [of k] by (simp add: good_threads_def sample_memory_def)

lemma sample_playing_inv: "channel_inv sample_playing" "po_isRunning (po sample_playing)"
  "running (p_state (pl sample_playing))"
proof -
  show "po_isRunning (po sample_playing)" "running (p_state (pl sample_playing))" by (simp_all add: sample_playing_def)
  let ?s = "thread_prefixes (upd (\<lambda>p. p\<lparr>p_consumerPrefix := sample_prefix, p_threadName := ''hi''\<rparr>) (sample_memory\<lparr>fb_state := Valid\<rparr>))"
  have "frames_prefix (p_deltaFramesPrefix (pl ?s))" "frames_prefix (p_keyFramesPrefix (pl ?s))"
    using sample_good [of "p_useKeyNamespace (pl ?s)"] by (simp_all add: thread_prefixes_def good_thread_def Let_def)
  then have "pl_inv (pl sample_playing)"
    by (simp add: sample_playing_def pl_inv_def window_ok_def sample_memory_def thread_prefixes_def po_upd_def Let_def)
  then have "ok None sample_playing"
    by (simp add: fb_inv_def sample_playing_def containers_ok_def slots_ok_def head_ok_def map_ok_def sample_memory_def
        thread_prefixes_def upd_def po_upd_def Let_def)
  then show "channel_inv sample_playing"
    by (simp add: channel_inv_def settled_iff) (simp add: sample_playing_def thread_prefixes_def sample_memory_def upd_def po_upd_def Let_def)
qed

text \<open>C27: The window accounts for the frames that are asked for: in every state the consumer reaches while
  it fetches, the outstanding frames have numbers below the next frame's, and their count and the
  room left add up to the default size of the window, whatever order the data arrive in.\<close>

theorem consumer_window_accounts:
  assumes "channel_inv s0" "reachable env memory s0 s" "running (p_state (pl s))"
  shows "w_framePool (p_window (pl s)) \<subseteq> {0..<p_deltaFrameSeqNo (pl s)} \<and>
    of_int (w_w (p_window (pl s)) + int (card (w_framePool (p_window (pl s))))) = w_dw (p_window (pl s)) \<and>
    w_dw (p_window (pl s)) \<noteq> 0"
proof -
  have "channel_inv s" by (rule reachable_inv [OF assms(2,1)])
  then have "ok None s" by (simp add: channel_inv_def settled_iff)
  then show ?thesis using ok_pl [of None s] assms(3) by (simp add: pl_inv_def window_ok_def)
qed

theorem consumer_window_accounts_witness:
  "w_framePool (p_window (pl sample_playing)) \<subseteq> {0..<p_deltaFrameSeqNo (pl sample_playing)} \<and>
   of_int (w_w (p_window (pl sample_playing)) + int (card (w_framePool (p_window (pl sample_playing))))) = w_dw (p_window (pl sample_playing)) \<and>
   w_dw (p_window (pl sample_playing)) \<noteq> 0"
  using consumer_window_accounts [OF sample_playing_inv(1) reachable.initial sample_playing_inv(3)] .

text \<open>C28: Filling the window asks for exactly as many frames as it has room for: the loop that asks until
  the window refuses is the same as one round for each free place, any more fuel changes nothing, and
  no room is left afterwards.\<close>

theorem request_loop_fills_window:
  "request_loop (nat (w_w (p_window (pl s))) + j) t s = rounds (nat (w_w (p_window (pl s)))) t s \<and>
   (case rounds (nat (w_w (p_window (pl s)))) t s of Some s' \<Rightarrow> w_w (p_window (pl s')) \<le> 0 | None \<Rightarrow> True)"
proof -
  have "rounds n t s = Some s' \<Longrightarrow> w_w (p_window (pl s)) \<le> int n \<Longrightarrow> w_w (p_window (pl s')) \<le> 0" for n s s'
  proof (induction n arbitrary: s)
    case (Suc n)
    then obtain s1 where s1: "request_round t s = Some s1" "rounds n t s1 = Some s'" by (auto simp: bind_Some)
    have "w_w (p_window (pl s1)) \<le> int n"
    proof (cases "0 < w_w (p_window (pl s))")
      case True
      then show ?thesis using request_round_room [OF s1(1)] Suc.prems(2) by simp
    next
      case False
      then show ?thesis using requestNextDelta_pool [OF s1(1) [unfolded request_round_def]]
        by (simp add: canAskForData_def)
    qed
    then show ?case by (rule Suc.IH [OF s1(2)])
  qed simp
  from this [of "nat (w_w (p_window (pl s)))" s]
  have "w_w (p_window (pl s')) \<le> 0" if "rounds (nat (w_w (p_window (pl s)))) t s = Some s'" for s' using that by simp
  moreover have "request_loop (nat (w_w (p_window (pl s))) + j) t s = rounds (nat (w_w (p_window (pl s)))) t s"
    by (rule request_loop_is_rounds) simp
  ultimately show ?thesis by (simp split: option.split)
qed

lemma expressRange_keyNo:
  "expressRange t i a b pri par s = Some s' \<Longrightarrow> p_keyFrameSeqNo (pl s') = p_keyFrameSeqNo (pl s)"
proof -
  have "p_keyFrameSeqNo (pl (fold (enqueue_segment t i pri par) xs s)) = p_keyFrameSeqNo (pl s)" for xs and s :: "'a system"
    by (induction xs arbitrary: s) (simp_all add: enqueue_segment_def enqueue_def Let_def split: prod.split)
  then show "expressRange t i a b pri par s = Some s' \<Longrightarrow> p_keyFrameSeqNo (pl s') = p_keyFrameSeqNo (pl s)"
    by (auto simp: expressRange_def bind_Some Let_def dest: interestRangeIssued_pool)
qed

lemma rebuffer_invalid: "rebuffer t s = Some s' \<Longrightarrow> fb_state s' = Invalid"
  by (auto simp: rebuffer_def Pipeliner2_resetData_def PipelinerBase_resetData_def fb_reset_def resetData_def
      addStateChangedEvent_def bind_Some Let_def)

text \<open>C29: A key frame that timed out is not asked for again. The pipeliner counts the number of the next
  key frame up when it asks for one, but its handler of time-outs compares the number of the frame
  that timed out with the counter: whichever interest for the key frame just asked for times out
  while chasing or adjusting, nothing is sent.\<close>

theorem timed_out_key_frame_is_lost:
  assumes asked: "requestNextKey t s = Some s'"
    and timedOut: "getPacketNumber (in_name i) = Some (p_keyFrameSeqNo (pl s))"
    and st: "p_state (pl s') = StateChasing \<or> p_state (pl s') = StateAdjust"
  shows "onTimeout t' i s' = Some (stat (stat_inc TimeoutsNum) s')"
proof -
  have "p_keyFrameSeqNo (pl s') = p_keyFrameSeqNo (pl s) + 1"
    using asked by (auto simp: requestNextKey_def prefetchFrame_def bind_Some i32_def Let_def
        dest!: expressRange_keyNo sizes_pool split: if_splits)
  then show ?thesis using timedOut st by (auto simp: onTimeout_def key_timeout_def Let_def)
qed



lemma sample_key_number:
  "getPacketNumber (name_append (p_keyFramesPrefix (pl sample_playing)) (componentFromInt 0)) = Some 0"
proof -
  have "frames_prefix (p_keyFramesPrefix (pl sample_playing))"
    using sample_playing_inv(1) ok_pl [of None sample_playing] by (simp add: channel_inv_def settled_iff pl_inv_def)
  then obtain pre frames where "stream_path pre" "frames_word frames"
    "name_append (p_keyFramesPrefix (pl sample_playing)) (componentFromInt 0) = packet_name pre frames 0"
    using frames_prefix_packet by blast
  moreover have "frameNumber (componentFromInt 0) = Some 0" by code_simp
  ultimately show ?thesis using packet_number by metis
qed

lemma sample_request: "\<exists>s'. requestNextKey 0 sample_playing = Some s' \<and> p_state (pl s') = StateChasing"
proof -
  define s1 where "s1 = upd (\<lambda>p. p\<lparr>p_keyFrameSeqNo := 1\<rparr>) (stat (stat_inc RequestedKeyNum \<circ> stat_inc RequestedNum) sample_playing)"
  have flds: "p_keyFrameSeqNo (pl sample_playing) = 0" "fb_isEstimationNeeded sample_playing = False"
    "fb_estimatedSizeMs sample_playing = 0" "meanEstimators (fb_meters sample_playing) = []"
    "cp_useFec (fb_params sample_playing) = False" "p_state (pl sample_playing) = StateChasing"
    by (simp_all add: sample_playing_def sample_memory_def thread_prefixes_def upd_def po_upd_def Let_def)
  then have "getEstimatedBufferSize s1 = Some (0, s1)"
    by (simp add: getEstimatedBufferSize_def s1_def stat_def upd_def)
  then show ?thesis using flds sample_key_number
    by (simp add: requestNextKey_def expected_segments_def currentMeanEstimation_def s1_def [symmetric] prefetchFrame_def
        expressRange_def getDefaultInterest_def new_Interest_def interestRangeIssued_def i32_def Let_def)
      (simp add: s1_def stat_def upd_def)
qed

theorem timed_out_key_frame_is_lost_witness:
  "\<exists>s'. requestNextKey 0 sample_playing = Some s' \<and>
     onTimeout 5000 (new_Interest (name_append (p_keyFramesPrefix (pl sample_playing)) (componentFromInt 0)) 2000) s' =
       Some (stat (stat_inc TimeoutsNum) s')"
proof -
  obtain s' where s': "requestNextKey 0 sample_playing = Some s'" "p_state (pl s') = StateChasing"
    using sample_request by blast
  moreover have "p_keyFrameSeqNo (pl sample_playing) = 0"
    by (simp add: sample_playing_def sample_memory_def thread_prefixes_def po_upd_def Let_def)
  ultimately show ?thesis
    using timed_out_key_frame_is_lost [OF s'(1)] sample_key_number by (auto simp: new_Interest_def)
qed

section \<open>A player\<close>

definition sample_video :: "unit channel" where
  "sample_video = po_upd (\<lambda>p. p\<lparr>po_frameConsumer := True, po_playbackAdjustment := -50, po_isRunning := False\<rparr>) sample_playing"

text \<open>A frame with the number, the number of the paired frame and the level of assembly.\<close>

definition sample_acquired :: "bool \<Rightarrow> int \<Rightarrow> int \<Rightarrow> rat \<Rightarrow> acquired" where
  "sample_acquired isKey no paired level =
     \<lparr>aq_packetData = (if level > 0 then Some (VideoPacket \<lparr>fd_isValid = True, fd_length = 0, fd_data = [], fd_frame = None\<rparr>) else None),
      aq_packetNo = no, aq_sequencePacketNo = no, aq_pairedPacketNo = paired, aq_isKey = isKey, aq_assembledLevel = level\<rparr>"

lemma sample_acquired_simps [simp]:
  "aq_isKey (sample_acquired k n m l) = k" "aq_assembledLevel (sample_acquired k n m l) = l"
  "aq_sequencePacketNo (sample_acquired k n m l) = n" "aq_pairedPacketNo (sample_acquired k n m l) = m"
  "video_packet (sample_acquired k n m l)"
  by (simp_all add: sample_acquired_def video_packet_def)

lemma sample_video_simps [simp]:
  "po_frameConsumer (po sample_video)" "po_skipIncomplete (po sample_video)" "\<not> po_validGop (po sample_video)"
  "po_avSync (po sample_video) = None" "po_playbackAdjustment (po sample_video) = -50"
  "po_kind (po sample_video) = VideoPlayout" "fb_playbackSlot sample_video = None"
  by (simp_all add: sample_video_def sample_playing_def thread_prefixes_def sample_memory_def po_upd_def upd_def Let_def)

theorem playout_delay_never_negative_witness:
  "\<exists>delay s'. frame_delay 1000 True 33 sample_video = Some (delay, s') \<and> 0 \<le> delay \<and>
     delay + po_playbackAdjustment (po s') = 33 - 50"
  using playout_delay_never_negative [of 33 sample_video 1000 True] by simp


theorem dropped_key_opens_group_witness:
  "\<exists>s'. show_packets [(sample_acquired True 4 10 1)\<lparr>aq_packetData := None\<rparr>, sample_acquired False 10 4 1] sample_video =
     Some ([False, True], s')"
  using dropped_key_opens_group [of sample_video "(sample_acquired True 4 10 1)\<lparr>aq_packetData := None\<rparr>" "sample_acquired False 10 4 1"]
  by (simp add: sample_acquired_def)

lemma sample_video_ok: "ok None sample_video"
  using sample_playing_inv(1) by (simp add: sample_video_def channel_inv_def settled_iff)

lemma sample_video_locked: "\<not> po_locked (po sample_video)" "fb_state sample_video = Valid"
  by (simp_all add: sample_video_def sample_playing_def thread_prefixes_def sample_memory_def po_upd_def upd_def Let_def)

lemma po_upd_twice: "po_upd f (po_upd g s) = po_upd (\<lambda>p. f (g p)) s"
  by (simp add: po_upd_def upd_def comp_def)

lemma release_simps:
  "fb_retransmissionsEnabled (po_upd f s) = fb_retransmissionsEnabled s" "fb_skipFrame (po_upd f s) = fb_skipFrame s"
  "fb_retransmissionsEnabled (stat g s) = fb_retransmissionsEnabled s" "fb_skipFrame (stat g s) = fb_skipFrame s"
  by (simp_all add: po_upd_def upd_def stat_def)


end
