(* ===== verification/Media_Thread.thy ===== *)
theory Media_Thread
  imports Segmentizer Estimators Std_Map
begin

text \<open>
  Publishing of packets (\<open>ndnrtc/cpp/src/media-thread.cpp\<close>), common to the audio and the video
  threads: a packet is cut into segments, each segment is wrapped with what is known of the interest
  that waits for it, signed, and goes either to the content cache or, when an interest is pending,
  to the transport.

  The transport, the key chain and the cache are code of other libraries. What the thread asks of
  them is the argument \<open>publish_env\<close>: whether the transport is connected, the size of the signed
  data packet on the wire, and whether each call returns or throws. What is handed to them is
  \<open>mt_published\<close>, in order. The CRC is the one of Boost. The meters are the global ones that the
  estimators keep. The clock stands still during a call; \<open>now\<close> is in milliseconds.
\<close>

section \<open>Bits of a double\<close>

text \<open>What copying a \<open>double\<close> into a header stores; the inverse of \<open>double_of_bits\<close>.\<close>

fun bits_of_double :: "double \<Rightarrow> u64" where
  "bits_of_double (Finite x) =
     (if x = 0 then 0
      else
        let e = max (ilog2 \<bar>x\<bar> - 52) (- 1074); m = nat \<lfloor>\<bar>x\<bar> / rat_pow2 e\<rfloor>;
            biased = (if m < 2 ^ 52 then 0 else nat (e + 1075)) in
        of_nat ((if x < 0 then 2 ^ 63 else 0) + biased * 2 ^ 52 + m mod 2 ^ 52))"
| "bits_of_double (Infinite s) = (if s then 0xFFF0000000000000 else 0x7FF0000000000000)"
| "bits_of_double NotANumber = 0x7FF8000000000000"

section \<open>Data\<close>

text \<open>A packet that is published: a video frame, a bundle of audio packets or the parity data of a
  frame.\<close>

datatype outgoing = OutFrame NdnFrameData | OutAudio NdnAudioData | OutParity bool bytes

fun out_isValid :: "outgoing \<Rightarrow> bool" where
  "out_isValid (OutFrame fd) = fd_isValid fd"
| "out_isValid (OutAudio ad) = ad_isValid ad"
| "out_isValid (OutParity v d) = v"

fun out_length :: "outgoing \<Rightarrow> nat" where
  "out_length (OutFrame fd) = fd_length fd"
| "out_length (OutAudio ad) = ad_length ad"
| "out_length (OutParity v d) = length d"

fun out_data :: "outgoing \<Rightarrow> bytes" where
  "out_data (OutFrame fd) = fd_data fd"
| "out_data (OutAudio ad) = ad_data ad"
| "out_data (OutParity v d) = d"

fun out_setMetadata :: "PacketMetadata \<Rightarrow> outgoing \<Rightarrow> outgoing option" where
  "out_setMetadata m (OutFrame fd) = map_option OutFrame (Frame_setMetadata m fd)"
| "out_setMetadata m (OutAudio ad) = map_option OutAudio (Audio_setMetadata m ad)"
| "out_setMetadata m (OutParity v d) = Some (OutParity v d)"

text \<open>An interest that waits for data. Its name is the key of the table.\<close>

record pit_entry =
  pe_arrivalTimestamp :: int
  pe_nonce :: bytes

record data_packet =
  dp_name :: name
  dp_freshnessPeriod :: u32
  dp_content :: bytes

datatype publication = Cached (pub_data: data_packet) | Sent (pub_data: data_packet)

record publish_env =
  en_connected :: bool
  en_wireSize :: "data_packet \<Rightarrow> u32 option"
  en_accepts :: "publication \<Rightarrow> bool"
  en_crc :: "nat \<Rightarrow> bytes \<Rightarrow> nat"
  en_checksum :: "nat \<Rightarrow> int"

record thread_settings =
  ts_segmentSize :: u32
  ts_dataFreshnessMs :: u32
  ts_threadName :: string
  ts_streamPrefix :: string
  ts_memoryCache :: bool

record media_thread =
  mt_settings :: thread_settings
  mt_threadPrefix :: string
  mt_segSizeNoHeader :: u32
  mt_publishingTimestampMs :: int
  mt_memCache :: bool
  mt_packetNo :: int
  mt_packetRateMeter :: nat
  mt_dataRateMeter :: nat
  mt_pit :: "(name \<times> pit_entry) list"
  mt_meters :: meters
  mt_published :: "publication list"

section \<open>Construction\<close>

text \<open>\<open>settings_\<close>, the timestamp and the sizes have no value before \<open>init\<close>: those the new object
  has are the last arguments.\<close>

definition new_MediaThread :: "meters \<Rightarrow> thread_settings \<Rightarrow> u32 \<Rightarrow> int \<Rightarrow> media_thread" where
  "new_MediaThread mt st sz ts =
     (let (p, mt1) = setupFrequencyMeter 4 mt; (d, mt2) = setupDataRateMeter 5 mt1 in
      \<lparr>mt_settings = st, mt_threadPrefix = [], mt_segSizeNoHeader = sz, mt_publishingTimestampMs = ts,
       mt_memCache = False, mt_packetNo = 0, mt_packetRateMeter = p, mt_dataRateMeter = d,
       mt_pit = [], mt_meters = mt2, mt_published = []\<rparr>)"

text \<open>\<open>registers\<close> tells whether the cache takes the registration of the prefix; without a cache
  nothing is registered. The subtraction of the header size is unsigned.\<close>

definition MediaThread_init ::
    "(name \<Rightarrow> bool) \<Rightarrow> thread_settings \<Rightarrow> 'a media_thread_scheme \<Rightarrow> result \<times> 'a media_thread_scheme" where
  "MediaThread_init registers settings t =
     (let t1 = t\<lparr>mt_publishingTimestampMs := 0,
            mt_threadPrefix := buildPath False [ts_streamPrefix settings, ts_threadName settings],
            mt_memCache := ts_memoryCache settings\<rparr> in
      if mt_memCache t1 \<and> \<not> registers (name_set (mt_threadPrefix t1)) then (RESULT_ERR, t1)
      else (RESULT_OK,
        t1\<lparr>mt_segSizeNoHeader := ts_segmentSize settings - of_nat SegmentData_getHeaderSize\<rparr>))"

section \<open>Pending interests\<close>

definition addToPit :: "name \<Rightarrow> bytes \<Rightarrow> int \<Rightarrow> 'a media_thread_scheme \<Rightarrow> 'a media_thread_scheme" where
  "addToPit n nonce now t =
     (case map_of (mt_pit t) n of
        Some _ \<Rightarrow> t
      | None \<Rightarrow> t\<lparr>mt_pit := map_assign n \<lparr>pe_arrivalTimestamp = now, pe_nonce = nonce\<rparr> (mt_pit t)\<rparr>)"

definition MediaThread_onInterest ::
    "name \<Rightarrow> bytes \<Rightarrow> int \<Rightarrow> 'a media_thread_scheme \<Rightarrow> 'a media_thread_scheme option" where
  "MediaThread_onInterest n nonce now t = do {
     packetNo \<leftarrow> getPacketNumber n;
     Some (if packetNo \<ge> mt_packetNo t then addToPit n nonce now t else t)
   }"

text \<open>The key of the entry that answers a segment: the segment's own name, or else the prefix
  without the packet number.\<close>

definition pit_key :: "name \<Rightarrow> (name \<times> pit_entry) list \<Rightarrow> name option" where
  "pit_key n pit =
     (if map_of pit n \<noteq> None then Some n
      else let testPrefix = snd (trimPacketNumber n) in
        if map_of pit testPrefix \<noteq> None then Some testPrefix else None)"

definition pit_meta :: "int \<Rightarrow> pit_entry \<Rightarrow> SegmentMetaInfo" where
  "pit_meta currentTime e =
     \<lparr>interestNonce = blobToNonce (pe_nonce e),
      interestArrivalMs = of_int (pe_arrivalTimestamp e),
      generationDelayMs = of_int (currentTime - pe_arrivalTimestamp e)\<rparr>"

definition lookupPrefixInPit ::
    "name \<Rightarrow> int \<Rightarrow> SegmentMetaInfo \<Rightarrow> 'a media_thread_scheme \<Rightarrow>
     int \<times> SegmentMetaInfo \<times> 'a media_thread_scheme" where
  "lookupPrefixInPit n currentTime metaInfo t =
     (case pit_key n (mt_pit t) of
        None \<Rightarrow> (0, metaInfo, t)
      | Some k \<Rightarrow> (1, pit_meta currentTime (the (map_of (mt_pit t) k)),
          t\<lparr>mt_pit := map_erase k (mt_pit t)\<rparr>))"

definition cleanPitForFrame :: "name \<Rightarrow> 'a media_thread_scheme \<Rightarrow> int \<times> 'a media_thread_scheme" where
  "cleanPitForFrame framePrefix t =
     (let keysToDelete = filter (\<lambda>k. isPrefix k framePrefix) (map fst (mt_pit t)) in
      (int (length keysToDelete), t\<lparr>mt_pit := fold map_erase keysToDelete (mt_pit t)\<rparr>))"

section \<open>Publishing\<close>

text \<open>One round of the loop over the segments; \<open>False\<close> is an exception that leaves the loop. The
  slice is read from the packet's buffer, which holds the metadata by now.\<close>

definition publish_segment ::
    "publish_env \<Rightarrow> int \<Rightarrow> name \<Rightarrow> name \<Rightarrow> bytes \<Rightarrow> nat \<times> segment_slice \<Rightarrow> 'a media_thread_scheme \<Rightarrow>
     (bool \<times> 'a media_thread_scheme) option" where
  "publish_segment env now pref metaSuffix buf s t = do {
     segmentName \<leftarrow> appendSegment pref (of_nat (fst s));
     let (hit, meta, t1) = lookupPrefixInPit segmentName now
       \<lparr>interestNonce = 0, interestArrivalMs = 0, generationDelayMs = 0\<rparr> t;
     payload \<leftarrow> mem_read buf (sl_dataPtr (snd s)) (sl_payloadSize (snd s));
     let ndnData = \<lparr>dp_name = name_append_all segmentName (components metaSuffix),
       dp_freshnessPeriod = ts_dataFreshnessMs (mt_settings t1),
       dp_content = sd_data (new_SegmentData payload meta)\<rparr>;
     let publication = (if mt_memCache t1 \<and> \<not> (hit \<noteq> 0) then Cached ndnData else Sent ndnData);
     Some (case en_wireSize env ndnData of
         None \<Rightarrow> (False, t1)
       | Some wireSize \<Rightarrow>
           if \<not> en_accepts env publication then (False, t1)
           else (True, t1\<lparr>mt_published := mt_published t1 @ [publication],
             mt_meters := dataRateMeterMoreData (mt_dataRateMeter t1) wireSize now (mt_meters t1)\<rparr>))
   }"

fun publish_segments ::
    "publish_env \<Rightarrow> int \<Rightarrow> name \<Rightarrow> name \<Rightarrow> bytes \<Rightarrow> (nat \<times> segment_slice) list \<Rightarrow>
     'a media_thread_scheme \<Rightarrow> (bool \<times> 'a media_thread_scheme) option" where
  "publish_segments env now pref metaSuffix buf [] t = Some (True, t)"
| "publish_segments env now pref metaSuffix buf (s # ss) t = do {
     (ok, t1) \<leftarrow> publish_segment env now pref metaSuffix buf s t;
     if ok then publish_segments env now pref metaSuffix buf ss t1 else Some (False, t1)
   }"

text \<open>
  \<open>publishPacket\<close>: the number of segments, -1 or \<open>RESULT_ERR\<close>. The CRC register of the packet object is \<open>crc\<close>:
  \<open>getCrcValue\<close> adds all bytes of the packet to what the register holds. The segment size is an
  \<open>int\<close> here: a size below the segment header has wrapped, and such a run is not followed
  (\<open>None\<close>).
\<close>

definition MediaThread_publishPacket ::
    "publish_env \<Rightarrow> int \<Rightarrow> outgoing \<Rightarrow> nat \<Rightarrow> name \<Rightarrow> PrefixMetaInfo \<Rightarrow> u64 \<Rightarrow> 'a media_thread_scheme \<Rightarrow>
     (int \<times> outgoing \<times> nat \<times> 'a media_thread_scheme) option" where
  "MediaThread_publishPacket env now packetData crc packetPrefix prefixMeta captureTimestamp t =
     (if \<not> en_connected env then Some (-1, packetData, crc, t)
      else if \<not> uint (mt_segSizeNoHeader t) < 2 ^ 31 then None
      else do {
        (r, segments) \<leftarrow> segmentize (out_isValid packetData) (out_length packetData)
          (unat (mt_segSizeNoHeader t)) [];
        if result_code r \<le> result_code RESULT_ERR then Some (-1, packetData, crc, t)
        else do {
          let metadata = \<lparr>
            pm_packetRate = bits_of_double (currentFrequencyMeterValue (mt_packetRateMeter t) (mt_meters t)),
            pm_timestamp = of_int now, pm_unixTimestamp = captureTimestamp\<rparr>;
          packetData' \<leftarrow> out_setMetadata metadata packetData;
          let crc' = en_crc env crc (take (out_length packetData') (out_data packetData'));
          let metaSuffix = PrefixMetaInfo_toName (prefixMeta\<lparr>crcValue := en_checksum env crc'\<rparr>);
          (ok, t1) \<leftarrow> publish_segments env now packetPrefix metaSuffix (out_data packetData')
            (enumerate 0 segments) t;
          if \<not> ok then Some (result_code RESULT_ERR, packetData', crc', t1)
          else
            let t2 = snd (cleanPitForFrame packetPrefix t1) in
            Some (int (length segments), packetData', crc', t2\<lparr>mt_publishingTimestampMs := now\<rparr>)
        }
      })"

definition MediaThread_getStatistics :: "'a media_thread_scheme \<Rightarrow> double \<times> double" where
  "MediaThread_getStatistics t =
     (currentFrequencyMeterValue (mt_packetRateMeter t) (mt_meters t),
      currentDataRateMeterValue (mt_dataRateMeter t) (mt_meters t))"

end
