(* ===== verification/Video_Thread.thy ===== *)
theory Video_Thread
  imports Media_Thread
begin

text \<open>
  The producer's video thread (\<open>ndnrtc/cpp/src/video-thread.cpp\<close>) and the parity data it publishes
  (\<open>FrameParityData\<close> of \<open>ndnrtc/cpp/src/frame-data.cpp\<close>). A thread numbers its key frames and its
  delta frames apart, and all published frames together: the last number is the playback number in
  the names. The encoder is WebRTC's: the thread starts from the image it delivers; that it could be
  initialised is an argument, and so is the value of \<open>kKeyFrame\<close>. The Reed-Solomon encoder is
  \<open>ve_fec\<close>, from the numbers of source and repair symbols, the symbol length and the source bytes;
  \<open>None\<close> is its failure. An overflow of a frame counter and a failed assertion are \<open>None\<close>.
\<close>

section \<open>Parity data\<close>

fun d_ceil_u32 :: "double \<Rightarrow> u32 option" where
  "d_ceil_u32 (Finite x) = (if 0 \<le> \<lceil>x\<rceil> \<and> \<lceil>x\<rceil> < 2 ^ 32 then Some (of_int \<lceil>x\<rceil>) else None)"
| "d_ceil_u32 _ = None"

definition ParityRatio :: double where
  "ParityRatio = to_double (1 / 5)"

definition getParitySegmentsNum :: "u32 \<Rightarrow> double \<Rightarrow> u32 option" where
  "getParitySegmentsNum nSegments parityRatio = d_ceil_u32 (d_mul parityRatio (d_of_int (uint nSegments)))"

definition getParityDataLength :: "u32 \<Rightarrow> double \<Rightarrow> u32 \<Rightarrow> u32 option" where
  "getParityDataLength nSegments parityRatio segmentSize =
     map_option (\<lambda>n. n * segmentSize) (getParitySegmentsNum nSegments parityRatio)"

record video_env = publish_env +
  ve_fec :: "nat \<Rightarrow> nat \<Rightarrow> nat \<Rightarrow> bytes \<Rightarrow> bytes option"
  ve_calcBufferSize :: "u32 \<Rightarrow> u32 \<Rightarrow> int"
  ve_kKeyFrame :: u32
  ve_unixTimestamp :: u64

text \<open>The encoder reads whole segments of the packet's buffer and writes whole segments of parity.\<close>

definition Parity_initFromPacketData ::
    "'e video_env_scheme \<Rightarrow> outgoing \<Rightarrow> double \<Rightarrow> u32 \<Rightarrow> u32 \<Rightarrow> (result \<times> outgoing) option" where
  "Parity_initFromPacketData env packetData parityRatio nSegments segmentSize = do {
     nParitySegments \<leftarrow> getParitySegmentsNum nSegments parityRatio;
     len \<leftarrow> getParityDataLength nSegments parityRatio segmentSize;
     source \<leftarrow> mem_read (out_data packetData) 0 (unat nSegments * unat segmentSize);
     case ve_fec env (unat nSegments) (unat nParitySegments) (unat segmentSize) source of
       None \<Rightarrow> Some (RESULT_ERR, OutParity False (replicate (unat len) (char_of (0 :: nat))))
     | Some d \<Rightarrow> if length d = unat len then Some (RESULT_OK, OutParity True d) else None
   }"

section \<open>The thread\<close>

record video_thread = media_thread +
  vt_useFec :: bool
  vt_keyFrameNo :: int
  vt_deltaFrameNo :: int
  vt_gopCount :: int
  vt_deltaSegnumEstimatorId :: nat
  vt_keySegnumEstimatorId :: nat
  vt_deltaParitySegnumEstimatorId :: nat
  vt_keyParitySegnumEstimatorId :: nat
  vt_encodingTimestampMs :: int
  vt_deltaFramesPrefix :: name
  vt_keyFramesPrefix :: name

definition new_VideoThread :: "meters \<Rightarrow> thread_settings \<Rightarrow> u32 \<Rightarrow> int \<Rightarrow> bool \<Rightarrow> int \<Rightarrow> video_thread" where
  "new_VideoThread mt st sz ts fec ets =
     (let t = new_MediaThread mt st sz ts;
          (d, mt1) = setupMeanEstimator 0 (Finite 0) (mt_meters t);
          (k, mt2) = setupMeanEstimator 0 (Finite 0) mt1;
          (dp, mt3) = setupMeanEstimator 0 (Finite 0) mt2;
          (kp, mt4) = setupMeanEstimator 0 (Finite 0) mt3 in
      media_thread.extend (t\<lparr>mt_meters := mt4\<rparr>)
        (video_thread.fields fec 0 0 0 d k dp kp ets (Name []) (Name [])))"

definition VideoThread_init ::
    "(name \<Rightarrow> bool) \<Rightarrow> bool \<Rightarrow> thread_settings \<Rightarrow> bool \<Rightarrow> video_thread \<Rightarrow> result \<times> video_thread" where
  "VideoThread_init registers coderInit settings useFec t =
     (let (res, t1) = MediaThread_init registers settings
            (t\<lparr>mt_settings := settings, vt_useFec := useFec\<rparr>) in
      if result_code res \<le> result_code RESULT_ERR then (res, t1)
      else
        let path = name_set (mt_threadPrefix t1);
            t2 = t1\<lparr>
              vt_deltaFramesPrefix :=
                name_append_all path (components (name_set NameComponentStreamFramesDelta)),
              vt_keyFramesPrefix :=
                name_append_all path (components (name_set NameComponentStreamFramesKey))\<rparr> in
        if \<not> coderInit then (RESULT_ERR, t2)
        else (RESULT_OK, t2\<lparr>vt_keyFrameNo := -1, vt_deltaFrameNo := 0\<rparr>))"

definition onEncodingStarted :: "int \<Rightarrow> video_thread \<Rightarrow> video_thread" where
  "onEncodingStarted now t = t\<lparr>vt_encodingTimestampMs := now\<rparr>"

text \<open>The register of the parity packet's CRC starts at zero, as that of every new packet object.\<close>

definition publishParityData ::
    "'e video_env_scheme \<Rightarrow> int \<Rightarrow> outgoing \<Rightarrow> u32 \<Rightarrow> name \<Rightarrow> PrefixMetaInfo \<Rightarrow> video_thread \<Rightarrow>
     (int \<times> video_thread) option" where
  "publishParityData env now packetData nSegments framePrefix prefixMeta t = do {
     (r, frameParityData) \<leftarrow>
       Parity_initFromPacketData env packetData ParityRatio nSegments (mt_segSizeNoHeader t);
     if RESULT_GOOD r then do {
       let framePrefixParity = appendStringComponent framePrefix NameComponentFrameSegmentParity;
       (nSegmentsP, _, _, t1) \<leftarrow> MediaThread_publishPacket (publish_env.truncate env) now frameParityData 0
         framePrefixParity prefixMeta (ve_unixTimestamp env) t;
       Some (nSegmentsP, t1)
     } else Some (-1, t)
   }"

text \<open>What follows a frame that was published: the parity data, the counters and the averages.\<close>

definition frame_published ::
    "'e video_env_scheme \<Rightarrow> int \<Rightarrow> bool \<Rightarrow> outgoing \<Rightarrow> int \<Rightarrow> name \<Rightarrow> PrefixMetaInfo \<Rightarrow> video_thread \<Rightarrow>
     video_thread option" where
  "frame_published env now isKeyFrame frameData nSegments framePrefix prefixMeta t = do {
     (nSegmentsParity, t1) \<leftarrow>
       (if vt_useFec t
        then publishParityData env now frameData (of_int nSegments) framePrefix prefixMeta t
        else Some (-1, t));
     t2 \<leftarrow> (if \<not> isKeyFrame
       then map_option (\<lambda>n. t1\<lparr>vt_deltaFrameNo := n\<rparr>) (i32 (vt_deltaFrameNo t1 + 1))
       else Some t1);
     let t3 = t2\<lparr>mt_meters := meanEstimatorNewValue
       (if isKeyFrame then vt_keySegnumEstimatorId t2 else vt_deltaSegnumEstimatorId t2)
       (d_of_int nSegments) (mt_meters t2)\<rparr>;
     let t4 = (if vt_useFec t3 \<and> nSegmentsParity > 0
       then t3\<lparr>mt_meters := meanEstimatorNewValue
         (if isKeyFrame then vt_keyParitySegnumEstimatorId t3 else vt_deltaParitySegnumEstimatorId t3)
         (d_of_int nSegmentsParity) (mt_meters t3)\<rparr>
       else t3);
     no \<leftarrow> i32 (mt_packetNo t4 + 1);
     Some (t4\<lparr>mt_packetNo := no\<rparr>)
   }"

definition count_frame :: "bool \<Rightarrow> video_thread \<Rightarrow> video_thread option" where
  "count_frame isKeyFrame t =
     (if isKeyFrame then do {
        n \<leftarrow> i32 (vt_keyFrameNo t + 1);
        Some (t\<lparr>vt_keyFrameNo := n, vt_gopCount := 0\<rparr>)
      } else do {
        n \<leftarrow> i32 (vt_gopCount t + 1);
        Some (t\<lparr>vt_gopCount := n\<rparr>)
      })"

definition onEncodedFrameDelivered ::
    "'e video_env_scheme \<Rightarrow> int \<Rightarrow> EncodedImage \<Rightarrow> u64 \<Rightarrow> video_thread \<Rightarrow> video_thread option" where
  "onEncodedFrameDelivered env now encodedImage captureTimestamp t0 = do {
     let isKeyFrame = (ei_frameType encodedImage = ve_kKeyFrame env);
     t \<leftarrow> count_frame isKeyFrame
       (t0\<lparr>mt_meters := frequencyMeterTick (mt_packetRateMeter t0) now (mt_meters t0)\<rparr>);
     let frameNo = (if isKeyFrame then vt_keyFrameNo t else vt_deltaFrameNo t);
     let framePrefix = name_append (if isKeyFrame then vt_keyFramesPrefix t else vt_deltaFramesPrefix t)
       (componentFromInt (of_int frameNo));
     let framePrefixData = name_append framePrefix (Component NameComponentFrameSegmentData);
     frameData \<leftarrow> Frame_initialize (ve_calcBufferSize env) encodedImage (unat (mt_segSizeNoHeader t)) ZeroMetadata;
     let nSegmentsExpected = getSegmentsNum (fd_length frameData) (unat (mt_segSizeNoHeader t));
     nSegmentsParityExpected \<leftarrow>
       (if vt_useFec t then getParitySegmentsNum (of_nat nSegmentsExpected) ParityRatio else Some 0);
     let prefixMeta = \<lparr>totalSegmentsNum = int nSegmentsExpected, playbackNo = mt_packetNo t,
       pairedSequenceNo = (if isKeyFrame then vt_deltaFrameNo t else vt_keyFrameNo t),
       paritySegmentsNum = uint nSegmentsParityExpected, crcValue = 0\<rparr>;
     (nSegments, frameData', _, t1) \<leftarrow> MediaThread_publishPacket (publish_env.truncate env) now
       (OutFrame frameData) 0 framePrefixData prefixMeta captureTimestamp t;
     if nSegments > 0 then
       if nSegments \<noteq> int nSegmentsExpected then None
       else frame_published env now isKeyFrame frameData' nSegments framePrefix prefixMeta t1
     else Some t1
   }"

definition VideoThread_onInterest :: "name \<Rightarrow> bytes \<Rightarrow> int \<Rightarrow> video_thread \<Rightarrow> video_thread option" where
  "VideoThread_onInterest n nonce now t = do {
     packetNo \<leftarrow> getPacketNumber n;
     let isKeyNamespace = isKeyFramePrefix n;
     Some (if isValidInterestPrefix n \<and> packetNo = -1 \<or>
              packetNo \<ge> (if isKeyNamespace then vt_keyFrameNo t else vt_deltaFrameNo t)
           then addToPit n nonce now t else t)
   }"

text \<open>The counters that \<open>getStatistics\<close> reports as numbers of published frames are unsigned there.\<close>

definition VideoThread_getStatistics :: "video_thread \<Rightarrow> (double \<times> double) \<times> u32 \<times> u32 \<times> double list" where
  "VideoThread_getStatistics t =
     (MediaThread_getStatistics t, of_int (vt_keyFrameNo t), of_int (vt_deltaFrameNo t),
      map (\<lambda>i. currentMeanEstimation i (mt_meters t))
        [vt_deltaSegnumEstimatorId t, vt_keySegnumEstimatorId t,
         vt_deltaParitySegnumEstimatorId t, vt_keyParitySegnumEstimatorId t])"

end
