(* ===== verification/Audio_Thread.thy ===== *)
theory Audio_Thread
  imports Media_Thread
begin

text \<open>
  The producer's audio thread (\<open>ndnrtc/cpp/src/audio-thread.cpp\<close>): RTP and RTCP packets of the audio
  channel are collected in a bundle until the next one would not fit a segment; then the bundle is
  published under the thread's prefix and the next packet number. The bundle object is used again
  after \<open>clear\<close>, with the register of its CRC, \<open>at_crc\<close>, as the last bundle left it. The clock and
  the unix time of a call are arguments.
\<close>

record audio_thread = media_thread +
  at_adata :: NdnAudioData
  at_crc :: nat
  at_rtpPacketPrefix :: name
  at_rtcpPacketPrefix :: name

definition new_AudioThread :: "meters \<Rightarrow> thread_settings \<Rightarrow> u32 \<Rightarrow> int \<Rightarrow> audio_thread" where
  "new_AudioThread mt st sz ts =
     media_thread.extend (new_MediaThread mt st sz ts)
       (audio_thread.fields new_NdnAudioData 0 (Name []) (Name []))"

definition AudioThread_init ::
    "(name \<Rightarrow> bool) \<Rightarrow> thread_settings \<Rightarrow> audio_thread \<Rightarrow> result \<times> audio_thread" where
  "AudioThread_init registers settings t =
     (let (res, t1) = MediaThread_init registers settings (t\<lparr>mt_settings := settings\<rparr>) in
      if result_code res \<le> result_code RESULT_ERR then (res, t1)
      else
        let p = name_append_all (name_set (mt_threadPrefix t1))
                  (components (name_set NameComponentStreamFramesDelta)) in
        (res, t1\<lparr>at_rtpPacketPrefix := p, at_rtcpPacketPrefix := p\<rparr>))"

definition Audio_clear :: "NdnAudioData \<Rightarrow> NdnAudioData" where
  "Audio_clear ad = ad\<lparr>ad_packets := [], ad_length := 0, ad_data := [], ad_isValid := False\<rparr>"

text \<open>\<open>publishPacket\<close>, with the metadata that its callers leave at zero.\<close>

definition AudioThread_publishPacket ::
    "publish_env \<Rightarrow> int \<Rightarrow> u64 \<Rightarrow> PrefixMetaInfo \<Rightarrow> audio_thread \<Rightarrow> (int \<times> audio_thread) option" where
  "AudioThread_publishPacket env now unixTimestamp prefixMeta t = do {
     let packetPrefix = appendDataKind
       (name_append (at_rtpPacketPrefix t) (componentFromInt (of_int (mt_packetNo t)))) False;
     (if mt_segSizeNoHeader t = 0 then None else Some ());
     let meta = prefixMeta\<lparr>
       totalSegmentsNum := int (getSegmentsNum (ad_length (at_adata t)) (unat (mt_segSizeNoHeader t))),
       paritySegmentsNum := 0, playbackNo := mt_packetNo t\<rparr>;
     (r, packetData, crc, t1) \<leftarrow> MediaThread_publishPacket env now (OutAudio (at_adata t)) (at_crc t)
       packetPrefix meta unixTimestamp t;
     case packetData of
       OutAudio ad \<Rightarrow> Some (r, t1\<lparr>at_adata := ad, at_crc := crc\<rparr>)
     | _ \<Rightarrow> None
   }"

text \<open>Publishing and clearing the bundle when the packet does not fit. The lengths are unsigned.\<close>

definition flush_bundle ::
    "publish_env \<Rightarrow> int \<Rightarrow> u64 \<Rightarrow> AudioPacket \<Rightarrow> audio_thread \<Rightarrow> audio_thread option" where
  "flush_bundle env now unixTimestamp packet t =
     (if (ad_length (at_adata t) + AudioPacket_getLength packet) mod 2 ^ 32 > unat (mt_segSizeNoHeader t)
      then do {
        let t1 = t\<lparr>mt_meters := frequencyMeterTick (mt_packetRateMeter t) now (mt_meters t)\<rparr>;
        (_, t2) \<leftarrow> AudioThread_publishPacket env now unixTimestamp
          \<lparr>totalSegmentsNum = 0, playbackNo = 0, pairedSequenceNo = 0, paritySegmentsNum = 0, crcValue = 0\<rparr> t1;
        no \<leftarrow> i32 (mt_packetNo t2 + 1);
        Some (t2\<lparr>at_adata := Audio_clear (at_adata t2), mt_packetNo := no\<rparr>)
      }
      else Some t)"

definition publish_audio ::
    "publish_env \<Rightarrow> int \<Rightarrow> u64 \<Rightarrow> AudioPacket \<Rightarrow> audio_thread \<Rightarrow> audio_thread option" where
  "publish_audio env now unixTimestamp packet t = do {
     t1 \<leftarrow> flush_bundle env now unixTimestamp packet t;
     ad \<leftarrow> addPacket packet (at_adata t1);
     Some (t1\<lparr>at_adata := ad\<rparr>)
   }"

definition publishRTPAudioPacket ::
    "publish_env \<Rightarrow> int \<Rightarrow> u64 \<Rightarrow> bytes \<Rightarrow> audio_thread \<Rightarrow> (int \<times> audio_thread) option" where
  "publishRTPAudioPacket env now unixTimestamp d t =
     map_option (Pair 0) (publish_audio env now unixTimestamp \<lparr>ap_isRTCP = False, ap_data = d\<rparr> t)"

definition publishRTCPAudioPacket ::
    "publish_env \<Rightarrow> int \<Rightarrow> u64 \<Rightarrow> bytes \<Rightarrow> audio_thread \<Rightarrow> (int \<times> audio_thread) option" where
  "publishRTCPAudioPacket env now unixTimestamp d t =
     map_option (Pair 0) (publish_audio env now unixTimestamp \<lparr>ap_isRTCP = True, ap_data = d\<rparr> t)"

end
