(* ===== verification/Publishing.thy ===== *)
theory Publishing
  imports Media_Thread Media_Names Slot_Assembly
begin

text \<open>
  What publishing a packet hands to the network: one data packet per segment, named by the packet,
  the segment number and the metadata; which of them answer pending interests; and that the
  consumer's naming functions and slots read from these packets what the producer put in. The
  lemmas assume an environment in which no call of the libraries throws.
\<close>

section \<open>Names of published data\<close>

definition published_name :: "component list \<Rightarrow> string \<Rightarrow> u32 \<Rightarrow> bool \<Rightarrow> u64 \<Rightarrow> PrefixMetaInfo \<Rightarrow> name" where
  "published_name pre frames no parity seg meta =
     name_append_all (Media_Names.segment_name pre frames no parity seg)
       (components (PrefixMetaInfo_toName meta))"

lemma PrefixMetaInfo_components:
  "components (PrefixMetaInfo_toName meta) =
     map (\<lambda>v. componentFromInt (of_int v)) [totalSegmentsNum meta, playbackNo meta, pairedSequenceNo meta,
       paritySegmentsNum meta, crcValue meta]"
  by (simp add: PrefixMetaInfo_toName_def name_set_Nil name_append_def Let_def)

lemma published_name_eq:
  "published_name pre frames no parity seg meta =
     Name (pre @ Component frames # componentFromInt no # Component (kind_word parity) #
       segment_component seg # components (PrefixMetaInfo_toName meta))"
  by (simp add: published_name_def Media_Names.segment_name_def name_append_all_eq)

lemma published_rest:
  assumes "frames_word frames" "uint seg < 2 ^ 30"
    and "c \<in> set (componentFromInt no # Component (kind_word parity) # segment_component seg #
      components (PrefixMetaInfo_toName meta))"
  shows "c \<noteq> Component frames" "\<not> sublist NameComponentStreamFramesDelta (esc c)"
    "\<not> parity \<Longrightarrow> \<not> sublist NameComponentFrameSegmentParity (esc c)"
proof -
  have "c \<in> set [componentFromInt no, Component (kind_word parity), segment_component seg] \<or>
      (\<exists>v. c = componentFromInt v)"
    using assms(3) by (auto simp: PrefixMetaInfo_components)
  moreover have n: "\<not> sublist w (esc (componentFromInt v))" if "w \<in> {frames, NameComponentStreamFramesDelta,
      NameComponentFrameSegmentParity}" for w v
    by (rule not_in_number) (use that assms(1) words_ok in \<open>auto simp: word_def frames_word_def\<close>)
  moreover have "esc (Component frames) = frames" using assms(1) by (auto simp: frames_word_def)
  ultimately show "c \<noteq> Component frames" "\<not> sublist NameComponentStreamFramesDelta (esc c)"
    using packet_rest_facts [OF assms(1,2), of no parity] by (metis insertCI sublist_order.order_refl)+
  show "\<not> sublist NameComponentFrameSegmentParity (esc c)" if "\<not> parity"
  proof -
    have "\<not> sublist NameComponentFrameSegmentParity (esc (segment_component seg))"
      by (rule not_in_segment [OF _ long_words(3) assms(2)]) (use words_ok in \<open>simp_all add: word_def\<close>)
    moreover have "\<not> sublist NameComponentFrameSegmentParity (esc (Component NameComponentFrameSegmentData))"
      using words_apart by simp
    ultimately show ?thesis using that assms(3) n by (auto simp: PrefixMetaInfo_components kind_word_def)
  qed
qed

lemma published_numbers:
  assumes "stream_path pre" "frames_word frames" "uint seg < 2 ^ 30" "uint no < 2 ^ 31"
  shows "getSegmentationNumbers (published_name pre frames no parity seg meta) = Some (uint no, uint seg)"
proof -
  let ?rest = "components (PrefixMetaInfo_toName meta)"
  have fc: "framesComponent (published_name pre frames no parity seg meta) = int (length pre)"
    unfolding published_name_eq
    by (rule framesComponent_stream [OF assms(1,2)]) (use published_rest [OF assms(2,3)] in blast)+
  have m: "fromNumberWithMarker seg (char_of (0 :: nat)) = Some (segment_component seg)"
    by (simp add: fromNumberWithMarker_eq segment_component_def)
  have "uint seg < 2 ^ 31" using assms(3) by simp
  from segmentation_numbers_at [OF fc stream_path_nonempty [OF assms(1)] published_name_eq assms(4) m this]
  show ?thesis by simp
qed

lemma published_not_parity:
  assumes "stream_path pre" "frames_word frames" "uint seg < 2 ^ 30"
  shows "\<not> isParitySegmentPrefix (published_name pre frames no False seg meta)"
proof
  let ?n = "published_name pre frames no False seg meta"
  assume "isParitySegmentPrefix ?n"
  then have "sublist ''/parity/'' (toUri ?n False)"
    unfolding find_sub_sublist [symmetric]
    by (simp add: isParitySegmentPrefix_def hasComponent_def NameComponentFrameSegmentParity_def)
  then obtain a b where "toUri ?n False = a @ ''/parity/'' @ b" by (auto simp: sublist_def)
  then have "toUri ?n False = (a @ ''/'') @ NameComponentFrameSegmentParity @ (''/'' @ b)"
    by (simp add: NameComponentFrameSegmentParity_def)
  then have "sublist NameComponentFrameSegmentParity (toUri ?n False)" by (metis sublist_appendI)
  moreover have "find_int NameComponentFrameSegmentParity (toUri ?n False) = -1"
    unfolding published_name_eq
    by (rule stream_words(5) [OF assms(1,2)]) (use published_rest(3) [OF assms(2,3)] in blast)
  ultimately show False by (simp add: find_int_sublist)
qed

definition meta_ok :: "PrefixMetaInfo \<Rightarrow> bool" where
  "meta_ok meta \<longleftrightarrow>
     (\<forall>f \<in> {totalSegmentsNum, playbackNo, pairedSequenceNo, paritySegmentsNum, crcValue}.
        0 \<le> f meta \<and> f meta < 2 ^ 31)"

lemma published_meta:
  assumes "meta_ok meta"
  shows "extractMetadata (published_name pre frames no parity seg meta) meta0 = Some (RESULT_OK, meta)"
  using extractMetadata_suffix [of meta "Media_Names.segment_name pre frames no parity seg"] assms
  by (simp add: published_name_def name_append_name_def meta_ok_def)

section \<open>Segments and pending interests\<close>

definition env_ok :: "'e publish_env_scheme \<Rightarrow> bool" where
  "env_ok env \<longleftrightarrow> en_connected env \<and> (\<forall>d. en_wireSize env d \<noteq> None) \<and> (\<forall>p. en_accepts env p) \<and>
     (\<forall>c. 0 \<le> en_checksum env c \<and> en_checksum env c < 2 ^ 16)"

text \<open>The name of an interest for the newest packet of a namespace.\<close>

definition stream_name :: "component list \<Rightarrow> string \<Rightarrow> name" where
  "stream_name pre frames = Name (pre @ [Component frames])"

definition no_interest :: SegmentMetaInfo where
  "no_interest = \<lparr>interestNonce = 0, interestArrivalMs = 0, generationDelayMs = 0\<rparr>"

text \<open>
  How segment \<open>k\<close> with its payload is published from the thread \<open>t\<close>: when an interest with the
  segment's name is pending, it goes to the transport with the nonce and the times of that
  interest; when neither this nor the interest for the newest packet is pending, it carries zeros
  and goes to the cache, if there is one.
\<close>

definition segment_published ::
    "'a media_thread_scheme \<Rightarrow> int \<Rightarrow> component list \<Rightarrow> string \<Rightarrow> u32 \<Rightarrow> bool \<Rightarrow> PrefixMetaInfo \<Rightarrow>
     nat \<Rightarrow> bytes \<Rightarrow> publication \<Rightarrow> bool" where
  "segment_published t now pre frames no parity meta k payload p \<longleftrightarrow>
     (\<exists>m. pub_data p = \<lparr>dp_name = published_name pre frames no parity (of_nat k) meta,
         dp_freshnessPeriod = ts_dataFreshnessMs (mt_settings t),
         dp_content = sd_data (new_SegmentData payload m)\<rparr> \<and>
       (case map_of (mt_pit t) (Media_Names.segment_name pre frames no parity (of_nat k)) of
          Some e \<Rightarrow> m = pit_meta now e \<and> p = Sent (pub_data p)
        | None \<Rightarrow> map_of (mt_pit t) (stream_name pre frames) = None \<longrightarrow>
            m = no_interest \<and> p = (if mt_memCache t then Cached (pub_data p) else Sent (pub_data p))))"

lemma trim_segment:
  assumes "stream_path pre" "frames_word frames" "uint seg < 2 ^ 30"
  shows "snd (trimPacketNumber (Media_Names.segment_name pre frames no parity seg)) = stream_name pre frames"
proof -
  let ?n = "Media_Names.segment_name pre frames no parity seg"
  have "framesComponent ?n = int (length pre)"
    unfolding Media_Names.segment_name_def using packet_rest_facts [OF assms(2,3)]
    by (intro framesComponent_stream [OF assms(1,2)]) auto
  moreover have "length pre < 2 ^ 32" "pre \<noteq> []"
    using assms(1) stream_path_nonempty by (auto simp: stream_path_def)
  moreover from this have "getSubName_n ?n (int 0) (of_nat (length pre + 1)) =
      Name (take (length pre + 1) (drop 0 (components ?n)))"
    by (intro getSubName_n_small) simp
  ultimately show ?thesis
    by (simp add: trimPacketNumber_def stream_name_def Media_Names.segment_name_def add.commute)
qed

lemma uint_segment:
  assumes "k < 2 ^ 30"
  shows "uint (of_nat k :: u64) = int k"
proof -
  have "k < 2 ^ 64" using assms by (rule less_le_trans) simp
  then have "unat (of_nat k :: u64) = k" by (rule unat_of_nat_u64)
  then show ?thesis by (metis of_nat_unat)
qed

lemma uint_segment_less: "k < 2 ^ 30 \<Longrightarrow> uint (of_nat k :: u64) < 2 ^ 30"
  unfolding uint_segment by (metis of_nat_less_iff of_nat_numeral of_nat_power)

lemma segment_name_inject:
  assumes "stream_path pre" "frames_word frames" "i < 2 ^ 30" "j < 2 ^ 30" "uint no < 2 ^ 31"
    "Media_Names.segment_name pre frames no parity (of_nat i) = Media_Names.segment_name pre frames no parity (of_nat j)"
  shows "i = j"
proof -
  have n: "getSegmentNumber (Media_Names.segment_name pre frames no parity (of_nat k)) = Some (int k)"
    if k: "k < 2 ^ 30" for k
    using segment_numbers(3) [OF assms(1,2) uint_segment_less [OF k] assms(5)] uint_segment [OF k] by metis
  from n [OF assms(3)] n [OF assms(4)] assms(6) show ?thesis by (metis of_nat_eq_iff option.inject)
qed

lemma segment_not_stream: "Media_Names.segment_name pre frames no parity seg \<noteq> stream_name pre frames"
  by (simp add: Media_Names.segment_name_def stream_name_def)

lemma lookup_result:
  assumes "snd (trimPacketNumber n) = st" "n \<noteq> st" "lookupPrefixInPit n now m0 t = (hit, m, t1)"
  shows "t1 = t\<lparr>mt_pit := mt_pit t1\<rparr>" "map_of (mt_pit t1) n = None"
    and "n' \<noteq> n \<Longrightarrow> n' \<noteq> st \<Longrightarrow> map_of (mt_pit t1) n' = map_of (mt_pit t) n'"
    and "map_of (mt_pit t) st = None \<Longrightarrow> map_of (mt_pit t1) st = None"
    and "map_of (mt_pit t) n = Some e \<Longrightarrow> hit = 1 \<and> m = pit_meta now e"
    and "map_of (mt_pit t) n = None \<Longrightarrow> map_of (mt_pit t) st = None \<Longrightarrow> hit = 0 \<and> m = m0"
proof -
  consider (own) e' where "map_of (mt_pit t) n = Some e'" "hit = 1" "m = pit_meta now e'"
      "t1 = t\<lparr>mt_pit := map_erase n (mt_pit t)\<rparr>"
    | (newest) "map_of (mt_pit t) n = None" "map_of (mt_pit t) st \<noteq> None"
      "t1 = t\<lparr>mt_pit := map_erase st (mt_pit t)\<rparr>"
    | (none) "map_of (mt_pit t) n = None" "map_of (mt_pit t) st = None" "hit = 0" "m = m0" "t1 = t"
    using assms(3) unfolding lookupPrefixInPit_def pit_key_def assms(1) Let_def
    by (cases "map_of (mt_pit t) n"; cases "map_of (mt_pit t) st") simp_all
  then have all: "t1 = t\<lparr>mt_pit := mt_pit t1\<rparr> \<and> map_of (mt_pit t1) n = None \<and>
    (\<forall>n'. n' \<noteq> n \<longrightarrow> n' \<noteq> st \<longrightarrow> map_of (mt_pit t1) n' = map_of (mt_pit t) n') \<and>
    (map_of (mt_pit t) st = None \<longrightarrow> map_of (mt_pit t1) st = None) \<and>
    (\<forall>e. map_of (mt_pit t) n = Some e \<longrightarrow> hit = 1 \<and> m = pit_meta now e) \<and>
    (map_of (mt_pit t) n = None \<longrightarrow> map_of (mt_pit t) st = None \<longrightarrow> hit = 0 \<and> m = m0)"
    by cases (use assms(2) in \<open>auto simp: map_of_erase\<close>)
  then show "t1 = t\<lparr>mt_pit := mt_pit t1\<rparr>" "map_of (mt_pit t1) n = None"
    "n' \<noteq> n \<Longrightarrow> n' \<noteq> st \<Longrightarrow> map_of (mt_pit t1) n' = map_of (mt_pit t) n'"
    "map_of (mt_pit t) st = None \<Longrightarrow> map_of (mt_pit t1) st = None"
    "map_of (mt_pit t) n = Some e \<Longrightarrow> hit = 1 \<and> m = pit_meta now e"
    "map_of (mt_pit t) n = None \<Longrightarrow> map_of (mt_pit t) st = None \<Longrightarrow> hit = 0 \<and> m = m0"
    by blast+
qed

lemma publish_segment_ok:
  fixes no :: u32 and parity :: bool
  assumes "env_ok env" "stream_path pre" "frames_word frames" "k < 2 ^ 30"
    and "sl_dataPtr s + sl_payloadSize s \<le> length buf"
  defines "nm \<equiv> Media_Names.segment_name pre frames no parity (of_nat k)"
  shows "\<exists>p t'. publish_segment env now (appendDataKind (packet_name pre frames no) parity)
      (PrefixMetaInfo_toName meta) buf (k, s) t = Some (True, t') \<and>
    t' = t\<lparr>mt_pit := mt_pit t', mt_meters := mt_meters t', mt_published := mt_published t @ [p]\<rparr> \<and>
    segment_published t now pre frames no parity meta k
      (take (sl_payloadSize s) (drop (sl_dataPtr s) buf)) p \<and>
    map_of (mt_pit t') nm = None \<and>
    (\<forall>n. n \<noteq> nm \<longrightarrow> n \<noteq> stream_name pre frames \<longrightarrow> map_of (mt_pit t') n = map_of (mt_pit t) n) \<and>
    (map_of (mt_pit t) (stream_name pre frames) = None \<longrightarrow> map_of (mt_pit t') (stream_name pre frames) = None)"
proof -
  have "uint (of_nat k :: u64) < 2 ^ 30" by (rule uint_segment_less [OF assms(4)])
  then have trim: "snd (trimPacketNumber nm) = stream_name pre frames"
    unfolding nm_def by (rule trim_segment [OF assms(2,3)])
  have rd: "mem_read buf (sl_dataPtr s) (sl_payloadSize s) = Some (take (sl_payloadSize s) (drop (sl_dataPtr s) buf))"
    using assms(5) by (simp add: mem_read_def)
  have ne: "nm \<noteq> stream_name pre frames" unfolding nm_def by (rule segment_not_stream)
  obtain hit m t1 where lk: "lookupPrefixInPit nm now no_interest t = (hit, m, t1)"
    by (metis prod_cases3)
  let ?d = "\<lparr>dp_name = published_name pre frames no parity (of_nat k) meta,
    dp_freshnessPeriod = ts_dataFreshnessMs (mt_settings t1),
    dp_content = sd_data (new_SegmentData (take (sl_payloadSize s) (drop (sl_dataPtr s) buf)) m)\<rparr>"
  let ?p = "if mt_memCache t1 \<and> \<not> (hit \<noteq> 0) then Cached ?d else Sent ?d"
  obtain w where w: "en_wireSize env ?d = Some w"
    using assms(1) unfolding env_ok_def by blast
  have app: "appendSegment (appendDataKind (packet_name pre frames no) parity) (of_nat k) = Some nm"
    unfolding nm_def by (rule append_segment)
  let ?t = "t1\<lparr>mt_published := mt_published t1 @ [?p],
    mt_meters := dataRateMeterMoreData (mt_dataRateMeter t1) w now (mt_meters t1)\<rparr>"
  have run: "publish_segment env now (appendDataKind (packet_name pre frames no) parity)
      (PrefixMetaInfo_toName meta) buf (k, s) t = Some (True, ?t)"
    using assms(1) app lk rd w
    by (simp add: publish_segment_def no_interest_def published_name_def nm_def Let_def env_ok_def)
  note lr = lookup_result [OF trim ne lk]
  have "t1 = t\<lparr>mt_pit := mt_pit t1\<rparr>" by (rule lr(1))
  then have same: "mt_settings t1 = mt_settings t" "mt_memCache t1 = mt_memCache t"
      "mt_published t1 = mt_published t"
      "t1\<lparr>mt_published := x, mt_meters := y\<rparr> = t\<lparr>mt_pit := mt_pit t1, mt_meters := y, mt_published := x\<rparr>" for x y
    by (metis media_thread.select_convs media_thread.update_convs media_thread.surjective)+
  have pd: "pub_data ?p = ?d" by simp
  have pub: "segment_published t now pre frames no parity meta k
      (take (sl_payloadSize s) (drop (sl_dataPtr s) buf)) ?p"
    unfolding segment_published_def pd nm_def [symmetric]
  proof (intro exI [of _ m] conjI)
    show "case map_of (mt_pit t) nm of
        Some e \<Rightarrow> m = pit_meta now e \<and> ?p = Sent ?d
      | None \<Rightarrow> map_of (mt_pit t) (stream_name pre frames) = None \<longrightarrow>
          m = no_interest \<and> ?p = (if mt_memCache t then Cached ?d else Sent ?d)"
      using lr(5,6) same(2) by (cases "map_of (mt_pit t) nm") auto
  qed (simp add: same)
  show ?thesis
    by (intro exI [of _ ?p] exI [of _ ?t] conjI run pub) (use lr(2-4) same in simp_all)
qed

lemma segment_published_later:
  assumes "segment_published t1 now pre frames no parity meta k payload p"
    "mt_settings t1 = mt_settings t" "mt_memCache t1 = mt_memCache t"
    "map_of (mt_pit t1) (Media_Names.segment_name pre frames no parity (of_nat k)) =
     map_of (mt_pit t) (Media_Names.segment_name pre frames no parity (of_nat k))"
    "map_of (mt_pit t) (stream_name pre frames) = None \<longrightarrow> map_of (mt_pit t1) (stream_name pre frames) = None"
  shows "segment_published t now pre frames no parity meta k payload p"
  using assms(1) unfolding segment_published_def assms(2-4)
  by (rule ex_forward) (use assms(5) in \<open>auto split: option.splits\<close>)

lemma publish_segments_ok:
  fixes no :: u32 and parity :: bool
  assumes "env_ok env" "stream_path pre" "frames_word frames" "uint no < 2 ^ 31"
    and "i + length segs \<le> 2 ^ 30" "\<forall>s \<in> set segs. sl_dataPtr s + sl_payloadSize s \<le> length buf"
  defines "nm \<equiv> \<lambda>k. Media_Names.segment_name pre frames no parity (of_nat k)"
  shows "\<exists>pubs t'. publish_segments env now (appendDataKind (packet_name pre frames no) parity)
      (PrefixMetaInfo_toName meta) buf (enumerate i segs) t = Some (True, t') \<and>
    t' = t\<lparr>mt_pit := mt_pit t', mt_meters := mt_meters t', mt_published := mt_published t @ pubs\<rparr> \<and>
    length pubs = length segs \<and>
    (\<forall>j < length segs. segment_published t now pre frames no parity meta (i + j)
      (take (sl_payloadSize (segs ! j)) (drop (sl_dataPtr (segs ! j)) buf)) (pubs ! j)) \<and>
    (\<forall>j < length segs. map_of (mt_pit t') (nm (i + j)) = None) \<and>
    (\<forall>n. (\<forall>j < length segs. n \<noteq> nm (i + j)) \<longrightarrow> n \<noteq> stream_name pre frames \<longrightarrow>
       map_of (mt_pit t') n = map_of (mt_pit t) n) \<and>
    (map_of (mt_pit t) (stream_name pre frames) = None \<longrightarrow> map_of (mt_pit t') (stream_name pre frames) = None)"
  using assms(5,6)
proof (induction segs arbitrary: i t)
  case Nil
  show ?case by (intro exI [of _ "[]"] exI [of _ t]) simp
next
  case (Cons s segs)
  have i: "i < 2 ^ 30" "Suc i + length segs \<le> 2 ^ 30" using Cons.prems(1) by simp_all
  obtain p t1 where p: "publish_segment env now (appendDataKind (packet_name pre frames no) parity)
      (PrefixMetaInfo_toName meta) buf (i, s) t = Some (True, t1)"
    "t1 = t\<lparr>mt_pit := mt_pit t1, mt_meters := mt_meters t1, mt_published := mt_published t @ [p]\<rparr>"
    "segment_published t now pre frames no parity meta i (take (sl_payloadSize s) (drop (sl_dataPtr s) buf)) p"
    "map_of (mt_pit t1) (nm i) = None"
    "\<forall>n. n \<noteq> nm i \<longrightarrow> n \<noteq> stream_name pre frames \<longrightarrow> map_of (mt_pit t1) n = map_of (mt_pit t) n"
    "map_of (mt_pit t) (stream_name pre frames) = None \<longrightarrow> map_of (mt_pit t1) (stream_name pre frames) = None"
    using publish_segment_ok [OF assms(1-3) i(1), of s buf now no parity meta t] Cons.prems(2)
    unfolding nm_def by auto
  obtain pubs t' where r: "publish_segments env now (appendDataKind (packet_name pre frames no) parity)
      (PrefixMetaInfo_toName meta) buf (enumerate (Suc i) segs) t1 = Some (True, t')"
    "t' = t1\<lparr>mt_pit := mt_pit t', mt_meters := mt_meters t', mt_published := mt_published t1 @ pubs\<rparr>"
    "length pubs = length segs"
    "\<forall>j < length segs. segment_published t1 now pre frames no parity meta (Suc i + j)
      (take (sl_payloadSize (segs ! j)) (drop (sl_dataPtr (segs ! j)) buf)) (pubs ! j)"
    "\<forall>j < length segs. map_of (mt_pit t') (nm (Suc i + j)) = None"
    "\<forall>n. (\<forall>j < length segs. n \<noteq> nm (Suc i + j)) \<longrightarrow> n \<noteq> stream_name pre frames \<longrightarrow>
       map_of (mt_pit t') n = map_of (mt_pit t1) n"
    "map_of (mt_pit t1) (stream_name pre frames) = None \<longrightarrow> map_of (mt_pit t') (stream_name pre frames) = None"
    using Cons.IH [OF i(2), of t1] Cons.prems(2) by auto
  have inj: "nm (Suc i + j) \<noteq> nm i" if "j < length segs" for j
  proof
    assume eq: "nm (Suc i + j) = nm i"
    have j: "Suc i + j < 2 ^ 30" using that i(2) by linarith
    from segment_name_inject [OF assms(2,3) j i(1) assms(4) eq [unfolded nm_def]] show False by simp
  qed
  have same: "mt_settings t1 = mt_settings t" "mt_memCache t1 = mt_memCache t"
      "mt_published t1 = mt_published t @ [p]"
    by (subst p(2), simp)+
  have t': "t' = t\<lparr>mt_pit := mt_pit t', mt_meters := mt_meters t', mt_published := mt_published t @ p # pubs\<rparr>"
    by (subst r(2), subst p(2)) (simp add: same)
  have first: "map_of (mt_pit t') (nm i) = None"
    using r(6) p(4) inj segment_not_stream unfolding nm_def by metis
  have pubs: "segment_published t now pre frames no parity meta (Suc i + j)
      (take (sl_payloadSize (segs ! j)) (drop (sl_dataPtr (segs ! j)) buf)) (pubs ! j)" if "j < length segs" for j
    by (rule segment_published_later [OF r(4) [rule_format, OF that] same(1,2) _ p(6)])
      (use p(5) inj [OF that] segment_not_stream in \<open>unfold nm_def, metis\<close>)
  show ?case
  proof (intro exI [of _ "p # pubs"] exI [of _ t'] conjI)
    show "publish_segments env now (appendDataKind (packet_name pre frames no) parity)
      (PrefixMetaInfo_toName meta) buf (enumerate i (s # segs)) t = Some (True, t')"
      using p(1) r(1) by simp
    show "\<forall>j < length (s # segs). segment_published t now pre frames no parity meta (i + j)
      (take (sl_payloadSize ((s # segs) ! j)) (drop (sl_dataPtr ((s # segs) ! j)) buf)) ((p # pubs) ! j)"
      using p(3) pubs by (auto simp: less_Suc_eq_0_disj)
    show "\<forall>j < length (s # segs). map_of (mt_pit t') (nm (i + j)) = None"
      using first r(5) by (auto simp: less_Suc_eq_0_disj)
    show "\<forall>n. (\<forall>j < length (s # segs). n \<noteq> nm (i + j)) \<longrightarrow> n \<noteq> stream_name pre frames \<longrightarrow>
       map_of (mt_pit t') n = map_of (mt_pit t) n"
    proof (intro allI impI)
      fix n assume n: "\<forall>j < length (s # segs). n \<noteq> nm (i + j)" "n \<noteq> stream_name pre frames"
      have "n \<noteq> nm i" "\<forall>j < length segs. n \<noteq> nm (Suc i + j)"
        using n(1) [rule_format, of 0] n(1) [rule_format, of "Suc _"] by simp_all
      with n(2) p(5) r(6) show "map_of (mt_pit t') n = map_of (mt_pit t) n" by simp
    qed
  qed (use t' r(3,7) p(6) in simp_all)
qed

section \<open>Packets\<close>

lemma segmentize_slices:
  assumes "0 < sz" "0 < len" "len \<le> length buf"
  shows "\<exists>segs. segmentize True len sz [] = Some (RESULT_OK, segs) \<and> length segs = ceil_div len sz \<and>
    (\<forall>s \<in> set segs. sl_dataPtr s + sl_payloadSize s \<le> length buf) \<and>
    (\<forall>j < length segs. take (sl_payloadSize (segs ! j)) (drop (sl_dataPtr (segs ! j)) buf) =
       take sz (drop (j * sz) (take len buf)))"
proof -
  let ?n = "ceil_div len sz"
  let ?lst = "if len div sz \<noteq> ?n then len - (len div sz) * sz else sz"
  let ?segs = "segmentize_loop ?n ?n sz ?lst 0"
  note sizes = segment_sizes [OF assms(1,2)]
  have s: "segmentize True len sz [] = Some (RESULT_OK, ?segs)"
    using assms(1) by (simp add: segmentize_def getSegmentsNum_def Let_def)
  have nth: "?segs ! j = \<lparr>sl_payloadSize = (if j = ?n - 1 then ?lst else sz), sl_dataPtr = j * sz\<rparr>"
    if "j < ?n" for j
    using segmentize_loop_nth [OF order_refl that] by simp
  have whole: "j * sz + sz \<le> len" if "j < ?n" "j \<noteq> ?n - 1" for j
  proof -
    have "Suc j * sz \<le> (?n - 1) * sz" using that by (intro mult_le_mono1) linarith
    then show ?thesis using sizes(1) by simp
  qed
  have one: "sl_dataPtr (?segs ! j) + sl_payloadSize (?segs ! j) \<le> length buf \<and>
      take (sl_payloadSize (?segs ! j)) (drop (sl_dataPtr (?segs ! j)) buf) =
      take sz (drop (j * sz) (take len buf))" if j: "j < ?n" for j
  proof (cases "j = ?n - 1")
    case True
    have p: "?segs ! j = \<lparr>sl_payloadSize = ?lst, sl_dataPtr = j * sz\<rparr>"
      unfolding nth [OF j] using True by simp
    have l: "j * sz + ?lst = len" using sizes(1) unfolding True .
    then have d: "len - j * sz = ?lst" by linarith
    have "take sz (drop (j * sz) (take len buf)) = take (min sz ?lst) (drop (j * sz) buf)"
      by (simp only: drop_take take_take d)
    also have "min sz ?lst = ?lst" using sizes(4) by (rule min_absorb2)
    finally show ?thesis unfolding p using l assms(3) by (simp only: segment_slice.select_convs)
  next
    case False
    have p: "?segs ! j = \<lparr>sl_payloadSize = sz, sl_dataPtr = j * sz\<rparr>"
      unfolding nth [OF j] using False by simp
    have "take sz (drop (j * sz) (take len buf)) = take (min sz (len - j * sz)) (drop (j * sz) buf)"
      by (simp only: drop_take take_take)
    also have "min sz (len - j * sz) = sz" using whole [OF j False] by simp
    finally show ?thesis unfolding p using whole [OF j False] assms(3) by simp
  qed
  show ?thesis
    by (intro exI [of _ ?segs] conjI s) (use one in \<open>auto simp: in_set_conv_nth\<close>)
qed

lemma slices_concat:
  assumes "0 < sz"
  shows "concat (map (\<lambda>j. take sz (drop (j * sz) xs)) [0 ..< ceil_div (length xs) sz]) = xs"
proof -
  have "concat (map (\<lambda>j. take sz (drop (j * sz) xs)) [0 ..< n]) = take (n * sz) xs" for n
    by (induction n) (simp_all add: add.commute flip: take_add)
  then show ?thesis using ceil_div_bounds(1) [OF assms, of "length xs"] by simp
qed

lemma map_of_erase_all: "map_of (fold map_erase ks m) k = (if k \<in> set ks then None else map_of m k)"
  by (induction ks arbitrary: m) (auto simp: map_of_erase)

lemma map_of_clean:
  "map_of (mt_pit (snd (cleanPitForFrame framePrefix t))) k =
     (if isPrefix k framePrefix then None else map_of (mt_pit t) k)"
proof (cases "map_of (mt_pit t) k")
  case None
  then show ?thesis by (simp add: cleanPitForFrame_def map_of_erase_all)
next
  case (Some e)
  then have "k \<in> fst ` set (mt_pit t)" using map_of_SomeD by force
  then show ?thesis by (simp add: cleanPitForFrame_def map_of_erase_all)
qed

definition packet_metadata :: "int \<Rightarrow> u64 \<Rightarrow> 'a media_thread_scheme \<Rightarrow> PacketMetadata" where
  "packet_metadata now captureTimestamp t =
     \<lparr>pm_packetRate = bits_of_double (currentFrequencyMeterValue (mt_packetRateMeter t) (mt_meters t)),
      pm_timestamp = of_int now, pm_unixTimestamp = captureTimestamp\<rparr>"

text \<open>The packet \<open>d'\<close> is \<open>d\<close> with its metadata; \<open>n\<close> segments of it are published.\<close>

lemma publishPacket_ok:
  fixes no :: u32 and parity :: bool and crc :: nat
  assumes "env_ok env" "stream_path pre" "frames_word frames" "uint no < 2 ^ 31"
    and "out_isValid d" "0 < out_length d" "out_length d \<le> length (out_data d')"
    and "out_setMetadata (packet_metadata now ts t) d = Some d'" "out_length d' = out_length d"
  defines "sz \<equiv> unat (mt_segSizeNoHeader t)" and "n \<equiv> ceil_div (out_length d) (unat (mt_segSizeNoHeader t))"
    and "buf \<equiv> take (out_length d) (out_data d')"
  defines "crc' \<equiv> en_crc env crc buf" and "nm \<equiv> \<lambda>k. Media_Names.segment_name pre frames no parity (of_nat k)"
    and "framePrefix \<equiv> appendDataKind (packet_name pre frames no) parity"
  assumes "0 < sz" "sz < 2 ^ 31" "n \<le> 2 ^ 30"
  shows "\<exists>pubs t'. MediaThread_publishPacket env now d crc framePrefix meta ts t = Some (int n, d', crc', t') \<and>
    t' = t\<lparr>mt_pit := mt_pit t', mt_meters := mt_meters t', mt_published := mt_published t @ pubs,
      mt_publishingTimestampMs := now\<rparr> \<and>
    length pubs = n \<and>
    (\<forall>j < n. segment_published t now pre frames no parity (meta\<lparr>crcValue := en_checksum env crc'\<rparr>) j
      (take sz (drop (j * sz) buf)) (pubs ! j)) \<and>
    (\<forall>j < n. map_of (mt_pit t') (nm j) = None) \<and>
    (\<forall>k. k \<noteq> stream_name pre frames \<longrightarrow> (\<forall>j < n. k \<noteq> nm j) \<longrightarrow>
      map_of (mt_pit t') k = (if isPrefix k framePrefix then None else map_of (mt_pit t) k))"
proof -
  let ?meta = "meta\<lparr>crcValue := en_checksum env crc'\<rparr>"
  obtain segs where segs: "segmentize True (out_length d) sz [] = Some (RESULT_OK, segs)" "length segs = n"
    "\<forall>s \<in> set segs. sl_dataPtr s + sl_payloadSize s \<le> length (out_data d')"
    "\<forall>j < length segs. take (sl_payloadSize (segs ! j)) (drop (sl_dataPtr (segs ! j)) (out_data d')) =
       take sz (drop (j * sz) buf)"
    using segmentize_slices [OF _ assms(6,7), of sz] assms(16) unfolding buf_def n_def sz_def by blast
  have bound: "0 + length segs \<le> 2 ^ 30" using segs(2) assms(18) by simp
  obtain pubs t1 where r: "publish_segments env now framePrefix (PrefixMetaInfo_toName ?meta) (out_data d')
      (enumerate 0 segs) t = Some (True, t1)"
    "t1 = t\<lparr>mt_pit := mt_pit t1, mt_meters := mt_meters t1, mt_published := mt_published t @ pubs\<rparr>"
    "length pubs = length segs"
    "\<forall>j < length segs. segment_published t now pre frames no parity ?meta (0 + j)
      (take (sl_payloadSize (segs ! j)) (drop (sl_dataPtr (segs ! j)) (out_data d'))) (pubs ! j)"
    "\<forall>j < length segs. map_of (mt_pit t1) (nm (0 + j)) = None"
    "\<forall>k. (\<forall>j < length segs. k \<noteq> nm (0 + j)) \<longrightarrow> k \<noteq> stream_name pre frames \<longrightarrow>
       map_of (mt_pit t1) k = map_of (mt_pit t) k"
    using publish_segments_ok [OF assms(1-4) bound segs(3), of now parity ?meta t]
    unfolding framePrefix_def nm_def by blast
  let ?t = "(snd (cleanPitForFrame framePrefix t1))\<lparr>mt_publishingTimestampMs := now\<rparr>"
  have "int (unat (mt_segSizeNoHeader t)) < int (2 ^ 31)"
    using assms(17) unfolding sz_def by (simp only: of_nat_less_iff)
  then have "uint (mt_segSizeNoHeader t) < 2 ^ 31" by simp
  moreover have "en_connected env" using assms(1) by (simp add: env_ok_def)
  ultimately have "MediaThread_publishPacket env now d crc framePrefix meta ts t = Some (int n, d', crc', ?t)"
    using assms(5,8,9) segs(1,2) r(1)
    by (simp add: MediaThread_publishPacket_def packet_metadata_def crc'_def buf_def sz_def
        cleanPitForFrame_def Let_def del: publish_segments.simps)
  moreover have "?t = t\<lparr>mt_pit := mt_pit ?t, mt_meters := mt_meters ?t, mt_published := mt_published t @ pubs,
      mt_publishingTimestampMs := now\<rparr>"
    by (subst r(2)) (simp add: cleanPitForFrame_def Let_def)
  moreover have "map_of (mt_pit ?t) k = (if isPrefix k framePrefix then None else map_of (mt_pit t1) k)" for k
    using map_of_clean [of framePrefix t1 k] by simp
  ultimately show ?thesis
    by (intro exI [of _ pubs] exI [of _ ?t] conjI) (use r(3-6) segs(2,4) in simp_all)
qed

end
