(* ===== verification/Video_Publishing.thy ===== *)
theory Video_Publishing
  imports Video_Thread Publishing
begin

text \<open>
  What the video thread publishes for an encoded frame: the numbers and the metadata in the names,
  the bytes in the segments, and the state it leaves; without forward error correction.
\<close>

lemma Frame_header_setMetadata:
  "mem_write (FrameDataHeader_bytes f m0 @ xs) 27 (PacketMetadata_bytes m) = Some (FrameDataHeader_bytes f m @ xs)"
proof -
  let ?a = "\<lambda>m. le_bytes 2 NDNRTC_FRAMEHDR_MRKR @ le_bytes 4 (unat (ei_encodedWidth f)) @
     le_bytes 4 (unat (ei_encodedHeight f)) @ le_bytes 4 (unat (ei_timeStamp f)) @
     le_bytes 8 (unat (ei_capture_time_ms f)) @ le_bytes 4 (unat (ei_frameType f)) @
     le_bytes 1 (if ei_completeFrame f then 1 else 0)"
  have h: "FrameDataHeader_bytes f m @ xs =
      ?a m @ PacketMetadata_bytes m @ le_bytes 2 NDNRTC_FRAMEBODY_MRKR @ xs" for m
    by (simp add: FrameDataHeader_bytes_def)
  have l: "length (?a m) = 27" for m by simp
  show ?thesis
    unfolding h by (simp add: mem_write_def)
qed

definition frame_meta :: "nat \<Rightarrow> bool \<Rightarrow> video_thread \<Rightarrow> PrefixMetaInfo" where
  "frame_meta n isKey t = \<lparr>totalSegmentsNum = int n, playbackNo = mt_packetNo t,
     pairedSequenceNo = (if isKey then vt_deltaFrameNo t else vt_keyFrameNo t),
     paritySegmentsNum = 0, crcValue = 0\<rparr>"

definition frames_of :: "bool \<Rightarrow> string" where
  "frames_of isKey = (if isKey then NameComponentStreamFramesKey else NameComponentStreamFramesDelta)"

definition number_of :: "bool \<Rightarrow> video_thread \<Rightarrow> int" where
  "number_of isKey t = (if isKey then vt_keyFrameNo t + 1 else vt_deltaFrameNo t)"

text \<open>A thread that is initialised for the stream path \<open>pre\<close>, with room in its counters.\<close>

definition encoder_ready :: "component list \<Rightarrow> video_thread \<Rightarrow> bool" where
  "encoder_ready pre t \<longleftrightarrow> stream_path pre \<and> \<not> vt_useFec t \<and>
     vt_deltaFramesPrefix t = Name (pre @ [Component NameComponentStreamFramesDelta]) \<and>
     vt_keyFramesPrefix t = Name (pre @ [Component NameComponentStreamFramesKey]) \<and>
     0 < unat (mt_segSizeNoHeader t) \<and> unat (mt_segSizeNoHeader t) < 2 ^ 31 \<and>
     -1 \<le> vt_keyFrameNo t \<and> 0 \<le> vt_deltaFrameNo t \<and> 0 \<le> vt_gopCount t \<and> 0 \<le> mt_packetNo t"

definition counters_below :: "int \<Rightarrow> video_thread \<Rightarrow> bool" where
  "counters_below b t \<longleftrightarrow>
     vt_keyFrameNo t < b \<and> vt_deltaFrameNo t < b \<and> vt_gopCount t < b \<and> mt_packetNo t < b"

definition segments_of :: "nat \<Rightarrow> EncodedImage \<Rightarrow> nat" where
  "segments_of sz img = ceil_div (length (ei_buffer img) + 53) sz"

definition frame_fits :: "nat \<Rightarrow> EncodedImage \<Rightarrow> bool" where
  "frame_fits sz img \<longleftrightarrow> segments_of sz img * sz < 2 ^ 32 \<and> segments_of sz img \<le> 2 ^ 30"

definition frame_bytes :: "EncodedImage \<Rightarrow> PacketMetadata \<Rightarrow> bytes" where
  "frame_bytes img m = FrameDataHeader_bytes img m @ ei_buffer img"

lemma segments_of_pos: "0 < sz \<Longrightarrow> 0 < segments_of sz img"
  using ceil_div_bounds(1) [of sz "length (ei_buffer img) + 53"]
  by (cases "ceil_div (length (ei_buffer img) + 53) sz") (simp_all add: segments_of_def)

lemma frames_word_of [simp]: "frames_word (frames_of isKey)"
  by (simp add: frames_of_def frames_word_def)

lemma uint_number: "0 \<le> n \<Longrightarrow> n < 2 ^ 31 \<Longrightarrow> uint (of_int n :: u32) = n"
  by (simp add: unsigned_of_int take_bit_int_eq_self)

definition counted :: "bool \<Rightarrow> int \<Rightarrow> video_thread \<Rightarrow> video_thread" where
  "counted isKey now t =
     (let t1 = t\<lparr>mt_meters := frequencyMeterTick (mt_packetRateMeter t) now (mt_meters t)\<rparr> in
      if isKey then t1\<lparr>vt_keyFrameNo := vt_keyFrameNo t + 1, vt_gopCount := 0\<rparr>
      else t1\<lparr>vt_gopCount := vt_gopCount t + 1\<rparr>)"

lemma count_frame_ok:
  assumes "encoder_ready pre t" "counters_below (2 ^ 31 - 1) t"
  shows "count_frame isKey (t\<lparr>mt_meters := frequencyMeterTick (mt_packetRateMeter t) now (mt_meters t)\<rparr>) =
    Some (counted isKey now t)"
  using assms by (simp add: count_frame_def counted_def encoder_ready_def counters_below_def i32_def)

lemma counted_simps [simp]:
  "mt_settings (counted isKey now t) = mt_settings t" "mt_memCache (counted isKey now t) = mt_memCache t"
  "mt_pit (counted isKey now t) = mt_pit t" "mt_published (counted isKey now t) = mt_published t"
  "mt_segSizeNoHeader (counted isKey now t) = mt_segSizeNoHeader t" "mt_packetNo (counted isKey now t) = mt_packetNo t"
  "vt_useFec (counted isKey now t) = vt_useFec t" "vt_deltaFrameNo (counted isKey now t) = vt_deltaFrameNo t"
  "vt_deltaFramesPrefix (counted isKey now t) = vt_deltaFramesPrefix t"
  "vt_keyFramesPrefix (counted isKey now t) = vt_keyFramesPrefix t"
  "vt_keyFrameNo (counted isKey now t) = (if isKey then vt_keyFrameNo t + 1 else vt_keyFrameNo t)"
  "vt_gopCount (counted isKey now t) = (if isKey then 0 else vt_gopCount t + 1)"
  by (simp_all add: counted_def Let_def)

text \<open>The state after a frame that was published without parity data.\<close>

lemma frame_published_ok:
  assumes "\<not> vt_useFec t" "0 \<le> vt_deltaFrameNo t" "0 \<le> mt_packetNo t"
    and "vt_deltaFrameNo t < 2 ^ 31 - 1" "mt_packetNo t < 2 ^ 31 - 1"
  shows "\<exists>mt. frame_published env now isKey d n pfx meta t =
    Some (t\<lparr>mt_meters := mt, mt_packetNo := mt_packetNo t + 1,
      vt_deltaFrameNo := (if isKey then vt_deltaFrameNo t else vt_deltaFrameNo t + 1)\<rparr>)"
  by (rule exI [of _ "meanEstimatorNewValue
      (if isKey then vt_keySegnumEstimatorId t else vt_deltaSegnumEstimatorId t) (d_of_int n) (mt_meters t)"])
    (use assms in \<open>cases t; simp add: frame_published_def i32_def\<close>)

text \<open>
  A frame is published: the names carry its number and metadata, the segments are the slices of its
  bytes, and the counters move on.
\<close>

lemma onEncodedFrameDelivered_ok:
  fixes env :: "'e video_env_scheme" and img :: EncodedImage and now :: int and ts :: u64
  assumes "env_ok env" "encoder_ready pre t" "counters_below (2 ^ 31 - 1) t"
    and "frame_fits (unat (mt_segSizeNoHeader t)) img"
  defines "sz \<equiv> unat (mt_segSizeNoHeader t)" and "isKey \<equiv> ei_frameType img = ve_kKeyFrame env"
  defines "n \<equiv> segments_of (unat (mt_segSizeNoHeader t)) img" and "t0 \<equiv> counted isKey now t"
  defines "buf \<equiv> frame_bytes img (packet_metadata now ts t0)"
  defines "meta \<equiv> (frame_meta n isKey t0)\<lparr>crcValue := en_checksum env (en_crc env 0 buf)\<rparr>"
  shows "\<exists>pubs t'. onEncodedFrameDelivered env now img ts t = Some t' \<and>
    mt_published t' = mt_published t @ pubs \<and> length pubs = n \<and>
    (\<forall>j < n. segment_published t now pre (frames_of isKey) (of_int (number_of isKey t)) False meta j
       (take sz (drop (j * sz) buf)) (pubs ! j)) \<and>
    encoder_ready pre t' \<and> mt_segSizeNoHeader t' = mt_segSizeNoHeader t \<and>
    vt_keyFrameNo t' = vt_keyFrameNo t + (if isKey then 1 else 0) \<and>
    vt_deltaFrameNo t' = vt_deltaFrameNo t + (if isKey then 0 else 1) \<and>
    vt_gopCount t' = (if isKey then 0 else vt_gopCount t + 1) \<and>
    mt_packetNo t' = mt_packetNo t + 1"
proof -
  have rd: "stream_path pre" "0 < sz" "sz < 2 ^ 31" "\<not> vt_useFec t" "0 \<le> vt_deltaFrameNo t" "0 \<le> mt_packetNo t"
      "-1 \<le> vt_keyFrameNo t" "0 \<le> vt_gopCount t"
    using assms(2) by (simp_all add: encoder_ready_def sz_def)
  have cb: "vt_keyFrameNo t < 2 ^ 31 - 1" "vt_deltaFrameNo t < 2 ^ 31 - 1"
      "vt_gopCount t < 2 ^ 31 - 1" "mt_packetNo t < 2 ^ 31 - 1"
    using assms(3) by (simp_all add: counters_below_def)
  have fit: "ceil_div (length (ei_buffer img) + 53) sz * sz < 2 ^ 32" "n \<le> 2 ^ 30"
    using assms(4) by (simp_all add: frame_fits_def segments_of_def n_def sz_def)
  obtain pad where fd: "Frame_initialize (ve_calcBufferSize env) img sz ZeroMetadata = Some
      \<lparr>fd_isValid = True, fd_length = length (ei_buffer img) + 53,
       fd_data = FrameDataHeader_bytes img ZeroMetadata @ ei_buffer img @ pad,
       fd_frame = Some (img\<lparr>ei_size := ve_calcBufferSize env (ei_encodedWidth img) (ei_encodedHeight img)\<rparr>)\<rparr>"
    (is "_ = Some ?fd")
    using Frame_initialize_data [OF rd(2) fit(1)] by blast
  let ?d = "OutFrame (?fd\<lparr>fd_data := FrameDataHeader_bytes img (packet_metadata now ts t0) @ ei_buffer img @ pad\<rparr>)"
  have set: "out_setMetadata (packet_metadata now ts t0) (OutFrame ?fd) = Some ?d"
    by (simp add: Frame_setMetadata_def Frame_header_setMetadata)
  have buf: "take (out_length (OutFrame ?fd)) (out_data ?d) = buf"
    by (simp add: buf_def frame_bytes_def)
  let ?no = "number_of isKey t"
  have no: "0 \<le> ?no" "?no < 2 ^ 31" using rd(5,7) cb(1,2) by (simp_all add: number_of_def)
  have uno: "uint (of_int ?no :: u32) < 2 ^ 31" using uint_number [OF no] no(2) by simp
  let ?pfx = "packet_name pre (frames_of isKey) (of_int ?no)"
  have n: "ceil_div (out_length (OutFrame ?fd)) sz = n"
    by (simp add: n_def segments_of_def sz_def)
  have sz0: "unat (mt_segSizeNoHeader t0) = sz" by (simp add: t0_def sz_def)
  have env: "env_ok (publish_env.truncate env)" using assms(1) by (simp add: env_ok_def publish_env.defs)
  have v: "out_isValid (OutFrame ?fd)" "0 < out_length (OutFrame ?fd)"
      "out_length (OutFrame ?fd) \<le> length (out_data ?d)" "out_length ?d = out_length (OutFrame ?fd)"
    by simp_all
  have te: "en_crc (publish_env.truncate env) = en_crc env" "en_checksum (publish_env.truncate env) = en_checksum env"
    by (simp_all add: publish_env.defs)
  note pp = publishPacket_ok [OF env rd(1) frames_word_of [of isKey] uno v(1-3) set v(4), where crc = 0 and parity = False
      and meta = "frame_meta n isKey t0", unfolded sz0, unfolded n buf te, folded meta_def, OF rd(2,3) fit(2)]
  obtain pubs t1 where pub: "MediaThread_publishPacket (publish_env.truncate env) now (OutFrame ?fd) 0
      (appendDataKind ?pfx False) (frame_meta n isKey t0) ts t0 = Some (int n, ?d, en_crc env 0 buf, t1)"
    "t1 = t0\<lparr>mt_pit := mt_pit t1, mt_meters := mt_meters t1, mt_published := mt_published t0 @ pubs,
      mt_publishingTimestampMs := now\<rparr>"
    "length pubs = n"
    "\<forall>j < n. segment_published t0 now pre (frames_of isKey) (of_int ?no) False meta j
       (take sz (drop (j * sz) buf)) (pubs ! j)"
    using pp by blast
  have same: "vt_useFec t1 = vt_useFec t" "vt_deltaFrameNo t1 = vt_deltaFrameNo t"
      "vt_keyFrameNo t1 = vt_keyFrameNo t0" "vt_gopCount t1 = vt_gopCount t0" "mt_packetNo t1 = mt_packetNo t"
      "mt_segSizeNoHeader t1 = mt_segSizeNoHeader t" "vt_deltaFramesPrefix t1 = vt_deltaFramesPrefix t"
      "vt_keyFramesPrefix t1 = vt_keyFramesPrefix t" "mt_published t1 = mt_published t @ pubs"
    by (subst pub(2), simp add: t0_def)+
  obtain mt where after: "frame_published env now isKey ?d (int n) ?pfx (frame_meta n isKey t0) t1 =
      Some (t1\<lparr>mt_meters := mt, mt_packetNo := mt_packetNo t1 + 1,
        vt_deltaFrameNo := (if isKey then vt_deltaFrameNo t1 else vt_deltaFrameNo t1 + 1)\<rparr>)"
    using frame_published_ok [of t1 env now isKey] same(1,2,5) rd(4-6) cb(2,4) by metis
  have pos: "0 < n" unfolding n_def by (rule segments_of_pos) (use rd(2) in \<open>simp add: sz_def\<close>)
  have pfx: "name_append (if isKey then vt_keyFramesPrefix t0 else vt_deltaFramesPrefix t0)
      (componentFromInt (of_int (if isKey then vt_keyFrameNo t0 else vt_deltaFrameNo t0))) = ?pfx"
    using assms(2) by (simp add: t0_def encoder_ready_def packet_name_def frames_of_def name_append_def number_of_def)
  have dk: "name_append ?pfx (Component NameComponentFrameSegmentData) = appendDataKind ?pfx False"
    by (simp add: appendDataKind_def appendStringComponent_def)
  have cnt: "getSegmentsNum (fd_length ?fd) sz = n"
    by (simp add: getSegmentsNum_def n_def segments_of_def sz_def)
  have meta: "\<lparr>totalSegmentsNum = int n, playbackNo = mt_packetNo t0,
      pairedSequenceNo = (if isKey then vt_deltaFrameNo t0 else vt_keyFrameNo t0),
      paritySegmentsNum = uint (0 :: u32), crcValue = 0\<rparr> = frame_meta n isKey t0"
    by (simp add: frame_meta_def)
  have nofec: "vt_useFec t0 = False" using rd(4) by (simp add: t0_def)
  let ?t2 = "t1\<lparr>mt_meters := mt, mt_packetNo := mt_packetNo t1 + 1,
    vt_deltaFrameNo := (if isKey then vt_deltaFrameNo t1 else vt_deltaFrameNo t1 + 1)\<rparr>"
  have run: "onEncodedFrameDelivered env now img ts t = Some ?t2"
    unfolding onEncodedFrameDelivered_def isKey_def [symmetric] Let_def
      count_frame_ok [OF assms(2,3), of isKey now, folded t0_def] bind.bind_lunit sz0 pfx dk nofec if_False
      fd cnt meta pub(1) after prod.case
    using pos after by simp
  have sp: "segment_published t0 = segment_published t"
    by (intro ext) (simp only: segment_published_def t0_def counted_simps)
  have "encoder_ready pre ?t2" using same rd assms(2) by (auto simp: encoder_ready_def t0_def)
  then show ?thesis
    by (intro exI [of _ pubs] exI [of _ ?t2] conjI run)
      (use same pub(3) pub(4) [unfolded sp] in \<open>simp_all add: t0_def\<close>)
qed

text \<open>Without a connection nothing is published, but a key frame still takes its number: the counter
  moves before the packet is handed over.\<close>

lemma unconnected_frame_takes_number:
  assumes "\<not> en_connected env" "encoder_ready pre t" "counters_below (2 ^ 31 - 1) t"
    and "frame_fits (unat (mt_segSizeNoHeader t)) img"
  shows "onEncodedFrameDelivered env now img ts t = Some (counted (ei_frameType img = ve_kKeyFrame env) now t)"
proof -
  have sz: "0 < unat (mt_segSizeNoHeader t)" "ceil_div (length (ei_buffer img) + 53) (unat (mt_segSizeNoHeader t)) *
      unat (mt_segSizeNoHeader t) < 2 ^ 32" "\<not> vt_useFec t"
    using assms(2,4) by (simp_all add: encoder_ready_def frame_fits_def segments_of_def)
  obtain fd where fd: "Frame_initialize (ve_calcBufferSize env) img (unat (mt_segSizeNoHeader t)) ZeroMetadata = Some fd"
    using Frame_initialize_data [OF sz(1,2)] by blast
  have nc: "MediaThread_publishPacket (publish_env.truncate env) now d crc p m ts t' = Some (-1, d, crc, t')"
    for d crc p m t'
    using assms(1) by (simp add: MediaThread_publishPacket_def publish_env.defs)
  show ?thesis
    unfolding onEncodedFrameDelivered_def Let_def count_frame_ok [OF assms(2,3)] bind.bind_lunit nc
    using fd sz(3) by simp
qed

end
