(* ===== verification/Audio_Publishing.thy ===== *)
theory Audio_Publishing
  imports Audio_Thread Publishing
begin

text \<open>
  What the audio thread publishes for a sequence of RTP and RTCP packets: bundles that fit one
  segment each, with consecutive numbers, whose contents are the packets in their order.
\<close>

lemma Audio_header_setMetadata:
  "mem_write (AudioDataHeader_bytes n m0 @ xs) 3 (PacketMetadata_bytes m) = Some (AudioDataHeader_bytes n m @ xs)"
proof -
  have h: "AudioDataHeader_bytes n m @ xs = (le_bytes 2 NDNRTC_AUDIOHDR_MRKR @ le_bytes 1 n) @
      PacketMetadata_bytes m @ le_bytes 2 NDNRTC_AUDIOBODY_MRKR @ xs" for m
    by (simp add: AudioDataHeader_bytes_def)
  show ?thesis unfolding h by (simp add: mem_write_def)
qed

definition deliver_audio ::
    "publish_env \<Rightarrow> int \<times> u64 \<times> AudioPacket \<Rightarrow> audio_thread \<Rightarrow> audio_thread option" where
  "deliver_audio env e t =
     (case e of (now, unixTimestamp, p) \<Rightarrow>
        map_option snd
          ((if ap_isRTCP p then publishRTCPAudioPacket else publishRTPAudioPacket)
             env now unixTimestamp (ap_data p) t))"

lemma deliver_audio_eq: "deliver_audio env (now, ut, p) t = publish_audio env now ut p t"
proof -
  have "map_option (snd \<circ> Pair (0 :: int)) = (\<lambda>x. x :: audio_thread option)"
    by (intro ext) (simp add: option.map_ident comp_def)
  then show ?thesis
    by (cases p) (simp add: deliver_audio_def publishRTCPAudioPacket_def publishRTPAudioPacket_def option.map_comp)
qed

definition bundle_size :: "AudioPacket list \<Rightarrow> nat" where
  "bundle_size ps = AudioDataHeader_size + sum_list (map AudioPacket_getLength ps)"

definition bundle_bytes :: "AudioPacket list \<Rightarrow> PacketMetadata \<Rightarrow> bytes" where
  "bundle_bytes ps m = AudioDataHeader_bytes (length ps) m @ concat (map AudioPacket_bytes ps)"

lemma length_bundle_bytes [simp]: "length (bundle_bytes ps m) = bundle_size ps"
proof -
  have "length (concat (map AudioPacket_bytes ps)) = sum_list (map AudioPacket_getLength ps)"
    by (induction ps) simp_all
  then show ?thesis by (simp add: bundle_bytes_def bundle_size_def AudioDataHeader_fields(1) AudioDataHeader_size_def)
qed

text \<open>A thread that is initialised for the stream path \<open>pre\<close> and holds the packets \<open>ps\<close>.\<close>

definition audio_ready :: "component list \<Rightarrow> AudioPacket list \<Rightarrow> audio_thread \<Rightarrow> bool" where
  "audio_ready pre ps t \<longleftrightarrow> stream_path pre \<and>
     at_rtpPacketPrefix t = Name (pre @ [Component NameComponentStreamFramesDelta]) \<and>
     0 < unat (mt_segSizeNoHeader t) \<and> unat (mt_segSizeNoHeader t) < 2 ^ 31 \<and> 0 \<le> mt_packetNo t \<and>
     audio_bundle ps = Some (at_adata t) \<and> (ps \<noteq> [] \<longrightarrow> bundle_size ps \<le> unat (mt_segSizeNoHeader t))"

text \<open>A published bundle: its number in the name and its packets in the segment.\<close>

definition bundle_published :: "component list \<Rightarrow> int \<Rightarrow> AudioPacket list \<Rightarrow> publication \<Rightarrow> bool" where
  "bundle_published pre no ps p \<longleftrightarrow>
     (\<exists>meta m sm. totalSegmentsNum meta = 1 \<and> playbackNo meta = no \<and>
        dp_name (pub_data p) = published_name pre NameComponentStreamFramesDelta (of_int no) False 0 meta \<and>
        dp_content (pub_data p) = sd_data (new_SegmentData (bundle_bytes ps m) sm))"

lemma bundle_held:
  assumes "audio_ready pre ps t" "ps \<noteq> []"
  shows "at_adata t = \<lparr>ad_isValid = True, ad_length = bundle_size ps, ad_data = bundle_bytes ps ZeroMetadata,
    ad_packets = audio_refs AudioDataHeader_size ps\<rparr>"
proof -
  have "bundle_size ps < 2 ^ 32" using assms by (simp add: audio_ready_def)
  then show ?thesis
    using audio_bundle_state [OF assms(2)] assms(1) by (simp add: audio_ready_def bundle_size_def bundle_bytes_def)
qed

lemma ceil_div_one: "0 < a \<Longrightarrow> a \<le> b \<Longrightarrow> ceil_div a b = 1"
  unfolding ceil_div_def by (rule div_nat_eqI) simp_all

lemma publish_bundle_ok:
  assumes "env_ok env" "audio_ready pre ps t" "ps \<noteq> []" "mt_packetNo t < 2 ^ 31"
  shows "\<exists>r p t'. AudioThread_publishPacket env now ut
      \<lparr>totalSegmentsNum = 0, playbackNo = 0, pairedSequenceNo = 0, paritySegmentsNum = 0, crcValue = 0\<rparr> t = Some (r, t') \<and>
    mt_published t' = mt_published t @ [p] \<and> bundle_published pre (mt_packetNo t) ps p \<and>
    mt_packetNo t' = mt_packetNo t \<and> mt_segSizeNoHeader t' = mt_segSizeNoHeader t \<and>
    at_rtpPacketPrefix t' = at_rtpPacketPrefix t"
proof -
  let ?sz = "unat (mt_segSizeNoHeader t)" and ?no = "mt_packetNo t"
  let ?m = "packet_metadata now ut t"
  let ?d = "OutAudio (at_adata t)" and ?d' = "OutAudio ((at_adata t)\<lparr>ad_data := bundle_bytes ps ?m\<rparr>)"
  let ?meta = "\<lparr>totalSegmentsNum = 1, playbackNo = ?no, pairedSequenceNo = 0, paritySegmentsNum = 0, crcValue = 0\<rparr>"
  let ?pfx = "packet_name pre NameComponentStreamFramesDelta (of_int ?no)"
  note held = bundle_held [OF assms(2,3)]
  have rd: "stream_path pre" "0 < ?sz" "?sz < 2 ^ 31" "0 \<le> ?no" "bundle_size ps \<le> ?sz"
    "at_rtpPacketPrefix t = Name (pre @ [Component NameComponentStreamFramesDelta])"
    using assms(2,3) by (simp_all add: audio_ready_def)
  have uno: "uint (of_int ?no :: u32) < 2 ^ 31"
    using rd(4) assms(4) by (simp add: unsigned_of_int take_bit_int_eq_self)
  have one: "ceil_div (bundle_size ps) ?sz = 1"
    by (rule ceil_div_one [OF _ rd(5)]) (simp add: bundle_size_def AudioDataHeader_size_def)
  have set: "out_setMetadata ?m ?d = Some ?d'"
    by (simp add: held Audio_setMetadata_def bundle_bytes_def Audio_header_setMetadata)
  have v: "out_isValid ?d" "0 < out_length ?d" "out_length ?d \<le> length (out_data ?d')" "out_length ?d' = out_length ?d"
    by (simp_all add: held bundle_size_def AudioDataHeader_size_def)
  have len: "out_length ?d = bundle_size ps" by (simp add: held)
  have fw: "frames_word NameComponentStreamFramesDelta" by (simp add: frames_word_def)
  have "(1 :: nat) \<le> 2 ^ 30" by simp
  note pp = publishPacket_ok [OF assms(1) rd(1) fw uno v(1-3) set v(4), where crc = "at_crc t" and parity = False
      and meta = ?meta, unfolded len one, OF rd(2,3) this]
  obtain pubs t' crc' checksum where r: "MediaThread_publishPacket env now ?d (at_crc t) (appendDataKind ?pfx False) ?meta ut t =
      Some (int 1, ?d', crc', t')"
    "t' = t\<lparr>mt_pit := mt_pit t', mt_meters := mt_meters t', mt_published := mt_published t @ pubs,
      mt_publishingTimestampMs := now\<rparr>"
    "length pubs = 1"
    "segment_published t now pre NameComponentStreamFramesDelta (of_int ?no) False (?meta\<lparr>crcValue := checksum\<rparr>) 0
      (take ?sz (drop (0 * ?sz) (take (bundle_size ps) (out_data ?d')))) (pubs ! 0)"
    using pp by blast
  obtain p where p: "pubs = [p]" using r(3) by (auto simp: length_Suc_conv)
  have same: "mt_published t' = mt_published t @ [p]" "mt_packetNo t' = ?no" "mt_segSizeNoHeader t' = mt_segSizeNoHeader t"
    "at_rtpPacketPrefix t' = at_rtpPacketPrefix t"
    by (subst r(2), simp add: p)+
  have slice: "take ?sz (drop (0 * ?sz) (take (bundle_size ps) (out_data ?d'))) = bundle_bytes ps ?m"
    using rd(5) by simp
  obtain sm where "pub_data p = \<lparr>dp_name = published_name pre NameComponentStreamFramesDelta (of_int ?no) False (of_nat 0)
        (?meta\<lparr>crcValue := checksum\<rparr>), dp_freshnessPeriod = ts_dataFreshnessMs (mt_settings t),
      dp_content = sd_data (new_SegmentData (bundle_bytes ps ?m) sm)\<rparr>"
    using r(4) unfolding segment_published_def slice p by auto
  then have "bundle_published pre ?no ps p"
    unfolding bundle_published_def
    by (intro exI [of _ "?meta\<lparr>crcValue := checksum\<rparr>"] exI [of _ ?m] exI [of _ sm]) simp
  moreover have "AudioThread_publishPacket env now ut
      \<lparr>totalSegmentsNum = 0, playbackNo = 0, pairedSequenceNo = 0, paritySegmentsNum = 0, crcValue = 0\<rparr> t =
      Some (int 1, t'\<lparr>at_adata := (at_adata t)\<lparr>ad_data := bundle_bytes ps ?m\<rparr>, at_crc := crc'\<rparr>)"
  proof -
    have nz: "mt_segSizeNoHeader t \<noteq> 0" using rd(2) by auto
    have nm: "name_append (at_rtpPacketPrefix t) (componentFromInt (of_int ?no)) = ?pfx"
      by (simp add: rd(6) name_append_def packet_name_def)
    have "int (getSegmentsNum (ad_length (at_adata t)) ?sz) = 1"
      using one by (simp add: getSegmentsNum_def held)
    then show ?thesis
      unfolding AudioThread_publishPacket_def Let_def nm using nz r(1) by simp
  qed
  ultimately show ?thesis using same
    by (intro exI [of _ "int 1"] exI [of _ p]
        exI [of _ "t'\<lparr>at_adata := (at_adata t)\<lparr>ad_data := bundle_bytes ps ?m\<rparr>, at_crc := crc'\<rparr>"]) simp
qed

lemma bundle_snoc:
  assumes "audio_bundle ps = Some ad" "bundle_size (ps @ [p]) < 2 ^ 32"
  shows "\<exists>ad'. addPacket p ad = Some ad' \<and> audio_bundle (ps @ [p]) = Some ad'"
proof -
  have "audio_bundle (ps @ [p]) = addPacket p ad"
    using assms(1) by (cases "addPacket p ad") (simp_all add: audio_bundle_def ofold_append)
  moreover have "audio_bundle (ps @ [p]) \<noteq> None"
    using audio_bundle_state [of "ps @ [p]"] assms(2) by (simp add: bundle_size_def)
  ultimately show ?thesis by auto
qed

lemma bundle_single:
  assumes "bundle_size [p] < 2 ^ 32"
  shows "\<exists>ad'. addPacket p (Audio_clear ad) = Some ad' \<and> audio_bundle [p] = Some ad'"
proof -
  have "Audio_clear ad = new_NdnAudioData"
    by (cases ad) (simp add: Audio_clear_def new_NdnAudioData_def)
  then show ?thesis using bundle_snoc [of "[]" new_NdnAudioData p] assms by (simp add: audio_bundle_def)
qed

text \<open>One packet: either it joins the bundle, or the bundle is published and it starts the next.\<close>

lemma publish_audio_ok:
  assumes "env_ok env" "audio_ready pre ps t" "mt_packetNo t < 2 ^ 31 - 1"
    and "bundle_size [p] \<le> unat (mt_segSizeNoHeader t)"
  shows "\<exists>t'. publish_audio env now ut p t = Some t' \<and> mt_segSizeNoHeader t' = mt_segSizeNoHeader t \<and>
    (audio_ready pre (ps @ [p]) t' \<and> mt_published t' = mt_published t \<and> mt_packetNo t' = mt_packetNo t \<or>
     ps \<noteq> [] \<and> audio_ready pre [p] t' \<and> mt_packetNo t' = mt_packetNo t + 1 \<and>
     (\<exists>q. mt_published t' = mt_published t @ [q] \<and> bundle_published pre (mt_packetNo t) ps q))"
proof -
  let ?sz = "unat (mt_segSizeNoHeader t)"
  have rd: "?sz < 2 ^ 31" "audio_bundle ps = Some (at_adata t)" "0 \<le> mt_packetNo t"
    using assms(2) by (simp_all add: audio_ready_def)
  have single: "bundle_size [p] < 2 ^ 32" using assms(4) rd(1) by simp
  have len: "ad_length (at_adata t) = (if ps = [] then 0 else bundle_size ps)"
  proof (cases "ps = []")
    case True
    then have "at_adata t = new_NdnAudioData" using rd(2) by (simp add: audio_bundle_def)
    with True show ?thesis by (simp add: new_NdnAudioData_def)
  qed (simp add: bundle_held [OF assms(2)])
  have p: "AudioPacket_getLength p < ?sz" using assms(4) by (simp add: bundle_size_def AudioDataHeader_size_def)
  have small: "ad_length (at_adata t) + AudioPacket_getLength p < 2 ^ 32"
  proof -
    have "ad_length (at_adata t) \<le> ?sz" using len assms(2) by (simp add: audio_ready_def)
    then show ?thesis using p rd(1) by simp
  qed
  show ?thesis
  proof (cases "ad_length (at_adata t) + AudioPacket_getLength p > ?sz")
    case True
    then have ne: "ps \<noteq> []" using len p by auto
    let ?t = "t\<lparr>mt_meters := frequencyMeterTick (mt_packetRateMeter t) now (mt_meters t)\<rparr>"
    have "audio_ready pre ps ?t" "mt_packetNo ?t < 2 ^ 31" using assms(2,3) by (simp_all add: audio_ready_def)
    from publish_bundle_ok [OF assms(1) this(1) ne this(2), of now ut]
    obtain r q t' where r: "AudioThread_publishPacket env now ut
        \<lparr>totalSegmentsNum = 0, playbackNo = 0, pairedSequenceNo = 0, paritySegmentsNum = 0, crcValue = 0\<rparr> ?t = Some (r, t')"
      "mt_published t' = mt_published t @ [q]" "bundle_published pre (mt_packetNo t) ps q" "mt_packetNo t' = mt_packetNo t"
      "mt_segSizeNoHeader t' = mt_segSizeNoHeader t" "at_rtpPacketPrefix t' = at_rtpPacketPrefix t"
      by auto
    obtain ad' where ad': "addPacket p (Audio_clear (at_adata t')) = Some ad'" "audio_bundle [p] = Some ad'"
      using bundle_single [OF single] by blast
    have "publish_audio env now ut p t = Some (t'\<lparr>at_adata := ad', mt_packetNo := mt_packetNo t + 1\<rparr>)"
      using True small r(1,4) ad'(1) rd(3) assms(3) by (simp add: publish_audio_def flush_bundle_def Let_def i32_def)
    moreover have "audio_ready pre [p] (t'\<lparr>at_adata := ad', mt_packetNo := mt_packetNo t + 1\<rparr>)"
      using assms(2,4) r(5,6) ad'(2) by (simp add: audio_ready_def)
    ultimately show ?thesis using ne r by auto
  next
    case False
    then have fits: "ps \<noteq> [] \<longrightarrow> bundle_size (ps @ [p]) \<le> ?sz"
      using len by (auto simp: bundle_size_def add.assoc)
    then have all: "bundle_size (ps @ [p]) \<le> ?sz" using assms(4) by (cases "ps = []") simp_all
    then have "bundle_size (ps @ [p]) < 2 ^ 32" using rd(1) by simp
    then obtain ad' where ad': "addPacket p (at_adata t) = Some ad'" "audio_bundle (ps @ [p]) = Some ad'"
      using bundle_snoc [OF rd(2)] by blast
    have "publish_audio env now ut p t = Some (t\<lparr>at_adata := ad'\<rparr>)"
      using False small ad'(1) by (simp add: publish_audio_def flush_bundle_def)
    moreover have "audio_ready pre (ps @ [p]) (t\<lparr>at_adata := ad'\<rparr>)"
      using assms(2) all ad'(2) by (simp add: audio_ready_def)
    ultimately show ?thesis by auto
  qed
qed

definition audio_all :: "publish_env \<Rightarrow> (int \<times> u64 \<times> AudioPacket) list \<Rightarrow> audio_thread \<Rightarrow> audio_thread option" where
  "audio_all env es t = ofold (deliver_audio env) es t"

lemma audio_all_ok:
  assumes "env_ok env" "audio_ready pre ps t" "mt_packetNo t + int (length es) < 2 ^ 31"
    and "\<forall>e \<in> set es. bundle_size [snd (snd e)] \<le> unat (mt_segSizeNoHeader t)"
  shows "\<exists>bundles rest pubs t'. audio_all env es t = Some t' \<and>
    concat bundles @ rest = ps @ map (snd \<circ> snd) es \<and> [] \<notin> set bundles \<and>
    audio_ready pre rest t' \<and> mt_published t' = mt_published t @ pubs \<and> length pubs = length bundles \<and>
    mt_packetNo t' = mt_packetNo t + int (length bundles) \<and>
    (\<forall>i < length bundles. bundle_published pre (mt_packetNo t + int i) (bundles ! i) (pubs ! i))"
  using assms(2-4)
proof (induction es arbitrary: ps t)
  case Nil
  then show ?case
    by (intro exI [of _ "[]"] exI [of _ ps] exI [of _ t]) (simp add: audio_all_def)
next
  case (Cons e es)
  obtain now ut p where e: "e = (now, ut, p)" by (cases e)
  have "mt_packetNo t < 2 ^ 31 - 1" "bundle_size [p] \<le> unat (mt_segSizeNoHeader t)"
    using Cons.prems(2,3) e by simp_all
  from publish_audio_ok [OF assms(1) Cons.prems(1) this, of now ut]
  obtain t1 where t1: "publish_audio env now ut p t = Some t1" "mt_segSizeNoHeader t1 = mt_segSizeNoHeader t"
    "audio_ready pre (ps @ [p]) t1 \<and> mt_published t1 = mt_published t \<and> mt_packetNo t1 = mt_packetNo t \<or>
     ps \<noteq> [] \<and> audio_ready pre [p] t1 \<and> mt_packetNo t1 = mt_packetNo t + 1 \<and>
     (\<exists>q. mt_published t1 = mt_published t @ [q] \<and> bundle_published pre (mt_packetNo t) ps q)"
    by blast
  have run: "audio_all env (e # es) t = audio_all env es t1"
    by (simp add: audio_all_def e deliver_audio_eq t1(1))
  have fit: "\<forall>e \<in> set es. bundle_size [snd (snd e)] \<le> unat (mt_segSizeNoHeader t1)"
    using Cons.prems(3) t1(2) by simp
  from t1(3) show ?case
  proof (elim disjE conjE exE)
    assume a: "audio_ready pre (ps @ [p]) t1" "mt_published t1 = mt_published t" "mt_packetNo t1 = mt_packetNo t"
    have "mt_packetNo t1 + int (length es) < 2 ^ 31" using Cons.prems(2) a(3) by simp
    from Cons.IH [OF a(1) this fit] show ?thesis unfolding run a(2,3) by (simp add: e)
  next
    fix q assume a: "audio_ready pre [p] t1" "mt_published t1 = mt_published t @ [q]"
      "mt_packetNo t1 = mt_packetNo t + 1" "ps \<noteq> []" "bundle_published pre (mt_packetNo t) ps q"
    have "mt_packetNo t1 + int (length es) < 2 ^ 31" using Cons.prems(2) a(3) by simp
    from Cons.IH [OF a(1) this fit] obtain bundles rest pubs t' where r: "audio_all env es t1 = Some t'"
      "concat bundles @ rest = [p] @ map (snd \<circ> snd) es" "[] \<notin> set bundles" "audio_ready pre rest t'"
      "mt_published t' = mt_published t1 @ pubs" "length pubs = length bundles"
      "mt_packetNo t' = mt_packetNo t1 + int (length bundles)"
      "\<forall>i < length bundles. bundle_published pre (mt_packetNo t1 + int i) (bundles ! i) (pubs ! i)"
      by blast
    have step: "bundle_published pre (mt_packetNo t + int (Suc i)) b x \<longleftrightarrow> bundle_published pre (mt_packetNo t1 + int i) b x"
      for i b x by (simp add: a(3) algebra_simps)
    show ?thesis unfolding run
    proof (intro exI [of _ "ps # bundles"] exI [of _ rest] exI [of _ "q # pubs"] exI [of _ t'] conjI)
      show "\<forall>i < length (ps # bundles). bundle_published pre (mt_packetNo t + int i) ((ps # bundles) ! i) ((q # pubs) ! i)"
        using a(5) r(8) step by (auto simp: less_Suc_eq_0_disj)
    qed (use r a in \<open>simp_all add: e\<close>)
  qed
qed

end
