(* ===== verification/Producer_Properties.thy ===== *)
theory Producer_Properties
  imports Video_Publishing Audio_Publishing
begin

text \<open>
  The properties of the publishing side: pending interests are answered and what is left of them is
  purged; the frames of a video thread are numbered without gaps; a published frame is what a
  consumer's slot reassembles from the published data; audio packets are bundled in order.
\<close>

section \<open>From the encoder to the slot\<close>

lemma packetFromRaw_frame:
  "packetFromRaw cbs (length (ei_buffer f) + 53) (FrameDataHeader_bytes f m @ ei_buffer f @ rest) =
     Some (RESULT_OK, Some (VideoPacket \<lparr>fd_isValid = True, fd_length = length (ei_buffer f) + 53,
       fd_data = FrameDataHeader_bytes f m @ ei_buffer f @ rest,
       fd_frame = Some (f\<lparr>ei_size := cbs (ei_encodedWidth f) (ei_encodedHeight f)\<rparr>)\<rparr>))"
proof -
  have "Frame_isValidHeader (length (ei_buffer f) + 53) (FrameDataHeader_bytes f m @ xs) = Some True" for xs
    by (simp add: Frame_isValidHeader_def FrameDataHeader_size_def FrameDataHeader_fields)
  then show ?thesis by (simp add: packetFromRaw_def Frame_initFromRawData_header)
qed

text \<open>A published data packet arrives at a slot.\<close>

definition arrive :: "data_packet \<times> int \<Rightarrow> slot \<Rightarrow> slot option" where
  "arrive a s = map_option snd (Slot_appendData (dp_name (fst a)) (Some (dp_content (fst a))) (snd a) s)"

lemma arrivals_deliveries:
  assumes "\<forall>a \<in> set arrivals. \<exists>k sm. P k (fst a) \<and> dp_content (fst a) = sd_data (new_SegmentData (pk_payload p k) sm)"
  shows "\<exists>ds. length ds = length arrivals \<and>
    (\<forall>i < length ds. P (fst (ds ! i)) (fst (arrivals ! i)) \<and> fst (snd (ds ! i)) = dp_name (fst (arrivals ! i))) \<and>
    ofold arrive arrivals = ofold (deliver p) ds"
  using assms
proof (induction arrivals)
  case (Cons a arrivals)
  obtain ds where ds: "length ds = length arrivals"
    "\<forall>i < length ds. P (fst (ds ! i)) (fst (arrivals ! i)) \<and> fst (snd (ds ! i)) = dp_name (fst (arrivals ! i))"
    "ofold arrive arrivals = ofold (deliver p) ds"
    using Cons by auto
  obtain k sm where k: "P k (fst a)" "dp_content (fst a) = sd_data (new_SegmentData (pk_payload p k) sm)"
    using Cons.prems by auto
  have "arrive a s = deliver p (k, dp_name (fst a), sm, snd a) s" for s
    using k(2) by (simp add: arrive_def deliver_def)
  then show ?case using ds k(1)
    by (intro exI [of _ "(k, dp_name (fst a), sm, snd a) # ds"]) (auto simp: less_Suc_eq_0_disj)
qed (auto intro: ext)

text \<open>The packet that the consumer sees, as the slot's lemmas describe it.\<close>

definition frame_packet :: "int \<Rightarrow> PrefixMetaInfo \<Rightarrow> nat \<Rightarrow> bytes \<Rightarrow> packet_spec" where
  "frame_packet no meta sz buf =
     \<lparr>pk_no = no, pk_meta = meta, pk_payload = (\<lambda>k. take sz (drop (k * sz) buf))\<rparr>"

lemma frame_packet_ok:
  assumes "0 < sz" "buf \<noteq> []" "totalSegmentsNum meta = int (ceil_div (length buf) sz)" "paritySegmentsNum meta = 0"
    "ceil_div (length buf) sz * sz < 2 ^ 32"
  shows "pk_ok sz (frame_packet no meta sz buf)" "pk_data (frame_packet no meta sz buf) = ceil_div (length buf) sz"
    "pk_count (frame_packet no meta sz buf) = ceil_div (length buf) sz"
    "packet_bytes (frame_packet no meta sz buf) = buf"
    "k + 1 < ceil_div (length buf) sz \<Longrightarrow> length (pk_payload (frame_packet no meta sz buf) k) = sz"
proof -
  let ?n = "ceil_div (length buf) sz"
  show d: "pk_data (frame_packet no meta sz buf) = ?n" "pk_count (frame_packet no meta sz buf) = ?n"
    using assms(3,4) by (simp_all add: pk_data_def pk_count_def pk_parity_def frame_packet_def)
  show "packet_bytes (frame_packet no meta sz buf) = buf"
    using slices_concat [OF assms(1), of buf] unfolding packet_bytes_def d by (simp add: frame_packet_def)
  have below: "k * sz < length buf" if "k < ?n" for k
  proof -
    have "Suc k * sz \<le> ?n * sz" using that by (intro mult_le_mono1) simp
    then show ?thesis using ceil_div_bounds(2) [OF assms(1), of "length buf"] by simp
  qed
  have "0 < ?n" using ceil_div_bounds(1) [OF assms(1), of "length buf"] assms(2) by (cases ?n) simp_all
  moreover have "\<forall>k < ?n. take sz (drop (k * sz) buf) \<noteq> []"
    using below assms(1) by (simp add: not_le)
  ultimately show "pk_ok sz (frame_packet no meta sz buf)"
    using assms d by (simp add: pk_ok_def) (simp add: frame_packet_def)
  show "length (pk_payload (frame_packet no meta sz buf) k) = sz" if "k + 1 < ?n" for k
    using below [OF that] by (simp add: frame_packet_def algebra_simps)
qed

lemma published_frame_arrives:
  fixes pre :: "component list" and frames :: string
  assumes "stream_path pre" "frames_word frames" "0 \<le> no" "no < 2 ^ 31" "0 < sz" "meta_ok meta"
    and "totalSegmentsNum meta = int n" "paritySegmentsNum meta = 0" "n = ceil_div (length buf) sz"
    and "n * sz < 2 ^ 32" "n \<le> 2 ^ 30" "no * int n < 2 ^ 31" "buf = frame_bytes img m"
    and "\<forall>j < n. segment_published t now pre frames (of_int no) False meta j
       (take sz (drop (j * sz) buf)) (pubs ! j)" "length pubs = n"
    and "fst ` set arrivals = pub_data ` set pubs" "\<forall>k. rnd k \<noteq> 0"
  shows "\<exists>s fd. do { s0 \<leftarrow> ofold request (map (\<lambda>k. (k, Media_Names.segment_name pre frames (of_int no) False (of_nat k),
        rnd k, rt)) [0 ..< n]) (new_Slot sz fec); ofold arrive arrivals s0 } = Some s \<and>
      s_state s = StateReady \<and> getPacketData cbs s = Some (RESULT_OK, Some (VideoPacket fd)) \<and>
      Frame_getFrame fd = (RESULT_OK, Some (img\<lparr>ei_size := cbs (ei_encodedWidth img) (ei_encodedHeight img)\<rparr>))"
proof -
  let ?p = "frame_packet no meta sz buf"
  let ?nm = "\<lambda>k. Media_Names.segment_name pre frames (of_int no) False (of_nat k)"
  let ?es = "map (\<lambda>k. (k, ?nm k, rnd k, rt)) [0 ..< n]"
  have "buf \<noteq> []" by (simp add: assms(13) frame_bytes_def) (metis length_FrameDataHeader_bytes list.size(3) zero_neq_numeral)
  note fp = frame_packet_ok [OF assms(5) this assms(7) [unfolded assms(9)] assms(8) assms(10) [unfolded assms(9)],
      folded assms(9)]
  have u: "uint (of_int no :: u32) = no" by (rule uint_number [OF assms(3,4)])
  have seg: "seg_no ?p k = int k" "seg_par ?p k = False" if "k < n" for k
    using that fp(2) by (simp_all add: seg_no_def seg_par_def)
  have small: "uint (of_nat k :: u64) < 2 ^ 30" "uint (of_nat k :: u64) = int k" if "k < n" for k
    using uint_segment_less uint_segment that assms(11) by (meson less_le_trans)+
  have no31: "uint (of_int no :: u32) < 2 ^ 31" using u assms(4) by simp
  have req: "interest_name ?p k (?nm k)" if "k < n" for k
    unfolding interest_name_def seg [OF that]
    using segment_numbers(1) [OF assms(1,2) small(1) [OF that] no31, of False] small(2) [OF that] u
      segment_parity [OF assms(1,2) small(1) [OF that]] segment_trim [OF assms(1,2) small(1) [OF that] no31]
    by (simp add: frame_packet_def)
  have prod: "no * int k < 2 ^ 31" "0 \<le> no * int k" if "k < n" for k
  proof -
    have "no * int k \<le> no * int n" using that assms(3) by (intro mult_left_mono) simp_all
    then show "no * int k < 2 ^ 31" using assms(12) by simp
    show "0 \<le> no * int k" using assms(3) by simp
  qed
  have es: "list_all (request_ok ?p) ?es"
    using req prod seg assms(17) fp(3) by (simp add: list_all_iff request_ok_def) (simp add: frame_packet_def)
  have data: "pub_data (pubs ! k) = d \<Longrightarrow> k < n \<Longrightarrow>
      dp_name d = published_name pre frames (of_int no) False (of_nat k) meta \<and>
      (\<exists>sm. dp_content d = sd_data (new_SegmentData (pk_payload ?p k) sm))" for k d
    using assms(14) by (fastforce simp: segment_published_def frame_packet_def)
  have "\<forall>a \<in> set arrivals. \<exists>k sm. (k < n \<and> pub_data (pubs ! k) = fst a) \<and>
      dp_content (fst a) = sd_data (new_SegmentData (pk_payload ?p k) sm)"
  proof
    fix a assume "a \<in> set arrivals"
    then have "fst a \<in> pub_data ` set pubs" using assms(16) by (metis image_eqI)
    then obtain k where "k < n" "pub_data (pubs ! k) = fst a" using assms(15) by (auto simp: in_set_conv_nth)
    with data show "\<exists>k sm. (k < n \<and> pub_data (pubs ! k) = fst a) \<and>
      dp_content (fst a) = sd_data (new_SegmentData (pk_payload ?p k) sm)" by blast
  qed
  from arrivals_deliveries [where P = "\<lambda>k d. k < n \<and> pub_data (pubs ! k) = d", OF this]
  obtain ds where ds: "length ds = length arrivals"
    "\<forall>i < length ds. (fst (ds ! i) < n \<and> pub_data (pubs ! fst (ds ! i)) = fst (arrivals ! i)) \<and>
       fst (snd (ds ! i)) = dp_name (fst (arrivals ! i))"
    "ofold arrive arrivals = ofold (deliver ?p) ds" by blast
  have ds': "fst e < n \<and> fst (snd e) = published_name pre frames (of_int no) False (of_nat (fst e)) meta"
    if "e \<in> set ds" for e
    using that ds(2) data by (metis in_set_conv_nth)
  have "Slot_Assembly.segment_name ?p k (published_name pre frames (of_int no) False (of_nat k) meta)" if k: "k < n" for k
    unfolding Slot_Assembly.segment_name_def seg [OF k]
    using published_numbers [OF assms(1,2) small(1) [OF k] no31, of False meta] small(2) [OF k] u
      published_not_parity [OF assms(1,2) small(1) [OF k]] published_meta [OF assms(6)]
    by (simp add: frame_packet_def)
  then have deliveries: "list_all (delivery_ok ?p) ds"
    using ds' fp(3) by (auto simp: list_all_iff delivery_ok_def)
  have "k \<in> fst ` set ds" if k: "k < n" for k
  proof -
    have "pub_data (pubs ! k) \<in> fst ` set arrivals" using k assms(15,16) by simp
    then obtain i where i: "i < length ds" "pub_data (pubs ! k) = fst (arrivals ! i)"
      using ds(1) by (auto simp: in_set_conv_nth)
    let ?k = "fst (ds ! i)"
    have k': "?k < n" "pub_data (pubs ! ?k) = pub_data (pubs ! k)" using ds(2) i by auto
    then have "published_name pre frames (of_int no) False (of_nat ?k) meta =
        published_name pre frames (of_int no) False (of_nat k) meta"
      using data [OF refl k] data [OF k'(2) k'(1)] by simp
    then have "?k = k"
      using published_numbers [OF assms(1,2) small(1) [OF k] no31, of False meta] small(2) [OF k]
        published_numbers [OF assms(1,2) small(1) [OF k'(1)] no31, of False meta] small(2) [OF k'(1)]
      by simp
    then show ?thesis using i(1) by (metis image_eqI nth_mem)
  qed
  then have cover: "{..< pk_data ?p} \<subseteq> fst ` set ds" using fp(2) by auto
  obtain s Q where s: "do { s0 \<leftarrow> ofold request ?es (new_Slot sz fec); ofold (deliver ?p) ds s0 } = Some s"
    "s_state s = StateReady" "take (length (packet_bytes ?p)) (s_slotData s) = packet_bytes ?p"
    "Q \<subseteq> fst ` set ds \<inter> {pk_data ?p ..}"
    "getPacketData cbs s = packetFromRaw cbs
      (length (packet_bytes ?p) + (\<Sum>k \<in> Q. length (pk_payload ?p k))) (s_slotData s)"
    using slot_assembles [OF fp(1) _ es _ _ deliveries cover, of fec cbs] fp(2,3,5) assms(3)
    by (auto simp: frame_packet_def distinct_map inj_on_def image_image lessThan_atLeast0)
  have "Q = {}" using s(4) ds' fp(2) by fastforce
  have "s_slotData s = buf @ drop (length buf) (s_slotData s)"
    using s(3) append_take_drop_id [of "length buf" "s_slotData s"] unfolding fp(4) by simp
  then have "getPacketData cbs s = packetFromRaw cbs (length (ei_buffer img) + 53)
      (FrameDataHeader_bytes img m @ ei_buffer img @ drop (length buf) (s_slotData s))"
    using s(5) \<open>Q = {}\<close> fp(4) by (simp add: assms(13) frame_bytes_def add.commute)
  then obtain fd where "getPacketData cbs s = Some (RESULT_OK, Some (VideoPacket fd))" "fd_isValid fd"
      "fd_frame fd = Some (img\<lparr>ei_size := cbs (ei_encodedWidth img) (ei_encodedHeight img)\<rparr>)"
    by (auto simp: packetFromRaw_frame)
  then show ?thesis
    using s(1,2) ds(3) by (intro exI [of _ s] exI [of _ fd]) (simp add: Frame_getFrame_def)
qed

text \<open>A thread to try the properties on: the settings of a camera at low quality, initialised, with an
  environment where every call succeeds.\<close>

definition sample_net :: video_env where
  "sample_net = \<lparr>en_connected = True, en_wireSize = (\<lambda>d. Some (of_nat (length (dp_content d) + 300))),
     en_accepts = (\<lambda>p. True), en_crc = (\<lambda>c d. (c + length d) mod 65536), en_checksum = int \<circ> (\<lambda>c. c mod 65536),
     ve_fec = (\<lambda>n k l d. None), ve_calcBufferSize = (\<lambda>w h. 0), ve_kKeyFrame = 0, ve_unixTimestamp = 0\<rparr>"

definition sample_meters :: meters where
  "sample_meters = \<lparr>freqMeters = [], dataMeters = [], meanEstimators = [], filters = [],
     inclineEstimators = [], slidingAverageEstimators = []\<rparr>"

definition sample_settings :: thread_settings where
  "sample_settings = \<lparr>ts_segmentSize = 40, ts_dataFreshnessMs = 1000, ts_threadName = ''low'',
     ts_streamPrefix = ''/ndn/alice/streams/camera'', ts_memoryCache = True\<rparr>"

definition sample_thread :: video_thread where
  "sample_thread = snd (VideoThread_init (\<lambda>n. True) True sample_settings False
     (new_VideoThread sample_meters sample_settings 0 0 False 0))"

definition sample_stream :: "component list" where
  "sample_stream = map Component [''ndn'', ''alice'', ''streams'', ''camera'', ''low'']"

lemma sample_stream_path: "stream_path sample_stream"
proof -
  have "list_ex (\<lambda>c. sublist NameComponentUserStreams (esc c)) sample_stream" by code_simp
  moreover have "list_all (\<lambda>c. \<not> sublist NameComponentStreamFramesDelta (esc c) \<and>
        \<not> sublist NameComponentStreamFramesKey (esc c) \<and>
        \<not> sublist NameComponentFrameSegmentData (esc c) \<and>
        \<not> sublist NameComponentFrameSegmentParity (esc c)) sample_stream" by code_simp
  moreover have "length sample_stream < 2 ^ 32" by (simp add: sample_stream_def)
  ultimately show ?thesis unfolding stream_path_def list_ex_iff list_all_iff by blast
qed

lemma sample_thread_names:
  "name_set ''/ndn/alice/streams/camera/low'' = Name sample_stream"
  "name_set NameComponentStreamFramesDelta = Name [Component NameComponentStreamFramesDelta]"
  "name_set NameComponentStreamFramesKey = Name [Component NameComponentStreamFramesKey]"
  by code_simp+

lemma sample_thread_state:
  "vt_deltaFramesPrefix sample_thread = Name (sample_stream @ [Component NameComponentStreamFramesDelta])"
  "vt_keyFramesPrefix sample_thread = Name (sample_stream @ [Component NameComponentStreamFramesKey])"
  "mt_segSizeNoHeader sample_thread = 20" "vt_useFec sample_thread = False" "vt_keyFrameNo sample_thread = -1"
  "vt_deltaFrameNo sample_thread = 0" "vt_gopCount sample_thread = 0" "mt_packetNo sample_thread = 0"
  "mt_pit sample_thread = []" "mt_memCache sample_thread = True" "mt_published sample_thread = []"
  by (simp_all add: sample_thread_def VideoThread_init_def MediaThread_init_def new_VideoThread_def new_MediaThread_def
      sample_settings_def sample_thread_names buildPath_def name_append_all_eq SegmentData_getHeaderSize_def
      setupMeanEstimator_def setupFrequencyMeter_def setupDataRateMeter_def media_thread.defs video_thread.defs Let_def
      split: prod.splits)

lemma sample_ready: "encoder_ready sample_stream sample_thread" "counters_below 1 sample_thread" "env_ok sample_net"
  by (simp_all add: encoder_ready_def sample_stream_path sample_thread_state counters_below_def env_ok_def sample_net_def)


definition sample_image :: "bool \<Rightarrow> EncodedImage" where
  "sample_image key = \<lparr>ei_buffer = ''xy'', ei_size = 7, ei_encodedWidth = 640, ei_encodedHeight = 480,
     ei_timeStamp = 9, ei_capture_time_ms = 10, ei_frameType = (if key then 0 else 1), ei_completeFrame = True\<rparr>"

lemma sample_image_facts:
  "segments_of 20 (sample_image k) = 3" "frame_fits 20 (sample_image k)"
  "(ei_frameType (sample_image k) = ve_kKeyFrame sample_net) = k"
  by (simp_all add: sample_image_def segments_of_def ceil_div_def frame_fits_def sample_net_def)


section \<open>Numbers of the frames\<close>

definition encode_all ::
    "'e video_env_scheme \<Rightarrow> (int \<times> EncodedImage \<times> u64) list \<Rightarrow> video_thread \<Rightarrow> video_thread option" where
  "encode_all env fs t = ofold (\<lambda>(now, img, ts). onEncodedFrameDelivered env now img ts) fs t"

definition is_key :: "'e video_env_scheme \<Rightarrow> int \<times> EncodedImage \<times> u64 \<Rightarrow> bool" where
  "is_key env f \<longleftrightarrow> ei_frameType (fst (snd f)) = ve_kKeyFrame env"

definition keys_in :: "'e video_env_scheme \<Rightarrow> (int \<times> EncodedImage \<times> u64) list \<Rightarrow> int" where
  "keys_in env fs = int (length (filter (is_key env) fs))"

definition deltas_in :: "'e video_env_scheme \<Rightarrow> (int \<times> EncodedImage \<times> u64) list \<Rightarrow> int" where
  "deltas_in env fs = int (length (filter (\<lambda>f. \<not> is_key env f) fs))"

text \<open>The name of a data packet of frame \<open>i\<close>, from the numbers of key and delta frames before it.\<close>

definition frame_named ::
    "'e video_env_scheme \<Rightarrow> component list \<Rightarrow> video_thread \<Rightarrow> (int \<times> EncodedImage \<times> u64) list \<Rightarrow> nat \<Rightarrow> name \<Rightarrow> bool" where
  "frame_named env pre t fs i n \<longleftrightarrow>
     (let key = is_key env (fs ! i); before = take i fs;
          no = (if key then vt_keyFrameNo t + 1 + keys_in env before else vt_deltaFrameNo t + deltas_in env before) in
      \<exists>seg crc. n = published_name pre (frames_of key) (of_int no) False seg
        \<lparr>totalSegmentsNum = int (segments_of (unat (mt_segSizeNoHeader t)) (fst (snd (fs ! i)))),
         playbackNo = mt_packetNo t + int i,
         pairedSequenceNo = (if key then vt_deltaFrameNo t + deltas_in env before
                             else vt_keyFrameNo t + keys_in env before),
         paritySegmentsNum = 0, crcValue = crc\<rparr>)"

lemma first_frame_named:
  assumes k: "is_key env f = (ei_frameType img = ve_kKeyFrame env)" and f: "f = (now, img, ts)"
    and "segment_published t now pre (frames_of (is_key env f)) (of_int (number_of (is_key env f) t)) False
      ((frame_meta (segments_of (unat (mt_segSizeNoHeader t)) img) (is_key env f) (counted (is_key env f) now t))
         \<lparr>crcValue := crc\<rparr>) j payload p"
  shows "frame_named env pre t (f # fs) 0 (dp_name (pub_data p))"
proof -
  let ?meta = "(frame_meta (segments_of (unat (mt_segSizeNoHeader t)) img) (is_key env f) (counted (is_key env f) now t))
    \<lparr>crcValue := crc\<rparr>"
  have "dp_name (pub_data p) = published_name pre (frames_of (is_key env f)) (of_int (number_of (is_key env f) t))
      False (of_nat j) ?meta"
    using assms(3) by (auto simp: segment_published_def)
  then show ?thesis
    unfolding frame_named_def Let_def
    by (intro exI [of _ "of_nat j"] exI [of _ crc])
      (simp add: f frame_meta_def number_of_def keys_in_def deltas_in_def)
qed

lemma encoded_frame_step:
  fixes t :: video_thread
  assumes "env_ok env" "encoder_ready pre t" "counters_below (2 ^ 31 - 1) t"
    "frame_fits (unat (mt_segSizeNoHeader t)) (fst (snd f))"
  defines "k \<equiv> is_key env f"
  shows "\<exists>pubs t'. encode_all env [f] t = Some t' \<and> mt_published t' = mt_published t @ pubs \<and>
    length pubs = segments_of (unat (mt_segSizeNoHeader t)) (fst (snd f)) \<and>
    (\<forall>p \<in> set pubs. frame_named env pre t (f # fs) 0 (dp_name (pub_data p))) \<and>
    encoder_ready pre t' \<and> mt_segSizeNoHeader t' = mt_segSizeNoHeader t \<and>
    vt_keyFrameNo t' = vt_keyFrameNo t + (if k then 1 else 0) \<and>
    vt_deltaFrameNo t' = vt_deltaFrameNo t + (if k then 0 else 1) \<and>
    vt_gopCount t' = (if k then 0 else vt_gopCount t + 1) \<and>
    mt_packetNo t' = mt_packetNo t + 1"
proof -
  obtain now img ts where f: "f = (now, img, ts)" by (cases f)
  let ?sz = "unat (mt_segSizeNoHeader t)"
  have fit: "frame_fits ?sz img" using assms(4) f by simp
  have k: "k = (ei_frameType img = ve_kKeyFrame env)" by (simp add: k_def is_key_def f)
  note step = onEncodedFrameDelivered_ok [OF assms(1-3) fit, of now ts, folded k]
  then obtain pubs t1 crc sz buf where r: "onEncodedFrameDelivered env now img ts t = Some t1"
    "mt_published t1 = mt_published t @ pubs" "length pubs = segments_of ?sz img"
    "\<forall>j < segments_of ?sz img. segment_published t now pre (frames_of k) (of_int (number_of k t)) False
       ((frame_meta (segments_of ?sz img) k (counted k now t))\<lparr>crcValue := crc\<rparr>) j (take sz (drop (j * sz) buf)) (pubs ! j)"
    "encoder_ready pre t1" "mt_segSizeNoHeader t1 = mt_segSizeNoHeader t"
    "vt_keyFrameNo t1 = vt_keyFrameNo t + (if k then 1 else 0)"
    "vt_deltaFrameNo t1 = vt_deltaFrameNo t + (if k then 0 else 1)"
    "vt_gopCount t1 = (if k then 0 else vt_gopCount t + 1)"
    "mt_packetNo t1 = mt_packetNo t + 1"
    by blast
  have "frame_named env pre t (f # fs) 0 (dp_name (pub_data p))" if p: "p \<in> set pubs" for p
  proof -
    obtain j where j: "j < segments_of ?sz img" "p = pubs ! j" using p r(3) by (auto simp: in_set_conv_nth)
    show ?thesis
      unfolding j(2) by (rule first_frame_named [OF k [unfolded k_def] f r(4) [rule_format, OF j(1), unfolded k_def]])
  qed
  moreover have "encode_all env [f] t = Some t1" using r(1) by (simp add: encode_all_def f)
  ultimately show ?thesis using r f by (intro exI [of _ pubs] exI [of _ t1]) simp
qed

lemma frame_named_later:
  assumes "frame_named env pre t' fs i n" "mt_segSizeNoHeader t' = mt_segSizeNoHeader t"
    "vt_keyFrameNo t' = vt_keyFrameNo t + (if is_key env f then 1 else 0)"
    "vt_deltaFrameNo t' = vt_deltaFrameNo t + (if is_key env f then 0 else 1)"
    "mt_packetNo t' = mt_packetNo t + 1"
  shows "frame_named env pre t (f # fs) (Suc i) n"
proof -
  have kd: "keys_in env (take (Suc i) (f # fs)) = (if is_key env f then 1 else 0) + keys_in env (take i fs)"
      "deltas_in env (take (Suc i) (f # fs)) = (if is_key env f then 0 else 1) + deltas_in env (take i fs)"
    by (simp_all add: keys_in_def deltas_in_def)
  have sums: "vt_keyFrameNo t + 1 + ((if is_key env f then 1 else 0) + x) = vt_keyFrameNo t' + 1 + x"
      "vt_keyFrameNo t + ((if is_key env f then 1 else 0) + x) = vt_keyFrameNo t' + x"
      "vt_deltaFrameNo t + ((if is_key env f then 0 else 1) + x) = vt_deltaFrameNo t' + x"
      "mt_packetNo t + int (Suc i) = mt_packetNo t' + int i" for x
    using assms(3-5) by simp_all
  show ?thesis using assms(1) unfolding frame_named_def Let_def nth_Cons_Suc kd sums assms(2) .
qed

lemma encode_all_Cons: "encode_all env (f # fs) t = Option.bind (encode_all env [f] t) (encode_all env fs)"
  by (cases f) (simp add: encode_all_def split: option.splits bind_splits)



section \<open>Pending interests\<close>

text \<open>C6: When a packet is published, every interest that is pending for one of its segments is
  answered: the segment goes to the transport with the nonce of that interest, its arrival time and
  the delay since then; a segment that nobody waits for carries zeros and goes to the cache. There
  is one data packet per segment, and afterwards nothing is pending for the packet's segments.\<close>

theorem pending_interests_answered:
  fixes no :: u32 and parity :: bool
  assumes "env_ok env" "stream_path pre" "frames_word frames" "uint no < 2 ^ 31"
    and "out_isValid d" "0 < out_length d" "out_length d \<le> length (out_data d')"
    and "out_setMetadata (packet_metadata now ts t) d = Some d'" "out_length d' = out_length d"
    and "0 < unat (mt_segSizeNoHeader t)" "unat (mt_segSizeNoHeader t) < 2 ^ 31"
    and "ceil_div (out_length d) (unat (mt_segSizeNoHeader t)) \<le> 2 ^ 30"
  shows "\<exists>pubs t' crc' checksum.
    MediaThread_publishPacket env now d crc (appendDataKind (packet_name pre frames no) parity) meta ts t =
      Some (int (ceil_div (out_length d) (unat (mt_segSizeNoHeader t))), d', crc', t') \<and>
    mt_published t' = mt_published t @ pubs \<and>
    length pubs = ceil_div (out_length d) (unat (mt_segSizeNoHeader t)) \<and>
    (\<forall>j < length pubs. segment_published t now pre frames no parity (meta\<lparr>crcValue := checksum\<rparr>) j
       (take (unat (mt_segSizeNoHeader t)) (drop (j * unat (mt_segSizeNoHeader t)) (take (out_length d) (out_data d'))))
       (pubs ! j) \<and>
       map_of (mt_pit t') (Media_Names.segment_name pre frames no parity (of_nat j)) = None)"
proof -
  obtain pubs t' where r: "MediaThread_publishPacket env now d crc (appendDataKind (packet_name pre frames no) parity) meta ts t =
      Some (int (ceil_div (out_length d) (unat (mt_segSizeNoHeader t))), d',
        en_crc env crc (take (out_length d) (out_data d')), t')"
    "t' = t\<lparr>mt_pit := mt_pit t', mt_meters := mt_meters t', mt_published := mt_published t @ pubs,
      mt_publishingTimestampMs := now\<rparr>"
    "length pubs = ceil_div (out_length d) (unat (mt_segSizeNoHeader t))"
    "\<forall>j < length pubs. segment_published t now pre frames no parity
       (meta\<lparr>crcValue := en_checksum env (en_crc env crc (take (out_length d) (out_data d')))\<rparr>) j
       (take (unat (mt_segSizeNoHeader t)) (drop (j * unat (mt_segSizeNoHeader t)) (take (out_length d) (out_data d'))))
       (pubs ! j)"
    "\<forall>j < length pubs. map_of (mt_pit t') (Media_Names.segment_name pre frames no parity (of_nat j)) = None"
    using publishPacket_ok [OF assms(1-9,10-12), of crc parity meta] by metis
  have "mt_published t' = mt_published t @ pubs" by (subst r(2)) simp
  with r show ?thesis by blast
qed

text \<open>C40: Publishing a packet also forgets the interest for the newest packet of the other
  namespace: the clean-up takes every shorter name for a name below the packet. Publishing a key
  frame so drops a consumer's interest for the next delta frame, and none of the published data
  packets has a name that answers it.\<close>

theorem other_newest_interest_forgotten:
  fixes no :: u32 and parity :: bool
  assumes "env_ok env" "stream_path pre" "frames_word frames" "uint no < 2 ^ 31"
    and "out_isValid d" "0 < out_length d" "out_length d \<le> length (out_data d')"
    and "out_setMetadata (packet_metadata now ts t) d = Some d'" "out_length d' = out_length d"
    and "0 < unat (mt_segSizeNoHeader t)" "unat (mt_segSizeNoHeader t) < 2 ^ 31"
    and "ceil_div (out_length d) (unat (mt_segSizeNoHeader t)) \<le> 2 ^ 30"
    and "other \<noteq> frames" "map_of (mt_pit t) (stream_name pre other) = Some e"
  shows "\<exists>pubs t' crc'.
    MediaThread_publishPacket env now d crc (appendDataKind (packet_name pre frames no) parity) meta ts t =
      Some (int (ceil_div (out_length d) (unat (mt_segSizeNoHeader t))), d', crc', t') \<and>
    mt_published t' = mt_published t @ pubs \<and>
    map_of (mt_pit t') (stream_name pre other) = None \<and>
    (\<forall>p \<in> set pubs. \<not> name_match (stream_name pre other) (dp_name (pub_data p)))"
proof -
  let ?pfx = "appendDataKind (packet_name pre frames no) parity" and ?sz = "unat (mt_segSizeNoHeader t)"
  obtain pubs t' where r: "MediaThread_publishPacket env now d crc ?pfx meta ts t =
      Some (int (ceil_div (out_length d) ?sz), d', en_crc env crc (take (out_length d) (out_data d')), t')"
    "t' = t\<lparr>mt_pit := mt_pit t', mt_meters := mt_meters t', mt_published := mt_published t @ pubs,
      mt_publishingTimestampMs := now\<rparr>"
    "length pubs = ceil_div (out_length d) ?sz"
    "\<forall>j < ceil_div (out_length d) ?sz. segment_published t now pre frames no parity
       (meta\<lparr>crcValue := en_checksum env (en_crc env crc (take (out_length d) (out_data d')))\<rparr>) j
       (take ?sz (drop (j * ?sz) (take (out_length d) (out_data d')))) (pubs ! j)"
    "\<forall>k. k \<noteq> stream_name pre frames \<longrightarrow>
      (\<forall>j < ceil_div (out_length d) ?sz. k \<noteq> Media_Names.segment_name pre frames no parity (of_nat j)) \<longrightarrow>
      map_of (mt_pit t') k = (if isPrefix k ?pfx then None else map_of (mt_pit t) k)"
    using publishPacket_ok [OF assms(1-9,10-12), of crc parity meta] by blast
  have "isPrefix (stream_name pre other) ?pfx"
    by (simp add: isPrefix_def name_size_def stream_name_def appendDataKind_def appendStringComponent_def
        name_append_def packet_name_def)
  moreover have "stream_name pre other \<noteq> stream_name pre frames" using assms(13) by (simp add: stream_name_def)
  moreover have "stream_name pre other \<noteq> Media_Names.segment_name pre frames no parity seg" for seg
    by (simp add: stream_name_def Media_Names.segment_name_def)
  ultimately have gone: "map_of (mt_pit t') (stream_name pre other) = None" using r(5) by simp
  have "\<not> name_match (stream_name pre other) (dp_name (pub_data p))" if p: "p \<in> set pubs" for p
  proof -
    obtain j where j: "j < length pubs" "p = pubs ! j" using \<open>p \<in> set pubs\<close> by (metis in_set_conv_nth)
    have "\<exists>seg meta'. dp_name (pub_data p) = published_name pre frames no parity seg meta'"
      using r(4) [rule_format, OF j(1) [unfolded r(3)]] unfolding j(2) segment_published_def by fastforce
    then show ?thesis
      using assms(13) by (auto simp: name_match_iff stream_name_def published_name_eq)
  qed
  moreover have "mt_published t' = mt_published t @ pubs" by (subst r(2)) simp
  ultimately show ?thesis using r(1) gone by (intro exI [of _ pubs] exI [of _ t']) auto
qed

text \<open>Two consumers wait: one for a segment of a packet, one for the next delta frame.\<close>

definition sample_waiting :: video_thread where
  "sample_waiting = addToPit (stream_name sample_stream NameComponentStreamFramesDelta) ''wxyz'' 950
     (addToPit (Media_Names.segment_name sample_stream NameComponentStreamFramesKey 0 True 1) ''abcd'' 900 sample_thread)"

definition sample_parity :: outgoing where
  "sample_parity = OutParity True (replicate 30 (CHR ''p''))"

lemma sample_waiting_facts:
  "mt_segSizeNoHeader sample_waiting = 20" "mt_published sample_waiting = []"
  "map_of (mt_pit sample_waiting) (stream_name sample_stream NameComponentStreamFramesDelta) =
     Some \<lparr>pe_arrivalTimestamp = 950, pe_nonce = ''wxyz''\<rparr>"
  "map_of (mt_pit sample_waiting) (Media_Names.segment_name sample_stream NameComponentStreamFramesKey 0 True 1) =
     Some \<lparr>pe_arrivalTimestamp = 900, pe_nonce = ''abcd''\<rparr>"
proof -
  have "stream_name sample_stream NameComponentStreamFramesDelta \<noteq>
      Media_Names.segment_name sample_stream NameComponentStreamFramesKey 0 True 1"
    by (simp add: stream_name_def Media_Names.segment_name_def)
  then show "mt_segSizeNoHeader sample_waiting = 20" "mt_published sample_waiting = []"
    "map_of (mt_pit sample_waiting) (stream_name sample_stream NameComponentStreamFramesDelta) =
     Some \<lparr>pe_arrivalTimestamp = 950, pe_nonce = ''wxyz''\<rparr>"
    "map_of (mt_pit sample_waiting) (Media_Names.segment_name sample_stream NameComponentStreamFramesKey 0 True 1) =
     Some \<lparr>pe_arrivalTimestamp = 900, pe_nonce = ''abcd''\<rparr>"
    by (auto simp: sample_waiting_def addToPit_def sample_thread_state)
qed

lemma sample_parity_facts:
  "out_isValid sample_parity" "out_length sample_parity = 30" "out_data sample_parity = replicate 30 (CHR ''p'')"
  "out_setMetadata m sample_parity = Some sample_parity" "ceil_div 30 20 = 2" "frames_word NameComponentStreamFramesKey"
  by (simp_all add: sample_parity_def ceil_div_def frames_word_def)

theorem pending_interests_answered_witness:
  "\<exists>p0 p1 r. MediaThread_publishPacket (publish_env.truncate sample_net) 1000 sample_parity 0
      (appendDataKind (packet_name sample_stream NameComponentStreamFramesKey 0) True) zero_prefix_meta 7 sample_waiting =
      Some (2, r) \<and> mt_published (snd (snd r)) = [p0, Sent p1] \<and>
    (\<exists>payload. dp_content p1 = sd_data (new_SegmentData payload
       \<lparr>interestNonce = blobToNonce ''abcd'', interestArrivalMs = 900, generationDelayMs = 100\<rparr>))"
proof -
  note facts = sample_waiting_facts sample_parity_facts
  have env: "env_ok (publish_env.truncate sample_net)"
    using sample_ready(3) by (simp add: env_ok_def publish_env.defs)
  have nw: "uint (0 :: u32) < 2 ^ 31" by simp
  have "\<exists>pubs t' crc checksum. MediaThread_publishPacket (publish_env.truncate sample_net) 1000 sample_parity 0
      (appendDataKind (packet_name sample_stream NameComponentStreamFramesKey 0) True) zero_prefix_meta 7 sample_waiting =
      Some (2, sample_parity, crc, t') \<and> mt_published t' = pubs \<and> length pubs = 2 \<and>
    (\<forall>j < length pubs. segment_published sample_waiting 1000 sample_stream NameComponentStreamFramesKey 0 True
       (zero_prefix_meta\<lparr>crcValue := checksum\<rparr>) j (take 20 (drop (j * 20) (take 30 (out_data sample_parity)))) (pubs ! j) \<and>
       map_of (mt_pit t') (Media_Names.segment_name sample_stream NameComponentStreamFramesKey 0 True (of_nat j)) = None)"
    using pending_interests_answered [OF env sample_stream_path sample_parity_facts(6) nw, of sample_parity sample_parity
        1000 7 sample_waiting 0 True zero_prefix_meta]
    by (simp add: facts)
  then obtain pubs t' crc checksum where r: "MediaThread_publishPacket (publish_env.truncate sample_net) 1000 sample_parity 0
      (appendDataKind (packet_name sample_stream NameComponentStreamFramesKey 0) True) zero_prefix_meta 7 sample_waiting =
      Some (2, sample_parity, crc, t')" "mt_published t' = pubs" "length pubs = 2"
    "\<forall>j < length pubs. segment_published sample_waiting 1000 sample_stream NameComponentStreamFramesKey 0 True
       (zero_prefix_meta\<lparr>crcValue := checksum\<rparr>) j (take 20 (drop (j * 20) (take 30 (out_data sample_parity)))) (pubs ! j)"
    by blast
  obtain p0 p1 where p: "pubs = [p0, p1]" using r(3) by (auto simp: length_Suc_conv numeral_2_eq_2)
  obtain m payload where "segment_published sample_waiting 1000 sample_stream NameComponentStreamFramesKey 0 True
       m 1 payload p1"
    using r(4) [rule_format, of 1] p by auto
  then have "p1 = Sent (pub_data p1)" "\<exists>payload. dp_content (pub_data p1) = sd_data (new_SegmentData payload
       \<lparr>interestNonce = blobToNonce ''abcd'', interestArrivalMs = 900, generationDelayMs = 100\<rparr>)"
    by (auto simp: segment_published_def sample_waiting_facts pit_meta_def)
  with r(1,2) p show ?thesis by (intro exI [of _ p0] exI [of _ "pub_data p1"]) auto
qed

theorem other_newest_interest_forgotten_witness:
  "\<exists>pubs r. MediaThread_publishPacket (publish_env.truncate sample_net) 1000 sample_parity 0
      (appendDataKind (packet_name sample_stream NameComponentStreamFramesKey 0) True) zero_prefix_meta 7 sample_waiting =
      Some (2, r) \<and> mt_published (snd (snd r)) = pubs \<and>
    map_of (mt_pit sample_waiting) (stream_name sample_stream NameComponentStreamFramesDelta) \<noteq> None \<and>
    map_of (mt_pit (snd (snd r))) (stream_name sample_stream NameComponentStreamFramesDelta) = None"
proof -
  note facts = sample_waiting_facts sample_parity_facts
  have env: "env_ok (publish_env.truncate sample_net)"
    using sample_ready(3) by (simp add: env_ok_def publish_env.defs)
  have nw: "uint (0 :: u32) < 2 ^ 31" "NameComponentStreamFramesDelta \<noteq> NameComponentStreamFramesKey"
    by (simp_all add: NameComponentStreamFramesDelta_def NameComponentStreamFramesKey_def)
  from other_newest_interest_forgotten [OF env sample_stream_path sample_parity_facts(6) nw(1), of sample_parity
      sample_parity 1000 7 sample_waiting NameComponentStreamFramesDelta _ 0 True zero_prefix_meta]
  show ?thesis using nw(2) by (auto simp: facts)
qed

section \<open>Audio\<close>

text \<open>C37: No audio packet is lost on the way to the network: the bundles that the thread publishes and
  the bundle it still holds are, one after the other, the RTP and RTCP packets it was given, in their
  order. No bundle is empty, each fits one segment, and their packet numbers are consecutive. The
  hypotheses say that every single packet fits a segment, and that no call of the libraries fails.\<close>

theorem audio_packets_conserved:
  assumes "env_ok env" "audio_ready pre [] t" "mt_packetNo t + int (length es) < 2 ^ 31"
    and "\<forall>e \<in> set es. bundle_size [snd (snd e)] \<le> unat (mt_segSizeNoHeader t)"
  shows "\<exists>bundles rest pubs t'. audio_all env es t = Some t' \<and>
    concat bundles @ rest = map (snd \<circ> snd) es \<and> [] \<notin> set bundles \<and>
    audio_bundle rest = Some (at_adata t') \<and> mt_published t' = mt_published t @ pubs \<and> length pubs = length bundles \<and>
    mt_packetNo t' = mt_packetNo t + int (length bundles) \<and>
    (\<forall>i < length bundles. bundle_published pre (mt_packetNo t + int i) (bundles ! i) (pubs ! i))"
proof -
  obtain bundles rest pubs t' where r: "audio_all env es t = Some t'" "concat bundles @ rest = [] @ map (snd \<circ> snd) es"
    "[] \<notin> set bundles" "audio_ready pre rest t'" "mt_published t' = mt_published t @ pubs" "length pubs = length bundles"
    "mt_packetNo t' = mt_packetNo t + int (length bundles)"
    "\<forall>i < length bundles. bundle_published pre (mt_packetNo t + int i) (bundles ! i) (pubs ! i)"
    using audio_all_ok [OF assms] by blast
  have "audio_bundle rest = Some (at_adata t')" using r(4) by (simp add: audio_ready_def)
  with r show ?thesis by (intro exI [of _ bundles] exI [of _ rest] exI [of _ pubs] exI [of _ t']) simp
qed

definition sample_audio :: audio_thread where
  "sample_audio = snd (AudioThread_init (\<lambda>n. True) (sample_settings\<lparr>ts_segmentSize := 70\<rparr>)
     (new_AudioThread sample_meters sample_settings 0 0))"

lemma sample_audio_state:
  "at_rtpPacketPrefix sample_audio = Name (sample_stream @ [Component NameComponentStreamFramesDelta])"
  "mt_segSizeNoHeader sample_audio = 50" "mt_packetNo sample_audio = 0" "mt_published sample_audio = []"
  "at_adata sample_audio = new_NdnAudioData"
  by (simp_all add: sample_audio_def AudioThread_init_def MediaThread_init_def new_AudioThread_def new_MediaThread_def
      sample_settings_def sample_thread_names buildPath_def name_append_all_eq SegmentData_getHeaderSize_def
      setupMeanEstimator_def setupFrequencyMeter_def setupDataRateMeter_def media_thread.defs audio_thread.defs Let_def
      split: prod.splits)

lemma sample_audio_ready: "audio_ready sample_stream [] sample_audio"
  by (simp add: audio_ready_def sample_stream_path sample_audio_state audio_bundle_def)

theorem audio_packets_conserved_witness:
  "\<exists>bundles rest t'. audio_all (publish_env.truncate sample_net)
      [(1000, 7, \<lparr>ap_isRTCP = False, ap_data = ''voice one''\<rparr>), (1020, 8, \<lparr>ap_isRTCP = True, ap_data = ''report''\<rparr>)]
      sample_audio = Some t' \<and>
    concat bundles @ rest = [\<lparr>ap_isRTCP = False, ap_data = ''voice one''\<rparr>, \<lparr>ap_isRTCP = True, ap_data = ''report''\<rparr>] \<and>
    audio_bundle rest = Some (at_adata t') \<and> length (mt_published t') = length bundles"
proof -
  let ?es = "[(1000, 7, \<lparr>ap_isRTCP = False, ap_data = ''voice one''\<rparr>), (1020, 8, \<lparr>ap_isRTCP = True, ap_data = ''report''\<rparr>)]
    :: (int \<times> u64 \<times> AudioPacket) list"
  have env: "env_ok (publish_env.truncate sample_net)"
    using sample_ready(3) by (simp add: env_ok_def publish_env.defs)
  have no: "mt_packetNo sample_audio + int (length ?es) < 2 ^ 31" by (simp add: sample_audio_state)
  have fit: "\<forall>e \<in> set ?es. bundle_size [snd (snd e)] \<le> unat (mt_segSizeNoHeader sample_audio)"
    by (simp add: sample_audio_state bundle_size_def AudioDataHeader_size_def AudioPacket_getLength_def)
  from audio_packets_conserved [OF env sample_audio_ready no fit]
  obtain bundles rest pubs t' where r: "audio_all (publish_env.truncate sample_net) ?es sample_audio = Some t'"
    "concat bundles @ rest = map (snd \<circ> snd) ?es" "audio_bundle rest = Some (at_adata t')"
    "mt_published t' = mt_published sample_audio @ pubs" "length pubs = length bundles"
    by blast
  then show ?thesis
    by (intro exI [of _ bundles] exI [of _ rest] exI [of _ t']) (simp add: sample_audio_state)
qed

end
