(* ===== verification/Exclude_Filter.thy ===== *)
theory Exclude_Filter
  imports Name_Uri Interest_Queue
begin

text \<open>
  Selectors of interests in the NDN library: the exclude filter (\<open>ndn-cpp/src/exclude.cpp\<close>) and the
  match of an interest with a name (\<open>ndn-cpp/src/interest.cpp\<close>). An entry of a filter is a
  component, or \<open>None\<close> for ANY, which stands for all components between its neighbours. The loop of
  \<open>matches\<close> runs over indices; \<open>exclude_loop\<close> is the loop from index \<open>i\<close> on.
\<close>

section \<open>The filter\<close>

type_synonym exclude_entry = "component option"

text \<open>The component of an ANY entry is the empty one it was constructed with.\<close>

definition entry_component :: "exclude_entry \<Rightarrow> component" where
  "entry_component e = (case e of None \<Rightarrow> Component [] | Some c \<Rightarrow> c)"

definition next_component :: "exclude_entry list \<Rightarrow> nat \<Rightarrow> nat" where
  "next_component es i = i + length (takeWhile (\<lambda>e. e = None) (drop i es))"

function exclude_loop :: "exclude_entry list \<Rightarrow> component \<Rightarrow> nat \<Rightarrow> bool" where
  "exclude_loop es c i =
     (if i < length es then
        (case es ! i of
           None \<Rightarrow>
             let lowerBound = (if i > 0 then Some (entry_component (es ! (i - 1))) else None);
                 iUpperBound = next_component es (i + 1) in
             if iUpperBound < length es then
               let upperBound = entry_component (es ! iUpperBound) in
               if (case lowerBound of
                     Some l \<Rightarrow> c > l \<and> c < upperBound
                   | None \<Rightarrow> c < upperBound) then True
               else exclude_loop es c iUpperBound
             else
               (case lowerBound of
                  Some l \<Rightarrow> if c > l then True else exclude_loop es c (i + 1)
                | None \<Rightarrow> True)
         | Some e \<Rightarrow> if c = e then True else exclude_loop es c (i + 1))
      else False)"
  by pat_completeness auto

termination
  by (relation "measure (\<lambda>(es, c, i). length es - i)") (auto simp: next_component_def)

declare exclude_loop.simps [simp del]

definition exclude_matches :: "exclude_entry list \<Rightarrow> component \<Rightarrow> bool" where
  "exclude_matches es c = exclude_loop es c 0"

fun exclude_toUri :: "exclude_entry list \<Rightarrow> string" where
  "exclude_toUri [] = []"
| "exclude_toUri (e # es) =
     (case e of None \<Rightarrow> ''*'' | Some c \<Rightarrow> toEscapedString (getValue c)) @
     (if es = [] then [] else CHR '','' # exclude_toUri es)"

section \<open>Matching a name\<close>

text \<open>The selectors that the interests of the media library do not use.\<close>

record selective_interest = interest +
  si_maxSuffixComponents :: "int option"

definition matchesName :: "selective_interest \<Rightarrow> name \<Rightarrow> bool" where
  "matchesName i n \<longleftrightarrow>
     name_match (in_name i) n \<and>
     (case in_minSuffixComponents i of
        Some m \<Rightarrow> m \<ge> 0 \<longrightarrow> int (name_size n + 1 - name_size (in_name i)) \<ge> m
      | None \<Rightarrow> True) \<and>
     (case si_maxSuffixComponents i of
        Some m \<Rightarrow> m \<ge> 0 \<longrightarrow> int (name_size n + 1 - name_size (in_name i)) \<le> m
      | None \<Rightarrow> True) \<and>
     \<not> (in_exclude i \<noteq> [] \<and> name_size n > name_size (in_name i) \<and>
        exclude_matches (in_exclude i) (components n ! name_size (in_name i)))"

section \<open>What a filter excludes\<close>

definition first_component :: "exclude_entry list \<Rightarrow> component option" where
  "first_component es = (case dropWhile (\<lambda>e. e = None) es of [] \<Rightarrow> None | e # _ \<Rightarrow> e)"

text \<open>The reference: a component is excluded if it is listed, or lies between the nearest components
  on both sides of an ANY. The second argument is the component before the list.\<close>

primrec excluded_by :: "component \<Rightarrow> component option \<Rightarrow> exclude_entry list \<Rightarrow> bool" where
  "excluded_by c below [] = False"
| "excluded_by c below (e # es) =
     (case e of
        Some x \<Rightarrow> c = x \<or> excluded_by c (Some x) es
      | None \<Rightarrow>
          (case below of None \<Rightarrow> True | Some l \<Rightarrow> l < c) \<and>
          (case first_component es of None \<Rightarrow> True | Some u \<Rightarrow> c < u) \<or>
          excluded_by c below es)"

definition two_any_last :: "exclude_entry list \<Rightarrow> bool" where
  "two_any_last es \<longleftrightarrow> (\<exists>a. es = a @ [None, None])"

lemma two_any_last_simps [simp]:
  "\<not> two_any_last []" "two_any_last (Some x # es) = two_any_last es"
  "two_any_last (None # es) \<longleftrightarrow> es = [None] \<or> two_any_last es"
  unfolding two_any_last_def by (auto simp: Cons_eq_append_conv)

lemma Component_Nil_least: "Component [] < c \<longleftrightarrow> c \<noteq> Component []"
  by (cases c) (auto simp: less_component_def component_compare_def)

lemma excluded_by_any:
  "\<forall>e \<in> set es. e = None \<Longrightarrow> excluded_by c below es \<longleftrightarrow> es \<noteq> [] \<and> (case below of None \<Rightarrow> True | Some l \<Rightarrow> l < c)"
proof (induction es)
  case (Cons e es)
  then have "dropWhile (\<lambda>e. e = None) es = []" by (simp add: dropWhile_eq_Nil_conv)
  then have "first_component es = None" by (simp only: first_component_def list.case)
  with Cons show ?case by auto
qed simp

lemma first_component_run:
  assumes "\<forall>e \<in> set a. e = None" shows "first_component (a @ Some u # b) = Some u"
  using assms by (simp add: first_component_def dropWhile_append2)

lemma excluded_by_run:
  assumes "\<forall>e \<in> set a. e = None"
  shows "excluded_by c below (a @ Some u # b) \<longleftrightarrow>
    a \<noteq> [] \<and> (case below of None \<Rightarrow> True | Some l \<Rightarrow> l < c) \<and> c < u \<or> c = u \<or> excluded_by c (Some u) b"
  using assms
proof (induction a)
  case (Cons e a)
  then show ?case using first_component_run [of a u b] by auto
qed simp

lemma next_component_split:
  assumes "i < length es" "es ! i = None" "next_component es (i + 1) < length es"
  shows "\<exists>a u. drop i es = a @ Some u # drop (next_component es (i + 1) + 1) es \<and> (\<forall>e \<in> set a. e = None) \<and> a \<noteq> [] \<and>
    es ! next_component es (i + 1) = Some u"
proof -
  let ?t = "takeWhile (\<lambda>e. e = None) (drop (i + 1) es)" and ?k = "next_component es (i + 1)"
  have k: "?k = i + 1 + length ?t" by (simp add: next_component_def)
  have "drop (i + 1) es = ?t @ dropWhile (\<lambda>e. e = None) (drop (i + 1) es)" by simp
  then have d: "dropWhile (\<lambda>e. e = None) (drop (i + 1) es) = drop ?k es"
    using dropWhile_eq_drop [of "\<lambda>e. e = None" "drop (i + 1) es"] k by (simp add: add.commute)
  have ne: "drop ?k es \<noteq> []" using assms(3) by simp
  have "es ! ?k = hd (drop ?k es)" using assms(3) by (simp add: hd_drop_conv_nth)
  moreover have "hd (drop ?k es) \<noteq> None" using hd_dropWhile [of "\<lambda>e. e = None" "drop (i + 1) es"] ne unfolding d by blast
  ultimately obtain u where u: "es ! ?k = Some u" by auto
  have "drop i es = None # drop (i + 1) es" using assms(1,2) by (simp flip: Cons_nth_drop_Suc)
  also have "drop (i + 1) es = ?t @ drop ?k es" using d by (metis takeWhile_dropWhile_id)
  also have "drop ?k es = Some u # drop (?k + 1) es" using assms(3) u by (simp flip: Cons_nth_drop_Suc)
  finally have "drop i es = (None # ?t) @ Some u # drop (?k + 1) es" by simp
  moreover have "\<forall>e \<in> set (None # ?t). e = None" using set_takeWhileD by fastforce
  ultimately show ?thesis using u by blast
qed

lemma next_component_none:
  assumes "i < length es" "es ! i = None" "\<not> next_component es (i + 1) < length es"
  shows "\<forall>e \<in> set (drop i es). e = None"
proof -
  have "length (takeWhile (\<lambda>e. e = None) (drop (i + 1) es)) \<ge> length (drop (i + 1) es)"
    using assms(1,3) by (simp add: next_component_def)
  then have "takeWhile (\<lambda>e. e = None) (drop (i + 1) es) = drop (i + 1) es"
    by (metis length_takeWhile_le order_antisym takeWhile_eq_take take_all)
  then have "\<forall>e \<in> set (drop (i + 1) es). e = None" by (metis set_takeWhileD)
  then show ?thesis using assms(1,2) by (simp flip: Cons_nth_drop_Suc)
qed

lemma exclude_loop_any:
  assumes "\<forall>e \<in> set (drop i es). e = None" "0 < i" "es ! (i - 1) = None"
  shows "exclude_loop es c i \<longleftrightarrow> i < length es \<and> Component [] < c"
  using assms
proof (induction "length es - i" arbitrary: i)
  case 0
  then show ?case by (subst exclude_loop.simps) simp
next
  case (Suc k)
  have i: "i < length es" using Suc.hyps(2) by simp
  then have e: "es ! i = None" "\<forall>e \<in> set (drop (i + 1) es). e = None"
    using Suc.prems(1) by (auto simp flip: Cons_nth_drop_Suc)
  have tw: "takeWhile (\<lambda>e. e = None) (drop (i + 1) es) = drop (i + 1) es"
    unfolding takeWhile_eq_all_conv by (rule e(2))
  have "\<not> next_component es (i + 1) < length es" unfolding next_component_def tw using i by simp
  moreover have "exclude_loop es c (i + 1) \<longleftrightarrow> i + 1 < length es \<and> Component [] < c"
    using Suc.hyps e by (intro Suc.hyps(1)) simp_all
  ultimately show ?case
    using i e(1) Suc.prems(2,3) by (subst exclude_loop.simps) (auto simp: entry_component_def)
qed

lemma two_any_last_run:
  assumes "\<forall>e \<in> set a. e = None" shows "two_any_last (a @ Some u # b) = two_any_last (Some u # b)"
  using assms by (induction a) (auto simp: append_eq_Cons_conv)

lemma two_any_last_any:
  assumes "\<forall>e \<in> set es. e = None" shows "two_any_last es \<longleftrightarrow> length es > 1"
  using assms
proof (induction es)
  case (Cons e es)
  then show ?case by (cases es) auto
qed simp

lemma exclude_loop_spec:
  assumes "i < length es \<and> es ! i = None \<longrightarrow> (if i = 0 then below = None else below \<noteq> None \<and> es ! (i - 1) = below)"
  shows "exclude_loop es c i \<longleftrightarrow>
    excluded_by c below (drop i es) \<or> two_any_last (drop i es) \<and> c \<noteq> Component []"
  using assms
proof (induction es c i arbitrary: below rule: exclude_loop.induct)
  case (1 es c i)
  let ?k = "next_component es (i + 1)"
  consider "i \<ge> length es" | x where "i < length es" "es ! i = Some x"
    | "i < length es" "es ! i = None" "?k < length es" | "i < length es" "es ! i = None" "\<not> ?k < length es"
    by (meson not_le option.exhaust)
  then show ?case
  proof cases
    case 1
    then show ?thesis by (subst exclude_loop.simps) simp
  next
    case 2
    have "exclude_loop es c (i + 1) \<longleftrightarrow>
      excluded_by c (Some x) (drop (i + 1) es) \<or> two_any_last (drop (i + 1) es) \<and> c \<noteq> Component []" if "c \<noteq> x"
      using 2 that by (intro "1.IH"(3)) auto
    then show ?thesis using 2 by (subst exclude_loop.simps) (simp flip: Cons_nth_drop_Suc)
  next
    case 3
    obtain a u where d: "drop i es = a @ Some u # drop (?k + 1) es" "\<forall>e \<in> set a. e = None" "a \<noteq> []" "es ! ?k = Some u"
      using next_component_split [OF 3] by blast
    have "exclude_loop es c ?k \<longleftrightarrow>
      excluded_by c None (drop ?k es) \<or> two_any_last (drop ?k es) \<and> c \<noteq> Component []" if "\<not> (case (if i > 0 then Some (entry_component (es ! (i - 1))) else None) of
                     Some l \<Rightarrow> c > l \<and> c < u | None \<Rightarrow> c < u)"
      using 3 d(4) that by (intro "1.IH"(1)) (auto simp: entry_component_def)
    moreover have "drop ?k es = Some u # drop (?k + 1) es" using 3(3) d(4) by (simp flip: Cons_nth_drop_Suc)
    ultimately show ?thesis
      using 3 d "1.prems" excluded_by_run [OF d(2), of c below u] two_any_last_run [OF d(2), of u]
      by (subst exclude_loop.simps) (auto simp: entry_component_def split: if_splits)
  next
    case 4
    have all: "\<forall>e \<in> set (drop i es). e = None" by (rule next_component_none [OF 4])
    have "exclude_loop es c (i + 1) \<longleftrightarrow> i + 1 < length es \<and> Component [] < c"
      using all 4 by (intro exclude_loop_any) (auto simp flip: Cons_nth_drop_Suc)
    then show ?thesis
      using 4 all "1.prems" excluded_by_any [OF all, of c below] two_any_last_any [OF all]
      by (subst exclude_loop.simps) (auto simp: entry_component_def Component_Nil_least split: if_splits)
  qed
qed

text \<open>C39: An exclude filter matches a component exactly if it lists the component or an ANY stands for
  it, and, when the filter ends with two ANYs, every component that is not empty: then the lower bound
  of the last ANY is the empty component of the ANY before it.\<close>

theorem exclude_matches_spec:
  "exclude_matches es c \<longleftrightarrow> excluded_by c None es \<or> two_any_last es \<and> c \<noteq> Component []"
  unfolding exclude_matches_def using exclude_loop_spec [of 0 es None c] by simp

end
