(* ===== verification/Content_Cache.thy ===== *)
theory Content_Cache
  imports Exclude_Filter
begin

text \<open>
  The content cache of the NDN library (\<open>ndn-cpp/src/util/memory-content-cache.cpp\<close> and
  \<open>memory-content-cache.hpp\<close>), which a producer's session and streams keep: it stores published data
  packets, answers interests from them, and sends a packet that is added to the interests that wait
  for it.

  Times are doubles, as \<open>MillisecondsSince1970\<close> is. The clock stands still during a call. The wire
  encoding of a packet is what the packet's encoder made of it; faces are addresses. What faces are
  given is \<open>cc_sent\<close>, in order; \<open>throws\<close> says for which face and packet \<open>send\<close> throws, \<open>None\<close> is an
  exception that leaves the cache. The calls of \<open>onDataNotFound\<close> are listed in \<open>cc_notFound\<close>.
\<close>

section \<open>State\<close>

record content =
  ct_name :: name
  ct_dataEncoding :: bytes

record stale_time_content = content +
  st_staleTime :: double

record pending_interest =
  pi_interest :: selective_interest
  pi_face :: nat
  pi_timeoutPeriodStart :: double
  pi_timeoutTime :: double

record content_cache =
  cc_cleanupInterval :: double
  cc_nextCleanupTime :: double
  cc_onDataNotFound :: "string \<rightharpoonup> nat option"
  cc_registeredPrefixIds :: "u64 list"
  cc_noStaleTimeCache :: "content list"
  cc_staleTimeCache :: "stale_time_content list"
  cc_pendingInterests :: "pending_interest list"
  cc_sent :: "(nat \<times> bytes) list"
  cc_notFound :: "(nat \<times> name \<times> selective_interest) list"

definition new_MemoryContentCache :: "double \<Rightarrow> double \<Rightarrow> content_cache" where
  "new_MemoryContentCache cleanupIntervalMilliseconds now =
     \<lparr>cc_cleanupInterval = cleanupIntervalMilliseconds,
      cc_nextCleanupTime = d_add now cleanupIntervalMilliseconds,
      cc_onDataNotFound = Map.empty, cc_registeredPrefixIds = [], cc_noStaleTimeCache = [],
      cc_staleTimeCache = [], cc_pendingInterests = [], cc_sent = [], cc_notFound = []\<rparr>"

text \<open>The identifier of the registration is the face's.\<close>

definition cache_registerPrefix :: "name \<Rightarrow> nat option \<Rightarrow> u64 \<Rightarrow> content_cache \<Rightarrow> content_cache" where
  "cache_registerPrefix pre onDataNotFound registeredPrefixId c =
     c\<lparr>cc_onDataNotFound := (cc_onDataNotFound c)(toUri pre False \<mapsto> onDataNotFound),
       cc_registeredPrefixIds := cc_registeredPrefixIds c @ [registeredPrefixId]\<rparr>"

definition cache_unregisterAll :: "content_cache \<Rightarrow> content_cache" where
  "cache_unregisterAll c = c\<lparr>cc_registeredPrefixIds := [], cc_onDataNotFound := Map.empty\<rparr>"

section \<open>Stale content\<close>

definition new_StaleTimeContent :: "name \<Rightarrow> double \<Rightarrow> bytes \<Rightarrow> double \<Rightarrow> stale_time_content" where
  "new_StaleTimeContent n freshness enc now =
     \<lparr>ct_name = n, ct_dataEncoding = enc, st_staleTime = d_add now freshness\<rparr>"

definition isStale :: "double \<Rightarrow> stale_time_content \<Rightarrow> bool" where
  "isStale now s \<longleftrightarrow> d_le (st_staleTime s) now"

text \<open>\<open>std::lower_bound\<close>: the first place whose entry is not before the new one.\<close>

fun insert_content :: "stale_time_content \<Rightarrow> stale_time_content list \<Rightarrow> stale_time_content list" where
  "insert_content x [] = [x]"
| "insert_content x (y # ys) =
     (if d_less (st_staleTime y) (st_staleTime x) then y # insert_content x ys else x # y # ys)"

definition cache_doCleanup :: "double \<Rightarrow> content_cache \<Rightarrow> content_cache" where
  "cache_doCleanup now c =
     (if d_le (cc_nextCleanupTime c) now
      then c\<lparr>cc_staleTimeCache := dropWhile (isStale now) (cc_staleTimeCache c),
             cc_nextCleanupTime := d_add now (cc_cleanupInterval c)\<rparr>
      else c)"

section \<open>Pending interests\<close>

definition new_PendingInterest :: "selective_interest \<Rightarrow> nat \<Rightarrow> double \<Rightarrow> pending_interest" where
  "new_PendingInterest i face now =
     \<lparr>pi_interest = i, pi_face = face, pi_timeoutPeriodStart = now,
      pi_timeoutTime = (if in_lifetimeMs i \<ge> 0 then d_add now (d_of_int (in_lifetimeMs i)) else d_of_int (-1))\<rparr>"

definition isTimedOut :: "double \<Rightarrow> pending_interest \<Rightarrow> bool" where
  "isTimedOut now p \<longleftrightarrow> d_le (d_of_int 0) (pi_timeoutTime p) \<and> d_le (pi_timeoutTime p) now"

definition storePendingInterest :: "selective_interest \<Rightarrow> nat \<Rightarrow> double \<Rightarrow> content_cache \<Rightarrow> content_cache" where
  "storePendingInterest i face now c =
     c\<lparr>cc_pendingInterests := cc_pendingInterests c @ [new_PendingInterest i face now]\<rparr>"

definition erase_at :: "nat \<Rightarrow> 'a list \<Rightarrow> 'a list" where
  "erase_at i xs = take i xs @ drop (Suc i) xs"

text \<open>The loop of \<open>getPendingInterestsForName\<close>, from index \<open>i - 1\<close> down.\<close>

fun pending_loop :: "double \<Rightarrow> name \<Rightarrow> nat \<Rightarrow> pending_interest list \<Rightarrow> pending_interest list \<Rightarrow>
    pending_interest list \<times> pending_interest list" where
  "pending_loop now n 0 table found = (found, table)"
| "pending_loop now n (Suc i) table found =
     (let p = table ! i in
      if isTimedOut now p then pending_loop now n i (erase_at i table) found
      else pending_loop now n i table (if matchesName (pi_interest p) n then found @ [p] else found))"

definition getPendingInterestsForName :: "name \<Rightarrow> double \<Rightarrow> content_cache \<Rightarrow> pending_interest list \<times> content_cache" where
  "getPendingInterestsForName n now c =
     (let (found, table) = pending_loop now n (length (cc_pendingInterests c)) (cc_pendingInterests c) [] in
      (found, c\<lparr>cc_pendingInterests := table\<rparr>))"

section \<open>Adding a data packet\<close>

text \<open>The loop of \<open>add\<close>, from index \<open>i - 1\<close> down: what is sent and the table. An exception of \<open>send\<close>
  is caught and ends the loop.\<close>

fun answer_loop :: "(nat \<Rightarrow> bytes \<Rightarrow> bool) \<Rightarrow> double \<Rightarrow> name \<Rightarrow> bytes \<Rightarrow> nat \<Rightarrow> pending_interest list \<Rightarrow>
    (nat \<times> bytes) list \<Rightarrow> (nat \<times> bytes) list \<times> pending_interest list" where
  "answer_loop throws now n enc 0 table sent = (sent, table)"
| "answer_loop throws now n enc (Suc i) table sent =
     (let p = table ! i in
      if isTimedOut now p then answer_loop throws now n enc i (erase_at i table) sent
      else if matchesName (pi_interest p) n then
        if throws (pi_face p) enc then (sent, table)
        else answer_loop throws now n enc i (erase_at i table) (sent @ [(pi_face p, enc)])
      else answer_loop throws now n enc i table sent)"

definition cache_store :: "name \<Rightarrow> double \<Rightarrow> bytes \<Rightarrow> double \<Rightarrow> content_cache \<Rightarrow> content_cache" where
  "cache_store n freshness enc now c =
     (if d_le (d_of_int 0) freshness
      then c\<lparr>cc_staleTimeCache := insert_content (new_StaleTimeContent n freshness enc now) (cc_staleTimeCache c)\<rparr>
      else c\<lparr>cc_noStaleTimeCache := cc_noStaleTimeCache c @ [\<lparr>ct_name = n, ct_dataEncoding = enc\<rparr>]\<rparr>)"

definition cache_add ::
    "(nat \<Rightarrow> bytes \<Rightarrow> bool) \<Rightarrow> name \<Rightarrow> double \<Rightarrow> bytes \<Rightarrow> double \<Rightarrow> content_cache \<Rightarrow> content_cache" where
  "cache_add throws n freshness enc now c =
     (let c1 = cache_store n freshness enc now (cache_doCleanup now c);
          (sent, table) = answer_loop throws now n enc (length (cc_pendingInterests c1)) (cc_pendingInterests c1)
            (cc_sent c1) in
      c1\<lparr>cc_sent := sent, cc_pendingInterests := table\<rparr>)"

section \<open>Answering an interest\<close>

definition childSelector :: "selective_interest \<Rightarrow> int" where
  "childSelector i = (case in_childSelector i of None \<Rightarrow> -1 | Some k \<Rightarrow> k)"

definition child_component :: "selective_interest \<Rightarrow> name \<Rightarrow> component" where
  "child_component i n =
     (if name_size n > name_size (in_name i) then components n ! name_size (in_name i) else Component [])"

text \<open>The loop of \<open>operator()\<close>: \<open>Inl\<close> is the packet that is sent at once, \<open>Inr\<close> what was selected
  when the loop ends.\<close>

fun select_loop :: "selective_interest \<Rightarrow> content list \<Rightarrow> (component \<times> bytes) option \<Rightarrow>
    bytes + (component \<times> bytes) option" where
  "select_loop i [] selected = Inr selected"
| "select_loop i (ct # cts) selected =
     (if matchesName i (ct_name ct) then
        if childSelector i < 0 then Inl (ct_dataEncoding ct)
        else
          let component = child_component i (ct_name ct);
              gotBetterMatch =
                (case selected of
                   None \<Rightarrow> True
                 | Some (selectedComponent, _) \<Rightarrow>
                     if childSelector i = 0 then component < selectedComponent
                     else component > selectedComponent) in
          select_loop i cts (if gotBetterMatch then Some (component, ct_dataEncoding ct) else selected)
      else select_loop i cts selected)"

definition all_contents :: "content_cache \<Rightarrow> content list" where
  "all_contents c = map content.truncate (cc_staleTimeCache c) @ cc_noStaleTimeCache c"

definition cache_send :: "(nat \<Rightarrow> bytes \<Rightarrow> bool) \<Rightarrow> nat \<Rightarrow> bytes \<Rightarrow> content_cache \<Rightarrow> content_cache option" where
  "cache_send throws face enc c =
     (if throws face enc then None else Some (c\<lparr>cc_sent := cc_sent c @ [(face, enc)]\<rparr>))"

definition cache_onInterest ::
    "(nat \<Rightarrow> bytes \<Rightarrow> bool) \<Rightarrow> name \<Rightarrow> selective_interest \<Rightarrow> nat \<Rightarrow> double \<Rightarrow> content_cache \<Rightarrow> content_cache option" where
  "cache_onInterest throws pre i face now c =
     (let c1 = cache_doCleanup now c in
      case select_loop i (all_contents c1) None of
        Inl enc \<Rightarrow> cache_send throws face enc c1
      | Inr (Some (_, enc)) \<Rightarrow> cache_send throws face enc c1
      | Inr None \<Rightarrow>
          (case cc_onDataNotFound c1 (toUri pre False) of
             Some (Some callback) \<Rightarrow> Some (c1\<lparr>cc_notFound := cc_notFound c1 @ [(callback, pre, i)]\<rparr>)
           | _ \<Rightarrow> Some c1))"

end
