(* ===== verification/Cache_Properties.thy ===== *)
theory Cache_Properties
  imports Content_Cache Pipeliner
begin

text \<open>
  What the content cache gives: the pending interests an added packet answers, the order that lets the
  clean-up stop at the first fresh packet, the packet an interest gets, and with it the first exchange
  of a consumer with a producer: the pipeliner's interest for the rightmost key frame is answered with
  the newest frame that its exclude filter leaves.
\<close>

section \<open>Pending interests\<close>

definition answered :: "double \<Rightarrow> name \<Rightarrow> pending_interest \<Rightarrow> bool" where
  "answered now n p \<longleftrightarrow> \<not> isTimedOut now p \<and> matchesName (pi_interest p) n"

definition keeps_waiting :: "double \<Rightarrow> name \<Rightarrow> pending_interest \<Rightarrow> bool" where
  "keeps_waiting now n p \<longleftrightarrow> \<not> isTimedOut now p \<and> \<not> matchesName (pi_interest p) n"

lemma erase_at_split:
  "i < length xs \<Longrightarrow> take i (erase_at i xs) = take i xs" "i < length xs \<Longrightarrow> drop i (erase_at i xs) = drop (Suc i) xs"
  "i < length xs \<Longrightarrow> length (erase_at i xs) = length xs - 1"
  by (simp_all add: erase_at_def)

lemma answer_loop_spec:
  assumes "i \<le> length table" "\<And>p. p \<in> set table \<Longrightarrow> \<not> throws (pi_face p) enc"
  shows "answer_loop throws now n enc i table sent =
    (sent @ map (\<lambda>p. (pi_face p, enc)) (rev (filter (answered now n) (take i table))),
     filter (keeps_waiting now n) (take i table) @ drop i table)"
  using assms
proof (induction i arbitrary: table sent)
  case (Suc i)
  have l: "i < length table" using Suc.prems(1) by simp
  have e: "set (erase_at i table) \<subseteq> set table"
    by (auto simp: erase_at_def dest: in_set_takeD in_set_dropD)
  have IH: "answer_loop throws now n enc i (erase_at i table) s =
      (s @ map (\<lambda>p. (pi_face p, enc)) (rev (filter (answered now n) (take i table))),
       filter (keeps_waiting now n) (take i table) @ drop (Suc i) table)" for s
  proof -
    have "i \<le> length (erase_at i table)" using l by (simp add: erase_at_split)
    moreover have "\<And>p. p \<in> set (erase_at i table) \<Longrightarrow> \<not> throws (pi_face p) enc" using Suc.prems(2) e by blast
    ultimately show ?thesis using Suc.IH [of "erase_at i table" s] l by (simp add: erase_at_split)
  qed
  have IH': "answer_loop throws now n enc i table s =
      (s @ map (\<lambda>p. (pi_face p, enc)) (rev (filter (answered now n) (take i table))),
       filter (keeps_waiting now n) (take i table) @ table ! i # drop (Suc i) table)" for s
    using Suc.IH [of table s] Suc.prems l by (simp add: Cons_nth_drop_Suc)
  have "\<not> throws (pi_face (table ! i)) enc" using Suc.prems(2) l by simp
  moreover have "answered now n (table ! i) \<longleftrightarrow> \<not> isTimedOut now (table ! i) \<and> matchesName (pi_interest (table ! i)) n"
      "keeps_waiting now n (table ! i) \<longleftrightarrow> \<not> isTimedOut now (table ! i) \<and> \<not> matchesName (pi_interest (table ! i)) n"
    by (simp_all add: answered_def keeps_waiting_def)
  ultimately show ?case using l by (simp add: IH IH' Let_def take_Suc_conv_app_nth)
qed simp

lemma pending_loop_spec:
  assumes "i \<le> length table"
  shows "pending_loop now n i table found =
    (found @ rev (filter (answered now n) (take i table)),
     filter (\<lambda>p. \<not> isTimedOut now p) (take i table) @ drop i table)"
  using assms
proof (induction i arbitrary: table found)
  case (Suc i)
  have l: "i < length table" using Suc.prems(1) by simp
  show ?case
    using Suc.IH [of "erase_at i table"] Suc.IH [of table] l
    by (simp add: erase_at_split Let_def take_Suc_conv_app_nth answered_def Cons_nth_drop_Suc)
qed simp

text \<open>The pending interests that are given for a name are those that wait for it, the latest first;
  timed-out ones are gone.\<close>

lemma getPendingInterestsForName_spec:
  "getPendingInterestsForName n now c =
     (rev (filter (answered now n) (cc_pendingInterests c)),
      c\<lparr>cc_pendingInterests := filter (\<lambda>p. \<not> isTimedOut now p) (cc_pendingInterests c)\<rparr>)"
  by (simp add: getPendingInterestsForName_def pending_loop_spec)

section \<open>The stored packets\<close>

lemma set_insert_content [simp]: "set (insert_content x xs) = insert x (set xs)"
  by (induction xs) auto

lemma all_contents_store:
  "set (all_contents (cache_store n freshness enc now c)) =
     insert \<lparr>ct_name = n, ct_dataEncoding = enc\<rparr> (set (all_contents c))"
  by (auto simp: cache_store_def all_contents_def new_StaleTimeContent_def content.truncate_def)

text \<open>The order of the deque: the times are numbers and do not decrease.\<close>

definition stale_order :: "stale_time_content list \<Rightarrow> bool" where
  "stale_order xs \<longleftrightarrow> (\<forall>x \<in> set xs. st_staleTime x \<noteq> NotANumber) \<and>
     sorted_wrt (\<lambda>x y. \<not> d_less (st_staleTime y) (st_staleTime x)) xs"

lemma d_less_trans: "d_less x y \<Longrightarrow> d_less y z \<Longrightarrow> d_less x z"
  by (cases x; cases y; cases z) auto

lemma not_d_less_trans:
  "y \<noteq> NotANumber \<Longrightarrow> \<not> d_less y x \<Longrightarrow> \<not> d_less z y \<Longrightarrow> \<not> d_less z x"
  by (cases x; cases y; cases z) auto

lemma stale_order_insert:
  assumes "stale_order xs" "st_staleTime x \<noteq> NotANumber" shows "stale_order (insert_content x xs)"
  using assms(1)
proof (induction xs)
  case Nil
  then show ?case using assms(2) by (simp add: stale_order_def)
next
  case (Cons y ys)
  have ys: "stale_order ys" "st_staleTime y \<noteq> NotANumber" "\<forall>z \<in> set ys. \<not> d_less (st_staleTime z) (st_staleTime y)"
    using Cons.prems by (auto simp: stale_order_def)
  show ?case
  proof (cases "d_less (st_staleTime y) (st_staleTime x)")
    case True
    then have "\<not> d_less (st_staleTime x) (st_staleTime y)" using d_less_trans [OF True]
      by (cases "st_staleTime x"; cases "st_staleTime y") auto
    then show ?thesis using Cons.IH [OF ys(1)] ys True by (auto simp: stale_order_def)
  next
    case False
    then have "\<forall>z \<in> set ys. \<not> d_less (st_staleTime z) (st_staleTime x)"
      using not_d_less_trans [OF ys(2) False] ys(3) by blast
    then show ?thesis using Cons.prems False assms(2) by (auto simp: stale_order_def)
  qed
qed

lemma stale_order_dropWhile: "stale_order xs \<Longrightarrow> stale_order (dropWhile P xs)"
  by (induction xs) (auto simp: stale_order_def)

text \<open>So the clean-up, which stops at the first fresh packet, removes exactly the stale ones.\<close>

lemma dropWhile_stale:
  assumes "stale_order xs" "now \<noteq> NotANumber"
  shows "dropWhile (isStale now) xs = filter (\<lambda>x. \<not> isStale now x) xs"
  using assms(1)
proof (induction xs)
  case (Cons y ys)
  have ys: "stale_order ys" "st_staleTime y \<noteq> NotANumber"
    "\<forall>z \<in> set ys. st_staleTime z \<noteq> NotANumber \<and> \<not> d_less (st_staleTime z) (st_staleTime y)"
    using Cons.prems by (auto simp: stale_order_def)
  have "\<not> isStale now z" if "\<not> isStale now y" "z \<in> set ys" for z
    using that ys assms(2)
    by (cases "st_staleTime z"; cases "st_staleTime y"; cases now) (fastforce simp: isStale_def d_le_def)+
  then have "\<not> isStale now y \<Longrightarrow> filter (\<lambda>x. \<not> isStale now x) ys = ys" by (simp add: filter_id_conv)
  then show ?case using Cons.IH [OF ys(1)] by simp
qed simp

lemma stale_order_add:
  assumes "stale_order (cc_staleTimeCache c)" "d_add now freshness \<noteq> NotANumber"
  shows "stale_order (cc_staleTimeCache (cache_add throws n freshness enc now c))"
  using assms stale_order_insert [OF stale_order_dropWhile [OF assms(1)]] stale_order_insert [OF assms(1)]
  by (auto simp: cache_add_def cache_store_def cache_doCleanup_def new_StaleTimeContent_def Let_def
      stale_order_dropWhile split: prod.split)

section \<open>The answer to an interest\<close>

text \<open>\<open>a\<close> is not preferred to \<open>b\<close> by the child selector.\<close>

definition not_better :: "selective_interest \<Rightarrow> component \<Rightarrow> component \<Rightarrow> bool" where
  "not_better i a b \<longleftrightarrow> (if childSelector i = 0 then b \<le> a else a \<le> b)"

lemma not_better_refl: "not_better i a a"
  by (simp add: not_better_def)

lemma not_better_trans: "not_better i a b \<Longrightarrow> not_better i b c \<Longrightarrow> not_better i a c"
  by (auto simp: not_better_def split: if_splits)

lemma select_loop_first:
  "childSelector i < 0 \<Longrightarrow> select_loop i cts sel =
     (case find (\<lambda>ct. matchesName i (ct_name ct)) cts of None \<Rightarrow> Inr sel | Some ct \<Rightarrow> Inl (ct_dataEncoding ct))"
  by (induction cts) auto

definition selected_best :: "selective_interest \<Rightarrow> content list \<Rightarrow> component \<Rightarrow> bytes \<Rightarrow> bool" where
  "selected_best i cts c enc \<longleftrightarrow>
     (\<exists>ct \<in> set cts. matchesName i (ct_name ct) \<and> c = child_component i (ct_name ct) \<and> enc = ct_dataEncoding ct) \<and>
     (\<forall>ct \<in> set cts. matchesName i (ct_name ct) \<longrightarrow> not_better i (child_component i (ct_name ct)) c)"

lemma select_loop_best:
  assumes "childSelector i \<ge> 0"
    and "case sel of None \<Rightarrow> \<forall>ct \<in> set seen. \<not> matchesName i (ct_name ct) | Some (c, enc) \<Rightarrow> selected_best i seen c enc"
  shows "\<exists>r. select_loop i cts sel = Inr r \<and>
    (case r of None \<Rightarrow> \<forall>ct \<in> set (seen @ cts). \<not> matchesName i (ct_name ct)
     | Some (c, enc) \<Rightarrow> selected_best i (seen @ cts) c enc)"
  using assms(2)
proof (induction cts arbitrary: sel seen)
  case (Cons ct cts)
  let ?c = "child_component i (ct_name ct)"
  define sel' where "sel' = (if matchesName i (ct_name ct) \<and>
      (case sel of None \<Rightarrow> True | Some (s, _) \<Rightarrow> if childSelector i = 0 then ?c < s else ?c > s)
    then Some (?c, ct_dataEncoding ct) else sel)"
  have step: "select_loop i (ct # cts) sel = select_loop i cts sel'"
    using assms(1) by (auto simp: sel'_def Let_def)
  have "case sel' of None \<Rightarrow> \<forall>ct \<in> set (seen @ [ct]). \<not> matchesName i (ct_name ct)
     | Some (c, enc) \<Rightarrow> selected_best i (seen @ [ct]) c enc"
  proof (cases sel)
    case None
    then show ?thesis using Cons.prems not_better_refl by (auto simp: sel'_def selected_best_def)
  next
    case (Some p)
    obtain s enc where p: "p = (s, enc)" by (cases p)
    have best: "selected_best i seen s enc" using Cons.prems Some p by simp
    show ?thesis
    proof (cases "matchesName i (ct_name ct) \<and> (if childSelector i = 0 then ?c < s else ?c > s)")
      case True
      then have s': "sel' = Some (?c, ct_dataEncoding ct)" by (simp add: sel'_def Some p)
      have "not_better i s ?c" using True by (auto simp: not_better_def split: if_splits)
      then have "\<forall>x \<in> set seen. matchesName i (ct_name x) \<longrightarrow> not_better i (child_component i (ct_name x)) ?c"
        using best not_better_trans unfolding selected_best_def by blast
      then have "selected_best i (seen @ [ct]) ?c (ct_dataEncoding ct)"
        using True not_better_refl unfolding selected_best_def by simp
      then show ?thesis by (simp add: s')
    next
      case False
      then have s': "sel' = Some (s, enc)" by (auto simp: sel'_def Some p)
      have "matchesName i (ct_name ct) \<Longrightarrow> not_better i ?c s" using False by (auto simp: not_better_def)
      then have "selected_best i (seen @ [ct]) s enc" using best by (auto simp: selected_best_def)
      then show ?thesis by (simp add: s')
    qed
  qed
  from Cons.IH [OF this] show ?case unfolding step append_assoc append_Cons append_Nil .
next
  case Nil
  then show ?case by (intro exI [of _ sel]) (simp only: select_loop.simps append_Nil2 simp_thms)
qed

section \<open>Numbers in the order of components\<close>

lemma memcmp_snoc:
  "length xs = length ys \<Longrightarrow>
    memcmp (xs @ [x]) (ys @ [y]) = (if memcmp xs ys = 0 then memcmp [x] [y] else memcmp xs ys)"
  by (induction xs ys rule: list_induct2) auto

lemma dec_string_less:
  "m < n \<Longrightarrow> length (dec_string m) < length (dec_string n) \<or>
    length (dec_string m) = length (dec_string n) \<and> memcmp (dec_string m) (dec_string n) < 0"
proof (induction n arbitrary: m rule: dec_string.induct)
  case (1 n)
  show ?case
  proof (cases "n < 10")
    case True
    have "digit m \<noteq> digit n" using True \<open>m < n\<close> byte_val_digit by (metis add_left_cancel less_trans nat_less_le)
    then show ?thesis using True \<open>m < n\<close> by (simp add: dec_string.simps [of m] dec_string.simps [of n])
  next
    case n: False
    show ?thesis
    proof (cases "m < 10")
      case True
      then show ?thesis using n by (simp add: dec_string.simps [of m] dec_string.simps [of n])
    next
      case m: False
      have s: "dec_string m = dec_string (m div 10) @ [digit (m mod 10)]"
          "dec_string n = dec_string (n div 10) @ [digit (n mod 10)]"
        using m n by (simp_all add: dec_string.simps [of m] dec_string.simps [of n])
      have "m div 10 \<le> n div 10" using \<open>m < n\<close> by (simp add: div_le_mono)
      moreover have "m = 10 * (m div 10) + m mod 10" "n = 10 * (n div 10) + n mod 10" by simp_all
      ultimately have "m div 10 < n div 10 \<or> m div 10 = n div 10 \<and> m mod 10 < n mod 10"
        using \<open>m < n\<close> by linarith
      then consider "m div 10 < n div 10" | "m div 10 = n div 10" "m mod 10 < n mod 10" by blast
      then show ?thesis
      proof cases
        case 1
        show ?thesis using "1.IH" [OF n 1] unfolding s by (auto simp: memcmp_snoc)
      next
        case 2
        have "byte_val (digit (m mod 10)) \<noteq> byte_val (digit (n mod 10))" using 2(2) by simp
        then have "digit (m mod 10) \<noteq> digit (n mod 10)" by metis
        then show ?thesis unfolding s 2(1) using 2(2) by (simp add: memcmp_snoc)
      qed
    qed
  qed
qed

lemma number_component_less:
  assumes "uint m < uint n" shows "componentFromInt m < componentFromInt n"
proof -
  have "unat m < unat n" using assms by (metis word_less_alt word_less_nat_alt)
  from dec_string_less [OF this] show ?thesis
    by (auto simp: less_component_def component_compare_def componentFromInt_def Let_def)
qed

lemma number_component_le: "componentFromInt m \<le> componentFromInt n \<longleftrightarrow> uint m \<le> uint n"
  using number_component_less [of m n] number_component_less [of n m]
  by (metis linorder_not_le nle_le order_less_le word_uint_eq_iff)

section \<open>Claims\<close>

definition plain_interest :: "interest \<Rightarrow> selective_interest" where
  "plain_interest i = interest.extend i (selective_interest.fields None)"

lemma plain_interest_simps [simp]:
  "in_name (plain_interest i) = in_name i" "in_childSelector (plain_interest i) = in_childSelector i"
  "in_minSuffixComponents (plain_interest i) = in_minSuffixComponents i"
  "in_exclude (plain_interest i) = in_exclude i" "si_maxSuffixComponents (plain_interest i) = None"
  by (simp_all add: plain_interest_def interest.defs selective_interest.defs)

lemma excludes_up_to: "exclude_matches [None, Some x] c \<longleftrightarrow> c \<le> x"
  using exclude_loop_spec [of 0 "[None, Some x]" None c]
  by (auto simp: exclude_matches_def first_component_def)

definition numbered :: "name \<Rightarrow> u32 \<Rightarrow> content \<Rightarrow> bool" where
  "numbered pfx k ct \<longleftrightarrow> (\<exists>more. components (ct_name ct) = components pfx @ componentFromInt k # more)"

definition not_excluded :: "int \<Rightarrow> u32 \<Rightarrow> bool" where
  "not_excluded excl k \<longleftrightarrow> (excl \<noteq> 0 \<longrightarrow> excl < uint k)"

lemma rightmost_matches:
  assumes "numbered pfx k ct" "0 \<le> excl" "excl < 2 ^ 32"
  shows "matchesName (plain_interest (rightmost_interest pfx excl)) (ct_name ct) \<longleftrightarrow> not_excluded excl k"
    "child_component (plain_interest (rightmost_interest pfx excl)) (ct_name ct) = componentFromInt k"
proof -
  obtain more where n: "components (ct_name ct) = components pfx @ componentFromInt k # more"
    using assms(1) by (auto simp: numbered_def)
  have u: "uint (of_int excl :: u32) = excl" using assms(2,3) by (simp add: uint_word_of_int_eq take_bit_int_eq_self)
  show "matchesName (plain_interest (rightmost_interest pfx excl)) (ct_name ct) \<longleftrightarrow> not_excluded excl k"
    using n by (auto simp: matchesName_def rightmost_interest_def new_Interest_def name_match_iff name_size_def
        excludes_up_to number_component_le u not_excluded_def nth_append)
  show "child_component (plain_interest (rightmost_interest pfx excl)) (ct_name ct) = componentFromInt k"
    using n by (simp add: child_component_def rightmost_interest_def new_Interest_def name_size_def nth_append)
qed

lemma rightmost_prefix:
  "matchesName (plain_interest (rightmost_interest pfx excl)) n \<Longrightarrow> name_match pfx n"
  by (simp add: matchesName_def rightmost_interest_def new_Interest_def)

text \<open>C38: Adding a data packet to the cache sends it once to every interest that waits for it and has
  not timed out, the latest first; these and the timed-out ones are no longer pending, all others are;
  and the packet is stored beside everything that was stored before, less what the clean-up removed.\<close>

theorem cache_add_answers_pending:
  assumes "\<forall>p \<in> set (cc_pendingInterests c). \<not> throws (pi_face p) enc"
  shows "cc_sent (cache_add throws n freshness enc now c) = cc_sent c @
      map (\<lambda>p. (pi_face p, enc)) (rev (filter (answered now n) (cc_pendingInterests c))) \<and>
    cc_pendingInterests (cache_add throws n freshness enc now c) =
      filter (keeps_waiting now n) (cc_pendingInterests c) \<and>
    set (all_contents (cache_add throws n freshness enc now c)) =
      insert \<lparr>ct_name = n, ct_dataEncoding = enc\<rparr> (set (all_contents (cache_doCleanup now c)))"
proof -
  let ?c = "cache_store n freshness enc now (cache_doCleanup now c)"
  have p: "cc_pendingInterests ?c = cc_pendingInterests c" "cc_sent ?c = cc_sent c"
    by (simp_all add: cache_store_def cache_doCleanup_def)
  have "cache_add throws n freshness enc now c =
    ?c\<lparr>cc_sent := cc_sent c @ map (\<lambda>p. (pi_face p, enc)) (rev (filter (answered now n) (cc_pendingInterests c))),
       cc_pendingInterests := filter (keeps_waiting now n) (cc_pendingInterests c)\<rparr>"
    using assms by (simp add: cache_add_def Let_def p answer_loop_spec)
  then show ?thesis
    using all_contents_store [of n freshness enc now "cache_doCleanup now c"] by (simp add: all_contents_def)
qed

text \<open>C7: The consumer's first interest, for the rightmost key frame beyond the excluded number, is
  answered by the producer's cache with a packet of the newest such frame, in the order of numbers and
  not of their digits; and with nothing if there is none.\<close>

theorem rightmost_interest_gets_newest:
  assumes "\<forall>ct \<in> set (all_contents (cache_doCleanup now c)). name_match pfx (ct_name ct) \<longrightarrow> (\<exists>k. numbered pfx k ct)"
    and "0 \<le> excl" "excl < 2 ^ 32"
    and "\<forall>ct \<in> set (all_contents (cache_doCleanup now c)). \<not> throws face (ct_dataEncoding ct)"
  defines "cached \<equiv> set (all_contents (cache_doCleanup now c))"
  shows "\<exists>c'. cache_onInterest throws pre (plain_interest (rightmost_interest pfx excl)) face now c = Some c' \<and>
    (if \<exists>ct \<in> cached. \<exists>k. numbered pfx k ct \<and> not_excluded excl k
     then \<exists>ct \<in> cached. \<exists>k. numbered pfx k ct \<and> not_excluded excl k \<and>
       (\<forall>ct' \<in> cached. \<forall>k'. numbered pfx k' ct' \<and> not_excluded excl k' \<longrightarrow> uint k' \<le> uint k) \<and>
       cc_sent c' = cc_sent c @ [(face, ct_dataEncoding ct)]
     else cc_sent c' = cc_sent c)"
proof -
  let ?i = "plain_interest (rightmost_interest pfx excl)" and ?c = "cache_doCleanup now c"
  have right: "childSelector ?i = 1" by (simp add: childSelector_def rightmost_interest_def new_Interest_def)
  have sent: "cc_sent ?c = cc_sent c" by (simp add: cache_doCleanup_def)
  note m = rightmost_matches [OF _ assms(2,3)]
  have number: "\<exists>k. numbered pfx k ct \<and> not_excluded excl k" if "ct \<in> cached" "matchesName ?i (ct_name ct)" for ct
    using that assms(1) m(1) rightmost_prefix unfolding cached_def by blast
  obtain r where r: "select_loop ?i (all_contents ?c) None = Inr r"
    "case r of None \<Rightarrow> \<forall>ct \<in> cached. \<not> matchesName ?i (ct_name ct)
     | Some (x, enc) \<Rightarrow> selected_best ?i (all_contents ?c) x enc"
    using select_loop_best [where i = ?i and sel = None and seen = "[]" and cts = "all_contents ?c", unfolded append_Nil] right unfolding cached_def by auto
  show ?thesis
  proof (cases r)
    case None
    then have "\<not> (\<exists>ct \<in> cached. \<exists>k. numbered pfx k ct \<and> not_excluded excl k)" using r(2) m(1) by auto
    then show ?thesis
      using r(1) None sent by (auto simp: cache_onInterest_def Let_def split: option.split)
  next
    case (Some p)
    obtain x enc where p: "p = (x, enc)" by (cases p)
    have best: "selected_best ?i (all_contents ?c) x enc" using r(2) Some p by simp
    then obtain ct where ct: "ct \<in> cached" "matchesName ?i (ct_name ct)" "x = child_component ?i (ct_name ct)"
      "enc = ct_dataEncoding ct"
      by (auto simp: selected_best_def cached_def)
    obtain k where k: "numbered pfx k ct" "not_excluded excl k" using number [OF ct(1,2)] by blast
    have "uint k' \<le> uint k" if "ct' \<in> cached" "numbered pfx k' ct'" "not_excluded excl k'" for ct' k'
    proof -
      have "not_better ?i (componentFromInt k') x"
        using best that m [OF that(2)] unfolding selected_best_def cached_def by metis
      then show ?thesis
        using ct(3) m(2) [OF k(1)] by (simp add: not_better_def right number_component_le)
    qed
    moreover have "cache_onInterest throws pre ?i face now c = Some (?c\<lparr>cc_sent := cc_sent c @ [(face, enc)]\<rparr>)"
      using r(1) Some p assms(4) ct(1,4) sent by (simp add: cache_onInterest_def cache_send_def cached_def)
    ultimately show ?thesis using ct k by auto
  qed
qed

section \<open>A concrete cache\<close>

definition sample_frames :: name where
  "sample_frames = Name [Component ''camera'', Component ''k'']"

definition sample_cached_frame :: "u32 \<Rightarrow> content" where
  "sample_cached_frame k = \<lparr>ct_name = Name [Component ''camera'', Component ''k'', componentFromInt k, Component ''data''],
     ct_dataEncoding = dec_string (unat k)\<rparr>"

definition sample_waiting_interest :: pending_interest where
  "sample_waiting_interest = new_PendingInterest (plain_interest (rightmost_interest sample_frames 8)) 1 (Finite 0)"

definition sample_cache :: content_cache where
  "sample_cache = (new_MemoryContentCache (Finite 1000) (Finite 0))
     \<lparr>cc_noStaleTimeCache := [sample_cached_frame 9, sample_cached_frame 10, sample_cached_frame 7],
      cc_pendingInterests := [sample_waiting_interest]\<rparr>"

lemma number_component_eq: "componentFromInt m = componentFromInt n \<longleftrightarrow> m = n"
proof
  assume "componentFromInt m = componentFromInt n"
  then have "uint m \<le> uint n" "uint n \<le> uint m"
    using number_component_le [of m n] number_component_le [of n m] by simp_all
  then have "uint m = uint n" by simp
  then show "m = n" by (simp only: word_uint_eq_iff)
qed simp

lemma sample_numbered: "numbered sample_frames k (sample_cached_frame j) \<longleftrightarrow> k = j"
proof -
  have "numbered sample_frames k (sample_cached_frame j) \<longleftrightarrow> componentFromInt j = componentFromInt k"
    by (simp add: numbered_def sample_frames_def sample_cached_frame_def)
  then show ?thesis using number_component_eq [of j k] by blast
qed

lemma sample_contents:
  "all_contents (cache_doCleanup (Finite 0) sample_cache) = [sample_cached_frame 9, sample_cached_frame 10, sample_cached_frame 7]"
  by (simp add: cache_doCleanup_def sample_cache_def new_MemoryContentCache_def all_contents_def)

theorem rightmost_interest_gets_newest_witness:
  "\<exists>c'. cache_onInterest (\<lambda>_ _. False) sample_frames (plain_interest (rightmost_interest sample_frames 8)) 1 (Finite 0)
      sample_cache = Some c' \<and> cc_sent c' = [(1, ''10'')]"
proof -
  have "\<exists>k. numbered sample_frames k ct" if "ct \<in> {sample_cached_frame 9, sample_cached_frame 10, sample_cached_frame 7}" for ct
    using that sample_numbered by auto
  then have hyp: "\<forall>ct \<in> set (all_contents (cache_doCleanup (Finite 0) sample_cache)).
      name_match sample_frames (ct_name ct) \<longrightarrow> (\<exists>k. numbered sample_frames k ct)"
    by (simp add: sample_contents)
  have sent: "cc_sent sample_cache = []" by (simp add: sample_cache_def new_MemoryContentCache_def)
  have ten: "ct_dataEncoding (sample_cached_frame 10) = ''10''" by code_simp
  from rightmost_interest_gets_newest [OF hyp, where excl = 8 and throws = "\<lambda>_ _. False" and face = 1 and pre = sample_frames]
  show ?thesis
    by (auto simp: sample_contents sample_numbered not_excluded_def sent ten)
qed

theorem cache_add_answers_pending_witness:
  "cc_sent (cache_add (\<lambda>_ _. False) (ct_name (sample_cached_frame 10)) (Finite 5) ''10'' (Finite 1) sample_cache) = [(1, ''10'')] \<and>
   cc_pendingInterests (cache_add (\<lambda>_ _. False) (ct_name (sample_cached_frame 10)) (Finite 5) ''10'' (Finite 1) sample_cache) = []"
proof -
  have m: "matchesName (plain_interest (rightmost_interest sample_frames 8)) (ct_name (sample_cached_frame 10))"
    using rightmost_matches(1) [of sample_frames 10 "sample_cached_frame 10" 8] by (simp add: sample_numbered not_excluded_def)
  have p: "cc_pendingInterests sample_cache = [sample_waiting_interest]" "cc_sent sample_cache = []"
    by (simp_all add: sample_cache_def new_MemoryContentCache_def)
  have "pi_interest sample_waiting_interest = plain_interest (rightmost_interest sample_frames 8)"
      "pi_face sample_waiting_interest = 1" "\<not> isTimedOut (Finite 1) sample_waiting_interest"
    by (simp_all add: sample_waiting_interest_def new_PendingInterest_def isTimedOut_def rightmost_interest_def
        new_Interest_def d_of_int_def to_double_numeral d_le_def interest.defs plain_interest_def selective_interest.defs)
  then show ?thesis
    using cache_add_answers_pending [of sample_cache "\<lambda>_ _. False" "''10''" "ct_name (sample_cached_frame 10)" "Finite 5" "Finite 1"] m
    by (simp add: p answered_def keeps_waiting_def)
qed

end
