(* ===== verification/Tlv_Fields.thy ===== *)
theory Tlv_Fields
  imports Tlv_Decoder
begin

text \<open>
  Packets are sequences of TLVs, some of them nested in others. The theory describes such a sequence as
  a list of fields, each a type and a value, and has the lemmas with which encoders and decoders of
  packets are verified: a writer \<open>emits\<close> its bytes in both passes of \<open>writeNestedTlv\<close>, the one that
  only measures and the one that writes; and a decoder that stands before the rest of a sequence
  (\<open>td_left\<close>) reads its first field, or sees that an optional field is absent.
\<close>

section \<open>Writers\<close>

type_synonym writer = "tlv_encoder \<Rightarrow> ndn_Error + tlv_encoder"

definition emits :: "writer \<Rightarrow> bytes \<Rightarrow> bool" where
  "emits w bs \<longleftrightarrow>
     (\<forall>e. \<not> te_enableOutput e \<longrightarrow> w e = Inr (e\<lparr>te_offset := te_offset e + length bs\<rparr>)) \<and>
     (\<forall>e. te_good e \<longrightarrow> (\<exists>e'. w e = Inr e' \<and> te_good e' \<and> te_written e' = te_written e @ bs))"

named_theorems emits_intros \<open>what the writers emit\<close>

lemma emitsD:
  assumes "emits w bs"
  shows "\<not> te_enableOutput e \<Longrightarrow> w e = Inr (e\<lparr>te_offset := te_offset e + length bs\<rparr>)"
    "te_good e \<Longrightarrow> \<exists>e'. w e = Inr e' \<and> te_good e' \<and> te_written e' = te_written e @ bs"
  using assms by (auto simp: emits_def)

lemma emits_skip [emits_intros]: "emits Inr []"
  by (simp add: emits_def)

lemma emits_seq [emits_intros]:
  assumes "emits v as" "emits w bs" shows "emits (\<lambda>e. ebind (v e) w) (as @ bs)"
  unfolding emits_def
proof (intro conjI allI impI)
  fix e :: tlv_encoder assume "\<not> te_enableOutput e"
  then show "ebind (v e) w = Inr (e\<lparr>te_offset := te_offset e + length (as @ bs)\<rparr>)"
    using emitsD(1) [OF assms(1), of e] emitsD(1) [OF assms(2), of "e\<lparr>te_offset := te_offset e + length as\<rparr>"]
    by (simp add: add.assoc)
next
  fix e assume "te_good e"
  then obtain e1 where e1: "v e = Inr e1" "te_good e1" "te_written e1 = te_written e @ as"
    using emitsD(2) [OF assms(1)] by blast
  then show "\<exists>e'. ebind (v e) w = Inr e' \<and> te_good e' \<and> te_written e' = te_written e @ as @ bs"
    using emitsD(2) [OF assms(2) e1(2)] by auto
qed

lemma emits_if [emits_intros]:
  "(b \<Longrightarrow> emits v as) \<Longrightarrow> (\<not> b \<Longrightarrow> emits w bs) \<Longrightarrow>
    emits (\<lambda>e. if b then v e else w e) (if b then as else bs)"
  by (cases b) simp_all

lemma emits_typeAndLength [emits_intros]:
  "emits (writeTypeAndLength t n) (var_number_bytes (of_nat t) @ var_number_bytes (of_nat n))"
  using writeTypeAndLength_good by (auto simp: emits_def writeTypeAndLength_def)

lemma emits_blob [emits_intros]: "emits (writeBlobTlv t b) (blob_tlv_bytes t b)"
  using writeBlobTlv_good by (auto simp: emits_def writeBlobTlv_def)

lemma emits_empty [emits_intros]: "emits (writeTypeAndLength t 0) (blob_tlv_bytes t [])"
  using emits_typeAndLength [of t 0] by (simp add: blob_tlv_bytes_def)

lemma emits_nonneg [emits_intros]: "emits (writeNonNegativeIntegerTlv t v) (blob_tlv_bytes t (nonneg_bytes v))"
  unfolding emits_def
proof (intro conjI allI impI)
  fix e :: tlv_encoder assume "\<not> te_enableOutput e"
  then show "writeNonNegativeIntegerTlv t v e = Inr (e\<lparr>te_offset := te_offset e + length (blob_tlv_bytes t (nonneg_bytes v))\<rparr>)"
    by (simp add: writeNonNegativeIntegerTlv_def Let_def sizeOfBlobTlv_def)
next
  fix e assume e: "te_good e"
  then obtain e1 where e1: "writeTypeAndLength t (sizeOfNonNegativeInteger v) e = Inr e1" "te_good e1"
    "te_written e1 = te_written e @ var_number_bytes (of_nat t) @ var_number_bytes (of_nat (sizeOfNonNegativeInteger v))"
    using writeTypeAndLength_good by blast
  from sink.put_good [OF e1(2), of "nonneg_bytes v"] e1 put_enabled [OF e]
  show "\<exists>e'. writeNonNegativeIntegerTlv t v e = Inr e' \<and> te_good e' \<and>
      te_written e' = te_written e @ blob_tlv_bytes t (nonneg_bytes v)"
    by (auto simp: writeNonNegativeIntegerTlv_def Let_def writeNonNegativeIntegerEnabled_bytes blob_tlv_bytes_def)
qed

lemma emits_optional [emits_intros]:
  "emits (writeOptionalNonNegativeIntegerTlv t v) (if v \<ge> 0 then blob_tlv_bytes t (nonneg_bytes (of_int v)) else [])"
  using emits_nonneg [of t "of_int v"] emits_skip by (simp add: writeOptionalNonNegativeIntegerTlv_def emits_def)

lemma emits_nested [emits_intros]:
  assumes w: "emits w bs"
  shows "emits (writeNestedTlv t w omit) (if omit \<and> bs = [] then [] else blob_tlv_bytes t bs)"
  unfolding emits_def
proof (intro conjI allI impI)
  fix e :: tlv_encoder assume e: "\<not> te_enableOutput e"
  have off: "e\<lparr>te_enableOutput := False\<rparr> = e" using e by simp
  have m: "w e = Inr (e\<lparr>te_offset := te_offset e + length bs\<rparr>)" by (rule emitsD(1) [OF w e])
  have t: "writeTypeAndLength t (length bs) (e\<lparr>te_offset := te_offset e + length bs\<rparr>) =
      Inr (e\<lparr>te_offset := te_offset e + length (blob_tlv_bytes t bs)\<rparr>)"
    using e emitsD(1) [OF emits_typeAndLength, of "e\<lparr>te_offset := te_offset e + length bs\<rparr>" t "length bs"]
    by (simp add: sizeOfBlobTlv_def add_ac)
  show "writeNestedTlv t w omit e =
      Inr (e\<lparr>te_offset := te_offset e + length (if omit \<and> bs = [] then [] else blob_tlv_bytes t bs)\<rparr>)"
    unfolding writeNestedTlv_def off m ebind.simps Let_def using e t by simp
next
  fix e assume e: "te_good e"
  have on: "te_enableOutput e" by (rule put_enabled [OF e])
  have m: "w (e\<lparr>te_enableOutput := False\<rparr>) = Inr (e\<lparr>te_enableOutput := False, te_offset := te_offset e + length bs\<rparr>)"
    using emitsD(1) [OF w, of "e\<lparr>te_enableOutput := False\<rparr>"] by simp
  have same: "e\<lparr>te_enableOutput := True\<rparr> = e" using on by (cases e) simp
  obtain e1 where e1: "writeTypeAndLength t (length bs) e = Inr e1" "te_good e1"
    "te_written e1 = te_written e @ var_number_bytes (of_nat t) @ var_number_bytes (of_nat (length bs))"
    using writeTypeAndLength_good [OF e] by blast
  from emitsD(2) [OF w e1(2)] obtain e2 where e2: "w e1 = Inr e2" "te_good e2" "te_written e2 = te_written e1 @ bs"
    by blast
  show "\<exists>e'. writeNestedTlv t w omit e = Inr e' \<and> te_good e' \<and>
      te_written e' = te_written e @ (if omit \<and> bs = [] then [] else blob_tlv_bytes t bs)"
  proof (cases "omit \<and> bs = []")
    case True
    then show ?thesis
      unfolding writeNestedTlv_def m ebind.simps Let_def using e on by (simp add: te_good_def te_written_def)
  next
    case False
    then have "writeNestedTlv t w omit e = Inr e2"
      unfolding writeNestedTlv_def m ebind.simps Let_def using on e1(1) e2(1) by (auto simp: same)
    then show ?thesis unfolding if_not_P [OF False] using e1(3) e2 by (simp add: blob_tlv_bytes_def)
  qed
qed

section \<open>Fields\<close>

type_synonym field = "nat \<times> bytes"

definition tlvs :: "field list \<Rightarrow> bytes" where
  "tlvs fs = concat (map (\<lambda>(t, v). blob_tlv_bytes t v) fs)"

lemma tlvs_simps [simp]:
  "tlvs [] = []" "tlvs ((t, v) # fs) = blob_tlv_bytes t v @ tlvs fs" "tlvs (fs @ gs) = tlvs fs @ tlvs gs"
  by (simp_all add: tlvs_def)

lemma var_number_bytes_nonempty [simp]: "var_number_bytes v \<noteq> []"
  by (simp add: var_number_bytes_def)

lemma tlvs_empty_iff [simp]: "tlvs fs = [] \<longleftrightarrow> fs = []"
proof (cases fs)
  case (Cons f gs)
  then show ?thesis by (cases f) (auto simp: blob_tlv_bytes_def)
qed simp

definition opt_int :: "nat \<Rightarrow> int \<Rightarrow> field list" where
  "opt_int t v = (if v \<ge> 0 then [(t, nonneg_bytes (of_int v))] else [])"

lemma emits_opt_int [emits_intros]: "emits (writeOptionalNonNegativeIntegerTlv t v) (tlvs (opt_int t v))"
  using emits_optional [of t v] by (cases "v \<ge> 0") (simp_all add: opt_int_def)

text \<open>The type of the first field.\<close>

definition starts :: "field list \<Rightarrow> nat \<Rightarrow> bool" where
  "starts fs t \<longleftrightarrow> fs \<noteq> [] \<and> fst (hd fs) = t"

lemma starts_simps [simp]:
  "\<not> starts [] t" "starts ((k, v) # fs) t \<longleftrightarrow> k = t"
  "starts (opt_int k i @ fs) t \<longleftrightarrow> (if i \<ge> 0 then k = t else starts fs t)"
  "starts (opt_int k i) t \<longleftrightarrow> i \<ge> 0 \<and> k = t"
  by (simp_all add: starts_def opt_int_def)

definition small_types :: "field list \<Rightarrow> bool" where
  "small_types fs \<longleftrightarrow> (\<forall>(t, v) \<in> set fs. t < 253)"

lemma small_types_simps [simp]:
  "small_types []" "small_types ((t, v) # fs) \<longleftrightarrow> t < 253 \<and> small_types fs"
  "small_types (fs @ gs) \<longleftrightarrow> small_types fs \<and> small_types gs"
  "small_types (opt_int t i) \<longleftrightarrow> i < 0 \<or> t < 253"
  by (auto simp: small_types_def opt_int_def)

section \<open>The decoder in front of fields\<close>

definition td_left :: "bytes \<Rightarrow> bytes \<Rightarrow> tlv_decoder \<Rightarrow> bool" where
  "td_left inp ahead d \<longleftrightarrow> td_input d = inp \<and> (\<exists>pre. td_at pre ahead d)"

text \<open>The offset at which the sequence ends that \<open>tail\<close> follows.\<close>

definition end_of :: "bytes \<Rightarrow> bytes \<Rightarrow> u64" where
  "end_of inp tail = of_nat (length inp - length tail)"

lemma td_leftI: "td_at pre ahead d \<Longrightarrow> td_input d = inp \<Longrightarrow> td_left inp ahead d"
  by (auto simp: td_left_def)

lemma td_leftE:
  assumes "td_left inp ahead d"
  obtains pre where "td_at pre ahead d" "td_input d = inp" "inp = pre @ ahead"
  using assms by (auto simp: td_left_def td_at_def)

lemma end_of_at:
  assumes "td_at pre (ahead @ tail) d" "td_input d = inp"
  shows "end_of inp tail = of_nat (length pre + length ahead)"
    "unat (end_of inp tail) = length pre + length ahead"
proof -
  have i: "inp = pre @ ahead @ tail" using td_atD(1) [OF assms(1)] assms(2) by simp
  show e: "end_of inp tail = of_nat (length pre + length ahead)" unfolding end_of_def i by simp
  show "unat (end_of inp tail) = length pre + length ahead"
    unfolding e using td_at_bound [OF assms(1)] by (intro unat_of_nat_u64) simp
qed

lemma td_same: "td_input d1 = td_input d \<Longrightarrow> td_offset d1 = td_offset d \<Longrightarrow> d1 = (d :: tlv_decoder)"
  by simp

lemma td_advance_back: "(td_advance n d)\<lparr>td_offset := td_offset d\<rparr> = d"
  by (simp add: td_advance_def)

lemma peekType_left:
  assumes "td_left inp (tlvs fs @ tail) d" "small_types fs" "t < 253"
  shows "peekType t (end_of inp tail) d = Inr (starts fs t, d)"
proof -
  obtain pre where pre: "td_at pre (tlvs fs @ tail) d" "td_input d = inp" using assms(1) by (elim td_leftE)
  note e = end_of_at [OF pre] td_at_offset [OF pre(1)]
  show ?thesis
  proof (cases fs)
    case Nil
    then show ?thesis using e by (simp add: peekType_def word_le_nat_alt)
  next
    case (Cons f gs)
    obtain k v where f: "f = (k, v)" by (cases f)
    have k: "k < 253" using assms(2) Cons f by simp
    have "0 < length (blob_tlv_bytes k v)" by (simp add: sizeOfBlobTlv_def)
    then have "\<not> td_offset d \<ge> end_of inp tail" using e Cons f by (simp add: word_le_nat_alt)
    moreover have "td_at pre (var_number_bytes (of_nat k) @ var_number_bytes (of_nat (length v)) @ v @ tlvs gs @ tail) d"
      using pre(1) Cons f by (simp add: blob_tlv_bytes_def)
    then have "readVarNumber d = Inr (of_nat k, td_advance (sizeOfVarNumber (of_nat k)) d)"
      by (rule readVarNumber_at)
    moreover have "unat (of_nat k :: u64) = k" "unat (of_nat t :: u64) = t"
      using k assms(3) by (intro unat_of_nat_u64; simp)+
    then have "(of_nat k = (of_nat t :: u64)) \<longleftrightarrow> k = t" by metis
    ultimately show ?thesis using Cons f by (simp add: peekType_def td_advance_back)
  qed
qed

lemma readBlobTlv_left:
  assumes "td_left inp (tlvs ((t, v) # fs) @ tail) d" "t < 253"
  shows "\<exists>s d'. readBlobTlv t d = Inr (s, d') \<and> slice_bytes inp s = Some v \<and> td_left inp (tlvs fs @ tail) d'"
proof -
  obtain pre where pre: "td_at pre (blob_tlv_bytes t v @ tlvs fs @ tail) d" "td_input d = inp"
    using assms(1) by (elim td_leftE) simp
  have "t < 2 ^ 64" using assms(2) by simp
  from readBlobTlv_at [OF pre(1) this] pre(2) show ?thesis by (auto intro: td_leftI)
qed

lemma readTypeAndLength_left:
  assumes "td_left inp (tlvs ((t, v) # fs) @ tail) d" "t < 253"
  shows "\<exists>d'. readTypeAndLength t d = Inr (of_nat (length v), d') \<and> td_left inp (v @ tlvs fs @ tail) d'"
proof -
  obtain pre where pre: "td_at pre (var_number_bytes (of_nat t) @ var_number_bytes (of_nat (length v)) @ v @ tlvs fs @ tail) d"
    "td_input d = inp"
    using assms(1) by (elim td_leftE) (simp add: blob_tlv_bytes_def)
  have "t < 2 ^ 64" using assms(2) by simp
  from readTypeAndLength_at [OF pre(1) _ this] obtain d' where
    d': "readTypeAndLength t d = Inr (of_nat (length v), d')"
      "td_at (pre @ var_number_bytes (of_nat t) @ var_number_bytes (of_nat (length v))) (v @ tlvs fs @ tail) d'"
    by auto
  have "td_input d' = inp" using td_atD(1) [OF d'(2)] td_atD(1) [OF pre(1)] pre(2) by simp
  with d' show ?thesis by (auto intro: td_leftI)
qed

lemma readNonNegativeIntegerTlv_left:
  assumes "td_left inp (tlvs ((t, nonneg_bytes v) # fs) @ tail) d" "t < 253"
  shows "\<exists>d'. readNonNegativeIntegerTlv t d = Inr (v, d') \<and> td_left inp (tlvs fs @ tail) d'"
proof -
  obtain d1 where d1: "readTypeAndLength t d = Inr (of_nat (length (nonneg_bytes v)), d1)"
    "td_left inp (nonneg_bytes v @ tlvs fs @ tail) d1"
    using readTypeAndLength_left [OF assms] by blast
  obtain pre where pre: "td_at pre (nonneg_bytes v @ tlvs fs @ tail) d1" "td_input d1 = inp"
    using d1(2) by (elim td_leftE)
  have "td_at (pre @ nonneg_bytes v) (tlvs fs @ tail) (td_advance (sizeOfNonNegativeInteger v) d1)"
    using td_at_advance [OF pre(1)] by simp
  moreover have "td_input (td_advance n d1) = inp" for n using pre(2) by (simp add: td_advance_def)
  ultimately show ?thesis
    using d1(1) readNonNegativeInteger_at [OF pre(1)] by (auto simp: readNonNegativeIntegerTlv_def intro: td_leftI)
qed

lemma readOptionalInt_left:
  assumes "td_left inp (tlvs (opt_int t v @ fs) @ tail) d" "small_types fs" "t < 253" "\<not> starts fs t" "v < 2 ^ 31"
  shows "\<exists>d'. readOptionalNonNegativeIntegerTlv t (end_of inp tail) d = Inr (if v \<ge> 0 then v else -1, d') \<and>
    td_left inp (tlvs fs @ tail) d'"
proof (cases "v \<ge> 0")
  case False
  then have "td_left inp (tlvs fs @ tail) d" using assms(1) by (simp add: opt_int_def)
  with False peekType_left [OF this assms(2,3)] assms(4) show ?thesis
    by (simp add: readOptionalNonNegativeIntegerTlv_def)
next
  case True
  then have f: "opt_int t v @ fs = (t, nonneg_bytes (of_int v)) # fs" by (simp add: opt_int_def)
  have "uint (of_int v :: u64) = v" using True assms(5) by (simp add: uint_word_of_int_eq take_bit_int_eq_self)
  then have "wrap32 (uint (of_int v :: u64)) = v" using True assms(5) by (simp add: wrap32_id)
  moreover have "peekType t (end_of inp tail) d = Inr (True, d)"
    using peekType_left [OF assms(1)] assms(2,3) True by (simp add: f)
  ultimately show ?thesis
    using True readNonNegativeIntegerTlv_left [OF assms(1) [unfolded f] assms(3)]
    by (auto simp: readOptionalNonNegativeIntegerTlv_def)
qed

lemma readBooleanTlv_left:
  assumes "td_left inp (tlvs ((if b then [(t, [])] else []) @ fs) @ tail) d" "small_types fs" "t < 253" "\<not> starts fs t"
  shows "\<exists>d'. readBooleanTlv t (end_of inp tail) d = Inr (b, d') \<and> td_left inp (tlvs fs @ tail) d'"
proof (cases b)
  case False
  then have "td_left inp (tlvs fs @ tail) d" using assms(1) by simp
  with False peekType_left [OF this assms(2,3)] assms(4) show ?thesis by (simp add: readBooleanTlv_def)
next
  case True
  then have l: "td_left inp (tlvs ((t, []) # fs) @ tail) d" using assms(1) by simp
  have "peekType t (end_of inp tail) d = Inr (True, d)" using peekType_left [OF l] assms(2,3) by simp
  with True readTypeAndLength_left [OF l assms(3)] show ?thesis by (auto simp: readBooleanTlv_def)
qed

lemma readNestedTlvsStart_left:
  assumes "td_left inp (tlvs ((t, tlvs gs) # fs) @ tail) d" "t < 253"
  shows "\<exists>d'. readNestedTlvsStart t d = Inr (end_of inp (tlvs fs @ tail), d') \<and>
    td_left inp (tlvs gs @ tlvs fs @ tail) d'"
proof -
  obtain d1 where d1: "readTypeAndLength t d = Inr (of_nat (length (tlvs gs)), d1)"
    "td_left inp (tlvs gs @ tlvs fs @ tail) d1"
    using readTypeAndLength_left [OF assms] by blast
  obtain pre where pre: "td_at pre (tlvs gs @ tlvs fs @ tail) d1" "td_input d1 = inp" using d1(2) by (elim td_leftE)
  from d1 end_of_at(1) [OF pre] td_atD(2) [OF pre(1)] show ?thesis by (simp add: readNestedTlvsStart_def)
qed

lemma finishNestedTlvs_left: "td_left inp tail d \<Longrightarrow> finishNestedTlvs (end_of inp tail) d = Some (Inr d)"
  using end_of_at [of _ "[]" tail d inp] by (auto simp: finishNestedTlvs_def td_atD elim!: td_leftE)

end
