(* ===== verification/Interest_Wire.thy ===== *)
theory Interest_Wire
  imports Tlv_Fields Name_Wire Ieee_Double
begin

unbundle bit_operations_syntax

text \<open>
  Interests on the wire (\<open>ndn-cpp/src/c/encoding/tlv/tlv-interest.c\<close>, \<open>tlv-key-locator.c\<close>), from the C
  structures \<open>ndn_Interest\<close>, \<open>ndn_KeyLocator\<close> and \<open>ndn_Exclude\<close>. A structure to encode holds byte
  strings, a decoded one slices of the input. The random bytes for the nonce are an argument; the pass
  that measures draws bytes, too, which nobody sees. The offsets of the signed portion, which the
  functions pass through from the name, are left to \<open>encodeTlvName\<close> and \<open>decodeTlvName\<close>.
\<close>

section \<open>Structures\<close>

record 'b key_locator =
  kl_type :: int
  kl_keyData :: 'b
  kl_keyName :: "'b list"

record 'b ndn_interest =
  ni_name :: "'b list"
  ni_minSuffixComponents :: int
  ni_maxSuffixComponents :: int
  ni_publisherPublicKeyDigest :: 'b
  ni_keyLocator :: "'b key_locator"
  ni_exclude :: "'b option list"
  ni_childSelector :: int
  ni_answerOriginKind :: int
  ni_scope :: int
  ni_lifetime :: double
  ni_nonce :: 'b

definition ndn_KeyLocatorType_KEYNAME :: int where "ndn_KeyLocatorType_KEYNAME = 1"
definition ndn_KeyLocatorType_KEY_LOCATOR_DIGEST :: int where "ndn_KeyLocatorType_KEY_LOCATOR_DIGEST = 2"
definition ndn_Interest_ANSWER_STALE :: int where "ndn_Interest_ANSWER_STALE = 4"

definition getMustBeFresh :: "'b ndn_interest \<Rightarrow> bool" where
  "getMustBeFresh i \<longleftrightarrow>
     (if ni_answerOriginKind i < 0 then True else ni_answerOriginKind i AND ndn_Interest_ANSWER_STALE = 0)"

definition setMustBeFresh :: "bool \<Rightarrow> 'b ndn_interest \<Rightarrow> 'b ndn_interest" where
  "setMustBeFresh b i =
     (if ni_answerOriginKind i < 0
      then (if \<not> b then i\<lparr>ni_answerOriginKind := ndn_Interest_ANSWER_STALE\<rparr> else i)
      else if b then i\<lparr>ni_answerOriginKind := ni_answerOriginKind i AND NOT ndn_Interest_ANSWER_STALE\<rparr>
      else i\<lparr>ni_answerOriginKind := ni_answerOriginKind i OR ndn_Interest_ANSWER_STALE\<rparr>)"

definition KeyLocator_initialize :: "'b \<Rightarrow> 'b key_locator" where
  "KeyLocator_initialize nil = \<lparr>kl_type = -1, kl_keyData = nil, kl_keyName = []\<rparr>"

definition Interest_initialize :: "'b \<Rightarrow> 'b ndn_interest" where
  "Interest_initialize nil =
     \<lparr>ni_name = [], ni_minSuffixComponents = -1, ni_maxSuffixComponents = -1, ni_publisherPublicKeyDigest = nil,
      ni_keyLocator = KeyLocator_initialize nil, ni_exclude = [], ni_childSelector = -1, ni_answerOriginKind = -1,
      ni_scope = -1, ni_lifetime = d_of_int (-1), ni_nonce = nil\<rparr>"

section \<open>Types of TLVs\<close>

definition ndn_Tlv_Interest :: nat where "ndn_Tlv_Interest = 5"
definition ndn_Tlv_Selectors :: nat where "ndn_Tlv_Selectors = 9"
definition ndn_Tlv_Nonce :: nat where "ndn_Tlv_Nonce = 10"
definition ndn_Tlv_Scope :: nat where "ndn_Tlv_Scope = 11"
definition ndn_Tlv_InterestLifetime :: nat where "ndn_Tlv_InterestLifetime = 12"
definition ndn_Tlv_MinSuffixComponents :: nat where "ndn_Tlv_MinSuffixComponents = 13"
definition ndn_Tlv_MaxSuffixComponents :: nat where "ndn_Tlv_MaxSuffixComponents = 14"
definition ndn_Tlv_PublisherPublicKeyLocator :: nat where "ndn_Tlv_PublisherPublicKeyLocator = 15"
definition ndn_Tlv_Exclude :: nat where "ndn_Tlv_Exclude = 16"
definition ndn_Tlv_ChildSelector :: nat where "ndn_Tlv_ChildSelector = 17"
definition ndn_Tlv_MustBeFresh :: nat where "ndn_Tlv_MustBeFresh = 18"
definition ndn_Tlv_Any :: nat where "ndn_Tlv_Any = 19"
definition ndn_Tlv_KeyLocatorDigest :: nat where "ndn_Tlv_KeyLocatorDigest = 29"

lemmas tlv_types = ndn_Tlv_Interest_def ndn_Tlv_Name_def ndn_Tlv_NameComponent_def ndn_Tlv_Selectors_def
  ndn_Tlv_Nonce_def ndn_Tlv_Scope_def ndn_Tlv_InterestLifetime_def ndn_Tlv_MinSuffixComponents_def
  ndn_Tlv_MaxSuffixComponents_def ndn_Tlv_PublisherPublicKeyLocator_def ndn_Tlv_Exclude_def
  ndn_Tlv_ChildSelector_def ndn_Tlv_MustBeFresh_def ndn_Tlv_Any_def ndn_Tlv_KeyLocatorDigest_def

section \<open>Numbers that are doubles\<close>

fun d_round :: "double \<Rightarrow> double" where
  "d_round (Finite x) = Finite (of_int (if x \<ge> 0 then \<lfloor>x + 1 / 2\<rfloor> else \<lceil>x - 1 / 2\<rceil>))"
| "d_round d = d"

fun d_to_u64 :: "double \<Rightarrow> u64 option" where
  "d_to_u64 (Finite x) = (if 0 \<le> trunc_rat x \<and> trunc_rat x < 2 ^ 64 then Some (of_int (trunc_rat x)) else None)"
| "d_to_u64 _ = None"

definition writeOptionalNonNegativeIntegerTlvFromDouble :: "nat \<Rightarrow> double \<Rightarrow> writer" where
  "writeOptionalNonNegativeIntegerTlvFromDouble type v e =
     (if d_le (d_of_int 0) v then
        (case d_to_u64 (d_round v) of
           None \<Rightarrow> Inl ERR_undefined_conversion
         | Some n \<Rightarrow> writeNonNegativeIntegerTlv type n e)
      else Inr e)"

definition readOptionalNonNegativeIntegerTlvAsDouble ::
    "nat \<Rightarrow> u64 \<Rightarrow> tlv_decoder \<Rightarrow> ndn_Error + (double \<times> tlv_decoder)" where
  "readOptionalNonNegativeIntegerTlvAsDouble expectedType endOffset d =
     ebind (peekType expectedType endOffset d) (\<lambda>(got, d1).
       if \<not> got then Inr (d_of_int (-1), d1)
       else ebind (readNonNegativeIntegerTlv expectedType d1) (\<lambda>(v, d2). Inr (d_of_int (uint v), d2)))"

section \<open>Encoding\<close>

definition encodeName :: "bytes list \<Rightarrow> writer" where
  "encodeName n e = ebind (encodeTlvName (Name (map Component n)) e) (\<lambda>(_, e'). Inr e')"

fun encodeExcludeValue :: "bytes option list \<Rightarrow> writer" where
  "encodeExcludeValue [] e = Inr e"
| "encodeExcludeValue (Some c # es) e = ebind (writeBlobTlv ndn_Tlv_NameComponent c e) (encodeExcludeValue es)"
| "encodeExcludeValue (None # es) e = ebind (writeTypeAndLength ndn_Tlv_Any 0 e) (encodeExcludeValue es)"

definition encodeKeyLocatorValue :: "bytes key_locator \<Rightarrow> writer" where
  "encodeKeyLocatorValue k e =
     (if kl_type k < 0 then Inr e
      else if kl_type k = ndn_KeyLocatorType_KEYNAME then encodeName (kl_keyName k) e
      else if kl_type k = ndn_KeyLocatorType_KEY_LOCATOR_DIGEST \<and> length (kl_keyData k) > 0
      then writeBlobTlv ndn_Tlv_KeyLocatorDigest (kl_keyData k) e
      else Inl ERR_unrecognized_ndn_KeyLocatorType)"

definition encodePublisher :: "bytes ndn_interest \<Rightarrow> writer" where
  "encodePublisher i e =
     ebind (writeNestedTlv ndn_Tlv_PublisherPublicKeyLocator (encodeKeyLocatorValue (ni_keyLocator i)) True e) (\<lambda>e1.
       if te_offset e1 = te_offset e then
         (if length (ni_publisherPublicKeyDigest i) > 0
          then writeNestedTlv ndn_Tlv_PublisherPublicKeyLocator
                 (writeBlobTlv ndn_Tlv_KeyLocatorDigest (ni_publisherPublicKeyDigest i)) False e1
          else Inr e1)
       else Inr e1)"

definition encodeMustBeFresh :: "bytes ndn_interest \<Rightarrow> writer" where
  "encodeMustBeFresh i e =
     (if ni_answerOriginKind i < 0 \<or> ni_answerOriginKind i = 0 then writeTypeAndLength ndn_Tlv_MustBeFresh 0 e
      else if ni_answerOriginKind i AND ndn_Interest_ANSWER_STALE \<noteq> 0 then Inr e
      else Inl ERR_Unsupported_answerOriginKind_bits)"

definition encodeSelectorsValue :: "bytes ndn_interest \<Rightarrow> writer" where
  "encodeSelectorsValue i e =
     ebind (writeOptionalNonNegativeIntegerTlv ndn_Tlv_MinSuffixComponents (ni_minSuffixComponents i) e) (\<lambda>e.
       ebind (writeOptionalNonNegativeIntegerTlv ndn_Tlv_MaxSuffixComponents (ni_maxSuffixComponents i) e) (\<lambda>e.
         ebind (encodePublisher i e) (\<lambda>e.
           ebind (if length (ni_exclude i) > 0
                  then writeNestedTlv ndn_Tlv_Exclude (encodeExcludeValue (ni_exclude i)) False e else Inr e) (\<lambda>e.
             ebind (writeOptionalNonNegativeIntegerTlv ndn_Tlv_ChildSelector (ni_childSelector i) e)
               (encodeMustBeFresh i)))))"

definition nonce_blob :: "(nat \<Rightarrow> bytes) \<Rightarrow> bytes \<Rightarrow> bytes" where
  "nonce_blob rnd nonce =
     (if length nonce = 0 then rnd 4
      else if length nonce < 4 then nonce @ rnd (4 - length nonce)
      else take 4 nonce)"

definition encodeInterestValue :: "(nat \<Rightarrow> bytes) \<Rightarrow> bytes ndn_interest \<Rightarrow> writer" where
  "encodeInterestValue rnd i e =
     ebind (encodeName (ni_name i) e) (\<lambda>e.
       ebind (writeNestedTlv ndn_Tlv_Selectors (encodeSelectorsValue i) True e) (\<lambda>e.
         ebind (writeBlobTlv ndn_Tlv_Nonce (nonce_blob rnd (ni_nonce i)) e) (\<lambda>e.
           ebind (writeOptionalNonNegativeIntegerTlv ndn_Tlv_Scope (ni_scope i) e)
             (writeOptionalNonNegativeIntegerTlvFromDouble ndn_Tlv_InterestLifetime (ni_lifetime i)))))"

definition encodeTlvInterest :: "(nat \<Rightarrow> bytes) \<Rightarrow> bytes ndn_interest \<Rightarrow> writer" where
  "encodeTlvInterest rnd i = writeNestedTlv ndn_Tlv_Interest (encodeInterestValue rnd i) False"

section \<open>Decoding\<close>

definition no_slice :: slice where
  "no_slice = (0, 0)"

definition decode_entry ::
    "nat \<Rightarrow> u64 \<Rightarrow> slice option list \<times> tlv_decoder \<Rightarrow>
     (ndn_Error + (slice option list \<times> tlv_decoder)) + (slice option list \<times> tlv_decoder)" where
  "decode_entry maxEntries endOffset st =
     (case st of (es, d) \<Rightarrow>
        case peekType ndn_Tlv_NameComponent endOffset d of
          Inl e \<Rightarrow> Inl (Inl e)
        | Inr (got, d1) \<Rightarrow>
            if got then
              (case readBlobTlv ndn_Tlv_NameComponent d1 of
                 Inl e \<Rightarrow> Inl (Inl e)
               | Inr (c, d2) \<Rightarrow>
                   if length es \<ge> maxEntries then Inl (Inl ERR_cannot_add_an_entry_past_the_maximum)
                   else Inr (es @ [Some c], d2))
            else
              (case readBooleanTlv ndn_Tlv_Any endOffset d1 of
                 Inl e \<Rightarrow> Inl (Inl e)
               | Inr (isAny, d2) \<Rightarrow>
                   if isAny then
                     (if length es \<ge> maxEntries then Inl (Inl ERR_cannot_add_an_entry_past_the_maximum)
                      else Inr (es @ [None], d2))
                   else Inl (Inr (es, d2))))"

definition decodeExclude :: "nat \<Rightarrow> tlv_decoder \<Rightarrow> (ndn_Error + (slice option list \<times> tlv_decoder)) option" where
  "decodeExclude maxEntries d =
     rbind (Some (readNestedTlvsStart ndn_Tlv_Exclude d)) (\<lambda>(endOffset, d1).
       rbind (run_loop (decode_entry maxEntries endOffset) ([], d1)) (\<lambda>(es, d2).
         rbind (finishNestedTlvs endOffset d2) (\<lambda>d3. Some (Inr (es, d3)))))"

definition decodeTlvKeyLocator ::
    "nat \<Rightarrow> nat \<Rightarrow> tlv_decoder \<Rightarrow> (ndn_Error + (slice key_locator \<times> tlv_decoder)) option" where
  "decodeTlvKeyLocator maxComponents expectedType d =
     rbind (Some (readNestedTlvsStart expectedType d)) (\<lambda>(endOffset, d1).
       let k = KeyLocator_initialize no_slice in
       if td_offset d1 = endOffset then Some (Inr (k, d1))
       else
         rbind (Some (peekType ndn_Tlv_Name endOffset d1)) (\<lambda>(got, d2).
           rbind
             (if got then
                rbind (decodeTlvName maxComponents d2) (\<lambda>(comps, _, _, d3).
                  Some (Inr (k\<lparr>kl_keyName := comps, kl_type := ndn_KeyLocatorType_KEYNAME\<rparr>, d3)))
              else
                rbind (Some (peekType ndn_Tlv_KeyLocatorDigest endOffset d2)) (\<lambda>(got, d3).
                  if got then
                    rbind (Some (readBlobTlv ndn_Tlv_KeyLocatorDigest d3)) (\<lambda>(s, d4).
                      Some (Inr (k\<lparr>kl_type := ndn_KeyLocatorType_KEY_LOCATOR_DIGEST, kl_keyData := s\<rparr>, d4)))
                  else Some (Inl ERR_decodeKeyLocator_unrecognized_key_locator_type)))
             (\<lambda>(k1, d3). rbind (finishNestedTlvs endOffset d3) (\<lambda>d4. Some (Inr (k1, d4))))))"

definition decode_publisher ::
    "nat \<Rightarrow> u64 \<Rightarrow> slice ndn_interest \<Rightarrow> tlv_decoder \<Rightarrow> (ndn_Error + (slice ndn_interest \<times> tlv_decoder)) option" where
  "decode_publisher maxKeyComponents endOffset i d =
     rbind (Some (peekType ndn_Tlv_PublisherPublicKeyLocator endOffset d)) (\<lambda>(got, d1).
       let i0 = i\<lparr>ni_publisherPublicKeyDigest := no_slice\<rparr> in
       if got then
         rbind (decodeTlvKeyLocator maxKeyComponents ndn_Tlv_PublisherPublicKeyLocator d1) (\<lambda>(k, d2).
           let i1 = i0\<lparr>ni_keyLocator := k\<rparr> in
           Some (Inr (if kl_type k = ndn_KeyLocatorType_KEY_LOCATOR_DIGEST
             then i1\<lparr>ni_publisherPublicKeyDigest := kl_keyData k\<rparr> else i1, d2)))
       else Some (Inr (i0\<lparr>ni_keyLocator := KeyLocator_initialize no_slice\<rparr>, d1)))"

definition decode_exclude ::
    "nat \<Rightarrow> u64 \<Rightarrow> tlv_decoder \<Rightarrow> (ndn_Error + (slice option list \<times> tlv_decoder)) option" where
  "decode_exclude maxEntries endOffset d =
     rbind (Some (peekType ndn_Tlv_Exclude endOffset d)) (\<lambda>(got, d1).
       if got then decodeExclude maxEntries d1 else Some (Inr ([], d1)))"

definition decodeSelectors ::
    "nat \<Rightarrow> nat \<Rightarrow> slice ndn_interest \<Rightarrow> tlv_decoder \<Rightarrow> (ndn_Error + (slice ndn_interest \<times> tlv_decoder)) option" where
  "decodeSelectors maxKeyComponents maxEntries i d =
     rbind (Some (readNestedTlvsStart ndn_Tlv_Selectors d)) (\<lambda>(endOffset, d).
       rbind (Some (readOptionalNonNegativeIntegerTlv ndn_Tlv_MinSuffixComponents endOffset d)) (\<lambda>(minSuffix, d).
         rbind (Some (readOptionalNonNegativeIntegerTlv ndn_Tlv_MaxSuffixComponents endOffset d)) (\<lambda>(maxSuffix, d).
           rbind (decode_publisher maxKeyComponents endOffset i d) (\<lambda>(i1, d).
             rbind (decode_exclude maxEntries endOffset d) (\<lambda>(es, d).
               rbind (Some (readOptionalNonNegativeIntegerTlv ndn_Tlv_ChildSelector endOffset d)) (\<lambda>(child, d).
                 rbind (Some (readBooleanTlv ndn_Tlv_MustBeFresh endOffset d)) (\<lambda>(mustBeFresh, d).
                   rbind (finishNestedTlvs endOffset d) (\<lambda>d.
                     Some (Inr (i1\<lparr>ni_minSuffixComponents := minSuffix, ni_maxSuffixComponents := maxSuffix,
                       ni_exclude := es, ni_childSelector := child,
                       ni_answerOriginKind := (if \<not> mustBeFresh then ndn_Interest_ANSWER_STALE else -1)\<rparr>, d))))))))))"

definition no_selectors :: "slice ndn_interest \<Rightarrow> slice ndn_interest" where
  "no_selectors i = i\<lparr>ni_minSuffixComponents := -1, ni_maxSuffixComponents := -1,
     ni_publisherPublicKeyDigest := no_slice, ni_exclude := [], ni_childSelector := -1, ni_answerOriginKind := -1\<rparr>"

definition decodeTlvInterest ::
    "nat \<Rightarrow> nat \<Rightarrow> nat \<Rightarrow> slice ndn_interest \<Rightarrow> tlv_decoder \<Rightarrow>
     (ndn_Error + (slice ndn_interest \<times> tlv_decoder)) option" where
  "decodeTlvInterest maxComponents maxKeyComponents maxEntries i d =
     rbind (Some (readNestedTlvsStart ndn_Tlv_Interest d)) (\<lambda>(endOffset, d).
       rbind (decodeTlvName maxComponents d) (\<lambda>(comps, _, _, d).
         rbind (Some (peekType ndn_Tlv_Selectors endOffset d)) (\<lambda>(got, d).
           rbind (if got then decodeSelectors maxKeyComponents maxEntries (i\<lparr>ni_name := comps\<rparr>) d
                  else Some (Inr (no_selectors (i\<lparr>ni_name := comps\<rparr>), d))) (\<lambda>(i1, d).
             rbind (Some (readBlobTlv ndn_Tlv_Nonce d)) (\<lambda>(nonce, d).
               rbind (Some (readOptionalNonNegativeIntegerTlv ndn_Tlv_Scope endOffset d)) (\<lambda>(scope, d).
                 rbind (Some (readOptionalNonNegativeIntegerTlvAsDouble ndn_Tlv_InterestLifetime endOffset d)) (\<lambda>(ms, d).
                   rbind (finishNestedTlvs endOffset d) (\<lambda>d.
                     Some (Inr (i1\<lparr>ni_nonce := nonce, ni_scope := scope, ni_lifetime := ms\<rparr>, d))))))))))"

section \<open>What is on the wire\<close>

definition exclude_fields :: "bytes option list \<Rightarrow> field list" where
  "exclude_fields es = map (\<lambda>e. case e of None \<Rightarrow> (ndn_Tlv_Any, []) | Some c \<Rightarrow> (ndn_Tlv_NameComponent, c)) es"

definition name_value :: "bytes list \<Rightarrow> bytes" where
  "name_value n = component_tlvs (map Component n)"

definition key_locator_fields :: "bytes key_locator \<Rightarrow> field list" where
  "key_locator_fields k =
     (if kl_type k < 0 then []
      else if kl_type k = ndn_KeyLocatorType_KEYNAME then [(ndn_Tlv_Name, name_value (kl_keyName k))]
      else [(ndn_Tlv_KeyLocatorDigest, kl_keyData k)])"

definition publisher_fields :: "bytes ndn_interest \<Rightarrow> field list" where
  "publisher_fields i =
     (let k = key_locator_fields (ni_keyLocator i) in
      if k \<noteq> [] then [(ndn_Tlv_PublisherPublicKeyLocator, tlvs k)]
      else if ni_publisherPublicKeyDigest i \<noteq> []
      then [(ndn_Tlv_PublisherPublicKeyLocator, tlvs [(ndn_Tlv_KeyLocatorDigest, ni_publisherPublicKeyDigest i)])]
      else [])"

definition selector_fields :: "bytes ndn_interest \<Rightarrow> field list" where
  "selector_fields i =
     opt_int ndn_Tlv_MinSuffixComponents (ni_minSuffixComponents i) @
     opt_int ndn_Tlv_MaxSuffixComponents (ni_maxSuffixComponents i) @
     publisher_fields i @
     (if ni_exclude i \<noteq> [] then [(ndn_Tlv_Exclude, tlvs (exclude_fields (ni_exclude i)))] else []) @
     opt_int ndn_Tlv_ChildSelector (ni_childSelector i) @
     (if ni_answerOriginKind i \<le> 0 then [(ndn_Tlv_MustBeFresh, [])] else [])"

text \<open>A lifetime in whole milliseconds, negative for none.\<close>

definition lifetime_is :: "int \<Rightarrow> bytes ndn_interest \<Rightarrow> bool" where
  "lifetime_is ms i \<longleftrightarrow> ni_lifetime i = Finite (of_int ms) \<and> ms < 2 ^ 53"

definition interest_fields :: "(nat \<Rightarrow> bytes) \<Rightarrow> int \<Rightarrow> bytes ndn_interest \<Rightarrow> field list" where
  "interest_fields rnd ms i =
     (ndn_Tlv_Name, name_value (ni_name i)) #
     (if selector_fields i = [] then [] else [(ndn_Tlv_Selectors, tlvs (selector_fields i))]) @
     (ndn_Tlv_Nonce, nonce_blob rnd (ni_nonce i)) #
     opt_int ndn_Tlv_Scope (ni_scope i) @ opt_int ndn_Tlv_InterestLifetime ms"

definition interest_tlv :: "(nat \<Rightarrow> bytes) \<Rightarrow> int \<Rightarrow> bytes ndn_interest \<Rightarrow> bytes" where
  "interest_tlv rnd ms i = blob_tlv_bytes ndn_Tlv_Interest (tlvs (interest_fields rnd ms i))"

text \<open>What the encoder accepts: a key locator it knows, and no other bit than that for stale answers.\<close>

definition encodable :: "bytes ndn_interest \<Rightarrow> bool" where
  "encodable i \<longleftrightarrow>
     (kl_type (ni_keyLocator i) < 0 \<or> kl_type (ni_keyLocator i) = ndn_KeyLocatorType_KEYNAME \<or>
      kl_type (ni_keyLocator i) = ndn_KeyLocatorType_KEY_LOCATOR_DIGEST \<and> kl_keyData (ni_keyLocator i) \<noteq> []) \<and>
     (ni_answerOriginKind i \<le> 0 \<or> ni_answerOriginKind i AND ndn_Interest_ANSWER_STALE \<noteq> 0)"

section \<open>The encoder\<close>

lemma encode_components_measure:
  "\<not> te_enableOutput e \<Longrightarrow> \<exists>se. encode_components cs e = Inr (se, e\<lparr>te_offset := te_offset e + length (component_tlvs cs)\<rparr>)"
proof (induction cs e rule: encode_components.induct)
  case (3 c d cs e)
  let ?e = "e\<lparr>te_offset := te_offset e + sizeOfBlobTlv ndn_Tlv_NameComponent (getValue c)\<rparr>"
  have "writeBlobTlv ndn_Tlv_NameComponent (getValue c) e = Inr ?e" using 3(2) by (simp add: writeBlobTlv_def)
  moreover have "\<not> te_enableOutput ?e" using 3(2) by simp
  ultimately show ?case using 3(1) [of ?e] by (auto simp: add_ac)
qed (auto simp: writeBlobTlv_def)

lemma encodeTlvName_measure:
  assumes "\<not> te_enableOutput e"
  shows "\<exists>signed. encodeTlvName n e = Inr (signed, e\<lparr>te_offset := te_offset e + length (name_tlv n)\<rparr>)"
proof -
  let ?e1 = "e\<lparr>te_offset := te_offset e + (sizeOfVarNumber (of_nat ndn_Tlv_Name) +
    sizeOfVarNumber (of_nat (length (component_tlvs (components n)))))\<rparr>"
  have "writeTypeAndLength ndn_Tlv_Name (length (component_tlvs (components n))) e = Inr ?e1"
    using assms by (simp add: writeTypeAndLength_def)
  moreover obtain se where "encode_components (components n) ?e1 =
      Inr (se, ?e1\<lparr>te_offset := te_offset ?e1 + length (component_tlvs (components n))\<rparr>)"
    using encode_components_measure [of ?e1 "components n"] assms by auto
  ultimately show ?thesis
    by (simp add: encodeTlvName_def component_tlvs_length Let_def name_tlv_def add_ac)
qed

lemma name_tlv_field: "name_tlv (Name (map Component n)) = blob_tlv_bytes ndn_Tlv_Name (name_value n)"
  by (simp add: name_tlv_def blob_tlv_bytes_def name_value_def)

lemma emits_name [emits_intros]: "emits (encodeName n) (blob_tlv_bytes ndn_Tlv_Name (name_value n))"
  unfolding emits_def encodeName_def name_tlv_field [symmetric]
  using encodeTlvName_measure [of _ "Name (map Component n)"] encodeTlvName_good [of _ "Name (map Component n)"]
  by fastforce

lemma emits_exclude [emits_intros]: "emits (encodeExcludeValue es) (tlvs (exclude_fields es))"
proof (induction es)
  case Nil
  have "encodeExcludeValue [] = Inr" by (rule ext) simp
  then show ?case using emits_skip by (simp add: exclude_fields_def)
next
  case (Cons e es)
  show ?case
  proof (cases e)
    case None
    have "encodeExcludeValue (e # es) = (\<lambda>x. ebind (writeTypeAndLength ndn_Tlv_Any 0 x) (encodeExcludeValue es))"
      by (rule ext) (simp add: None)
    then show ?thesis using emits_seq [OF emits_empty Cons.IH] by (simp add: exclude_fields_def None)
  next
    case (Some c)
    have "encodeExcludeValue (e # es) = (\<lambda>x. ebind (writeBlobTlv ndn_Tlv_NameComponent c x) (encodeExcludeValue es))"
      by (rule ext) (simp add: Some)
    then show ?thesis using emits_seq [OF emits_blob Cons.IH] by (simp add: exclude_fields_def Some)
  qed
qed

lemma emits_key_locator:
  assumes "encodable i"
  shows "emits (encodeKeyLocatorValue (ni_keyLocator i)) (tlvs (key_locator_fields (ni_keyLocator i)))"
proof -
  let ?k = "ni_keyLocator i"
  consider "kl_type ?k < 0" | "kl_type ?k = ndn_KeyLocatorType_KEYNAME"
    | "kl_type ?k = ndn_KeyLocatorType_KEY_LOCATOR_DIGEST" "kl_keyData ?k \<noteq> []"
    using assms by (auto simp: encodable_def)
  then show ?thesis
  proof cases
    case 1
    then have "encodeKeyLocatorValue ?k = Inr" by (intro ext) (simp add: encodeKeyLocatorValue_def)
    then show ?thesis using 1 emits_skip by (simp add: key_locator_fields_def)
  next
    case 2
    then have "encodeKeyLocatorValue ?k = encodeName (kl_keyName ?k)"
      by (intro ext) (simp add: encodeKeyLocatorValue_def ndn_KeyLocatorType_KEYNAME_def)
    then show ?thesis using 2 emits_name by (simp add: key_locator_fields_def ndn_KeyLocatorType_KEYNAME_def)
  next
    case 3
    then have "encodeKeyLocatorValue ?k = writeBlobTlv ndn_Tlv_KeyLocatorDigest (kl_keyData ?k)"
      by (intro ext) (simp add: encodeKeyLocatorValue_def ndn_KeyLocatorType_KEYNAME_def ndn_KeyLocatorType_KEY_LOCATOR_DIGEST_def)
    then show ?thesis
      using 3 emits_blob
      by (simp add: key_locator_fields_def ndn_KeyLocatorType_KEYNAME_def ndn_KeyLocatorType_KEY_LOCATOR_DIGEST_def)
  qed
qed

lemma length_te_written: "te_good e \<Longrightarrow> length (te_written e) = te_offset e"
  by (simp add: te_good_def te_written_def)

text \<open>A writer that is tried when the first one wrote nothing.\<close>

lemma emits_fallback:
  assumes "emits v as" "emits w bs"
  shows "emits (\<lambda>e. ebind (v e) (\<lambda>e1. if te_offset e1 = te_offset e then w e1 else Inr e1)) (if as = [] then bs else as)"
  unfolding emits_def
proof (intro conjI allI impI)
  fix e :: tlv_encoder assume e: "\<not> te_enableOutput e"
  show "ebind (v e) (\<lambda>e1. if te_offset e1 = te_offset e then w e1 else Inr e1) =
      Inr (e\<lparr>te_offset := te_offset e + length (if as = [] then bs else as)\<rparr>)"
    using emitsD(1) [OF assms(1) e] emitsD(1) [OF assms(2) e] by simp
next
  fix e assume e: "te_good e"
  then obtain e1 where e1: "v e = Inr e1" "te_good e1" "te_written e1 = te_written e @ as"
    using emitsD(2) [OF assms(1)] by blast
  have "te_offset e1 = te_offset e + length as"
    using length_te_written [OF e] length_te_written [OF e1(2)] e1(3) by simp
  then show "\<exists>e'. ebind (v e) (\<lambda>e1. if te_offset e1 = te_offset e then w e1 else Inr e1) = Inr e' \<and> te_good e' \<and>
      te_written e' = te_written e @ (if as = [] then bs else as)"
    using e1 emitsD(2) [OF assms(2) e1(2)] by auto
qed

lemma emits_publisher:
  assumes "encodable i" shows "emits (encodePublisher i) (tlvs (publisher_fields i))"
proof -
  let ?w = "\<lambda>e. if length (ni_publisherPublicKeyDigest i) > 0
          then writeNestedTlv ndn_Tlv_PublisherPublicKeyLocator
                 (writeBlobTlv ndn_Tlv_KeyLocatorDigest (ni_publisherPublicKeyDigest i)) False e
          else Inr e"
  have "emits ?w (if length (ni_publisherPublicKeyDigest i) > 0
      then (if False \<and> blob_tlv_bytes ndn_Tlv_KeyLocatorDigest (ni_publisherPublicKeyDigest i) = [] then []
        else blob_tlv_bytes ndn_Tlv_PublisherPublicKeyLocator (blob_tlv_bytes ndn_Tlv_KeyLocatorDigest (ni_publisherPublicKeyDigest i)))
      else [])"
    by (intro emits_if emits_nested emits_blob emits_skip)
  note w = emits_fallback [OF emits_nested [OF emits_key_locator [OF assms], of ndn_Tlv_PublisherPublicKeyLocator True] this]
  have "encodePublisher i = (\<lambda>e. ebind (writeNestedTlv ndn_Tlv_PublisherPublicKeyLocator (encodeKeyLocatorValue (ni_keyLocator i)) True e)
      (\<lambda>e1. if te_offset e1 = te_offset e then ?w e1 else Inr e1))"
    by (rule ext) (simp add: encodePublisher_def)
  with w show ?thesis
    by (auto simp: publisher_fields_def Let_def blob_tlv_bytes_def split: if_splits)
qed

lemma emits_mustBeFresh:
  assumes "encodable i"
  shows "emits (encodeMustBeFresh i) (tlvs (if ni_answerOriginKind i \<le> 0 then [(ndn_Tlv_MustBeFresh, [])] else []))"
proof (cases "ni_answerOriginKind i \<le> 0")
  case True
  then have "encodeMustBeFresh i = writeTypeAndLength ndn_Tlv_MustBeFresh 0"
    by (intro ext) (auto simp: encodeMustBeFresh_def)
  then show ?thesis using True emits_empty by simp
next
  case False
  then have "encodeMustBeFresh i = Inr"
    using assms by (intro ext) (auto simp: encodeMustBeFresh_def encodable_def)
  then show ?thesis using False emits_skip by simp
qed

lemma emits_selectors:
  assumes "encodable i" shows "emits (encodeSelectorsValue i) (tlvs (selector_fields i))"
proof -
  have "emits (\<lambda>e. if length (ni_exclude i) > 0
        then writeNestedTlv ndn_Tlv_Exclude (encodeExcludeValue (ni_exclude i)) False e else Inr e)
      (if length (ni_exclude i) > 0
       then (if False \<and> tlvs (exclude_fields (ni_exclude i)) = [] then []
         else blob_tlv_bytes ndn_Tlv_Exclude (tlvs (exclude_fields (ni_exclude i)))) else [])"
    by (intro emits_if emits_nested emits_exclude emits_skip)
  then have ex: "emits (\<lambda>e. if length (ni_exclude i) > 0
        then writeNestedTlv ndn_Tlv_Exclude (encodeExcludeValue (ni_exclude i)) False e else Inr e)
      (tlvs (if ni_exclude i \<noteq> [] then [(ndn_Tlv_Exclude, tlvs (exclude_fields (ni_exclude i)))] else []))"
    by (cases "ni_exclude i") simp_all
  show ?thesis
    unfolding encodeSelectorsValue_def [abs_def] selector_fields_def tlvs_simps(3)
    by (intro emits_seq emits_opt_int emits_publisher [OF assms] emits_mustBeFresh [OF assms] ex)
qed

lemma lifetime_u64:
  assumes "lifetime_is ms i" "ms \<ge> 0"
  shows "d_le (d_of_int 0) (ni_lifetime i)" "d_to_u64 (d_round (ni_lifetime i)) = Some (of_int ms)"
proof -
  have "\<lfloor>of_int ms + (1 / 2 :: rat)\<rfloor> = ms" by linarith
  then show "d_to_u64 (d_round (ni_lifetime i)) = Some (of_int ms)"
    using assms by (simp add: lifetime_is_def)
  show "d_le (d_of_int 0) (ni_lifetime i)"
    using assms by (auto simp: lifetime_is_def d_le_def d_of_int_def to_double_0)
qed

lemma emits_lifetime:
  assumes "lifetime_is ms i"
  shows "emits (writeOptionalNonNegativeIntegerTlvFromDouble ndn_Tlv_InterestLifetime (ni_lifetime i))
    (tlvs (opt_int ndn_Tlv_InterestLifetime ms))"
proof (cases "ms \<ge> 0")
  case True
  then have "writeOptionalNonNegativeIntegerTlvFromDouble ndn_Tlv_InterestLifetime (ni_lifetime i) =
      writeNonNegativeIntegerTlv ndn_Tlv_InterestLifetime (of_int ms)"
    using lifetime_u64 [OF assms True] by (intro ext) (simp add: writeOptionalNonNegativeIntegerTlvFromDouble_def)
  then show ?thesis using emits_nonneg True by (simp add: opt_int_def)
next
  case False
  then have "\<not> d_le (d_of_int 0) (ni_lifetime i)"
    using assms by (auto simp: lifetime_is_def d_le_def d_of_int_def to_double_0)
  then have "writeOptionalNonNegativeIntegerTlvFromDouble ndn_Tlv_InterestLifetime (ni_lifetime i) = Inr"
    by (intro ext) (simp add: writeOptionalNonNegativeIntegerTlvFromDouble_def)
  then show ?thesis using emits_skip False by (simp add: opt_int_def)
qed

lemma emits_interest:
  assumes "encodable i" "lifetime_is ms i"
  shows "emits (encodeTlvInterest rnd i) (interest_tlv rnd ms i)"
proof -
  have "emits (encodeInterestValue rnd i) (blob_tlv_bytes ndn_Tlv_Name (name_value (ni_name i)) @
      (if True \<and> tlvs (selector_fields i) = [] then [] else blob_tlv_bytes ndn_Tlv_Selectors (tlvs (selector_fields i))) @
      blob_tlv_bytes ndn_Tlv_Nonce (nonce_blob rnd (ni_nonce i)) @
      tlvs (opt_int ndn_Tlv_Scope (ni_scope i)) @ tlvs (opt_int ndn_Tlv_InterestLifetime ms))"
    unfolding encodeInterestValue_def [abs_def]
    by (intro emits_seq emits_name emits_nested emits_selectors [OF assms(1)] emits_blob emits_opt_int
        emits_lifetime [OF assms(2)])
  then have "emits (encodeInterestValue rnd i) (tlvs (interest_fields rnd ms i))"
    by (cases "selector_fields i = []") (simp_all add: interest_fields_def)
  then show ?thesis
    using emits_nested [of "encodeInterestValue rnd i" "tlvs (interest_fields rnd ms i)" ndn_Tlv_Interest False]
    by (simp add: encodeTlvInterest_def interest_tlv_def)
qed

end
