(* ===== verification/Interest_Roundtrip.thy ===== *)
theory Interest_Roundtrip
  imports Interest_Wire
begin

text \<open>
  What the decoder of interests reads from what the encoder wrote, for interests without a key locator,
  as the media library sends them.
\<close>

section \<open>Readers in front of their fields\<close>

definition clip :: "int \<Rightarrow> int" where
  "clip v = (if v \<ge> 0 then v else -1)"

lemma optional_field_starts [simp]:
  "starts ((if b then [(k, v)] else []) @ fs) t \<longleftrightarrow> (if b then k = t else starts fs t)"
  "starts (if b then [(k, v)] else []) t \<longleftrightarrow> b \<and> k = t"
  "starts ((if b then [] else [(k, v)]) @ fs) t \<longleftrightarrow> (if b then starts fs t else k = t)"
  by simp_all

lemmas readOptional_left = readOptionalInt_left [folded clip_def]

definition bytes_of :: "bytes \<Rightarrow> slice list \<Rightarrow> bytes list \<Rightarrow> bool" where
  "bytes_of inp ss bs \<longleftrightarrow> map (slice_bytes inp) ss = map Some bs"

lemma decodeTlvName_left:
  assumes "td_left inp (tlvs ((ndn_Tlv_Name, name_value n) # fs) @ tail) d" "length n \<le> maxComponents"
  shows "\<exists>comps sb se d'. decodeTlvName maxComponents d = Some (Inr (comps, sb, se, d')) \<and>
    bytes_of inp comps n \<and> td_left inp (tlvs fs @ tail) d'"
proof -
  obtain pre where pre: "td_at pre (name_tlv (Name (map Component n)) @ tlvs fs @ tail) d" "td_input d = inp"
    using assms(1) by (elim td_leftE) (simp add: name_tlv_field)
  have "name_size (Name (map Component n)) \<le> maxComponents" using assms(2) by (simp add: name_size_def)
  from decodeTlvName_at [OF pre(1) this] pre(2) show ?thesis
    by (fastforce simp: bytes_of_def comp_def intro: td_leftI)
qed

lemma small_exclude [simp]: "small_types (exclude_fields es)"
  by (auto simp: small_types_def exclude_fields_def tlv_types split: option.split)

lemma exclude_fields_simps [simp]:
  "exclude_fields [] = []"
  "exclude_fields (None # es) = (ndn_Tlv_Any, []) # exclude_fields es"
  "exclude_fields (Some c # es) = (ndn_Tlv_NameComponent, c) # exclude_fields es"
  by (simp_all add: exclude_fields_def)

definition entries_of :: "bytes \<Rightarrow> slice option list \<Rightarrow> bytes option list \<Rightarrow> bool" where
  "entries_of inp ss es \<longleftrightarrow> map (map_option (slice_bytes inp)) ss = map (map_option Some) es"

lemma decode_entries_left:
  assumes "td_left inp (tlvs (exclude_fields es) @ tail) d" "length acc + length es \<le> maxEntries"
  shows "\<exists>ss d'. run_loop (decode_entry maxEntries (end_of inp tail)) (acc, d) = Some (Inr (acc @ ss, d')) \<and>
    entries_of inp ss es \<and> td_left inp tail d'"
  using assms
proof (induction es arbitrary: acc d)
  case Nil
  have "peekType t (end_of inp tail) d = Inr (False, d)" if "t < 253" for t
    using peekType_left [of inp "[]" tail d t] Nil.prems(1) that by simp
  then have "decode_entry maxEntries (end_of inp tail) (acc, d) = Inl (Inr (acc, d))"
    by (simp add: decode_entry_def readBooleanTlv_def tlv_types)
  then show ?case using Nil.prems by (auto simp: run_loop_exit entries_of_def)
next
  case (Cons e es)
  let ?eo = "end_of inp tail"
  note peek = peekType_left [OF Cons.prems(1) small_exclude, of ndn_Tlv_NameComponent]
  have "\<exists>x d1. decode_entry maxEntries ?eo (acc, d) = Inr (acc @ [x], d1) \<and> map_option (slice_bytes inp) x = map_option Some e \<and>
    td_left inp (tlvs (exclude_fields es) @ tail) d1"
  proof (cases e)
    case None
    have l: "td_left inp (tlvs ((if True then [(ndn_Tlv_Any, [])] else []) @ exclude_fields es) @ tail) d"
      using Cons.prems(1) None by simp
    have "peekType ndn_Tlv_Any ?eo d = Inr (True, d)"
      using peekType_left [OF Cons.prems(1) small_exclude, of ndn_Tlv_Any] None by (simp add: tlv_types)
    moreover obtain d1 where "readTypeAndLength ndn_Tlv_Any d = Inr (0, d1)" "td_left inp (tlvs (exclude_fields es) @ tail) d1"
      using readTypeAndLength_left [of inp ndn_Tlv_Any "[]" "exclude_fields es" tail d] Cons.prems(1) None
      by (auto simp: tlv_types)
    ultimately show ?thesis
      using peek Cons.prems(2) None by (simp add: decode_entry_def readBooleanTlv_def tlv_types)
  next
    case (Some c)
    obtain s d1 where "readBlobTlv ndn_Tlv_NameComponent d = Inr (s, d1)" "slice_bytes inp s = Some c"
      "td_left inp (tlvs (exclude_fields es) @ tail) d1"
      using readBlobTlv_left [of inp ndn_Tlv_NameComponent c "exclude_fields es" tail d] Cons.prems(1) Some
      by (auto simp: tlv_types)
    then show ?thesis using peek Cons.prems(2) Some by (cases s) (simp add: decode_entry_def tlv_types)
  qed
  then obtain x d1 where x: "decode_entry maxEntries ?eo (acc, d) = Inr (acc @ [x], d1)"
    "map_option (slice_bytes inp) x = map_option Some e" "td_left inp (tlvs (exclude_fields es) @ tail) d1"
    by blast
  obtain ss d' where "run_loop (decode_entry maxEntries ?eo) (acc @ [x], d1) = Some (Inr ((acc @ [x]) @ ss, d'))"
    "entries_of inp ss es" "td_left inp tail d'"
    using Cons.IH [OF x(3), of "acc @ [x]"] Cons.prems(2) by auto
  then show ?case
    using x(1,2) by (intro exI [of _ "x # ss"] exI [of _ d']) (simp add: run_loop_next entries_of_def)
qed

lemma decode_exclude_left:
  assumes "td_left inp (tlvs ((if es \<noteq> [] then [(ndn_Tlv_Exclude, tlvs (exclude_fields es))] else []) @ fs) @ tail) d"
    and "small_types fs" "\<not> starts fs ndn_Tlv_Exclude" "length es \<le> maxEntries"
  shows "\<exists>ss d'. decode_exclude maxEntries (end_of inp tail) d = Some (Inr (ss, d')) \<and> entries_of inp ss es \<and>
    td_left inp (tlvs fs @ tail) d'"
proof (cases "es = []")
  case True
  then have "td_left inp (tlvs fs @ tail) d" using assms(1) by simp
  with peekType_left [OF this assms(2), of ndn_Tlv_Exclude] assms(3) True show ?thesis
    by (simp add: decode_exclude_def tlv_types entries_of_def)
next
  case False
  then have l: "td_left inp (tlvs ((ndn_Tlv_Exclude, tlvs (exclude_fields es)) # fs) @ tail) d" using assms(1) by simp
  have p: "peekType ndn_Tlv_Exclude (end_of inp tail) d = Inr (True, d)"
    using peekType_left [OF l, of ndn_Tlv_Exclude] assms(2) by (simp add: tlv_types)
  obtain d1 where d1: "readNestedTlvsStart ndn_Tlv_Exclude d = Inr (end_of inp (tlvs fs @ tail), d1)"
    "td_left inp (tlvs (exclude_fields es) @ tlvs fs @ tail) d1"
    using readNestedTlvsStart_left [OF l] by (auto simp: tlv_types)
  obtain ss d2 where d2: "run_loop (decode_entry maxEntries (end_of inp (tlvs fs @ tail))) ([], d1) = Some (Inr (ss, d2))"
    "entries_of inp ss es" "td_left inp (tlvs fs @ tail) d2"
    using decode_entries_left [OF d1(2), of "[]" maxEntries] assms(4) by auto
  from p d1(1) d2 finishNestedTlvs_left [OF d2(3)] show ?thesis
    by (simp add: decode_exclude_def decodeExclude_def)
qed

lemma decode_no_publisher:
  assumes "td_left inp (tlvs fs @ tail) d" "small_types fs" "\<not> starts fs ndn_Tlv_PublisherPublicKeyLocator"
  shows "decode_publisher maxKey (end_of inp tail) i d =
    Some (Inr (i\<lparr>ni_publisherPublicKeyDigest := no_slice, ni_keyLocator := KeyLocator_initialize no_slice\<rparr>, d))"
  using peekType_left [OF assms(1,2), of ndn_Tlv_PublisherPublicKeyLocator] assms(3)
  by (simp add: decode_publisher_def tlv_types)

lemma readLifetime_left:
  assumes "td_left inp (tlvs (opt_int t ms) @ tail) d" "t < 253" "ms < 2 ^ 53"
  shows "\<exists>d'. readOptionalNonNegativeIntegerTlvAsDouble t (end_of inp tail) d =
      Inr (Finite (of_int (if ms \<ge> 0 then ms else -1)), d') \<and> td_left inp tail d'"
proof (cases "ms \<ge> 0")
  case False
  then have "td_left inp (tlvs [] @ tail) d" using assms(1) by (simp add: opt_int_def)
  from peekType_left [OF this _ assms(2)] False this show ?thesis
    by (simp add: readOptionalNonNegativeIntegerTlvAsDouble_def d_of_int_exact)
next
  case True
  then have l: "td_left inp (tlvs [(t, nonneg_bytes (of_int ms))] @ tail) d" using assms(1) by (simp add: opt_int_def)
  obtain d1 where d1: "readNonNegativeIntegerTlv t d = Inr (of_int ms, d1)" "td_left inp tail d1"
    using readNonNegativeIntegerTlv_left [OF l assms(2)] by auto
  have p: "peekType t (end_of inp tail) d = Inr (True, d)" using peekType_left [OF l _ assms(2)] assms(2) by simp
  have "uint (of_int ms :: u64) = ms" using True assms(3) by (simp add: uint_word_of_int_eq take_bit_int_eq_self)
  then show ?thesis
    using True p d1 assms(3) by (simp add: readOptionalNonNegativeIntegerTlvAsDouble_def d_of_int_exact)
qed

section \<open>Interests\<close>

definition no_key :: "bytes ndn_interest \<Rightarrow> bool" where
  "no_key i \<longleftrightarrow> kl_type (ni_keyLocator i) < 0 \<and> ni_publisherPublicKeyDigest i = []"

lemma no_key_publisher: "no_key i \<Longrightarrow> publisher_fields i = []"
  by (simp add: no_key_def publisher_fields_def key_locator_fields_def)

definition small_selectors :: "bytes ndn_interest \<Rightarrow> bool" where
  "small_selectors i \<longleftrightarrow> ni_minSuffixComponents i < 2 ^ 31 \<and> ni_maxSuffixComponents i < 2 ^ 31 \<and>
     ni_childSelector i < 2 ^ 31 \<and> ni_scope i < 2 ^ 31"

definition same_selectors :: "bytes \<Rightarrow> bytes ndn_interest \<Rightarrow> slice ndn_interest \<Rightarrow> bool" where
  "same_selectors inp i j \<longleftrightarrow>
     ni_minSuffixComponents j = clip (ni_minSuffixComponents i) \<and>
     ni_maxSuffixComponents j = clip (ni_maxSuffixComponents i) \<and>
     entries_of inp (ni_exclude j) (ni_exclude i) \<and>
     ni_childSelector j = clip (ni_childSelector i)"

lemma small_selector_fields: "no_key i \<Longrightarrow> small_types (selector_fields i)"
  by (simp add: selector_fields_def no_key_publisher tlv_types)

lemma fresh_iff: "encodable i \<Longrightarrow> getMustBeFresh i \<longleftrightarrow> ni_answerOriginKind i \<le> 0"
  by (auto simp: getMustBeFresh_def encodable_def)

lemma decodeSelectors_left:
  assumes "td_left inp (tlvs ((ndn_Tlv_Selectors, tlvs (selector_fields i)) # fs) @ tail) d"
    and "no_key i" "small_selectors i" "length (ni_exclude i) \<le> maxEntries"
  shows "\<exists>j' d'. decodeSelectors maxKey maxEntries j d = Some (Inr (j', d')) \<and> same_selectors inp i j' \<and>
    ni_name j' = ni_name j \<and> ni_answerOriginKind j' = (if ni_answerOriginKind i \<le> 0 then -1 else ndn_Interest_ANSWER_STALE) \<and>
    td_left inp (tlvs fs @ tail) d'"
proof -
  let ?tail = "tlvs fs @ tail" let ?eo = "end_of inp ?tail"
  let ?fresh = "if ni_answerOriginKind i \<le> 0 then [(ndn_Tlv_MustBeFresh, [])] else [] :: field list"
  let ?child = "opt_int ndn_Tlv_ChildSelector (ni_childSelector i) @ ?fresh"
  let ?ex = "(if ni_exclude i \<noteq> [] then [(ndn_Tlv_Exclude, tlvs (exclude_fields (ni_exclude i)))] else []) @ ?child"
  let ?max = "opt_int ndn_Tlv_MaxSuffixComponents (ni_maxSuffixComponents i) @ ?ex"
  have f: "selector_fields i = opt_int ndn_Tlv_MinSuffixComponents (ni_minSuffixComponents i) @ ?max"
    using no_key_publisher [OF assms(2)] by (simp add: selector_fields_def)
  have small: "small_types ?max" "small_types ?ex" "small_types ?child" "small_types ?fresh"
    by (simp_all add: tlv_types)
  obtain d1 where d1: "readNestedTlvsStart ndn_Tlv_Selectors d = Inr (?eo, d1)"
    "td_left inp (tlvs (selector_fields i) @ ?tail) d1"
    using readNestedTlvsStart_left [OF assms(1)] by (auto simp: tlv_types)
  have v: "ni_minSuffixComponents i < 2 ^ 31" "ni_maxSuffixComponents i < 2 ^ 31" "ni_childSelector i < 2 ^ 31"
    using assms(3) by (simp_all add: small_selectors_def)
  have t: "ndn_Tlv_MinSuffixComponents < 253" "ndn_Tlv_MaxSuffixComponents < 253" "ndn_Tlv_ChildSelector < 253"
    by (simp_all add: tlv_types)
  have n: "\<not> starts ?max ndn_Tlv_MinSuffixComponents" "\<not> starts ?ex ndn_Tlv_MaxSuffixComponents"
    "\<not> starts ?ex ndn_Tlv_PublisherPublicKeyLocator" "\<not> starts ?child ndn_Tlv_Exclude" "\<not> starts ?fresh ndn_Tlv_ChildSelector"
    by (simp_all add: tlv_types)
  obtain d2 where d2: "readOptionalNonNegativeIntegerTlv ndn_Tlv_MinSuffixComponents ?eo d1 = Inr (clip (ni_minSuffixComponents i), d2)"
    "td_left inp (tlvs ?max @ ?tail) d2"
    using readOptional_left [OF d1(2) [unfolded f] small(1) t(1) n(1) v(1)] by blast
  obtain d3 where d3: "readOptionalNonNegativeIntegerTlv ndn_Tlv_MaxSuffixComponents ?eo d2 = Inr (clip (ni_maxSuffixComponents i), d3)"
    "td_left inp (tlvs ?ex @ ?tail) d3"
    using readOptional_left [OF d2(2) small(2) t(2) n(2) v(2)] by blast
  note d4 = decode_no_publisher [OF d3(2) small(2) n(3), of maxKey j]
  obtain ss d5 where d5: "decode_exclude maxEntries ?eo d3 = Some (Inr (ss, d5))" "entries_of inp ss (ni_exclude i)"
    "td_left inp (tlvs ?child @ ?tail) d5"
    using decode_exclude_left [OF d3(2) small(3) n(4) assms(4)] by blast
  obtain d6 where d6: "readOptionalNonNegativeIntegerTlv ndn_Tlv_ChildSelector ?eo d5 = Inr (clip (ni_childSelector i), d6)"
    "td_left inp (tlvs ?fresh @ ?tail) d6"
    using readOptional_left [OF d5(3) small(4) t(3) n(5) v(3)] by blast
  obtain d7 where d7: "readBooleanTlv ndn_Tlv_MustBeFresh ?eo d6 = Inr (ni_answerOriginKind i \<le> 0, d7)" "td_left inp ?tail d7"
    using readBooleanTlv_left [of inp "ni_answerOriginKind i \<le> 0" ndn_Tlv_MustBeFresh "[]" ?tail d6] d6(2)
    by (auto simp: tlv_types)
  have "finishNestedTlvs ?eo d7 = Some (Inr d7)" by (rule finishNestedTlvs_left [OF d7(2)])
  with d1(1) d2(1) d3(1) d4 d5(1,2) d6(1) d7 show ?thesis
    by (simp add: decodeSelectors_def same_selectors_def)
qed

lemma decodeTlvInterest_left:
  assumes "td_left inp (interest_tlv rnd ms i @ tail) d"
    and "no_key i" "encodable i" "small_selectors i" "ms < 2 ^ 53"
    and "length (ni_name i) \<le> maxComponents" "length (ni_exclude i) \<le> maxEntries"
  shows "\<exists>j' d'. decodeTlvInterest maxComponents maxKey maxEntries j d = Some (Inr (j', d')) \<and>
    bytes_of inp (ni_name j') (ni_name i) \<and> same_selectors inp i j' \<and>
    (getMustBeFresh j' \<longleftrightarrow> getMustBeFresh i \<or> selector_fields i = []) \<and>
    slice_bytes inp (ni_nonce j') = Some (nonce_blob rnd (ni_nonce i)) \<and> ni_scope j' = clip (ni_scope i) \<and>
    ni_lifetime j' = Finite (of_int (clip ms)) \<and> td_left inp tail d'"
proof -
  let ?eo = "end_of inp tail"
  let ?life = "opt_int ndn_Tlv_InterestLifetime ms"
  let ?scope = "opt_int ndn_Tlv_Scope (ni_scope i) @ ?life"
  let ?nonce = "(ndn_Tlv_Nonce, nonce_blob rnd (ni_nonce i)) # ?scope"
  let ?sel = "(if selector_fields i = [] then [] else [(ndn_Tlv_Selectors, tlvs (selector_fields i))]) @ ?nonce"
  have f: "interest_fields rnd ms i = (ndn_Tlv_Name, name_value (ni_name i)) # ?sel" by (simp add: interest_fields_def)
  have small: "small_types ?sel" "small_types ?nonce" "small_types ?scope" "small_types ?life"
    by (simp_all add: tlv_types)
  have "td_left inp (tlvs [(ndn_Tlv_Interest, tlvs (interest_fields rnd ms i))] @ tail) d"
    using assms(1) by (simp add: interest_tlv_def)
  from readNestedTlvsStart_left [OF this] obtain d1 where d1: "readNestedTlvsStart ndn_Tlv_Interest d = Inr (?eo, d1)"
    "td_left inp (tlvs ((ndn_Tlv_Name, name_value (ni_name i)) # ?sel) @ tail) d1"
    by (auto simp: tlv_types f)
  obtain comps sb se d2 where d2: "decodeTlvName maxComponents d1 = Some (Inr (comps, sb, se, d2))"
    "bytes_of inp comps (ni_name i)" "td_left inp (tlvs ?sel @ tail) d2"
    using decodeTlvName_left [OF d1(2) assms(6)] by blast
  have p: "peekType ndn_Tlv_Selectors ?eo d2 = Inr (selector_fields i \<noteq> [], d2)"
    using peekType_left [OF d2(3) small(1), of ndn_Tlv_Selectors] by (simp add: tlv_types)
  let ?j = "j\<lparr>ni_name := comps\<rparr>"
  obtain j1 d3 where d3: "(if selector_fields i \<noteq> [] then decodeSelectors maxKey maxEntries ?j d2
        else Some (Inr (no_selectors ?j, d2))) = Some (Inr (j1, d3))"
    "same_selectors inp i j1" "ni_name j1 = comps" "getMustBeFresh j1 \<longleftrightarrow> getMustBeFresh i \<or> selector_fields i = []"
    "td_left inp (tlvs ?nonce @ tail) d3"
  proof (cases "selector_fields i = []")
    case True
    then have "same_selectors inp i (no_selectors ?j)"
      by (auto simp: selector_fields_def same_selectors_def no_selectors_def clip_def opt_int_def entries_of_def split: if_splits)
    then show thesis
      using True d2(3) by (intro that [of "no_selectors ?j" d2]) (simp_all add: no_selectors_def getMustBeFresh_def)
  next
    case False
    then have "td_left inp (tlvs ((ndn_Tlv_Selectors, tlvs (selector_fields i)) # ?nonce) @ tail) d2" using d2(3) by simp
    from decodeSelectors_left [OF this assms(2,4,7), of maxKey ?j] obtain j1 d3 where
      "decodeSelectors maxKey maxEntries ?j d2 = Some (Inr (j1, d3))" "same_selectors inp i j1" "ni_name j1 = comps"
      "ni_answerOriginKind j1 = (if ni_answerOriginKind i \<le> 0 then -1 else ndn_Interest_ANSWER_STALE)"
      "td_left inp (tlvs ?nonce @ tail) d3"
      by auto
    moreover from this have "getMustBeFresh j1 \<longleftrightarrow> getMustBeFresh i"
      by (simp add: fresh_iff [OF assms(3)] getMustBeFresh_def [of j1] ndn_Interest_ANSWER_STALE_def)
    ultimately show thesis using False by (intro that [of j1 d3]) simp_all
  qed
  obtain s d4 where d4: "readBlobTlv ndn_Tlv_Nonce d3 = Inr (s, d4)" "slice_bytes inp s = Some (nonce_blob rnd (ni_nonce i))"
    "td_left inp (tlvs ?scope @ tail) d4"
    using readBlobTlv_left [OF d3(5)] by (auto simp: tlv_types)
  obtain d5 where d5: "readOptionalNonNegativeIntegerTlv ndn_Tlv_Scope ?eo d4 = Inr (clip (ni_scope i), d5)"
    "td_left inp (tlvs ?life @ tail) d5"
    using readOptional_left [OF d4(3) small(4)] assms(4) by (auto simp: tlv_types small_selectors_def)
  obtain d6 where d6: "readOptionalNonNegativeIntegerTlvAsDouble ndn_Tlv_InterestLifetime ?eo d5 = Inr (Finite (of_int (clip ms)), d6)"
    "td_left inp tail d6"
    using readLifetime_left [OF d5(2) _ assms(5)] by (auto simp: tlv_types clip_def)
  have "decodeTlvInterest maxComponents maxKey maxEntries j d =
      Some (Inr (j1\<lparr>ni_nonce := s, ni_scope := clip (ni_scope i), ni_lifetime := Finite (of_int (clip ms))\<rparr>, d6))"
    unfolding decodeTlvInterest_def d1(1) rbind.simps prod.case d2(1) p d3(1) d4(1) d5(1) d6(1)
      finishNestedTlvs_left [OF d6(2)] ..
  moreover have "getMustBeFresh (j1\<lparr>ni_nonce := s, ni_scope := x, ni_lifetime := y\<rparr>) = getMustBeFresh j1" for x y
    by (simp add: getMustBeFresh_def)
  ultimately show ?thesis
    using d2(2) d3(2-4) d4(2) d6(2)
    by (intro exI [of _ "j1\<lparr>ni_nonce := s, ni_scope := clip (ni_scope i), ni_lifetime := Finite (of_int (clip ms))\<rparr>"] exI [of _ d6])
      (simp add: same_selectors_def)
qed


definition sample_wire_interest :: "bytes ndn_interest" where
  "sample_wire_interest = (Interest_initialize [])
     \<lparr>ni_name := [''camera'', ''k''], ni_minSuffixComponents := 2, ni_exclude := [None, Some ''8''],
      ni_childSelector := 1, ni_lifetime := Finite 1000\<rparr>"


end
