(* ===== verification/Session_Info.thy ===== *)
theory Session_Info
  imports Frame_Data
begin

text \<open>
  The description of a session that a producer publishes: its prefix, its video and audio streams and
  their threads (\<open>SessionInfoData\<close> of \<open>ndnrtc/cpp/src/frame-data.cpp\<close>, the parameter classes of
  \<open>ndnrtc/cpp/include/params.h\<close>, \<open>serializeSessionInfo\<close> and \<open>deserializeSessionInfo\<close> of
  \<open>ndnrtc-library.cpp\<close>). The structures are packed; a \<open>double\<close> is kept as its 64 bits. The vectors of
  a session hold pointers that nothing else shares, so a copy of a session is a new value.

  \<open>None\<close> is a failed assertion, a read or write outside an allocation or an array, an index beyond
  \<open>int\<close>, and the use of a thread's parameters as those of the other kind. \<open>Inl ()\<close> is \<open>RESULT_ERR\<close>. Memory that is never
  written before it is read is an argument: \<open>junk\<close> is the rate of an audio thread, by its place in the
  buffer, and \<open>flag\<close> the flag \<open>dropFramesOn_\<close> of a new object.
\<close>

section \<open>Parameters\<close>

record video_coder_params =
  vc_codecFrameRate :: u64
  vc_gop :: u32
  vc_startBitrate :: u32
  vc_maxBitrate :: u32
  vc_encodeWidth :: u32
  vc_encodeHeight :: u32
  vc_dropFramesOn :: bool

record segments_info =
  sg_deltaAvgSegNum :: u64
  sg_deltaAvgParitySegNum :: u64
  sg_keyAvgSegNum :: u64
  sg_keyAvgParitySegNum :: u64

datatype media_thread_params =
    AudioThreadParams (mtp_threadName: string)
  | VideoThreadParams (mtp_threadName: string) (mtp_coderParams: video_coder_params) (mtp_segments: segments_info)

datatype media_stream_type = MediaStreamTypeAudio | MediaStreamTypeVideo

record media_stream_params =
  msp_segmentSize :: u32
  msp_freshnessMs :: u32
  msp_streamName :: string
  msp_synchronizedStreamName :: string
  msp_captureDevice :: "int option"
  msp_mediaThreads :: "media_thread_params list"
  msp_type :: media_stream_type

record session_info =
  si_sessionPrefix :: string
  si_audioStreams :: "media_stream_params list"
  si_videoStreams :: "media_stream_params list"

text \<open>The type of a new object is not set before the copy.\<close>

definition new_MediaStreamParams :: "media_stream_type \<Rightarrow> media_stream_params" where
  "new_MediaStreamParams t = \<lparr>msp_segmentSize = 0, msp_freshnessMs = 0, msp_streamName = [],
     msp_synchronizedStreamName = [], msp_captureDevice = None, msp_mediaThreads = [], msp_type = t\<rparr>"

definition MediaStreamParams_copyFrom :: "media_stream_params \<Rightarrow> media_stream_params \<Rightarrow> media_stream_params" where
  "MediaStreamParams_copyFrom other p =
     (let p1 = p\<lparr>msp_streamName := msp_streamName other, msp_type := msp_type other,
            msp_segmentSize := msp_segmentSize other, msp_freshnessMs := msp_freshnessMs other,
            msp_mediaThreads := msp_mediaThreads other\<rparr> in
      case msp_captureDevice other of
        None \<Rightarrow> p1
      | Some d \<Rightarrow> p1\<lparr>msp_captureDevice := Some d\<rparr>)"

definition MediaStreamParams_copy :: "media_stream_params \<Rightarrow> media_stream_params" where
  "MediaStreamParams_copy other = MediaStreamParams_copyFrom other (new_MediaStreamParams (msp_type other))"

definition new_SessionInfo :: session_info where
  "new_SessionInfo = \<lparr>si_sessionPrefix = [], si_audioStreams = [], si_videoStreams = []\<rparr>"

definition SessionInfo_copyFrom :: "session_info \<Rightarrow> session_info" where
  "SessionInfo_copyFrom other =
     \<lparr>si_sessionPrefix = si_sessionPrefix other,
      si_audioStreams = map MediaStreamParams_copy (si_audioStreams other),
      si_videoStreams = map MediaStreamParams_copy (si_videoStreams other)\<rparr>"

section \<open>Structures in memory\<close>

abbreviation NUL :: char where "NUL \<equiv> CHR 0x00"

definition MAX_STREAM_NAME_LENGTH :: nat where "MAX_STREAM_NAME_LENGTH = 20"
definition MAX_THREAD_NAME_LENGTH :: nat where "MAX_THREAD_NAME_LENGTH = 20"
definition NDNRTC_SESSION_MRKR :: nat where "NDNRTC_SESSION_MRKR = 0x1234"
definition NDNRTC_VSTREAMDESC_MRKR :: nat where "NDNRTC_VSTREAMDESC_MRKR = 0xb1b1"
definition NDNRTC_ASTREAMDESC_MRKR :: nat where "NDNRTC_ASTREAMDESC_MRKR = 0xb2b2"
definition NDNRTC_VTHREADDESC_MRKR :: nat where "NDNRTC_VTHREADDESC_MRKR = 0xb3b3"
definition NDNRTC_ATHREADDESC_MRKR :: nat where "NDNRTC_ATHREADDESC_MRKR = 0xb4b4"

lemmas session_defs = MAX_STREAM_NAME_LENGTH_def MAX_THREAD_NAME_LENGTH_def NDNRTC_SESSION_MRKR_def
  NDNRTC_VSTREAMDESC_MRKR_def NDNRTC_ASTREAMDESC_MRKR_def NDNRTC_VTHREADDESC_MRKR_def NDNRTC_ATHREADDESC_MRKR_def

text \<open>\<open>memset\<close> and \<open>strcpy\<close> into an array of \<open>m + 1\<close> characters.\<close>

definition name_array :: "nat \<Rightarrow> string \<Rightarrow> bytes option" where
  "name_array m s =
     (let c = takeWhile (\<lambda>x. x \<noteq> NUL) s in
      if length c \<le> m then Some (c @ replicate (m + 1 - length c) NUL) else None)"

definition video_thread_description :: "media_thread_params \<Rightarrow> bytes option" where
  "video_thread_description t =
     (case t of
        AudioThreadParams _ \<Rightarrow> None
      | VideoThreadParams name c g \<Rightarrow> do {
          n \<leftarrow> name_array MAX_THREAD_NAME_LENGTH name;
          Some (le_bytes 2 NDNRTC_VTHREADDESC_MRKR @ le_bytes 8 (unat (vc_codecFrameRate c)) @
            le_bytes 4 (unat (vc_gop c)) @ le_bytes 4 (unat (vc_startBitrate c)) @
            le_bytes 4 (unat (vc_encodeWidth c)) @ le_bytes 4 (unat (vc_encodeHeight c)) @
            le_bytes 8 (unat (sg_deltaAvgSegNum g)) @ le_bytes 8 (unat (sg_deltaAvgParitySegNum g)) @
            le_bytes 8 (unat (sg_keyAvgSegNum g)) @ le_bytes 8 (unat (sg_keyAvgParitySegNum g)) @
            n @ le_bytes 2 NDNRTC_VTHREADDESC_MRKR)
        })"

definition audio_thread_description :: "u64 \<Rightarrow> media_thread_params \<Rightarrow> bytes option" where
  "audio_thread_description rate t =
     (case t of
        VideoThreadParams _ _ _ \<Rightarrow> None
      | AudioThreadParams name \<Rightarrow> do {
          n \<leftarrow> name_array MAX_THREAD_NAME_LENGTH name;
          Some (le_bytes 2 NDNRTC_ATHREADDESC_MRKR @ le_bytes 8 (unat rate) @ n @ le_bytes 2 NDNRTC_ATHREADDESC_MRKR)
        })"

definition video_stream_description :: "media_stream_params \<Rightarrow> bytes option" where
  "video_stream_description p = do {
     n \<leftarrow> name_array MAX_STREAM_NAME_LENGTH (msp_streamName p);
     s \<leftarrow> name_array MAX_STREAM_NAME_LENGTH (msp_synchronizedStreamName p);
     Some (le_bytes 2 NDNRTC_VSTREAMDESC_MRKR @ le_bytes 4 (unat (msp_segmentSize p)) @ n @ s @
       le_bytes 4 (length (msp_mediaThreads p)) @ le_bytes 2 NDNRTC_VSTREAMDESC_MRKR)
   }"

definition audio_stream_description :: "media_stream_params \<Rightarrow> bytes option" where
  "audio_stream_description p = do {
     n \<leftarrow> name_array MAX_STREAM_NAME_LENGTH (msp_streamName p);
     Some (le_bytes 2 NDNRTC_ASTREAMDESC_MRKR @ le_bytes 4 (unat (msp_segmentSize p)) @ n @
       le_bytes 4 (length (msp_mediaThreads p)) @ le_bytes 2 NDNRTC_ASTREAMDESC_MRKR)
   }"

definition session_header :: "session_info \<Rightarrow> bytes" where
  "session_header info =
     le_bytes 2 NDNRTC_SESSION_MRKR @ le_bytes 4 (length (si_videoStreams info)) @
     le_bytes 4 (length (si_audioStreams info)) @ le_bytes 2 NDNRTC_SESSION_MRKR"

definition SessionInfoDataHeader_size :: nat where "SessionInfoDataHeader_size = 12"
definition VideoThreadDescription_size :: nat where "VideoThreadDescription_size = 81"
definition AudioThreadDescription_size :: nat where "AudioThreadDescription_size = 33"
definition VideoStreamDescription_size :: nat where "VideoStreamDescription_size = 54"
definition AudioStreamDescription_size :: nat where "AudioStreamDescription_size = 33"

lemmas description_sizes = SessionInfoDataHeader_size_def VideoThreadDescription_size_def
  AudioThreadDescription_size_def VideoStreamDescription_size_def AudioStreamDescription_size_def

section \<open>Packing\<close>

definition session_length :: "session_info \<Rightarrow> nat" where
  "session_length info =
     SessionInfoDataHeader_size + length (si_sessionPrefix info) + 1 +
     VideoStreamDescription_size * length (si_videoStreams info) +
     AudioStreamDescription_size * length (si_audioStreams info) +
     sum_list (map (\<lambda>p. VideoThreadDescription_size * length (msp_mediaThreads p)) (si_videoStreams info)) +
     sum_list (map (\<lambda>p. AudioThreadDescription_size * length (msp_mediaThreads p)) (si_audioStreams info))"

definition getSessionInfoLength :: "session_info \<Rightarrow> nat" where
  "getSessionInfoLength info = session_length info mod 2 ^ 32"

fun pack_threads ::
    "(nat \<Rightarrow> media_thread_params \<Rightarrow> bytes option) \<Rightarrow> media_thread_params list \<Rightarrow> nat \<Rightarrow> bytes \<Rightarrow> (nat \<times> bytes) option" where
  "pack_threads describe [] idx d = Some (idx, d)"
| "pack_threads describe (t # ts) idx d = do {
     b \<leftarrow> describe idx t;
     d1 \<leftarrow> mem_write d idx b;
     pack_threads describe ts (idx + length b) d1
   }"

fun pack_streams ::
    "(media_stream_params \<Rightarrow> bytes option) \<Rightarrow> (nat \<Rightarrow> media_thread_params \<Rightarrow> bytes option) \<Rightarrow>
     media_stream_params list \<Rightarrow> nat \<Rightarrow> bytes \<Rightarrow> (nat \<times> bytes) option" where
  "pack_streams describe describe_thread [] idx d = Some (idx, d)"
| "pack_streams describe describe_thread (p # ps) idx d = do {
     b \<leftarrow> describe p;
     d1 \<leftarrow> mem_write d idx b;
     (idx2, d2) \<leftarrow> pack_threads describe_thread (msp_mediaThreads p) (idx + length b) d1;
     pack_streams describe describe_thread ps idx2 d2
   }"

definition packParameters :: "(nat \<Rightarrow> bytes) \<Rightarrow> (nat \<Rightarrow> u64) \<Rightarrow> session_info \<Rightarrow> bytes option" where
  "packParameters malloc junk info = do {
     let len = getSessionInfoLength info;
     let idx = SessionInfoDataHeader_size;
     d1 \<leftarrow> mem_write (malloc len) 0 (session_header info);
     d2 \<leftarrow> mem_write d1 idx (si_sessionPrefix info);
     let idx = idx + length (si_sessionPrefix info);
     d3 \<leftarrow> mem_write d2 idx [NUL];
     (idx4, d4) \<leftarrow> pack_streams video_stream_description (\<lambda>_. video_thread_description) (si_videoStreams info) (idx + 1) d3;
     (idx5, d5) \<leftarrow> pack_streams audio_stream_description (\<lambda>i. audio_thread_description (junk i)) (si_audioStreams info) idx4 d4;
     if idx5 = len \<and> idx5 < 2 ^ 31 then Some d5 else None
   }"

text \<open>The constructor packs its own copy of the session.\<close>

definition serializeSessionInfo :: "(nat \<Rightarrow> bytes) \<Rightarrow> (nat \<Rightarrow> u64) \<Rightarrow> session_info \<Rightarrow> bytes option" where
  "serializeSessionInfo malloc junk info = packParameters malloc junk (SessionInfo_copyFrom info)"

section \<open>Unpacking\<close>

definition c_string :: "bytes \<Rightarrow> nat \<Rightarrow> string option" where
  "c_string raw off =
     (if NUL \<in> set (drop off raw) then Some (takeWhile (\<lambda>x. x \<noteq> NUL) (drop off raw)) else None)"

definition read_name :: "bytes \<Rightarrow> nat \<Rightarrow> nat \<Rightarrow> string option" where
  "read_name b off m = Option.bind (mem_read b off (m + 1)) (\<lambda>a. c_string a 0)"

definition read_video_thread :: "bool \<Rightarrow> bytes \<Rightarrow> nat \<Rightarrow> (unit + (media_thread_params \<times> nat)) option" where
  "read_video_thread flag raw idx = do {
     b \<leftarrow> mem_read raw idx VideoThreadDescription_size;
     m1 \<leftarrow> get_le b 0 2;
     m2 \<leftarrow> get_le b 79 2;
     if m1 \<noteq> NDNRTC_VTHREADDESC_MRKR \<and> m2 \<noteq> NDNRTC_VTHREADDESC_MRKR then Some (Inl ())
     else do {
       name \<leftarrow> read_name b 58 MAX_THREAD_NAME_LENGTH;
       rate \<leftarrow> get_le b 2 8; gop \<leftarrow> get_le b 10 4; bitrate \<leftarrow> get_le b 14 4;
       width \<leftarrow> get_le b 18 4; height \<leftarrow> get_le b 22 4;
       d \<leftarrow> get_le b 26 8; dp \<leftarrow> get_le b 34 8; k \<leftarrow> get_le b 42 8; kp \<leftarrow> get_le b 50 8;
       Some (Inr (VideoThreadParams name
         \<lparr>vc_codecFrameRate = of_nat rate, vc_gop = of_nat gop, vc_startBitrate = of_nat bitrate,
          vc_maxBitrate = 0, vc_encodeWidth = of_nat width, vc_encodeHeight = of_nat height, vc_dropFramesOn = flag\<rparr>
         \<lparr>sg_deltaAvgSegNum = of_nat d, sg_deltaAvgParitySegNum = of_nat dp, sg_keyAvgSegNum = of_nat k,
          sg_keyAvgParitySegNum = of_nat kp\<rparr>,
         idx + VideoThreadDescription_size))
     }
   }"

definition read_audio_thread :: "bytes \<Rightarrow> nat \<Rightarrow> (unit + (media_thread_params \<times> nat)) option" where
  "read_audio_thread raw idx = do {
     b \<leftarrow> mem_read raw idx AudioThreadDescription_size;
     m1 \<leftarrow> get_le b 0 2;
     m2 \<leftarrow> get_le b 31 2;
     if m1 \<noteq> NDNRTC_ATHREADDESC_MRKR \<and> m2 \<noteq> NDNRTC_ATHREADDESC_MRKR then Some (Inl ())
     else do {
       name \<leftarrow> read_name b 10 MAX_THREAD_NAME_LENGTH;
       Some (Inr (AudioThreadParams name, idx + AudioThreadDescription_size))
     }
   }"

fun read_all :: "(nat \<Rightarrow> (unit + ('a \<times> nat)) option) \<Rightarrow> nat \<Rightarrow> nat \<Rightarrow> (unit + ('a list \<times> nat)) option" where
  "read_all read 0 idx = Some (Inr ([], idx))"
| "read_all read (Suc n) idx =
     rbind (read idx) (\<lambda>(x, idx1). rbind (read_all read n idx1) (\<lambda>(xs, idx2). Some (Inr (x # xs, idx2))))"

definition read_video_stream :: "bool \<Rightarrow> bytes \<Rightarrow> nat \<Rightarrow> (unit + (media_stream_params \<times> nat)) option" where
  "read_video_stream flag raw idx = do {
     b \<leftarrow> mem_read raw idx VideoStreamDescription_size;
     m1 \<leftarrow> get_le b 0 2;
     m2 \<leftarrow> get_le b 52 2;
     if m1 \<noteq> NDNRTC_VSTREAMDESC_MRKR \<and> m2 \<noteq> NDNRTC_VSTREAMDESC_MRKR then Some (Inl ())
     else do {
       sz \<leftarrow> get_le b 2 4;
       name \<leftarrow> read_name b 6 MAX_STREAM_NAME_LENGTH;
       sync \<leftarrow> read_name b 27 MAX_STREAM_NAME_LENGTH;
       n \<leftarrow> get_le b 48 4;
       rbind (read_all (read_video_thread flag raw) n (idx + VideoStreamDescription_size)) (\<lambda>(ts, idx1).
         Some (Inr ((new_MediaStreamParams MediaStreamTypeVideo)\<lparr>msp_segmentSize := of_nat sz, msp_streamName := name,
           msp_synchronizedStreamName := sync, msp_mediaThreads := ts\<rparr>, idx1)))
     }
   }"

definition read_audio_stream :: "bytes \<Rightarrow> nat \<Rightarrow> (unit + (media_stream_params \<times> nat)) option" where
  "read_audio_stream raw idx = do {
     b \<leftarrow> mem_read raw idx AudioStreamDescription_size;
     m1 \<leftarrow> get_le b 0 2;
     m2 \<leftarrow> get_le b 31 2;
     if m1 \<noteq> NDNRTC_ASTREAMDESC_MRKR \<and> m2 \<noteq> NDNRTC_ASTREAMDESC_MRKR then Some (Inl ())
     else do {
       sz \<leftarrow> get_le b 2 4;
       name \<leftarrow> read_name b 6 MAX_STREAM_NAME_LENGTH;
       n \<leftarrow> get_le b 27 4;
       rbind (read_all (read_audio_thread raw) n (idx + AudioStreamDescription_size)) (\<lambda>(ts, idx1).
         Some (Inr ((new_MediaStreamParams MediaStreamTypeAudio)\<lparr>msp_segmentSize := of_nat sz, msp_streamName := name,
           msp_mediaThreads := ts\<rparr>, idx1)))
     }
   }"

text \<open>Everything up to the assertion at the end; the index says how far the description went.\<close>

definition read_session :: "bool \<Rightarrow> bytes \<Rightarrow> (unit + (session_info \<times> nat)) option" where
  "read_session flag raw = do {
     h \<leftarrow> mem_read raw 0 SessionInfoDataHeader_size;
     m1 \<leftarrow> get_le h 0 2; nVideo \<leftarrow> get_le h 2 4; nAudio \<leftarrow> get_le h 6 4; m2 \<leftarrow> get_le h 10 2;
     if m1 \<noteq> NDNRTC_SESSION_MRKR \<or> m2 \<noteq> NDNRTC_SESSION_MRKR \<or> SessionInfoDataHeader_size > length raw
     then Some (Inl ())
     else do {
       pre \<leftarrow> c_string raw SessionInfoDataHeader_size;
       rbind (read_all (read_video_stream flag raw) nVideo (SessionInfoDataHeader_size + (length pre + 1))) (\<lambda>(vs, idx1).
         rbind (read_all (read_audio_stream raw) nAudio idx1) (\<lambda>(as, idx2).
           Some (Inr (\<lparr>si_sessionPrefix = pre, si_audioStreams = as, si_videoStreams = vs\<rparr>, idx2))))
     }
   }"

definition Session_initFromRawData :: "bool \<Rightarrow> bytes \<Rightarrow> (unit + session_info) option" where
  "Session_initFromRawData flag raw =
     rbind (read_session flag raw) (\<lambda>(info, streamIdx). if streamIdx = length raw then Some (Inr info) else None)"

definition deserializeSessionInfo :: "bool \<Rightarrow> bytes \<Rightarrow> session_info \<Rightarrow> (bool \<times> session_info) option" where
  "deserializeSessionInfo flag raw sessionInfo =
     (case Session_initFromRawData flag raw of
        None \<Rightarrow> None
      | Some (Inl _) \<Rightarrow> Some (False, sessionInfo)
      | Some (Inr info) \<Rightarrow> Some (True, SessionInfo_copyFrom info))"

end
