(* ===== verification/Session_Properties.thy ===== *)
theory Session_Properties
  imports Session_Info
begin

text \<open>
  What a consumer gets of the session that a producer describes, and what happens when the description
  that arrives is not the whole one.
\<close>

section \<open>Writing and reading back\<close>

lemma mem_write_at:
  "length b \<le> length old \<Longrightarrow> mem_write (pre @ old) (length pre) b = Some (pre @ b @ drop (length b) old)"
  by (simp add: mem_write_def)

lemma mem_read_at: "length b = n \<Longrightarrow> mem_read (pre @ b @ rest) (length pre) n = Some b"
  by (simp add: mem_read_def)

text \<open>A step of the packing that writes \<open>n\<close> bytes at its index, from which the reader \<open>rd\<close> gets \<open>x\<close>.\<close>

definition appends ::
    "(nat \<Rightarrow> bytes \<Rightarrow> (nat \<times> bytes) option) \<Rightarrow> (bytes \<Rightarrow> nat \<Rightarrow> (unit + ('a \<times> nat)) option) \<Rightarrow> 'a \<Rightarrow> nat \<Rightarrow> bool" where
  "appends pack rd x n \<longleftrightarrow>
     (\<forall>pre old. n \<le> length old \<longrightarrow>
       (\<exists>w. length w = n \<and> pack (length pre) (pre @ old) = Some (length pre + n, pre @ w @ drop n old) \<and>
          (\<forall>rest. rd (pre @ w @ rest) (length pre) = Some (Inr (x, length pre + n)))))"

lemma appendsD:
  assumes "appends pack rd x n" "n \<le> length old"
  obtains w where "length w = n" "pack (length pre) (pre @ old) = Some (length pre + n, pre @ w @ drop n old)"
    "\<And>rest. rd (pre @ w @ rest) (length pre) = Some (Inr (x, length pre + n))"
  using assms unfolding appends_def by blast

lemma appends_nil: "appends (\<lambda>i d. Some (i, d)) (\<lambda>raw. read_all (rd raw) 0) [] 0"
  by (simp add: appends_def)

lemma appends_cons:
  assumes "appends p1 rd x m" "appends p2 (\<lambda>raw. read_all (rd raw) k) xs n"
  shows "appends (\<lambda>i d. Option.bind (p1 i d) (\<lambda>(j, e). p2 j e)) (\<lambda>raw. read_all (rd raw) (Suc k)) (x # xs) (m + n)"
  unfolding appends_def
proof (intro allI impI)
  fix pre old :: bytes assume l: "m + n \<le> length old"
  then have "m \<le> length old" by simp
  from appendsD [OF assms(1) this] obtain v where v: "length v = m"
    "p1 (length pre) (pre @ old) = Some (length pre + m, pre @ v @ drop m old)"
    "\<And>rest. rd (pre @ v @ rest) (length pre) = Some (Inr (x, length pre + m))" by blast
  have "n \<le> length (drop m old)" using l by simp
  from appendsD [OF assms(2) this] obtain w where w: "length w = n"
    "p2 (length (pre @ v)) ((pre @ v) @ drop m old) = Some (length (pre @ v) + n, (pre @ v) @ w @ drop n (drop m old))"
    "\<And>rest. read_all (rd ((pre @ v) @ w @ rest)) k (length (pre @ v)) = Some (Inr (xs, length (pre @ v) + n))" by blast
  have "read_all (rd (pre @ (v @ w) @ rest)) (Suc k) (length pre) = Some (Inr (x # xs, length pre + (m + n)))" for rest
    using v(3) [of "w @ rest"] w(3) [of rest] v(1) by (simp add: add.assoc)
  moreover have "Option.bind (p1 (length pre) (pre @ old)) (\<lambda>(j, e). p2 j e) =
      Some (length pre + (m + n), pre @ (v @ w) @ drop (m + n) old)"
    using v(2) w(2) v(1) by (simp add: add.assoc add.commute)
  ultimately show "\<exists>w. length w = m + n \<and>
      Option.bind (p1 (length pre) (pre @ old)) (\<lambda>(j, e). p2 j e) = Some (length pre + (m + n), pre @ w @ drop (m + n) old) \<and>
      (\<forall>rest. read_all (rd (pre @ w @ rest)) (Suc k) (length pre) = Some (Inr (x # xs, length pre + (m + n))))"
    using v(1) w(1) by (intro exI [of _ "v @ w"]) simp
qed

text \<open>A structure that is written with one copy.\<close>

lemma appends_copy:
  assumes "\<And>i. \<exists>b. describe i = Some b \<and> length b = n \<and>
    (\<forall>pre rest. rd (pre @ b @ rest) (length pre) = Some (Inr (x, length pre + n)))"
  shows "appends (\<lambda>i d. Option.bind (describe i) (\<lambda>b. Option.bind (mem_write d i b) (\<lambda>e. Some (i + length b, e)))) rd x n"
  unfolding appends_def
proof (intro allI impI)
  fix pre old :: bytes assume l: "n \<le> length old"
  obtain b where b: "describe (length pre) = Some b" "length b = n"
    "\<And>rest. rd (pre @ b @ rest) (length pre) = Some (Inr (x, length pre + n))"
    using assms [of "length pre"] by blast
  with mem_write_at [of b old pre] l show "\<exists>w. length w = n \<and>
      Option.bind (describe (length pre)) (\<lambda>b. Option.bind (mem_write (pre @ old) (length pre) b) (\<lambda>e. Some (length pre + length b, e))) =
        Some (length pre + n, pre @ w @ drop n old) \<and>
      (\<forall>rest. rd (pre @ w @ rest) (length pre) = Some (Inr (x, length pre + n)))"
    by (intro exI [of _ b]) simp
qed

lemma appends_threads:
  assumes "\<And>t. t \<in> set ts \<Longrightarrow> \<forall>i. \<exists>b. describe i t = Some b \<and> length b = n \<and>
    (\<forall>pre rest. rd (pre @ b @ rest) (length pre) = Some (Inr (f t, length pre + n)))"
  shows "appends (pack_threads describe ts) (\<lambda>raw. read_all (rd raw) (length ts)) (map f ts) (n * length ts)"
  using assms
proof (induction ts)
  case Nil
  have "pack_threads describe [] = (\<lambda>i d. Some (i, d))" by (intro ext) simp
  with appends_nil [of rd] show ?case by (simp only: list.size list.map mult_0_right)
next
  case (Cons t ts)
  let ?p = "\<lambda>i d. Option.bind (describe i t) (\<lambda>b. Option.bind (mem_write d i b) (\<lambda>e. Some (i + length b, e)))"
  have "appends ?p rd (f t) n" using Cons.prems by (intro appends_copy) simp
  moreover have "appends (pack_threads describe ts) (\<lambda>raw. read_all (rd raw) (length ts)) (map f ts) (n * length ts)"
    using Cons.IH Cons.prems by simp
  ultimately have "appends (\<lambda>i d. Option.bind (?p i d) (\<lambda>(j, e). pack_threads describe ts j e))
      (\<lambda>raw. read_all (rd raw) (Suc (length ts))) (f t # map f ts) (n + n * length ts)"
    by (rule appends_cons)
  moreover have "pack_threads describe (t # ts) = (\<lambda>i d. Option.bind (?p i d) (\<lambda>(j, e). pack_threads describe ts j e))"
    by (intro ext) simp
  ultimately show ?case by (simp only: list.size list.map mult_Suc_right add_0_right add_Suc_right)
qed

section \<open>Names\<close>

definition good_name :: "string \<Rightarrow> bool" where
  "good_name s \<longleftrightarrow> length s \<le> 20 \<and> NUL \<notin> set s"

definition name_field :: "string \<Rightarrow> bytes" where
  "name_field s = s @ replicate (21 - length s) NUL"

lemma takeWhile_name: "NUL \<notin> set s \<Longrightarrow> takeWhile (\<lambda>x. x \<noteq> NUL) (s @ NUL # r) = s"
  by (induction s) auto

lemma name_array_good: "good_name s \<Longrightarrow> name_array 20 s = Some (name_field s)"
proof -
  assume g: "good_name s"
  then have t: "takeWhile (\<lambda>x. x \<noteq> NUL) s = s" by (auto simp: good_name_def takeWhile_eq_all_conv)
  show ?thesis unfolding name_array_def t Let_def using g by (simp add: good_name_def name_field_def)
qed

lemma length_name_field: "good_name s \<Longrightarrow> length (name_field s) = 21"
  by (simp add: good_name_def name_field_def)

lemma read_name_field:
  assumes "good_name s" "length pre = off" shows "read_name (pre @ name_field s @ post) off 20 = Some s"
proof -
  have l: "length (name_field s) = 20 + 1" using length_name_field [OF assms(1)] by simp
  have r: "mem_read (pre @ name_field s @ post) off (20 + 1) = Some (name_field s)"
    using mem_read_at [OF l, of pre post] assms(2) by simp
  obtain k where "21 - length s = Suc k" using assms(1) by (auto simp: good_name_def intro: that [of "20 - length s"])
  then have "name_field s = s @ NUL # replicate k NUL" by (simp add: name_field_def)
  then have "c_string (name_field s) 0 = Some s"
    using takeWhile_name assms(1) by (simp add: c_string_def good_name_def)
  with r show ?thesis by (simp only: read_name_def Option.bind.simps)
qed

section \<open>Threads\<close>

text \<open>What is delivered: the producer's maximum bitrate is not sent, nor its choice to drop frames.\<close>

fun delivered_thread :: "bool \<Rightarrow> media_thread_params \<Rightarrow> media_thread_params" where
  "delivered_thread flag (AudioThreadParams n) = AudioThreadParams n"
| "delivered_thread flag (VideoThreadParams n c g) =
     VideoThreadParams n (c\<lparr>vc_maxBitrate := 0, vc_dropFramesOn := flag\<rparr>) g"

lemma le_fields:
  "of_nat (unat (v :: u32) mod 256 ^ 4) = v" "of_nat (unat (w :: u64) mod 256 ^ 8) = w"
  by (simp_all add: u32_le_roundtrip u64_le_roundtrip)

lemma get_le_name: "good_name s \<Longrightarrow> 21 \<le> off \<Longrightarrow> get_le (name_field s @ xs) off w = get_le xs (off - 21) w"
  by (simp add: get_le_skip length_name_field)

lemma video_thread_described:
  assumes "good_name n"
  shows "\<exists>b. video_thread_description (VideoThreadParams n c g) = Some b \<and> length b = 81 \<and>
    (\<forall>pre rest. read_video_thread flag (pre @ b @ rest) (length pre) =
       Some (Inr (delivered_thread flag (VideoThreadParams n c g), length pre + 81)))"
proof -
  let ?h = "le_bytes 2 NDNRTC_VTHREADDESC_MRKR @ le_bytes 8 (unat (vc_codecFrameRate c)) @
    le_bytes 4 (unat (vc_gop c)) @ le_bytes 4 (unat (vc_startBitrate c)) @
    le_bytes 4 (unat (vc_encodeWidth c)) @ le_bytes 4 (unat (vc_encodeHeight c)) @
    le_bytes 8 (unat (sg_deltaAvgSegNum g)) @ le_bytes 8 (unat (sg_deltaAvgParitySegNum g)) @
    le_bytes 8 (unat (sg_keyAvgSegNum g)) @ le_bytes 8 (unat (sg_keyAvgParitySegNum g))"
  let ?b = "?h @ name_field n @ le_bytes 2 NDNRTC_VTHREADDESC_MRKR"
  have d: "video_thread_description (VideoThreadParams n c g) = Some ?b"
    using name_array_good [OF assms] by (simp add: video_thread_description_def MAX_THREAD_NAME_LENGTH_def)
  have l: "length ?b = 81" by (simp add: length_name_field [OF assms])
  have nm: "read_name ?b 58 20 = Some n" by (rule read_name_field [OF assms]) simp
  have f: "get_le ?b 0 2 = Some (NDNRTC_VTHREADDESC_MRKR mod 256 ^ 2)" "get_le ?b 79 2 = Some (NDNRTC_VTHREADDESC_MRKR mod 256 ^ 2)"
    "get_le ?b 2 8 = Some (unat (vc_codecFrameRate c) mod 256 ^ 8)" "get_le ?b 10 4 = Some (unat (vc_gop c) mod 256 ^ 4)"
    "get_le ?b 14 4 = Some (unat (vc_startBitrate c) mod 256 ^ 4)" "get_le ?b 18 4 = Some (unat (vc_encodeWidth c) mod 256 ^ 4)"
    "get_le ?b 22 4 = Some (unat (vc_encodeHeight c) mod 256 ^ 4)"
    "get_le ?b 26 8 = Some (unat (sg_deltaAvgSegNum g) mod 256 ^ 8)" "get_le ?b 34 8 = Some (unat (sg_deltaAvgParitySegNum g) mod 256 ^ 8)"
    "get_le ?b 42 8 = Some (unat (sg_keyAvgSegNum g) mod 256 ^ 8)" "get_le ?b 50 8 = Some (unat (sg_keyAvgParitySegNum g) mod 256 ^ 8)"
    using get_le_Nil [of 2 NDNRTC_VTHREADDESC_MRKR "[]"]
    by (simp_all add: get_le_Nil get_le_skip get_le_name [OF assms])
  have "read_video_thread flag (pre @ ?b @ rest) (length pre) =
      Some (Inr (delivered_thread flag (VideoThreadParams n c g), length pre + 81))" for pre rest
    unfolding read_video_thread_def VideoThreadDescription_size_def MAX_THREAD_NAME_LENGTH_def mem_read_at [OF l]
      Option.bind.simps f nm le_fields
    by (simp add: NDNRTC_VTHREADDESC_MRKR_def)
  with d l show ?thesis by blast
qed

lemma audio_thread_described:
  assumes "good_name n"
  shows "\<exists>b. audio_thread_description rate (AudioThreadParams n) = Some b \<and> length b = 33 \<and>
    (\<forall>pre rest. read_audio_thread (pre @ b @ rest) (length pre) = Some (Inr (AudioThreadParams n, length pre + 33)))"
proof -
  let ?b = "(le_bytes 2 NDNRTC_ATHREADDESC_MRKR @ le_bytes 8 (unat rate)) @ name_field n @ le_bytes 2 NDNRTC_ATHREADDESC_MRKR"
  have d: "audio_thread_description rate (AudioThreadParams n) = Some ?b"
    using name_array_good [OF assms] by (simp add: audio_thread_description_def MAX_THREAD_NAME_LENGTH_def)
  have l: "length ?b = 33" by (simp add: length_name_field [OF assms])
  have nm: "read_name ?b 10 20 = Some n" by (rule read_name_field [OF assms]) simp
  have f: "get_le ?b 0 2 = Some (NDNRTC_ATHREADDESC_MRKR mod 256 ^ 2)" "get_le ?b 31 2 = Some (NDNRTC_ATHREADDESC_MRKR mod 256 ^ 2)"
    using get_le_Nil [of 2 NDNRTC_ATHREADDESC_MRKR "[]"]
    by (simp_all add: get_le_Nil get_le_skip get_le_name [OF assms])
  have "read_audio_thread (pre @ ?b @ rest) (length pre) = Some (Inr (AudioThreadParams n, length pre + 33))" for pre rest
    unfolding read_audio_thread_def AudioThreadDescription_size_def MAX_THREAD_NAME_LENGTH_def mem_read_at [OF l]
      Option.bind.simps f nm
    by (simp add: NDNRTC_ATHREADDESC_MRKR_def)
  with d l show ?thesis by blast
qed

section \<open>Streams\<close>

lemma appends_described:
  assumes "describe p = Some b" "length b = m"
    and "appends (pack_threads dt ts) (\<lambda>raw. read_all (rt raw) (length ts)) xs n"
    and "\<And>pre rest. rd (pre @ b @ rest) (length pre) =
      rbind (read_all (rt (pre @ b @ rest)) (length ts) (length pre + m)) (\<lambda>(ys, j). Some (Inr (mk ys, j)))"
  shows "appends (\<lambda>i d. Option.bind (describe p) (\<lambda>b. Option.bind (mem_write d i b) (\<lambda>e. pack_threads dt ts (i + length b) e)))
    rd (mk xs) (m + n)"
  unfolding appends_def
proof (intro allI impI)
  fix pre old :: bytes assume l: "m + n \<le> length old"
  then have wr: "mem_write (pre @ old) (length pre) b = Some ((pre @ b) @ drop m old)"
    using mem_write_at [of b old pre] assms(2) by simp
  have "n \<le> length (drop m old)" using l by simp
  from appendsD [OF assms(3) this] obtain w where w: "length w = n"
    "pack_threads dt ts (length (pre @ b)) ((pre @ b) @ drop m old) =
      Some (length (pre @ b) + n, (pre @ b) @ w @ drop n (drop m old))"
    "\<And>rest. read_all (rt ((pre @ b) @ w @ rest)) (length ts) (length (pre @ b)) = Some (Inr (xs, length (pre @ b) + n))"
    by blast
  have "rd (pre @ (b @ w) @ rest) (length pre) = Some (Inr (mk xs, length pre + (m + n)))" for rest
    using assms(4) [of pre "w @ rest"] w(3) [of rest] assms(2) by (simp add: add.assoc)
  moreover have "Option.bind (describe p) (\<lambda>b. Option.bind (mem_write (pre @ old) (length pre) b)
      (\<lambda>e. pack_threads dt ts (length pre + length b) e)) =
      Some (length pre + (m + n), pre @ (b @ w) @ drop (m + n) old)"
    using assms(1,2) wr w(2) by (simp add: add.assoc add.commute)
  ultimately show "\<exists>w. length w = m + n \<and>
      Option.bind (describe p) (\<lambda>b. Option.bind (mem_write (pre @ old) (length pre) b)
        (\<lambda>e. pack_threads dt ts (length pre + length b) e)) = Some (length pre + (m + n), pre @ w @ drop (m + n) old) \<and>
      (\<forall>rest. rd (pre @ w @ rest) (length pre) = Some (Inr (mk xs, length pre + (m + n))))"
    using assms(2) w(1) by (intro exI [of _ "b @ w"]) simp
qed

lemma appends_streams:
  assumes "\<And>p. p \<in> set ps \<Longrightarrow>
    appends (\<lambda>i d. Option.bind (describe p) (\<lambda>b. Option.bind (mem_write d i b)
      (\<lambda>e. pack_threads dt (msp_mediaThreads p) (i + length b) e))) rd (f p) (m + k * length (msp_mediaThreads p))"
  shows "appends (pack_streams describe dt ps) (\<lambda>raw. read_all (rd raw) (length ps)) (map f ps)
    (m * length ps + sum_list (map (\<lambda>p. k * length (msp_mediaThreads p)) ps))"
  using assms
proof (induction ps)
  case Nil
  have "pack_streams describe dt [] = (\<lambda>i d. Some (i, d))" by (intro ext) simp
  with appends_nil [of rd] show ?case by (simp only: list.size list.map mult_0_right sum_list.Nil add_0_right)
next
  case (Cons p ps)
  let ?p = "\<lambda>i d. Option.bind (describe p) (\<lambda>b. Option.bind (mem_write d i b)
    (\<lambda>e. pack_threads dt (msp_mediaThreads p) (i + length b) e))"
  let ?n = "m * length ps + sum_list (map (\<lambda>p. k * length (msp_mediaThreads p)) ps)"
  have "appends ?p rd (f p) (m + k * length (msp_mediaThreads p))" using Cons.prems by simp
  moreover have "appends (pack_streams describe dt ps) (\<lambda>raw. read_all (rd raw) (length ps)) (map f ps) ?n"
    using Cons.IH Cons.prems by simp
  ultimately have "appends (\<lambda>i d. Option.bind (?p i d) (\<lambda>(j, e). pack_streams describe dt ps j e))
      (\<lambda>raw. read_all (rd raw) (Suc (length ps))) (f p # map f ps) (m + k * length (msp_mediaThreads p) + ?n)"
    by (rule appends_cons)
  moreover have "pack_streams describe dt (p # ps) = (\<lambda>i d. Option.bind (?p i d) (\<lambda>(j, e). pack_streams describe dt ps j e))"
    by (intro ext) (simp add: bind_assoc)
  moreover have "m + k * length (msp_mediaThreads p) + ?n =
      m * length (p # ps) + sum_list (map (\<lambda>p. k * length (msp_mediaThreads p)) (p # ps))"
    by simp
  ultimately show ?case by (simp only: list.size list.map add_0_right add_Suc_right)
qed

text \<open>What is delivered of a stream: neither the freshness of its data nor the stream it is synchronised
  with nor the device.\<close>

definition delivered_stream :: "bool \<Rightarrow> media_stream_type \<Rightarrow> media_stream_params \<Rightarrow> media_stream_params" where
  "delivered_stream flag t p =
     \<lparr>msp_segmentSize = msp_segmentSize p, msp_freshnessMs = 0, msp_streamName = msp_streamName p,
      msp_synchronizedStreamName = [], msp_captureDevice = None,
      msp_mediaThreads = map (delivered_thread flag) (msp_mediaThreads p), msp_type = t\<rparr>"

fun is_video_thread :: "media_thread_params \<Rightarrow> bool" where
  "is_video_thread (AudioThreadParams _) = False"
| "is_video_thread (VideoThreadParams _ _ _) = True"

definition good_stream :: "bool \<Rightarrow> media_stream_params \<Rightarrow> bool" where
  "good_stream video p \<longleftrightarrow>
     good_name (msp_streamName p) \<and> length (msp_mediaThreads p) < 2 ^ 31 \<and>
     (\<forall>t \<in> set (msp_mediaThreads p). good_name (mtp_threadName t) \<and> is_video_thread t = video)"

lemma MediaStreamParams_copy_fields:
  "msp_segmentSize (MediaStreamParams_copy p) = msp_segmentSize p"
  "msp_streamName (MediaStreamParams_copy p) = msp_streamName p"
  "msp_synchronizedStreamName (MediaStreamParams_copy p) = []"
  "msp_mediaThreads (MediaStreamParams_copy p) = msp_mediaThreads p"
  by (simp_all add: MediaStreamParams_copy_def MediaStreamParams_copyFrom_def new_MediaStreamParams_def Let_def split: option.split)

lemma copy_delivered_stream: "MediaStreamParams_copy (delivered_stream flag t p) = delivered_stream flag t p"
  by (simp add: MediaStreamParams_copy_def MediaStreamParams_copyFrom_def new_MediaStreamParams_def delivered_stream_def)

lemma good_name_empty: "good_name []"
  by (simp add: good_name_def)

lemma video_threads_appended:
  assumes "good_stream True p"
  shows "appends (pack_threads (\<lambda>_. video_thread_description) (msp_mediaThreads p))
    (\<lambda>raw. read_all (read_video_thread flag raw) (length (msp_mediaThreads p)))
    (map (delivered_thread flag) (msp_mediaThreads p)) (81 * length (msp_mediaThreads p))"
proof (rule appends_threads)
  fix t assume "t \<in> set (msp_mediaThreads p)"
  then have t: "good_name (mtp_threadName t)" "is_video_thread t" using assms by (simp_all add: good_stream_def)
  then obtain n c g where "t = VideoThreadParams n c g" by (cases t) auto
  with t video_thread_described [of n c g flag] show "\<forall>i. \<exists>b. video_thread_description t = Some b \<and> length b = 81 \<and>
      (\<forall>pre rest. read_video_thread flag (pre @ b @ rest) (length pre) = Some (Inr (delivered_thread flag t, length pre + 81)))"
    by simp
qed

lemma audio_threads_appended:
  assumes "good_stream False p"
  shows "appends (pack_threads (\<lambda>i. audio_thread_description (junk i)) (msp_mediaThreads p))
    (\<lambda>raw. read_all (read_audio_thread raw) (length (msp_mediaThreads p)))
    (map (delivered_thread flag) (msp_mediaThreads p)) (33 * length (msp_mediaThreads p))"
proof (rule appends_threads)
  fix t assume "t \<in> set (msp_mediaThreads p)"
  then have t: "good_name (mtp_threadName t)" "\<not> is_video_thread t" using assms by (simp_all add: good_stream_def)
  then obtain n where "t = AudioThreadParams n" by (cases t) auto
  with t audio_thread_described [of n] show "\<forall>i. \<exists>b. audio_thread_description (junk i) t = Some b \<and> length b = 33 \<and>
      (\<forall>pre rest. read_audio_thread (pre @ b @ rest) (length pre) = Some (Inr (delivered_thread flag t, length pre + 33)))"
    by simp
qed

lemma video_stream_appended:
  assumes g: "good_stream True p"
  defines "q \<equiv> MediaStreamParams_copy p"
  shows "appends (\<lambda>i d. Option.bind (video_stream_description q) (\<lambda>b. Option.bind (mem_write d i b)
      (\<lambda>e. pack_threads (\<lambda>_. video_thread_description) (msp_mediaThreads q) (i + length b) e)))
    (read_video_stream flag) (delivered_stream flag MediaStreamTypeVideo p) (54 + 81 * length (msp_mediaThreads q))"
proof -
  let ?k = "length (msp_mediaThreads p)"
  have n: "good_name (msp_streamName p)" and k: "?k mod 256 ^ 4 = ?k" using g by (simp_all add: good_stream_def)
  let ?b = "(le_bytes 2 NDNRTC_VSTREAMDESC_MRKR @ le_bytes 4 (unat (msp_segmentSize p))) @ name_field (msp_streamName p) @
    name_field [] @ le_bytes 4 ?k @ le_bytes 2 NDNRTC_VSTREAMDESC_MRKR"
  have d: "video_stream_description q = Some ?b"
    using name_array_good [OF n] name_array_good [OF good_name_empty]
    by (simp add: q_def video_stream_description_def MediaStreamParams_copy_fields MAX_STREAM_NAME_LENGTH_def)
  have l: "length ?b = 54" by (simp add: length_name_field n good_name_empty)
  have s: "read_name ?b 27 20 = Some []"
    using read_name_field [OF good_name_empty, of "(le_bytes 2 NDNRTC_VSTREAMDESC_MRKR @ le_bytes 4 (unat (msp_segmentSize p))) @ name_field (msp_streamName p)" 27]
    by (simp add: length_name_field n)
  have nm: "read_name ?b 6 20 = Some (msp_streamName p)" by (rule read_name_field [OF n]) simp
  have f: "get_le ?b 0 2 = Some (NDNRTC_VSTREAMDESC_MRKR mod 256 ^ 2)" "get_le ?b 52 2 = Some (NDNRTC_VSTREAMDESC_MRKR mod 256 ^ 2)"
    "get_le ?b 2 4 = Some (unat (msp_segmentSize p) mod 256 ^ 4)" "get_le ?b 48 4 = Some ?k"
    using get_le_Nil [of 2 NDNRTC_VSTREAMDESC_MRKR "[]"] k
    by (simp_all add: get_le_Nil get_le_skip get_le_name [OF n] get_le_name [OF good_name_empty])
  let ?mk = "\<lambda>ts. (new_MediaStreamParams MediaStreamTypeVideo)\<lparr>msp_segmentSize := msp_segmentSize p,
    msp_streamName := msp_streamName p, msp_synchronizedStreamName := [], msp_mediaThreads := ts\<rparr>"
  have rd: "read_video_stream flag (pre @ ?b @ rest) (length pre) =
      rbind (read_all (read_video_thread flag (pre @ ?b @ rest)) ?k (length pre + 54)) (\<lambda>(ys, j). Some (Inr (?mk ys, j)))"
    for pre rest
    unfolding read_video_stream_def VideoStreamDescription_size_def MAX_STREAM_NAME_LENGTH_def mem_read_at [OF l]
      Option.bind.simps f nm s le_fields
    by (simp add: NDNRTC_VSTREAMDESC_MRKR_def)
  have m: "?mk (map (delivered_thread flag) (msp_mediaThreads p)) = delivered_stream flag MediaStreamTypeVideo p"
    by (simp add: new_MediaStreamParams_def delivered_stream_def)
  have t: "msp_mediaThreads q = msp_mediaThreads p" by (simp add: q_def MediaStreamParams_copy_fields)
  show ?thesis unfolding t m [symmetric] 
    by (rule appends_described [where mk = ?mk and rt = "read_video_thread flag" and describe = video_stream_description,
        OF d l video_threads_appended [OF g] rd])
qed

lemma audio_stream_appended:
  assumes g: "good_stream False p"
  defines "q \<equiv> MediaStreamParams_copy p"
  shows "appends (\<lambda>i d. Option.bind (audio_stream_description q) (\<lambda>b. Option.bind (mem_write d i b)
      (\<lambda>e. pack_threads (\<lambda>i. audio_thread_description (junk i)) (msp_mediaThreads q) (i + length b) e)))
    read_audio_stream (delivered_stream flag MediaStreamTypeAudio p) (33 + 33 * length (msp_mediaThreads q))"
proof -
  let ?k = "length (msp_mediaThreads p)"
  have n: "good_name (msp_streamName p)" and k: "?k mod 256 ^ 4 = ?k" using g by (simp_all add: good_stream_def)
  let ?b = "(le_bytes 2 NDNRTC_ASTREAMDESC_MRKR @ le_bytes 4 (unat (msp_segmentSize p))) @ name_field (msp_streamName p) @
    le_bytes 4 ?k @ le_bytes 2 NDNRTC_ASTREAMDESC_MRKR"
  have d: "audio_stream_description q = Some ?b"
    using name_array_good [OF n]
    by (simp add: q_def audio_stream_description_def MediaStreamParams_copy_fields MAX_STREAM_NAME_LENGTH_def)
  have l: "length ?b = 33" by (simp add: length_name_field n)
  have nm: "read_name ?b 6 20 = Some (msp_streamName p)" by (rule read_name_field [OF n]) simp
  have f: "get_le ?b 0 2 = Some (NDNRTC_ASTREAMDESC_MRKR mod 256 ^ 2)" "get_le ?b 31 2 = Some (NDNRTC_ASTREAMDESC_MRKR mod 256 ^ 2)"
    "get_le ?b 2 4 = Some (unat (msp_segmentSize p) mod 256 ^ 4)" "get_le ?b 27 4 = Some ?k"
    using get_le_Nil [of 2 NDNRTC_ASTREAMDESC_MRKR "[]"] k
    by (simp_all add: get_le_Nil get_le_skip get_le_name [OF n])
  let ?mk = "\<lambda>ts. (new_MediaStreamParams MediaStreamTypeAudio)\<lparr>msp_segmentSize := msp_segmentSize p,
    msp_streamName := msp_streamName p, msp_mediaThreads := ts\<rparr>"
  have rd: "read_audio_stream (pre @ ?b @ rest) (length pre) =
      rbind (read_all (read_audio_thread (pre @ ?b @ rest)) ?k (length pre + 33)) (\<lambda>(ys, j). Some (Inr (?mk ys, j)))"
    for pre rest
    unfolding read_audio_stream_def AudioStreamDescription_size_def MAX_STREAM_NAME_LENGTH_def mem_read_at [OF l]
      Option.bind.simps f nm le_fields
    by (simp add: NDNRTC_ASTREAMDESC_MRKR_def)
  have m: "?mk (map (delivered_thread flag) (msp_mediaThreads p)) = delivered_stream flag MediaStreamTypeAudio p"
    by (simp add: new_MediaStreamParams_def delivered_stream_def)
  have t: "msp_mediaThreads q = msp_mediaThreads p" by (simp add: q_def MediaStreamParams_copy_fields)
  show ?thesis unfolding t m [symmetric]
    by (rule appends_described [where mk = ?mk and rt = read_audio_thread and describe = audio_stream_description,
        OF d l audio_threads_appended [OF g] rd])
qed

lemma delivered_copy: "delivered_stream flag t (MediaStreamParams_copy p) = delivered_stream flag t p"
  by (simp add: delivered_stream_def MediaStreamParams_copy_fields)

lemma copies_appended:
  assumes "\<And>p. p \<in> set ps \<Longrightarrow>
    appends (\<lambda>i d. Option.bind (describe (MediaStreamParams_copy p)) (\<lambda>b. Option.bind (mem_write d i b)
      (\<lambda>e. pack_threads dt (msp_mediaThreads (MediaStreamParams_copy p)) (i + length b) e)))
    rd (delivered_stream flag t p) (m + k * length (msp_mediaThreads (MediaStreamParams_copy p)))"
  shows "appends (pack_streams describe dt (map MediaStreamParams_copy ps)) (\<lambda>raw. read_all (rd raw) (length ps))
    (map (delivered_stream flag t) ps) (m * length ps + sum_list (map (\<lambda>p. k * length (msp_mediaThreads p)) ps))"
proof -
  let ?cs = "map MediaStreamParams_copy ps"
  have "appends (pack_streams describe dt ?cs) (\<lambda>raw. read_all (rd raw) (length ?cs))
      (map (delivered_stream flag t) ?cs) (m * length ?cs + sum_list (map (\<lambda>p. k * length (msp_mediaThreads p)) ?cs))"
    using assms by (intro appends_streams) (auto simp: delivered_copy)
  then show ?thesis by (simp add: comp_def delivered_copy MediaStreamParams_copy_fields)
qed

lemma video_streams_appended:
  assumes "\<And>p. p \<in> set ps \<Longrightarrow> good_stream True p"
  shows "appends (pack_streams video_stream_description (\<lambda>_. video_thread_description) (map MediaStreamParams_copy ps))
    (\<lambda>raw. read_all (read_video_stream flag raw) (length ps)) (map (delivered_stream flag MediaStreamTypeVideo) ps)
    (54 * length ps + sum_list (map (\<lambda>p. 81 * length (msp_mediaThreads p)) ps))"
  using video_stream_appended [OF assms] by (intro copies_appended) simp

lemma audio_streams_appended:
  assumes "\<And>p. p \<in> set ps \<Longrightarrow> good_stream False p"
  shows "appends (pack_streams audio_stream_description (\<lambda>i. audio_thread_description (junk i)) (map MediaStreamParams_copy ps))
    (\<lambda>raw. read_all (read_audio_stream raw) (length ps)) (map (delivered_stream flag MediaStreamTypeAudio) ps)
    (33 * length ps + sum_list (map (\<lambda>p. 33 * length (msp_mediaThreads p)) ps))"
  using audio_stream_appended [OF assms] by (intro copies_appended) simp

section \<open>Sessions\<close>

definition good_session :: "session_info \<Rightarrow> bool" where
  "good_session info \<longleftrightarrow>
     NUL \<notin> set (si_sessionPrefix info) \<and> session_length info < 2 ^ 31 \<and>
     (\<forall>p \<in> set (si_videoStreams info). good_stream True p) \<and> (\<forall>p \<in> set (si_audioStreams info). good_stream False p)"

definition delivered_session :: "bool \<Rightarrow> session_info \<Rightarrow> session_info" where
  "delivered_session flag info =
     \<lparr>si_sessionPrefix = si_sessionPrefix info,
      si_audioStreams = map (delivered_stream flag MediaStreamTypeAudio) (si_audioStreams info),
      si_videoStreams = map (delivered_stream flag MediaStreamTypeVideo) (si_videoStreams info)\<rparr>"

lemma session_length_copy: "session_length (SessionInfo_copyFrom info) = session_length info"
  by (simp add: session_length_def SessionInfo_copyFrom_def comp_def MediaStreamParams_copy_fields)

lemma copy_delivered_session: "SessionInfo_copyFrom (delivered_session flag info) = delivered_session flag info"
  by (simp add: SessionInfo_copyFrom_def delivered_session_def comp_def copy_delivered_stream)

lemma length_session_header: "length (session_header info) = 12"
  by (simp add: session_header_def)

lemma session_header_fields:
  assumes "length (si_videoStreams info) < 2 ^ 31" "length (si_audioStreams info) < 2 ^ 31"
  shows "get_le (session_header info) 0 2 = Some NDNRTC_SESSION_MRKR"
    "get_le (session_header info) 2 4 = Some (length (si_videoStreams info))"
    "get_le (session_header info) 6 4 = Some (length (si_audioStreams info))"
    "get_le (session_header info) 10 2 = Some NDNRTC_SESSION_MRKR"
  using assms get_le_Nil [of 2 NDNRTC_SESSION_MRKR "[]"]
  by (simp_all add: session_header_def get_le_Nil get_le_skip NDNRTC_SESSION_MRKR_def)

lemma start_written:
  assumes "length h = 12" "length d = 12 + length p + 1 + n"
  obtains old d1 d2 where "length old = n" "mem_write d 0 h = Some d1" "mem_write d1 12 p = Some d2"
    "mem_write d2 (12 + length p) [NUL] = Some ((h @ p @ [NUL]) @ old)"
proof
  show "length (drop 1 (drop (length p) (drop 12 d))) = n" using assms by simp
  show "mem_write d 0 h = Some (h @ drop 12 d)" using mem_write_at [of h d "[]"] assms by simp
  show "mem_write (h @ drop 12 d) 12 p = Some (h @ p @ drop (length p) (drop 12 d))"
    using mem_write_at [of p "drop 12 d" h] assms by simp
  show "mem_write (h @ p @ drop (length p) (drop 12 d)) (12 + length p) [NUL] =
      Some ((h @ p @ [NUL]) @ drop 1 (drop (length p) (drop 12 d)))"
    using mem_write_at [of "[NUL]" "drop (length p) (drop 12 d)" "h @ p"] assms by simp
qed

lemma session_start_read:
  assumes "good_session info"
  defines "h \<equiv> session_header info @ si_sessionPrefix info @ [NUL]"
  shows "read_session flag (h @ body) =
    rbind (read_all (read_video_stream flag (h @ body)) (length (si_videoStreams info)) (length h)) (\<lambda>(vs, i).
      rbind (read_all (read_audio_stream (h @ body)) (length (si_audioStreams info)) i) (\<lambda>(as, j).
        Some (Inr (\<lparr>si_sessionPrefix = si_sessionPrefix info, si_audioStreams = as, si_videoStreams = vs\<rparr>, j))))"
proof -
  have p: "NUL \<notin> set (si_sessionPrefix info)" and b: "length (si_videoStreams info) < 2 ^ 31" "length (si_audioStreams info) < 2 ^ 31"
    using assms by (auto simp: good_session_def session_length_def description_sizes)
  have r: "mem_read (h @ body) 0 12 = Some (session_header info)"
    using mem_read_at [OF length_session_header, of "[]"] by (simp add: h_def)
  have c: "c_string (h @ body) 12 = Some (si_sessionPrefix info)"
    using takeWhile_name [OF p, of body] by (simp add: c_string_def h_def length_session_header)
  have l: "12 + (length (si_sessionPrefix info) + 1) = length h" by (simp add: h_def length_session_header)
  have "\<not> 12 > length (h @ body)" by (simp add: h_def length_session_header)
  then show ?thesis
    unfolding read_session_def SessionInfoDataHeader_size_def r Option.bind.simps session_header_fields [OF b] c l
    by simp
qed

lemma session_packed:
  assumes g: "good_session info" and m: "\<And>n. length (malloc n) = n"
  obtains raw where "serializeSessionInfo malloc junk info = Some raw" "length raw = session_length info"
    "\<And>rest. read_session flag (raw @ rest) = Some (Inr (delivered_session flag info, length raw))"
proof -
  let ?vs = "si_videoStreams info" and ?as = "si_audioStreams info" and ?c = "SessionInfo_copyFrom info"
  let ?h = "session_header info @ si_sessionPrefix info @ [NUL]"
  let ?V = "54 * length ?vs + sum_list (map (\<lambda>p. 81 * length (msp_mediaThreads p)) ?vs)"
  let ?A = "33 * length ?as + sum_list (map (\<lambda>p. 33 * length (msp_mediaThreads p)) ?as)"
  have len: "session_length info = 12 + length (si_sessionPrefix info) + 1 + (?V + ?A)"
    by (simp add: session_length_def description_sizes)
  have small: "getSessionInfoLength ?c = session_length info" "session_length info < 2 ^ 31"
    using g by (simp_all add: getSessionInfoLength_def session_length_copy good_session_def)
  have "length (malloc (session_length info)) = 12 + length (si_sessionPrefix info) + 1 + (?V + ?A)" using m len by simp
  from start_written [OF length_session_header this] obtain old d1 d2 where s: "length old = ?V + ?A"
    "mem_write (malloc (session_length info)) 0 (session_header info) = Some d1"
    "mem_write d1 12 (si_sessionPrefix info) = Some d2"
    "mem_write d2 (12 + length (si_sessionPrefix info)) [NUL] = Some (?h @ old)" by blast
  have "?V \<le> length old" using s by simp
  from appendsD [OF video_streams_appended this] obtain v where v: "length v = ?V"
    "pack_streams video_stream_description (\<lambda>_. video_thread_description) (map MediaStreamParams_copy ?vs)
       (length ?h) (?h @ old) = Some (length ?h + ?V, ?h @ v @ drop ?V old)"
    "\<And>rest. read_all (read_video_stream flag (?h @ v @ rest)) (length ?vs) (length ?h) =
       Some (Inr (map (delivered_stream flag MediaStreamTypeVideo) ?vs, length ?h + ?V))"
    using g unfolding good_session_def by blast
  have "?A \<le> length (drop ?V old)" using s by simp
  from appendsD [OF audio_streams_appended this] obtain a where a: "length a = ?A"
    "pack_streams audio_stream_description (\<lambda>i. audio_thread_description (junk i)) (map MediaStreamParams_copy ?as)
       (length (?h @ v)) ((?h @ v) @ drop ?V old) = Some (length (?h @ v) + ?A, (?h @ v) @ a @ drop ?A (drop ?V old))"
    "\<And>rest. read_all (read_audio_stream ((?h @ v) @ a @ rest)) (length ?as) (length (?h @ v)) =
       Some (Inr (map (delivered_stream flag MediaStreamTypeAudio) ?as, length (?h @ v) + ?A))"
    using g unfolding good_session_def by blast
  show ?thesis
  proof
    have c: "session_header ?c = session_header info" "si_sessionPrefix ?c = si_sessionPrefix info"
      "si_videoStreams ?c = map MediaStreamParams_copy ?vs" "si_audioStreams ?c = map MediaStreamParams_copy ?as"
      by (simp_all add: session_header_def SessionInfo_copyFrom_def)
    have i: "12 + length (si_sessionPrefix info) + 1 = length ?h" "length ?h + ?V = length (?h @ v)"
      using v(1) by (simp_all add: length_session_header)
    have e: "length (?h @ v) + ?A = session_length info" "(?h @ v) @ a @ drop ?A (drop ?V old) = ?h @ v @ a"
      using v(1) s(1) len i(1) by simp_all
    show "serializeSessionInfo malloc junk info = Some (?h @ v @ a)"
      unfolding serializeSessionInfo_def packParameters_def Let_def SessionInfoDataHeader_size_def small(1) c s(2,3,4)
        Option.bind.simps i(1) v(2) prod.case
      unfolding i(2) append_assoc [of ?h v, symmetric] a(2) Option.bind.simps prod.case e
      using small(2) by simp
    show "length (?h @ v @ a) = session_length info" using e(1) a(1) by simp
    show "read_session flag ((?h @ v @ a) @ rest) = Some (Inr (delivered_session flag info, length (?h @ v @ a)))" for rest
      using session_start_read [OF g, of flag "v @ a @ rest"] v(3) [of "a @ rest"] a(3) [of rest] v(1) a(1)
      by (simp add: delivered_session_def add.assoc)
  qed
qed

section \<open>Descriptions that are cut off\<close>

text \<open>A reader that gets further in a longer description does the same there as long as it stays inside
  the shorter one.\<close>

definition agrees :: "'a option \<Rightarrow> 'a option \<Rightarrow> bool" where
  "agrees a b \<longleftrightarrow> a = None \<or> a = b"

lemma agrees_Some: "agrees a b \<Longrightarrow> a = Some x \<Longrightarrow> b = Some x"
  by (auto simp: agrees_def)

lemma agrees_refl: "agrees a a"
  by (simp add: agrees_def)

lemma agrees_bind:
  assumes "agrees a b" "\<And>x. agrees (f x) (g x)" shows "agrees (Option.bind a f) (Option.bind b g)"
proof (cases a)
  case (Some x)
  with assms(1) have "b = Some x" by (simp add: agrees_def)
  with Some assms(2) [of x] show ?thesis by simp
qed (simp add: agrees_def)

lemma agrees_rbind:
  assumes "agrees a b" "\<And>x. agrees (f x) (g x)" shows "agrees (rbind a f) (rbind b g)"
proof (cases a)
  case (Some r)
  with assms(1) have "b = Some r" by (simp add: agrees_def)
  with Some show ?thesis using assms(2) by (cases r) (simp_all add: agrees_refl)
qed (simp add: agrees_def)

lemma agrees_if: "agrees a b \<Longrightarrow> agrees c d \<Longrightarrow> agrees (if P then a else c) (if P then b else d)"
  by simp

lemma agrees_prod: "(\<And>x y. agrees (f x y) (g x y)) \<Longrightarrow> agrees (case p of (x, y) \<Rightarrow> f x y) (case p of (x, y) \<Rightarrow> g x y)"
  by (cases p) simp

lemma agrees_mem_read: "agrees (mem_read d i n) (mem_read (d @ e) i n)"
  by (auto simp: agrees_def mem_read_def)

lemma agrees_c_string: "agrees (c_string d i) (c_string (d @ e) i)"
  by (auto simp: agrees_def c_string_def takeWhile_append1)

lemma agrees_read_all: "(\<And>i. agrees (f i) (g i)) \<Longrightarrow> agrees (read_all f n i) (read_all g n i)"
  by (induction n arbitrary: i) (auto intro!: agrees_refl agrees_rbind agrees_prod)

lemmas agrees_intros = agrees_bind agrees_rbind agrees_if agrees_prod agrees_mem_read agrees_c_string
  agrees_read_all agrees_refl

lemma agrees_video_thread: "agrees (read_video_thread flag d i) (read_video_thread flag (d @ e) i)"
  unfolding read_video_thread_def by (intro agrees_intros)

lemma agrees_audio_thread: "agrees (read_audio_thread d i) (read_audio_thread (d @ e) i)"
  unfolding read_audio_thread_def by (intro agrees_intros)

lemma agrees_video_stream: "agrees (read_video_stream flag d i) (read_video_stream flag (d @ e) i)"
  unfolding read_video_stream_def by (intro agrees_intros agrees_video_thread)

lemma agrees_audio_stream: "agrees (read_audio_stream d i) (read_audio_stream (d @ e) i)"
  unfolding read_audio_stream_def by (intro agrees_intros agrees_audio_thread)

lemma agrees_session: "agrees (read_session flag d) (read_session flag (d @ e))"
proof (cases "mem_read d 0 SessionInfoDataHeader_size")
  case None then show ?thesis by (simp add: read_session_def agrees_def)
next
  case (Some h)
  then have "\<not> SessionInfoDataHeader_size > length d" "\<not> SessionInfoDataHeader_size > length (d @ e)"
    by (auto simp: mem_read_def split: if_splits)
  then show ?thesis unfolding read_session_def
    by (simp only: simp_thms) (intro agrees_intros agrees_video_stream agrees_audio_stream)
qed

section \<open>The properties\<close>

text \<open>C12: A description of a session that is well formed (names without NUL and of at most 20 characters, threads of
  their stream's kind, less than 2 GB) can be packed, and unpacking it succeeds and gives the same prefix, streams, names,
  segment sizes and threads in the same order, with the producer's frame rate, GOP, start bitrate, resolution and average
  segment numbers. What is not delivered is exactly the freshness, the capture device, the maximum bitrate, the flag to
  drop frames (whatever the new object held) and the name of the stream that a stream is synchronised with, which
  \<open>copyFrom\<close> of the stream's parameters does not copy.\<close>

theorem session_info_roundtrip:
  assumes "good_session info" "\<And>n. length (malloc n) = n"
  shows "\<exists>raw. serializeSessionInfo malloc junk info = Some raw \<and> length raw = session_length info \<and>
    deserializeSessionInfo flag raw old = Some (True, delivered_session flag info)"
proof -
  from session_packed [OF assms] obtain raw where r: "serializeSessionInfo malloc junk info = Some raw"
    "length raw = session_length info"
    "\<And>rest. read_session flag (raw @ rest) = Some (Inr (delivered_session flag info, length raw))"
    by blast
  from r(3) [of "[]"] have "deserializeSessionInfo flag raw old = Some (True, delivered_session flag info)"
    by (simp add: deserializeSessionInfo_def Session_initFromRawData_def copy_delivered_session)
  with r show ?thesis by blast
qed

text \<open>C13: The reader trusts the description that it is given: a well formed description that arrives cut off, at whatever
  place, or with anything behind it, is never refused with an error. Unpacking it reads outside the data or fails the
  assertion that ends it.\<close>

theorem session_info_length_fatal:
  assumes "good_session info" "\<And>n. length (malloc n) = n" "serializeSessionInfo malloc junk info = Some raw"
    and "(\<exists>k < length raw. bs = take k raw) \<or> (\<exists>extra. extra \<noteq> [] \<and> bs = raw @ extra)"
  shows "deserializeSessionInfo flag bs old = None"
proof -
  from session_packed [OF assms(1,2)] assms(3)
  have r: "read_session flag (raw @ rest) = Some (Inr (delivered_session flag info, length raw))" for rest
    by (metis option.inject)
  have "read_session flag bs = None \<or> read_session flag bs = Some (Inr (delivered_session flag info, length raw))"
    using assms(4)
  proof (elim disjE exE conjE)
    fix k assume "bs = take k raw"
    then have "raw = bs @ drop k raw" by simp
    then show ?thesis using agrees_session [of flag bs "drop k raw"] r [of "[]"] by (simp add: agrees_def)
  qed (simp add: r)
  moreover have "length bs \<noteq> length raw" using assms(4) by auto
  ultimately show ?thesis by (auto simp: deserializeSessionInfo_def Session_initFromRawData_def)
qed

section \<open>An example\<close>

definition sample_session :: session_info where
  "sample_session = \<lparr>si_sessionPrefix = ''/a'',
     si_audioStreams = [(new_MediaStreamParams MediaStreamTypeAudio)\<lparr>msp_segmentSize := 1000, msp_streamName := ''mic'',
       msp_mediaThreads := [AudioThreadParams ''pcmu'']\<rparr>],
     si_videoStreams = [(new_MediaStreamParams MediaStreamTypeVideo)\<lparr>msp_segmentSize := 1000, msp_freshnessMs := 5000,
       msp_streamName := ''cam'', msp_synchronizedStreamName := ''mic'', msp_captureDevice := Some 1,
       msp_mediaThreads := [VideoThreadParams ''low''
         \<lparr>vc_codecFrameRate = 7, vc_gop = 30, vc_startBitrate = 500, vc_maxBitrate = 900, vc_encodeWidth = 640,
          vc_encodeHeight = 480, vc_dropFramesOn = True\<rparr>
         \<lparr>sg_deltaAvgSegNum = 1, sg_deltaAvgParitySegNum = 2, sg_keyAvgSegNum = 3, sg_keyAvgParitySegNum = 4\<rparr>]\<rparr>]\<rparr>"

definition fresh_memory :: "nat \<Rightarrow> bytes" where
  "fresh_memory n = replicate n NUL"

lemma sample_session_good: "good_session sample_session" "\<And>n. length (fresh_memory n) = n"
  by (simp_all add: good_session_def sample_session_def fresh_memory_def session_length_def description_sizes
    good_stream_def good_name_def new_MediaStreamParams_def)

theorem session_info_roundtrip_witness:
  "\<exists>raw. serializeSessionInfo fresh_memory (\<lambda>_. 0) sample_session = Some raw \<and> length raw = 216 \<and>
    deserializeSessionInfo False raw new_SessionInfo = Some (True, delivered_session False sample_session)"
proof -
  have "session_length sample_session = 216"
    by (simp add: session_length_def description_sizes sample_session_def)
  then show ?thesis
    using session_info_roundtrip [OF sample_session_good, of "\<lambda>_. 0" False new_SessionInfo] by simp
qed

theorem session_info_length_fatal_witness:
  "\<exists>raw. serializeSessionInfo fresh_memory (\<lambda>_. 0) sample_session = Some raw \<and>
    deserializeSessionInfo False (take 100 raw) new_SessionInfo = None \<and>
    deserializeSessionInfo False (raw @ [NUL]) new_SessionInfo = None"
proof -
  from session_packed [OF sample_session_good] obtain raw where
    r: "serializeSessionInfo fresh_memory (\<lambda>_. 0) sample_session = Some raw" and "length raw = session_length sample_session"
    by blast
  then have l: "100 < length raw" by (simp add: session_length_def description_sizes sample_session_def)
  have "deserializeSessionInfo False (take 100 raw) new_SessionInfo = None"
    by (rule session_info_length_fatal [OF sample_session_good r]) (use l in blast)
  moreover have "deserializeSessionInfo False (raw @ [NUL]) new_SessionInfo = None"
    by (rule session_info_length_fatal [OF sample_session_good r]) blast
  ultimately show ?thesis using r by blast
qed

end
