(* ===== verification/Spec2Isabelle.thy ===== *)
theory Spec2Isabelle
  imports Prelude Std_Map Tlv Tlv_Decoder Ndn_Name Name_Uri Name_Wire Rtc_Namespace
    Frame_Data Segmentizer Slot Slot_Assembly Ieee_Double Estimators Rtt_Estimation Playback_Queue
    Frame_Buffer Frame_Buffer_Invariant Media_Names Frame_Buffer_Steps Frame_Buffer_Reset Interest_Queue Pipeliner Pipeliner_Invariant Pipeliner_Steps Pipeliner_Handlers Jitter_Timing Av_Sync Packet_Playout Playout_Invariant Channel Channel_System Channel_Properties
    Media_Thread Video_Thread Audio_Thread Publishing Video_Publishing Audio_Publishing Producer_Properties
    Exclude_Filter Content_Cache Cache_Properties Tlv_Fields Interest_Wire Interest_Roundtrip Session_Info Session_Properties
begin

text \<open>
  NdnRtc, a library for live audio and video over Named Data Networking: the consumer that fetches
  a media stream and the producer that publishes it (\<open>src/ndnrtc/cpp/src\<close>), with the part of the NDN
  client library below them that they compute with (\<open>src/ndn-cpp/src\<close>: names, TLV, selectors of
  interests and the content cache).

  \<^bold>\<open>How the program works.\<close> A producer's \<open>MediaThread\<close> gets an encoded frame or a bundle of audio
  packets, wraps it with a header (\<open>PacketData\<close>), cuts it into segments (\<open>Segmentizer\<close>), wraps every
  segment (\<open>SegmentData\<close>), names it
  \<open>$hub/ndnrtc/user/$user/streams/$stream/$thread/(delta|key)/$packet/(data|parity)/$segment\<close>
  followed by metadata, and hands it to the transport if an interest for it is pending and to the
  content cache otherwise. A \<open>Consumer\<close> owns a chain of parts that run on the events of one stream.
  The \<open>Pipeliner2\<close> decides which frames to ask for, keeps the outstanding ones within its window and
  puts interests for their segments into the \<open>InterestQueue\<close>, whose timer job sends them in the order
  of their deadlines. The \<open>FrameBuffer\<close> reserves a \<open>Slot\<close> for each packet that was asked for, puts
  arriving segments into it and orders the slots for playback. The \<open>Playout\<close> takes one packet after
  the other from the buffer, hands it to the decoder and waits for as long as \<open>JitterTiming\<close> and the
  \<open>AudioVideoSynchronizer\<close> tell it. The estimators measure round-trip time and arrivals; the pipeliner
  sizes the buffer and its window with them and leaves the chasing of old data by them.

  \<^bold>\<open>The theories, in the order of the imports.\<close>

  \<^item> \<open>Prelude\<close>: bytes, memory blocks with checked access, numbers as bytes and digits, two's complement,
    loops of partial steps. \<open>Std_Map\<close>: \<open>std::map\<close> as a list in the order of the keys, with the locales
    \<open>keyed_store\<close> and \<open>ordered_store\<close>.
  \<^item> \<open>Tlv\<close>, \<open>Tlv_Decoder\<close>: \<open>tlv-encoder.c/h\<close>, \<open>tlv-decoder.c/h\<close>, \<open>dynamic-uint8-array.c/h\<close>. The records
    \<open>tlv_encoder\<close> and \<open>tlv_decoder\<close> are the structures; an operation returns an error code (\<open>Inl\<close>) or
    result and new state. The locale \<open>byte_sink\<close> is what writers need of an encoder.
  \<^item> \<open>Ndn_Name\<close>, \<open>Name_Uri\<close>, \<open>Name_Wire\<close>: \<open>name.cpp\<close>, \<open>name.c\<close>, \<open>tlv-name.c\<close>. Components and names are
    instances of \<open>linorder\<close> by the canonical order.
  \<^item> \<open>Tlv_Fields\<close>, \<open>Interest_Wire\<close>, \<open>Interest_Roundtrip\<close>: \<open>tlv-interest.c\<close>, \<open>tlv-key-locator.c\<close>. What a writer
    \<open>emits\<close> is stated once for both passes of nested TLVs; a decoder stands before a list of fields
    (\<open>td_left\<close>).
  \<^item> \<open>Exclude_Filter\<close>: \<open>exclude.cpp\<close> and \<open>Interest::matchesName\<close> of \<open>interest.cpp\<close>. \<open>Content_Cache\<close>:
    \<open>memory-content-cache.cpp\<close>, the cache that the producer's session keeps.
  \<^item> \<open>Rtc_Namespace\<close>, \<open>Media_Names\<close>: \<open>ndnrtc-namespace.cpp\<close>, \<open>name-components.cpp\<close> and the number
    conversions of \<open>ndnrtc-utils.cpp\<close>; and what these functions give for the names of packets and
    segments of a stream whose path holds none of the words that the classification searches.
  \<^item> \<open>Frame_Data\<close>, \<open>Segmentizer\<close>: \<open>frame-data.cpp/h\<close>, \<open>segmentizer.cpp\<close>. \<open>Session_Info\<close>,
    \<open>Session_Properties\<close>: \<open>SessionInfoData\<close> of \<open>frame-data.cpp\<close>, the parameters of \<open>params.h\<close> that it
    carries, and their (de)serialisation in \<open>ndnrtc-library.cpp\<close>.
  \<^item> \<open>Ieee_Double\<close>, \<open>Estimators\<close>, \<open>Rtt_Estimation\<close>: the meters of \<open>ndnrtc-utils.cpp\<close> on doubles with
    their rounding, and \<open>rtt-estimation.cpp\<close>, \<open>buffer-estimator.cpp\<close>, \<open>chase-estimation.cpp\<close>.
  \<^item> \<open>Slot\<close>, \<open>Slot_Assembly\<close>: \<open>FrameBuffer::Slot\<close> and \<open>Segment\<close> of \<open>frame-buffer.cpp\<close>; the record
    \<open>slot\<close> has their fields, prefixed \<open>s_\<close>. \<open>Playback_Queue\<close>: the comparator and \<open>PlaybackQueue\<close>.
    \<open>Frame_Buffer\<close>: \<open>FrameBuffer\<close> itself; slots are addresses into \<open>fb_slots\<close>, as the containers share
    them. \<open>Frame_Buffer_Invariant\<close>, \<open>Frame_Buffer_Steps\<close>, \<open>Frame_Buffer_Reset\<close>: the invariant \<open>fb_inv\<close> and
    its preservation; the locale \<open>buffer_client\<close> is what the buffer's callbacks have to keep.
  \<^item> \<open>Interest_Queue\<close>: \<open>interest-queue.cpp/h\<close>. \<open>Pipeliner\<close>: \<open>pipeliner.cpp/h\<close>; its record extends the
    buffer's. \<open>Pipeliner_Invariant\<close>, \<open>Pipeliner_Steps\<close>, \<open>Pipeliner_Handlers\<close>: the invariant of both and
    its preservation by every handler; the locale \<open>pipeliner_invariant\<close> says what an invariant needs so
    that all requests keep it, and is a \<open>buffer_client\<close> by a sublocale; the locale
    \<open>pipeliner_environment\<close> is what the pipeliner needs of the consumer around it.
  \<^item> \<open>Jitter_Timing\<close>, \<open>Av_Sync\<close>, \<open>Packet_Playout\<close>, \<open>Playout_Invariant\<close>: \<open>jitter-timing.cpp\<close>, \<open>av-sync.cpp\<close>,
    \<open>playout.cpp\<close>, \<open>video-playout.cpp\<close>, \<open>audio-playout.cpp\<close>; the playout's record extends the pipeliner's.
  \<^item> \<open>Channel\<close>, \<open>Channel_System\<close>, \<open>Channel_Properties\<close>: \<open>consumer.cpp\<close>, \<open>video-consumer.cpp\<close>,
    \<open>audio-consumer.cpp\<close>; the consumer as a system whose steps are the calls of the application, the data
    and time-outs of the network and the timers (\<open>channel_step\<close>, \<open>reachable\<close>), and what holds of every
    state it reaches.
  \<^item> \<open>Media_Thread\<close>, \<open>Video_Thread\<close>, \<open>Audio_Thread\<close>: \<open>media-thread.cpp\<close>, \<open>video-thread.cpp\<close>,
    \<open>audio-thread.cpp\<close>. \<open>Publishing\<close>, \<open>Video_Publishing\<close>, \<open>Audio_Publishing\<close>, \<open>Producer_Properties\<close>: what
    they publish, and that the consumer's slot gets the producer's frame out of it.

  \<^bold>\<open>How the code is modelled.\<close> A class is a record, an operation a function from the arguments and the
  old state to the result and the new state; guards, early returns and the order of changes are the
  code's. Machine integers are words, or integers with the conversion written out; a \<open>double\<close> is a
  rational that every operation rounds to 53 bits. \<open>None\<close> stands for whatever keeps the code from
  returning: a failed \<open>assert\<close>, an exception nobody catches, an access outside an allocation or through
  \<open>NULL\<close>, an overflow of a signed integer, and a mutex that is never unlocked. So a property that says
  \<open>= Some ...\<close> also says that none of these happens. Clock readings, random numbers and
  uninitialised memory are arguments. Shared pointers are addresses where aliasing matters (slots), and
  values where it does not (the theories say why). Locks are left out where a handler is one step; the
  playout's mutex is kept, because it can block.

  \<^bold>\<open>What the lemmas show.\<close> Round trips: URIs, wire format, metadata, headers, frames and bundles are
  read back as they were written. Assembly: segments in any order and with repetitions give the packet.
  The composition: what a producer's thread publishes for a frame is what a consumer's slot
  assembles. State: the invariants of buffer, pipeliner and playout hold in every state of every
  started consumer; its reported states refine the abstract state machine; its window accounts for the
  outstanding frames. Estimators and timing: exact values where the arithmetic is exact, bounds
  otherwise. Termination: decoding a name, the loop of requests, the interest queue. The cache: which
  of the matching packets an interest gets. Where the code does something else than it means to, the
  theorem states what it does, and the manifest has a finding.

  \<^bold>\<open>Bounds and fuel.\<close> Names have at most 100 components on the wire (the decoder's array); sizes of
  packets are below \<open>2 ^ 31\<close>, as the code's \<open>int\<close> arithmetic needs, and frame numbers below \<open>2 ^ 31 - 1\<close>.
  \<open>request_loop\<close> has the room in the window as its fuel: each round takes one place, and
  \<open>request_loop_fills_window\<close> shows that more fuel changes nothing. \<open>run_loop\<close>, the loop that skips TLVs
  and the loop that recycles slots are partial functions; that the first ends is proved where it is
  used, that the second need not end is \<open>skip_nested_tlvs_diverges\<close>.

  \<^bold>\<open>Parameters.\<close> Code that is not under \<open>src\<close>: the Reed-Solomon coder of OpenFEC (encoder and decoder
  are functions that may fail), WebRTC (the buffer size of an encoded image, the value of \<open>kKeyFrame\<close>, and
  whether the encoder could be initialised), Boost's CRC, the face, the transport and the key chain
  (whether each call returns or throws, and the size of a signed packet).

  \<^bold>\<open>Not modelled.\<close> Streams, session and library (\<open>media-stream.cpp\<close>, \<open>session.cpp\<close>,
  \<open>ndnrtc-library.cpp\<close>) construct the parts from parameters and forward calls. Rate control (\<open>rate-control.cpp\<close>,
  \<open>realtime-arc.cpp\<close>) is only called inside \<open>#if 0\<close>. Encoders, decoders, capturers and renderers are
  calls of WebRTC; frames and packets enter and leave the model there. The face wrapper, threads and
  logs are locks and output. Of the NDN client library, face, node and transports are asynchronous
  input and output, security is OpenSSL and SQLite, and ChronoSync is not used. Boost copies, gtest,
  generated files, tests and demos are not part of the program.
\<close>

end
